(* ===== verification/Prelude.thy ===== *)
theory Prelude
  imports Main "HOL-Library.List_Lexorder" "HOL-Library.Char_ord" "HOL-Library.AList"
begin

text \<open>
  Shared vocabulary of the development: the result type of fallible code and its bind,
  Python strings as lists of Unicode code points, the string operations the sources use
  (\<open>split\<close>, \<open>join\<close>, \<open>startswith\<close>), UTF-8 encoding and decoding, and generic lemmas on
  lists that the component theories rely on.
\<close>

named_theorems result_simps \<open>how a successful or failed result decomposes\<close>
named_theorems str_simps \<open>evaluation of string operations on literals\<close>

section \<open>Fallible code\<close>

text \<open>
  A Python function that may raise returns \<open>Inl e\<close> for the exception \<open>e\<close> and
  \<open>Inr x\<close> for the returned value \<open>x\<close>. \<open>rbind\<close> is sequencing: the first
  exception wins.
\<close>

definition rbind :: "'e + 'a \<Rightarrow> ('a \<Rightarrow> 'e + 'b) \<Rightarrow> 'e + 'b" where
  "rbind m f = (case m of Inl e \<Rightarrow> Inl e | Inr x \<Rightarrow> f x)"

text \<open>A loop that runs a fallible body for each element, stopping at the first exception.\<close>

fun rmap :: "('a \<Rightarrow> 'e + 'b) \<Rightarrow> 'a list \<Rightarrow> 'e + 'b list" where
  "rmap f [] = Inr []"
| "rmap f (x # xs) = rbind (f x) (\<lambda>y. rbind (rmap f xs) (\<lambda>ys. Inr (y # ys)))"

text \<open>A loop that threads an accumulator.\<close>

fun rfold :: "('a \<Rightarrow> 's \<Rightarrow> 'e + 's) \<Rightarrow> 'a list \<Rightarrow> 's \<Rightarrow> 'e + 's" where
  "rfold f [] s = Inr s"
| "rfold f (x # xs) s = rbind (f x s) (\<lambda>s'. rfold f xs s')"

text \<open>\<open>except E as exc: raise F from exc\<close>: the exception is rewritten, a value passes.\<close>

definition rcatch :: "('e \<Rightarrow> 'e) \<Rightarrow> 'e + 'a \<Rightarrow> 'e + 'a" where
  "rcatch h m = (case m of Inl e \<Rightarrow> Inl (h e) | Inr x \<Rightarrow> Inr x)"

lemma rbind_simps [simp, code]:
  "rbind (Inl e) f = Inl e"
  "rbind (Inr x) f = f x"
  by (simp_all add: rbind_def)

lemma rbind_weak_cong: "m = m' \<Longrightarrow> rbind m f = rbind m' f"
  by simp

lemma rbind_Inr_iff [simp, result_simps]:
  "rbind m f = Inr y \<longleftrightarrow> (\<exists>x. m = Inr x \<and> f x = Inr y)"
  by (cases m) auto

lemma rbind_Inl_iff [result_simps]:
  "rbind m f = Inl e \<longleftrightarrow> m = Inl e \<or> (\<exists>x. m = Inr x \<and> f x = Inl e)"
  by (cases m) auto

lemma rbind_assoc: "rbind (rbind m f) g = rbind m (\<lambda>x. rbind (f x) g)"
  by (cases m) auto

lemma if_raise_Inr [simp, result_simps]:
  "(if b then Inl e else r) = Inr y \<longleftrightarrow> \<not> b \<and> r = Inr y"
  by simp

lemma if_ok_Inr [simp, result_simps]:
  "(if b then r else Inl e) = Inr y \<longleftrightarrow> b \<and> r = Inr y"
  by simp

lemma rcatch_Inr_iff [simp, result_simps]: "rcatch h m = Inr x \<longleftrightarrow> m = Inr x"
  by (cases m) (auto simp: rcatch_def)

lemma rcatch_Inr [simp]: "rcatch h (Inr x) = Inr x"
  by (simp add: rcatch_def)

lemma rcatch_Inl [simp]: "rcatch h (Inl e) = Inl (h e)"
  by (simp add: rcatch_def)

lemma rmap_Inr_iff: "rmap f xs = Inr ys \<longleftrightarrow> list_all2 (\<lambda>x y. f x = Inr y) xs ys"
  by (induction xs arbitrary: ys) (auto simp: list_all2_Cons1)

lemma rmap_error: "rmap f xs = Inl e \<Longrightarrow> \<exists>x \<in> set xs. f x = Inl e"
  by (induction xs) (auto simp: rbind_Inl_iff)

lemma rmap_Inr_length: "rmap f xs = Inr ys \<Longrightarrow> length ys = length xs"
  by (auto simp: rmap_Inr_iff dest: list_all2_lengthD)

lemma rfold_append:
  "rfold f (xs @ ys) s = rbind (rfold f xs s) (rfold f ys)"
  by (induction xs arbitrary: s) (auto simp: rbind_def split: sum.splits)

text \<open>The invariant rule of a fallible loop.\<close>

lemma rfold_invariant:
  assumes "rfold f xs s = Inr t" and "P s"
    and "\<And>x s s'. x \<in> set xs \<Longrightarrow> P s \<Longrightarrow> f x s = Inr s' \<Longrightarrow> P s'"
  shows "P t"
  using assms
proof (induction xs arbitrary: s)
  case Nil
  then show ?case by simp
next
  case (Cons x xs)
  from Cons.prems(1) obtain s1 where s1: "f x s = Inr s1" and t: "rfold f xs s1 = Inr t"
    by auto
  have "P s1" using Cons.prems(2,3) s1 by auto
  with t show ?case using Cons.IH Cons.prems(3) by auto
qed

text \<open>
  Which exceptions a computation can end with: \<open>raises P m\<close> holds when every exception of
  \<open>m\<close> satisfies \<open>P\<close>. The rules follow the structure of the code.
\<close>

definition raises :: "('e \<Rightarrow> bool) \<Rightarrow> 'e + 'a \<Rightarrow> bool" where
  "raises P m \<longleftrightarrow> (\<forall>e. m = Inl e \<longrightarrow> P e)"

named_theorems raises_intros \<open>which exceptions composed code can end with\<close>

lemma raises_Inl [raises_intros]: "P e \<Longrightarrow> raises P (Inl e)"
  by (simp add: raises_def)

lemma raises_Inr [raises_intros]: "raises P (Inr x)"
  by (simp add: raises_def)

lemma raises_rbind [raises_intros]:
  "raises P m \<Longrightarrow> (\<And>x. m = Inr x \<Longrightarrow> raises P (f x)) \<Longrightarrow> raises P (rbind m f)"
  by (auto simp: raises_def rbind_Inl_iff)

lemma raises_if [raises_intros]:
  "(b \<Longrightarrow> raises P m) \<Longrightarrow> (\<not> b \<Longrightarrow> raises P n) \<Longrightarrow> raises P (if b then m else n)"
  by simp

lemma raises_rmap [raises_intros]: "(\<And>x. x \<in> set xs \<Longrightarrow> raises P (f x)) \<Longrightarrow> raises P (rmap f xs)"
  by (auto simp: raises_def dest!: rmap_error)

lemma raises_rfold [raises_intros]:
  "(\<And>x s. x \<in> set xs \<Longrightarrow> raises P (f x s)) \<Longrightarrow> raises P (rfold f xs s)"
  by (induction xs arbitrary: s) (auto intro!: raises_intros)

lemma raises_rcatch: "raises Q m \<Longrightarrow> (\<And>e. Q e \<Longrightarrow> P (h e)) \<Longrightarrow> raises P (rcatch h m)"
  by (cases m) (auto simp: raises_def)

lemma raises_let [raises_intros]: "(\<And>x. x = a \<Longrightarrow> raises P (f x)) \<Longrightarrow> raises P (Let a f)"
  by simp

lemma raises_prod [raises_intros]: "(\<And>a b. raises P (f a b)) \<Longrightarrow> raises P (case x of (a, b) \<Rightarrow> f a b)"
  by (cases x) simp

lemma raises_option [raises_intros]:
  "raises P m \<Longrightarrow> (\<And>a. raises P (f a)) \<Longrightarrow> raises P (case x of None \<Rightarrow> m | Some a \<Rightarrow> f a)"
  by (cases x) simp_all

lemma raises_mono: "raises P m \<Longrightarrow> (\<And>e. P e \<Longrightarrow> Q e) \<Longrightarrow> raises Q m"
  by (auto simp: raises_def)

lemma raisesD: "raises P m \<Longrightarrow> m = Inl e \<Longrightarrow> P e"
  by (simp add: raises_def)

text \<open>The same for the returned values: every value \<open>m\<close> returns satisfies \<open>P\<close>.\<close>

definition yields :: "('a \<Rightarrow> bool) \<Rightarrow> 'e + 'a \<Rightarrow> bool" where
  "yields P m \<longleftrightarrow> (\<forall>x. m = Inr x \<longrightarrow> P x)"

named_theorems yields_intros \<open>which values composed code can return\<close>

lemma yields_Inl [yields_intros]: "yields P (Inl e)"
  by (simp add: yields_def)

lemma yields_Inr [yields_intros]: "P x \<Longrightarrow> yields P (Inr x)"
  by (simp add: yields_def)

lemma yields_rbind [yields_intros]:
  "(\<And>x. m = Inr x \<Longrightarrow> yields P (f x)) \<Longrightarrow> yields P (rbind m f)"
  by (auto simp: yields_def)

lemma yields_if [yields_intros]:
  "(b \<Longrightarrow> yields P m) \<Longrightarrow> (\<not> b \<Longrightarrow> yields P n) \<Longrightarrow> yields P (if b then m else n)"
  by simp

lemma yields_let [yields_intros]: "(\<And>x. x = a \<Longrightarrow> yields P (f x)) \<Longrightarrow> yields P (Let a f)"
  by simp

lemma yields_option [yields_intros]:
  "(x = None \<Longrightarrow> yields P m) \<Longrightarrow> (\<And>a. x = Some a \<Longrightarrow> yields P (f a)) \<Longrightarrow>
   yields P (case x of None \<Rightarrow> m | Some a \<Rightarrow> f a)"
  by (cases x) simp_all

lemma yields_prod [yields_intros]:
  "(\<And>a b. x = (a, b) \<Longrightarrow> yields P (f a b)) \<Longrightarrow> yields P (case x of (a, b) \<Rightarrow> f a b)"
  by (cases x) simp

lemma yieldsD: "yields P m \<Longrightarrow> m = Inr x \<Longrightarrow> P x"
  by (simp add: yields_def)

section \<open>Sorting by a key\<close>

lemma distinct_map_sort_key: "distinct (map f (sort_key g xs)) \<longleftrightarrow> distinct (map f xs)"
  by (simp add: distinct_map)

lemma list_all2_insort_key:
  assumes "list_all2 R xs ys" "R x y" "\<And>a b. R a b \<Longrightarrow> f a = g b"
  shows "list_all2 R (insort_key f x xs) (insort_key g y ys)"
  using assms(1)
proof (induction rule: list_all2_induct)
  case Nil
  then show ?case using assms(2) by simp
next
  case (Cons a xs b ys)
  then show ?case using assms(2,3) by (metis insort_key.simps(2) list_all2_Cons)
qed

lemma list_all2_sort_key:
  assumes "list_all2 R xs ys" "\<And>a b. R a b \<Longrightarrow> f a = g b"
  shows "list_all2 R (sort_key f xs) (sort_key g ys)"
  using assms(1)
proof (induction rule: list_all2_induct)
  case Nil
  then show ?case by simp
next
  case (Cons a xs b ys)
  from Cons.IH Cons.hyps(1) have "list_all2 R (insort_key f a (sort_key f xs)) (insort_key g b (sort_key g ys))"
    by (rule list_all2_insort_key) (rule assms(2))
  then show ?case by simp
qed

section \<open>Python strings\<close>

text \<open>
  A Python \<open>str\<close> is a sequence of Unicode code points (surrogates included), so it is a
  list of naturals here; a Python \<open>bytes\<close> is an Isabelle \<open>string\<close>, whose characters
  are the 256 byte values. \<open>lit\<close> reads an ASCII literal as a \<open>str\<close>.
\<close>

type_synonym pystr = "nat list"
type_synonym bytes = string

definition lit :: "string \<Rightarrow> pystr" where
  "lit s = map of_char s"

lemma lit_eq_iff [simp]: "lit s = lit t \<longleftrightarrow> s = t"
proof -
  have "inj (of_char :: char \<Rightarrow> nat)" by (auto intro: injI)
  then show ?thesis by (simp add: lit_def inj_map_eq_map)
qed

lemma lit_eq_Nil_iff [simp]: "lit s = [] \<longleftrightarrow> s = []" "[] = lit s \<longleftrightarrow> s = []"
  by (auto simp: lit_def)

lemma length_lit [simp]: "length (lit s) = length s"
  by (simp add: lit_def)

lemma lit_append [simp]: "lit (s @ t) = lit s @ lit t"
  by (simp add: lit_def)

lemma set_lit: "set (lit s) = of_char ` set s"
  by (simp add: lit_def)

text \<open>\<open>s.split(c)\<close> for a one-character separator, and \<open>c.join(parts)\<close>.\<close>

fun split_on :: "'a \<Rightarrow> 'a list \<Rightarrow> 'a list list" where
  "split_on c [] = [[]]"
| "split_on c (x # xs) =
     (if x = c then [] # split_on c xs
      else (case split_on c xs of [] \<Rightarrow> [[x]] | y # ys \<Rightarrow> (x # y) # ys))"

fun join_on :: "'a \<Rightarrow> 'a list list \<Rightarrow> 'a list" where
  "join_on c [] = []"
| "join_on c [x] = x"
| "join_on c (x # y # ys) = x @ c # join_on c (y # ys)"

definition starts_with :: "'a list \<Rightarrow> 'a list \<Rightarrow> bool" where
  "starts_with p s \<longleftrightarrow> take (length p) s = p"

text \<open>\<open>s.removeprefix(p)\<close>\<close>

definition remove_prefix :: "'a list \<Rightarrow> 'a list \<Rightarrow> 'a list" where
  "remove_prefix p s = (if starts_with p s then drop (length p) s else s)"

lemma split_on_not_Nil [simp]: "split_on c s \<noteq> []"
  by (induction s) (auto split: list.splits)

lemma split_on_no_sep: "p \<in> set (split_on c s) \<Longrightarrow> c \<notin> set p"
  by (induction s arbitrary: p) (auto split: list.splits if_splits)

lemma join_on_Cons: "ps \<noteq> [] \<Longrightarrow> join_on c (p # ps) = p @ c # join_on c ps"
  by (cases ps) auto

lemma join_split [simp]: "join_on c (split_on c s) = s"
proof (induction s)
  case Nil
  then show ?case by simp
next
  case (Cons x xs)
  obtain y ys where s: "split_on c xs = y # ys" by (cases "split_on c xs") auto
  with Cons show ?case by (cases ys) (auto simp: join_on_Cons)
qed

lemma split_on_append: "c \<notin> set p \<Longrightarrow> split_on c (p @ c # s) = p # split_on c s"
  by (induction p) auto

lemma split_on_plain: "c \<notin> set p \<Longrightarrow> split_on c p = [p]"
  by (induction p) auto

lemma split_join [simp]:
  "ps \<noteq> [] \<Longrightarrow> \<forall>p \<in> set ps. c \<notin> set p \<Longrightarrow> split_on c (join_on c ps) = ps"
  by (induction c ps rule: join_on.induct) (auto simp: split_on_append split_on_plain)

lemma set_join_on: "set (join_on c ps) \<subseteq> insert c (\<Union>p \<in> set ps. set p)"
  by (induction c ps rule: join_on.induct) auto

lemma length_split_on: "length (split_on c s) = Suc (count_list s c)"
  by (induction s) (auto split: list.splits)

lemma starts_with_append [simp]: "starts_with p (p @ s)"
  by (simp add: starts_with_def)

lemma starts_with_iff: "starts_with p s \<longleftrightarrow> (\<exists>t. s = p @ t)"
  unfolding starts_with_def by (metis append_eq_conv_conj)

lemma remove_prefix_append [simp]: "remove_prefix p (p @ s) = s"
  by (simp add: remove_prefix_def)

section \<open>UTF-8\<close>

text \<open>
  \<open>str.encode("utf-8")\<close>: \<open>None\<close> is the \<open>UnicodeEncodeError\<close> that a surrogate code
  point raises.
\<close>

definition utf8_char :: "nat \<Rightarrow> bytes option" where
  "utf8_char n =
     (if n < 0x80 then Some [char_of n]
      else if n < 0x800 then Some [char_of (0xC0 + n div 64), char_of (0x80 + n mod 64)]
      else if n < 0x10000 then
        (if 0xD800 \<le> n \<and> n \<le> 0xDFFF then None
         else Some [char_of (0xE0 + n div 4096), char_of (0x80 + n div 64 mod 64),
                    char_of (0x80 + n mod 64)])
      else if n < 0x110000 then
        Some [char_of (0xF0 + n div 262144), char_of (0x80 + n div 4096 mod 64),
              char_of (0x80 + n div 64 mod 64), char_of (0x80 + n mod 64)]
      else None)"

fun utf8 :: "pystr \<Rightarrow> bytes option" where
  "utf8 [] = Some []"
| "utf8 (n # ns) =
     (case utf8_char n of None \<Rightarrow> None
      | Some b \<Rightarrow> (case utf8 ns of None \<Rightarrow> None | Some bs \<Rightarrow> Some (b @ bs)))"

text \<open>\<open>bytes.decode("utf-8")\<close>, strict: overlong forms and surrogates are rejected.\<close>

definition cont_byte :: "char \<Rightarrow> bool" where
  "cont_byte b \<longleftrightarrow> 0x80 \<le> (of_char b :: nat) \<and> (of_char b :: nat) < 0xC0"

abbreviation low6 :: "char \<Rightarrow> nat" where
  "low6 b \<equiv> (of_char b :: nat) - 0x80"

fun utf8_next :: "bytes \<Rightarrow> (nat \<times> bytes) option" where
  "utf8_next [] = None"
| "utf8_next (a # r) =
     (let n = (of_char a :: nat) in
      if n < 0x80 then Some (n, r)
      else if n < 0xC2 then None
      else if n < 0xE0 then
        (case r of
           b # r' \<Rightarrow> if cont_byte b then Some ((n - 0xC0) * 64 + low6 b, r') else None
         | _ \<Rightarrow> None)
      else if n < 0xF0 then
        (case r of
           b # c # r' \<Rightarrow>
             let m = (n - 0xE0) * 4096 + low6 b * 64 + low6 c in
             if cont_byte b \<and> cont_byte c \<and> 0x800 \<le> m \<and> \<not> (0xD800 \<le> m \<and> m \<le> 0xDFFF)
             then Some (m, r') else None
         | _ \<Rightarrow> None)
      else if n < 0xF5 then
        (case r of
           b # c # d # r' \<Rightarrow>
             let m = (n - 0xF0) * 262144 + low6 b * 4096 + low6 c * 64 + low6 d in
             if cont_byte b \<and> cont_byte c \<and> cont_byte d \<and> 0x10000 \<le> m \<and> m < 0x110000
             then Some (m, r') else None
         | _ \<Rightarrow> None)
      else None)"

lemma utf8_next_length: "utf8_next s = Some (n, r) \<Longrightarrow> length r < length s"
  by (cases s) (auto simp: Let_def split: if_splits list.splits)

function utf8_decode :: "bytes \<Rightarrow> pystr option" where
  "utf8_decode s =
     (if s = [] then Some []
      else (case utf8_next s of None \<Rightarrow> None
            | Some (n, r) \<Rightarrow>
                (case utf8_decode r of None \<Rightarrow> None | Some ns \<Rightarrow> Some (n # ns))))"
  by pat_completeness auto
termination
  by (relation "measure length") (auto dest: utf8_next_length)

declare utf8_decode.simps [simp del]

lemma utf8_next_2:
  assumes "0x80 \<le> n" "n < 0x800"
  shows "utf8_next (char_of (0xC0 + n div 64) # char_of (0x80 + n mod 64) # r) = Some (n, r)"
proof -
  define q where "q = n div 64"
  define p where "p = n mod 64"
  have n: "n = q * 64 + p" and q: "2 \<le> q" "q < 32" and p: "p < 64" 
    using assms by (auto simp: q_def p_def)
  then show ?thesis
    unfolding q_def [symmetric] p_def [symmetric]
    by (simp add: cont_byte_def Let_def)
qed

lemma utf8_next_3:
  assumes "0x800 \<le> n" "n < 0x10000" "\<not> (0xD800 \<le> n \<and> n \<le> 0xDFFF)"
  shows "utf8_next (char_of (0xE0 + n div 4096) # char_of (0x80 + n div 64 mod 64)
           # char_of (0x80 + n mod 64) # r) = Some (n, r)"
proof -
  define a where "a = n div 4096"
  define q where "q = n div 64 mod 64"
  define p where "p = n mod 64"
  have "n div 4096 = n div 64 div 64" by (simp add: div_mult2_eq [symmetric])
  then have n: "n = a * 4096 + q * 64 + p"
    using div_mult_mod_eq [of n 64] div_mult_mod_eq [of "n div 64" 64]
    unfolding q_def p_def a_def by linarith
  have b: "a < 16" "q < 64" "p < 64"
    using assms(1,2) by (auto simp: q_def p_def a_def)
  show ?thesis using assms b
    unfolding q_def [symmetric] p_def [symmetric] a_def [symmetric]
    by (simp add: cont_byte_def Let_def n)
qed

lemma utf8_next_4:
  assumes "0x10000 \<le> n" "n < 0x110000"
  shows "utf8_next (char_of (0xF0 + n div 262144) # char_of (0x80 + n div 4096 mod 64) # char_of (0x80 + n div 64 mod 64)
           # char_of (0x80 + n mod 64) # r) = Some (n, r)"
proof -
  define d where "d = n div 262144"
  define a where "a = n div 4096 mod 64"
  define q where "q = n div 64 mod 64"
  define p where "p = n mod 64"
  have "n div 4096 = n div 64 div 64" "n div 262144 = n div 4096 div 64"
    by (simp_all add: div_mult2_eq [symmetric])
  then have n: "n = d * 262144 + a * 4096 + q * 64 + p"
    using div_mult_mod_eq [of n 64] div_mult_mod_eq [of "n div 64" 64]
      div_mult_mod_eq [of "n div 4096" 64]
    unfolding q_def p_def a_def d_def by linarith
  have b: "d < 5" "a < 64" "q < 64" "p < 64"
    using assms(1,2) by (auto simp: q_def p_def a_def d_def)
  show ?thesis using assms b
    unfolding q_def [symmetric] p_def [symmetric] a_def [symmetric] d_def [symmetric]
    by (simp add: cont_byte_def Let_def n)
qed

lemma utf8_next_utf8_char: "utf8_char n = Some b \<Longrightarrow> utf8_next (b @ r) = Some (n, r)"
  unfolding utf8_char_def
  by (auto simp del: utf8_next.simps simp: utf8_next_2 utf8_next_3 utf8_next_4 split: if_splits) simp

lemma utf8_decode_utf8: "utf8 s = Some b \<Longrightarrow> utf8_decode b = Some s"
proof (induction s arbitrary: b)
  case Nil
  then show ?case by (simp add: utf8_decode.simps)
next
  case (Cons n ns)
  then obtain c d where c: "utf8_char n = Some c" and d: "utf8 ns = Some d" and b: "b = c @ d"
    by (auto split: option.splits)
  from c have "c \<noteq> []" by (auto simp: utf8_char_def split: if_splits)
  with Cons.IH [OF d] show ?case
    by (subst utf8_decode.simps) (simp add: b utf8_next_utf8_char [OF c])
qed

lemma utf8_inj: "utf8 s = Some b \<Longrightarrow> utf8 t = Some b \<Longrightarrow> s = t"
  by (metis utf8_decode_utf8 option.inject)

lemma utf8_append: "utf8 (s @ t) = Option.bind (utf8 s) (\<lambda>a. map_option ((@) a) (utf8 t))"
  by (induction s) (auto split: option.splits simp: bind_eq_None_conv map_option_case)

lemma utf8_ascii: "\<forall>n \<in> set s. n < 0x80 \<Longrightarrow> utf8 s = Some (map char_of s)"
  by (induction s) (auto simp: utf8_char_def)

section \<open>Decimal and hexadecimal text\<close>

text \<open>\<open>str(n)\<close> and \<open>f"{n:0wd}"\<close> for a non-negative integer.\<close>

fun dec :: "nat \<Rightarrow> pystr" where
  "dec n = (if n < 10 then [48 + n] else dec (n div 10) @ [48 + n mod 10])"

declare dec.simps [simp del]

definition dec_pad :: "nat \<Rightarrow> nat \<Rightarrow> pystr" where
  "dec_pad w n = replicate (w - length (dec n)) 48 @ dec n"

definition is_digit :: "nat \<Rightarrow> bool" where
  "is_digit c \<longleftrightarrow> 48 \<le> c \<and> c \<le> 57"

definition is_lower_hex :: "nat \<Rightarrow> bool" where
  "is_lower_hex c \<longleftrightarrow> is_digit c \<or> 97 \<le> c \<and> c \<le> 102"

text \<open>\<open>int(s)\<close> for a string of ASCII digits.\<close>

definition undec :: "pystr \<Rightarrow> nat" where
  "undec s = foldl (\<lambda>a c. a * 10 + (c - 48)) 0 s"

lemma undec_snoc: "undec (s @ [c]) = undec s * 10 + (c - 48)"
  by (simp add: undec_def)

lemma undec_dec [simp]: "undec (dec n) = n"
proof (induction n rule: dec.induct)
  case (1 n)
  show ?case
  proof (cases "n < 10")
    case True
    then show ?thesis by (subst dec.simps) (simp add: undec_def)
  next
    case False
    with 1 show ?thesis by (subst dec.simps) (simp add: undec_snoc)
  qed
qed

lemma dec_digits: "\<forall>c \<in> set (dec n). is_digit c"
proof (induction n rule: dec.induct)
  case (1 n)
  then show ?case by (subst dec.simps) (auto simp: is_digit_def)
qed

lemma dec_not_Nil [simp]: "dec n \<noteq> []"
  by (subst dec.simps) simp

lemma dec_inj [simp]: "dec m = dec n \<longleftrightarrow> m = n"
  by (metis undec_dec)

lemma dec_no_leading_zero: "n \<noteq> 0 \<Longrightarrow> hd (dec n) \<noteq> 48"
proof (induction n rule: dec.induct)
  case (1 n)
  show ?case
  proof (cases "n < 10")
    case True
    with 1 show ?thesis by (subst dec.simps) simp
  next
    case False
    then have "n div 10 \<noteq> 0" by auto
    with 1 False show ?thesis by (subst dec.simps) simp
  qed
qed

lemma dec_0 [simp]: "dec 0 = [48]"
  by (simp add: dec.simps)

lemma undec_replicate_zero: "undec (replicate k 48 @ s) = undec s"
  by (induction k) (auto simp: undec_def)

lemma dec_pad_inj [simp]: "dec_pad w m = dec_pad w n \<longleftrightarrow> m = n"
  by (metis dec_pad_def undec_replicate_zero undec_dec)

lemma dec_pad_digits: "\<forall>c \<in> set (dec_pad w n). is_digit c"
  using dec_digits by (auto simp: dec_pad_def is_digit_def)

end
