(* ===== verification/Pyval.thy ===== *)
theory Pyval
  imports Prelude
begin

text \<open>
  The dynamically typed values the sources pass around (\<open>Any\<close>), Python's \<open>==\<close> on them,
  dictionary operations, and the exception classes of \<^verbatim>\<open>src/src/benchhandoff/errors.py\<close> with
  their process exit codes.
\<close>

section \<open>Values\<close>

text \<open>
  A finite float is sign, mantissa and binary exponent. \<open>POther\<close> stands for objects of any
  other type (the dates and times a TOML document may hold); its tag is the object's identity.
  A dictionary is its item list in insertion order.
\<close>

datatype pyfloat = FNan | FInf bool | FFin bool nat int

datatype pyval =
    PNone
  | PBool bool
  | PInt int
  | PFloat pyfloat
  | PStr pystr
  | PList "pyval list"
  | PDict "(pystr \<times> pyval) list"
  | POther nat

type_synonym pydict = "(pystr \<times> pyval) list"

abbreviation PLit :: "string \<Rightarrow> pyval" where
  "PLit s \<equiv> PStr (lit s)"

text \<open>
  \<open>d.get(k)\<close>, and \<open>d[k]\<close> at the places where the code has already established that \<open>k\<close>
  is a key; \<open>item\<close> is \<open>d[k]\<close> elsewhere.
\<close>

definition fld :: "pydict \<Rightarrow> string \<Rightarrow> pyval" where
  "fld d k = (case map_of d (lit k) of None \<Rightarrow> PNone | Some v \<Rightarrow> v)"

definition has_key :: "pydict \<Rightarrow> string \<Rightarrow> bool" where
  "has_key d k \<longleftrightarrow> map_of d (lit k) \<noteq> None"

definition dkeys :: "pydict \<Rightarrow> pystr list" where
  "dkeys d = map fst d"

definition dset :: "string \<Rightarrow> pyval \<Rightarrow> pydict \<Rightarrow> pydict" where
  "dset k v d = AList.update (lit k) v d"

text \<open>Dictionaries never hold a key twice; nested values are dictionaries in that sense too.\<close>

fun wf_val :: "pyval \<Rightarrow> bool" where
  "wf_val (PList xs) = list_all wf_val xs"
| "wf_val (PDict d) = (distinct (map fst d) \<and> list_all (\<lambda>p. wf_val (snd p)) d)"
| "wf_val v = True"

section \<open>Equality\<close>

text \<open>
  Python's \<open>==\<close>: numbers of different types compare by value (\<open>True == 1 == 1.0\<close>), NaN
  differs from itself, dictionaries compare regardless of insertion order.
\<close>

fun num_of :: "pyval \<Rightarrow> (int \<times> int) option" where
  "num_of (PBool b) = Some (of_bool b, 0)"
| "num_of (PInt i) = Some (i, 0)"
| "num_of (PFloat (FFin s m e)) = Some ((if s then - int m else int m), e)"
| "num_of v = None"

definition num_eq :: "int \<times> int \<Rightarrow> int \<times> int \<Rightarrow> bool" where
  "num_eq p q = (let k = min (snd p) (snd q) in
     fst p * 2 ^ nat (snd p - k) = fst q * 2 ^ nat (snd q - k))"

fun py_eq :: "pyval \<Rightarrow> pyval \<Rightarrow> bool"
and py_eq_list :: "pyval list \<Rightarrow> pyval list \<Rightarrow> bool"
and py_sub :: "pydict \<Rightarrow> pydict \<Rightarrow> bool" where
  "py_eq PNone w = (w = PNone)"
| "py_eq (PBool b) w = (case num_of w of None \<Rightarrow> False | Some q \<Rightarrow> num_eq (of_bool b, 0) q)"
| "py_eq (PInt i) w = (case num_of w of None \<Rightarrow> False | Some q \<Rightarrow> num_eq (i, 0) q)"
| "py_eq (PFloat f) w =
     (case f of FNan \<Rightarrow> False
      | FInf b \<Rightarrow> w = PFloat (FInf b)
      | FFin s m e \<Rightarrow>
          (case num_of w of None \<Rightarrow> False
           | Some q \<Rightarrow> num_eq ((if s then - int m else int m), e) q))"
| "py_eq (PStr s) w = (w = PStr s)"
| "py_eq (PList xs) w = (case w of PList ys \<Rightarrow> py_eq_list xs ys | _ \<Rightarrow> False)"
| "py_eq (PDict d) w =
     (case w of PDict e \<Rightarrow> length d = length e \<and> py_sub d e | _ \<Rightarrow> False)"
| "py_eq (POther n) w = (w = POther n)"
| "py_eq_list [] ys = (ys = [])"
| "py_eq_list (x # xs) ys = (case ys of [] \<Rightarrow> False | y # ys' \<Rightarrow> py_eq x y \<and> py_eq_list xs ys')"
| "py_sub [] e = True"
| "py_sub (p # d) e =
     (case map_of e (fst p) of None \<Rightarrow> False | Some w \<Rightarrow> py_eq (snd p) w \<and> py_sub d e)"

section \<open>Type tests\<close>

text \<open>\<open>_non_bool_int\<close>: \<open>isinstance(v, int) and not isinstance(v, bool)\<close>.\<close>

definition non_bool_int :: "pyval \<Rightarrow> bool" where
  "non_bool_int v \<longleftrightarrow> (case v of PInt _ \<Rightarrow> True | _ \<Rightarrow> False)"

definition is_str :: "pyval \<Rightarrow> bool" where
  "is_str v \<longleftrightarrow> (case v of PStr _ \<Rightarrow> True | _ \<Rightarrow> False)"

definition is_bool :: "pyval \<Rightarrow> bool" where
  "is_bool v \<longleftrightarrow> (case v of PBool _ \<Rightarrow> True | _ \<Rightarrow> False)"

text \<open>The integer a tested value holds; only used under \<open>non_bool_int\<close>.\<close>

definition int_of :: "pyval \<Rightarrow> int" where
  "int_of v = (case v of PInt i \<Rightarrow> i | _ \<Rightarrow> 0)"

definition str_of :: "pyval \<Rightarrow> pystr" where
  "str_of v = (case v of PStr s \<Rightarrow> s | _ \<Rightarrow> [])"

definition list_of :: "pyval \<Rightarrow> pyval list" where
  "list_of v = (case v of PList xs \<Rightarrow> xs | _ \<Rightarrow> [])"

definition dict_of :: "pyval \<Rightarrow> pydict" where
  "dict_of v = (case v of PDict d \<Rightarrow> d | _ \<Rightarrow> [])"

definition is_list :: "pyval \<Rightarrow> bool" where
  "is_list v \<longleftrightarrow> (case v of PList _ \<Rightarrow> True | _ \<Rightarrow> False)"

definition is_dict :: "pyval \<Rightarrow> bool" where
  "is_dict v \<longleftrightarrow> (case v of PDict _ \<Rightarrow> True | _ \<Rightarrow> False)"

section \<open>Exceptions\<close>

text \<open>
  The exception classes the sources raise or catch. Message text is not modelled;
  \<open>WorkspaceVerificationError\<close> carries the observation attribute its handlers read, and
  \<open>LicenseFinalizationError\<close> whether its message reports a complete or an incomplete rollback.
\<close>

datatype pyexc =
    ConfigurationError
  | BoundaryError
  | TaskExecutionError
  | EvidenceError
  | WorkspaceVerificationError "pyval option"
  | ProcessScopeLaunchError
  | OSError
  | FileNotFoundError
  | FileExistsError
  | ProcessLookupError
  | PermissionError
  | TimeoutExpired
  | UnicodeEncodeError
  | UnicodeDecodeError
  | JSONDecodeError
  | ValueError
  | KeyError
  | IndexError
  | TypeError
  | RuntimeError
  | InvalidRequest
  | LicenseStateError
  | LicenseFinalizationError "bool option"
  | ExternalEvidenceError
  | KeyboardInterrupt

text \<open>Subclass tests, as \<open>except\<close> clauses and \<open>isinstance\<close> use them.\<close>

fun is_evidence_error :: "pyexc \<Rightarrow> bool" where
  "is_evidence_error EvidenceError = True"
| "is_evidence_error (WorkspaceVerificationError _) = True"
| "is_evidence_error ProcessScopeLaunchError = True"
| "is_evidence_error _ = False"

fun is_benchhandoff_error :: "pyexc \<Rightarrow> bool" where
  "is_benchhandoff_error ConfigurationError = True"
| "is_benchhandoff_error BoundaryError = True"
| "is_benchhandoff_error TaskExecutionError = True"
| "is_benchhandoff_error e = is_evidence_error e"

fun is_os_error :: "pyexc \<Rightarrow> bool" where
  "is_os_error OSError = True"
| "is_os_error FileNotFoundError = True"
| "is_os_error FileExistsError = True"
| "is_os_error ProcessLookupError = True"
| "is_os_error PermissionError = True"
| "is_os_error _ = False"

fun is_value_error :: "pyexc \<Rightarrow> bool" where
  "is_value_error ValueError = True"
| "is_value_error UnicodeEncodeError = True"
| "is_value_error UnicodeDecodeError = True"
| "is_value_error JSONDecodeError = True"
| "is_value_error LicenseStateError = True"
| "is_value_error (LicenseFinalizationError _) = True"
| "is_value_error ExternalEvidenceError = True"
| "is_value_error _ = False"

text \<open>The class attribute \<open>exit_code\<close> of \<open>BenchHandoffError\<close> and its subclasses.\<close>

fun exit_code :: "pyexc \<Rightarrow> int" where
  "exit_code TaskExecutionError = 20"
| "exit_code e = (if is_evidence_error e then 30 else 10)"

section \<open>Lemmas\<close>

lemma fld_simps [simp]:
  "fld [] k = PNone"
  "fld ((a, v) # d) k = (if a = lit k then v else fld d k)"
  by (auto simp: fld_def)

lemma has_key_simps [simp]:
  "has_key [] k = False"
  "has_key ((a, v) # d) k = (a = lit k \<or> has_key d k)"
  by (auto simp: has_key_def)

lemma has_key_iff: "has_key d k \<longleftrightarrow> lit k \<in> set (dkeys d)"
  by (induction d) (auto simp: dkeys_def)

lemma dkeys_simps: "dkeys [] = []" "dkeys ((k, v) # d) = k # dkeys d"
  by (simp_all add: dkeys_def)

lemma has_keyD: "has_key d k \<Longrightarrow> map_of d (lit k) = Some (fld d k)"
  by (auto simp: has_key_def fld_def)

lemma fld_dset [simp]: "fld (dset k v d) j = (if j = k then v else fld d j)"
  by (auto simp: fld_def dset_def update_conv)

lemma has_key_dset [simp]: "has_key (dset k v d) j \<longleftrightarrow> j = k \<or> has_key d j"
  by (auto simp: has_key_def dset_def update_conv)

lemma set_dkeys_dset [simp]: "set (dkeys (dset k v d)) = insert (lit k) (set (dkeys d))"
  by (simp add: dkeys_def dset_def dom_update)

lemma distinct_dset: "distinct (map fst d) \<Longrightarrow> distinct (map fst (dset k v d))"
  by (simp add: dset_def distinct_update)

lemma type_tests [simp]:
  "non_bool_int (PInt i)" "is_str (PStr s)" "is_bool (PBool b)" "is_list (PList xs)"
  "is_dict (PDict d)" "int_of (PInt i) = i" "str_of (PStr s) = s" "list_of (PList xs) = xs"
  "dict_of (PDict d) = d"
  by (simp_all add: non_bool_int_def is_str_def is_bool_def is_list_def is_dict_def int_of_def
      str_of_def list_of_def dict_of_def)

lemma non_bool_int_iff: "non_bool_int v \<longleftrightarrow> (\<exists>i. v = PInt i)"
  by (cases v) (auto simp: non_bool_int_def)

lemma is_str_iff: "is_str v \<longleftrightarrow> (\<exists>s. v = PStr s)"
  by (cases v) (auto simp: is_str_def)

lemma is_bool_iff: "is_bool v \<longleftrightarrow> (\<exists>b. v = PBool b)"
  by (cases v) (auto simp: is_bool_def)

lemma is_list_iff: "is_list v \<longleftrightarrow> (\<exists>xs. v = PList xs)"
  by (cases v) (auto simp: is_list_def)

lemma is_dict_iff: "is_dict v \<longleftrightarrow> (\<exists>d. v = PDict d)"
  by (cases v) (auto simp: is_dict_def)

lemmas type_iffs = non_bool_int_iff is_str_iff is_bool_iff is_list_iff is_dict_iff

lemma num_eq_int [simp]: "num_eq (i, 0) (j, 0) \<longleftrightarrow> i = j"
  by (simp add: num_eq_def)

lemma py_eq_PStr [simp]: "py_eq v (PStr s) \<longleftrightarrow> v = PStr s"
  by (cases v) (auto split: option.splits pyfloat.splits)

lemma py_eq_PNone [simp]: "py_eq v PNone \<longleftrightarrow> v = PNone"
  by (cases v) (auto split: option.splits pyfloat.splits)

lemma py_eq_PInt [simp]: "py_eq (PInt i) (PInt j) \<longleftrightarrow> i = j"
  by simp

lemma py_eq_list_iff: "py_eq_list xs ys \<longleftrightarrow> list_all2 py_eq xs ys"
  by (induction xs arbitrary: ys) (auto simp: list_all2_Cons1 split: list.splits)

lemma py_eq_list_PStr: "py_eq_list vs (map PStr ss) \<longleftrightarrow> vs = map PStr ss"
  by (induction ss arbitrary: vs) (auto simp: py_eq_list_iff list_all2_Cons2)

lemma py_sub_iff:
  "py_sub d e \<longleftrightarrow> (\<forall>p \<in> set d. \<exists>w. map_of e (fst p) = Some w \<and> py_eq (snd p) w)"
  by (induction d) (auto split: option.splits)

lemma raises_pyval [raises_intros]:
  "raises P n \<Longrightarrow> (\<And>b. raises P (fb b)) \<Longrightarrow> (\<And>i. raises P (fi i)) \<Longrightarrow> (\<And>f. raises P (ff f)) \<Longrightarrow>
   (\<And>s. raises P (fs s)) \<Longrightarrow> (\<And>xs. raises P (fl xs)) \<Longrightarrow> (\<And>d. raises P (fd d)) \<Longrightarrow>
   (\<And>k. raises P (fk k)) \<Longrightarrow>
   raises P (case v of PNone \<Rightarrow> n | PBool b \<Rightarrow> fb b | PInt i \<Rightarrow> fi i | PFloat f \<Rightarrow> ff f
     | PStr s \<Rightarrow> fs s | PList xs \<Rightarrow> fl xs | PDict d \<Rightarrow> fd d | POther k \<Rightarrow> fk k)"
  by (cases v) simp_all

lemma yields_pyval [yields_intros]:
  "(v = PNone \<Longrightarrow> yields P n) \<Longrightarrow> (\<And>b. v = PBool b \<Longrightarrow> yields P (fb b)) \<Longrightarrow>
   (\<And>i. v = PInt i \<Longrightarrow> yields P (fi i)) \<Longrightarrow> (\<And>f. v = PFloat f \<Longrightarrow> yields P (ff f)) \<Longrightarrow>
   (\<And>s. v = PStr s \<Longrightarrow> yields P (fs s)) \<Longrightarrow> (\<And>xs. v = PList xs \<Longrightarrow> yields P (fl xs)) \<Longrightarrow>
   (\<And>d. v = PDict d \<Longrightarrow> yields P (fd d)) \<Longrightarrow> (\<And>k. v = POther k \<Longrightarrow> yields P (fk k)) \<Longrightarrow>
   yields P (case v of PNone \<Rightarrow> n | PBool b \<Rightarrow> fb b | PInt i \<Rightarrow> fi i | PFloat f \<Rightarrow> ff f
     | PStr s \<Rightarrow> fs s | PList xs \<Rightarrow> fl xs | PDict d \<Rightarrow> fd d | POther k \<Rightarrow> fk k)"
  by (cases v) simp_all

lemmas pyval_eval = lit_def fld_def has_key_def dkeys_def

end
