(* ===== verification/Json.thy ===== *)
theory Json
  imports Pyval
begin

text \<open>
  The parts of Python's \<open>json\<close> module that the sources rely on: \<open>json.dumps\<close> with
  \<open>ensure_ascii=False, sort_keys=True, separators=(",", ":"), allow_nan=False\<close> and
  \<open>json.loads\<close> with an \<open>object_pairs_hook\<close> and a \<open>parse_constant\<close> hook. The main result is
  that reading back a dumped value gives the value with sorted keys, so two values with the
  same canonical text are the same value up to key order.
\<close>

section \<open>Library parameters\<close>

text \<open>
  What the model takes from outside: Unicode normalisation and case folding (the tables of
  \<open>unicodedata\<close> and \<open>str.casefold\<close>), SHA-256 as a hexadecimal digest, and the text form of
  floats.
\<close>

record pylib =
  nfc :: "pystr \<Rightarrow> pystr"
  casefold :: "pystr \<Rightarrow> pystr"
  sha256 :: "bytes \<Rightarrow> pystr"
  float_repr :: "pyfloat \<Rightarrow> pystr"
  float_of :: "pystr \<Rightarrow> pyfloat"

section \<open>Writing\<close>

definition hex_digit :: "nat \<Rightarrow> nat" where
  "hex_digit n = (if n < 10 then 48 + n else 87 + n)"

definition esc_char :: "nat \<Rightarrow> pystr" where
  "esc_char c =
     (if c = 34 then [92, 34] else if c = 92 then [92, 92]
      else if c = 10 then [92, 110] else if c = 13 then [92, 114]
      else if c = 9 then [92, 116] else if c = 12 then [92, 102]
      else if c = 8 then [92, 98]
      else if c < 32 then [92, 117, 48, 48, hex_digit (c div 16), hex_digit (c mod 16)]
      else [c])"

definition dump_str :: "pystr \<Rightarrow> pystr" where
  "dump_str s = 34 # concat (map esc_char s) @ [34]"

definition dump_int :: "int \<Rightarrow> pystr" where
  "dump_int i = (if i < 0 then 45 # dec (nat (- i)) else dec (nat i))"

definition dump_member :: "pystr \<times> pystr \<Rightarrow> pystr" where
  "dump_member p = dump_str (fst p) @ 58 # snd p"

fun dumps :: "pylib \<Rightarrow> pyval \<Rightarrow> pyexc + pystr"
and dumps_list :: "pylib \<Rightarrow> pyval list \<Rightarrow> pyexc + pystr list"
and dumps_items :: "pylib \<Rightarrow> pydict \<Rightarrow> pyexc + (pystr \<times> pystr) list" where
  "dumps L PNone = Inr (lit ''null'')"
| "dumps L (PBool b) = Inr (lit (if b then ''true'' else ''false''))"
| "dumps L (PInt i) = Inr (dump_int i)"
| "dumps L (PFloat f) =
     (case f of FFin _ _ _ \<Rightarrow> Inr (float_repr L f) | _ \<Rightarrow> Inl ValueError)"
| "dumps L (PStr s) = Inr (dump_str s)"
| "dumps L (PList xs) = rbind (dumps_list L xs) (\<lambda>ts. Inr (91 # join_on 44 ts @ [93]))"
| "dumps L (PDict d) =
     rbind (dumps_items L d)
       (\<lambda>its. Inr (123 # join_on 44 (map dump_member (sort_key fst its)) @ [125]))"
| "dumps L (POther _) = Inl TypeError"
| "dumps_list L [] = Inr []"
| "dumps_list L (x # xs) =
     rbind (dumps L x) (\<lambda>t. rbind (dumps_list L xs) (\<lambda>ts. Inr (t # ts)))"
| "dumps_items L [] = Inr []"
| "dumps_items L (p # d) =
     rbind (dumps L (snd p)) (\<lambda>t. rbind (dumps_items L d) (\<lambda>ts. Inr ((fst p, t) # ts)))"

section \<open>Reading\<close>

definition is_ws :: "nat \<Rightarrow> bool" where
  "is_ws c \<longleftrightarrow> c = 32 \<or> c = 9 \<or> c = 10 \<or> c = 13"

definition skip_ws :: "pystr \<Rightarrow> pystr" where
  "skip_ws s = dropWhile is_ws s"

definition hex_val :: "nat \<Rightarrow> nat option" where
  "hex_val c =
     (if 48 \<le> c \<and> c \<le> 57 then Some (c - 48)
      else if 97 \<le> c \<and> c \<le> 102 then Some (c - 87)
      else if 65 \<le> c \<and> c \<le> 70 then Some (c - 55) else None)"

fun hex4 :: "pystr \<Rightarrow> (nat \<times> pystr) option" where
  "hex4 (a # b # c # d # r) =
     (case (hex_val a, hex_val b, hex_val c, hex_val d) of
        (Some a', Some b', Some c', Some d') \<Rightarrow> Some (((a' * 16 + b') * 16 + c') * 16 + d', r)
      | _ \<Rightarrow> None)"
| "hex4 _ = None"

text \<open>The second half of a surrogate pair, when the text continues with one.\<close>

fun low_surrogate :: "pystr \<Rightarrow> (nat \<times> pystr) option" where
  "low_surrogate (a # b # r) =
     (if a = 92 \<and> b = 117 then
        (case hex4 r of
           Some (u, r') \<Rightarrow> if 0xDC00 \<le> u \<and> u \<le> 0xDFFF then Some (u, r') else None
         | None \<Rightarrow> None)
      else None)"
| "low_surrogate _ = None"

definition unescape :: "nat \<Rightarrow> nat option" where
  "unescape e =
     (if e = 34 \<or> e = 92 \<or> e = 47 then Some e else if e = 98 then Some 8
      else if e = 102 then Some 12 else if e = 110 then Some 10
      else if e = 114 then Some 13 else if e = 116 then Some 9 else None)"

definition cons_char :: "nat \<Rightarrow> (pystr \<times> pystr) option \<Rightarrow> (pystr \<times> pystr) option" where
  "cons_char c m = map_option (\<lambda>(t, r). (c # t, r)) m"

lemma hex4_length: "hex4 s = Some (u, r) \<Longrightarrow> length r < length s"
  by (cases s rule: hex4.cases) (auto split: option.splits)

lemma low_surrogate_length: "low_surrogate s = Some (u, r) \<Longrightarrow> length r < length s"
  by (cases s rule: low_surrogate.cases) (auto split: option.splits if_splits dest: hex4_length)

text \<open>A string literal after its opening quote (strict mode: no control characters).\<close>

function p_str :: "pystr \<Rightarrow> (pystr \<times> pystr) option" where
  "p_str [] = None"
| "p_str (c # s) =
     (if c = 34 then Some ([], s)
      else if c = 92 then
        (case s of [] \<Rightarrow> None
         | e # r \<Rightarrow>
             if e = 117 then
               (case hex4 r of None \<Rightarrow> None
                | Some (u, r1) \<Rightarrow>
                    if 0xD800 \<le> u \<and> u \<le> 0xDBFF then
                      (case low_surrogate r1 of
                         None \<Rightarrow> cons_char u (p_str r1)
                       | Some (u2, r2) \<Rightarrow>
                           cons_char (0x10000 + (u - 0xD800) * 1024 + (u2 - 0xDC00)) (p_str r2))
                    else cons_char u (p_str r1))
             else (case unescape e of None \<Rightarrow> None | Some x \<Rightarrow> cons_char x (p_str r)))
      else if c < 32 then None
      else cons_char c (p_str s))"
  by pat_completeness auto
termination
  by (relation "measure length") (auto dest!: hex4_length low_surrogate_length)

text \<open>A number: an integer, or a float when it has a fraction or an exponent.\<close>

definition frac_part :: "pystr \<Rightarrow> pystr" where
  "frac_part s =
     (case s of [] \<Rightarrow> []
      | c # r \<Rightarrow> if c = 46 \<and> takeWhile is_digit r \<noteq> [] then c # takeWhile is_digit r else [])"

definition exp_part :: "pystr \<Rightarrow> pystr" where
  "exp_part s =
     (case s of [] \<Rightarrow> []
      | c # r \<Rightarrow>
          if c = 101 \<or> c = 69 then
            (let sg = (case r of [] \<Rightarrow> [] | x # _ \<Rightarrow> if x = 43 \<or> x = 45 then [x] else []);
                 ds = takeWhile is_digit (drop (length sg) r)
             in if ds = [] then [] else c # sg @ ds)
          else [])"

definition p_unsigned :: "pylib \<Rightarrow> bool \<Rightarrow> pystr \<Rightarrow> (pyval \<times> pystr) option" where
  "p_unsigned L neg s =
     (let ds0 = takeWhile is_digit s;
          ds = (if ds0 \<noteq> [] \<and> hd ds0 = 48 then [48] else ds0);
          r = drop (length ds) s;
          fr = frac_part r;
          r2 = drop (length fr) r;
          ex = exp_part r2;
          r3 = drop (length ex) r2
      in if ds0 = [] then None
         else if fr = [] \<and> ex = [] then
           Some (PInt (if neg then - int (undec ds) else int (undec ds)), r3)
         else Some (PFloat (float_of L ((if neg then [45] else []) @ ds @ fr @ ex)), r3))"

definition p_num :: "pylib \<Rightarrow> pystr \<Rightarrow> (pyval \<times> pystr) option" where
  "p_num L s =
     (case s of [] \<Rightarrow> None
      | c # r \<Rightarrow> if c = 45 then p_unsigned L True r else p_unsigned L False s)"

text \<open>
  Values, arrays after \<open>[\<close> and objects after \<open>{\<close>. The first two arguments are the hooks for
  object pairs and for the constants \<open>NaN\<close> and \<open>Infinity\<close>; the number bounds the nesting and
  is chosen from the length of the text, which is always enough.
\<close>

fun p_val :: "pylib \<Rightarrow> (pydict \<Rightarrow> pyexc + pyval) \<Rightarrow> (pystr \<Rightarrow> pyexc + pyval) \<Rightarrow> nat \<Rightarrow> pystr
    \<Rightarrow> pyexc + pyval \<times> pystr"
and p_arr :: "pylib \<Rightarrow> (pydict \<Rightarrow> pyexc + pyval) \<Rightarrow> (pystr \<Rightarrow> pyexc + pyval) \<Rightarrow> nat \<Rightarrow> pystr
    \<Rightarrow> pyexc + pyval list \<times> pystr"
and p_obj :: "pylib \<Rightarrow> (pydict \<Rightarrow> pyexc + pyval) \<Rightarrow> (pystr \<Rightarrow> pyexc + pyval) \<Rightarrow> nat \<Rightarrow> pystr
    \<Rightarrow> pyexc + pydict \<times> pystr" where
  "p_val L hk cst 0 s = Inl JSONDecodeError"
| "p_val L hk cst (Suc n) s =
     (case s of [] \<Rightarrow> Inl JSONDecodeError
      | c # r \<Rightarrow>
          if c = 34 then
            (case p_str r of None \<Rightarrow> Inl JSONDecodeError | Some (t, r') \<Rightarrow> Inr (PStr t, r'))
          else if c = 123 then
            (case skip_ws r of [] \<Rightarrow> Inl JSONDecodeError
             | c' # r' \<Rightarrow>
                 if c' = 125 then rbind (hk []) (\<lambda>v. Inr (v, r'))
                 else rbind (p_obj L hk cst n (c' # r'))
                        (\<lambda>(ps, r''). rbind (hk ps) (\<lambda>v. Inr (v, r''))))
          else if c = 91 then
            (case skip_ws r of [] \<Rightarrow> Inl JSONDecodeError
             | c' # r' \<Rightarrow>
                 if c' = 93 then Inr (PList [], r')
                 else rbind (p_arr L hk cst n (c' # r')) (\<lambda>(vs, r''). Inr (PList vs, r'')))
          else if starts_with (lit ''null'') s then Inr (PNone, drop 4 s)
          else if starts_with (lit ''true'') s then Inr (PBool True, drop 4 s)
          else if starts_with (lit ''false'') s then Inr (PBool False, drop 5 s)
          else (case p_num L s of
                  Some x \<Rightarrow> Inr x
                | None \<Rightarrow>
                    if starts_with (lit ''NaN'') s then
                      rbind (cst (lit ''NaN'')) (\<lambda>v. Inr (v, drop 3 s))
                    else if starts_with (lit ''Infinity'') s then
                      rbind (cst (lit ''Infinity'')) (\<lambda>v. Inr (v, drop 8 s))
                    else if starts_with (lit ''-Infinity'') s then
                      rbind (cst (lit ''-Infinity'')) (\<lambda>v. Inr (v, drop 9 s))
                    else Inl JSONDecodeError))"
| "p_arr L hk cst 0 s = Inl JSONDecodeError"
| "p_arr L hk cst (Suc n) s =
     rbind (p_val L hk cst n s) (\<lambda>(v, r).
       case skip_ws r of [] \<Rightarrow> Inl JSONDecodeError
       | c # r' \<Rightarrow>
           if c = 93 then Inr ([v], r')
           else if c = 44 then
             rbind (p_arr L hk cst n (skip_ws r')) (\<lambda>(vs, r''). Inr (v # vs, r''))
           else Inl JSONDecodeError)"
| "p_obj L hk cst 0 s = Inl JSONDecodeError"
| "p_obj L hk cst (Suc n) s =
     (case s of [] \<Rightarrow> Inl JSONDecodeError
      | q # s' \<Rightarrow>
          if q \<noteq> 34 then Inl JSONDecodeError
          else (case p_str s' of None \<Rightarrow> Inl JSONDecodeError
                | Some (k, r1) \<Rightarrow>
                    (case skip_ws r1 of [] \<Rightarrow> Inl JSONDecodeError
                     | c # r2 \<Rightarrow>
                         if c \<noteq> 58 then Inl JSONDecodeError
                         else rbind (p_val L hk cst n (skip_ws r2)) (\<lambda>(v, r3).
                           case skip_ws r3 of [] \<Rightarrow> Inl JSONDecodeError
                           | c' # r4 \<Rightarrow>
                               if c' = 125 then Inr ([(k, v)], r4)
                               else if c' = 44 then
                                 rbind (p_obj L hk cst n (skip_ws r4))
                                   (\<lambda>(ps, r5). Inr ((k, v) # ps, r5))
                               else Inl JSONDecodeError))))"

definition loads :: "pylib \<Rightarrow> (pydict \<Rightarrow> pyexc + pyval) \<Rightarrow> (pystr \<Rightarrow> pyexc + pyval) \<Rightarrow> pystr
    \<Rightarrow> pyexc + pyval" where
  "loads L hk cst s =
     (if starts_with [65279] s then Inl JSONDecodeError
      else rbind (p_val L hk cst (2 * length s + 2) (skip_ws s)) (\<lambda>(v, r).
        if skip_ws r = [] then Inr v else Inl JSONDecodeError))"

section \<open>Reading back what was written\<close>

text \<open>
  \<open>canon\<close> sorts the keys of every dictionary: it is the value a reader of canonical text sees.
  The round trip is stated for values without floats; no record of the program holds one.
\<close>

fun canon :: "pyval \<Rightarrow> pyval" where
  "canon (PList xs) = PList (map canon xs)"
| "canon (PDict d) = PDict (sort_key fst (map (\<lambda>p. (fst p, canon (snd p))) d))"
| "canon v = v"

fun float_free :: "pyval \<Rightarrow> bool" where
  "float_free (PFloat _) = False"
| "float_free (PList xs) = list_all float_free xs"
| "float_free (PDict d) = list_all (\<lambda>p. float_free (snd p)) d"
| "float_free v = True"

subsection \<open>Strings\<close>

lemma hex_val_hex_digit: "n < 16 \<Longrightarrow> hex_val (hex_digit n) = Some n"
  by (auto simp: hex_val_def hex_digit_def)

lemma p_str_esc: "p_str (esc_char c @ s) = cons_char c (p_str s)"
proof -
  have "c < 32 \<Longrightarrow> hex4 (48 # 48 # hex_digit (c div 16) # hex_digit (c mod 16) # s) = Some (c, s)"
    by (simp add: hex_val_hex_digit) (simp add: hex_val_def)
  then show ?thesis
    by (auto simp: esc_char_def unescape_def simp del: hex4.simps)
qed

lemma p_str_escs: "p_str (concat (map esc_char s) @ 34 # r) = Some (s, r)"
  by (induction s) (auto simp: p_str_esc cons_char_def simp del: p_str.simps(2), simp)

subsection \<open>Numbers\<close>

text \<open>What may follow a value inside canonical text.\<close>

definition delimited :: "pystr \<Rightarrow> bool" where
  "delimited r \<longleftrightarrow> (case r of [] \<Rightarrow> True | c # _ \<Rightarrow> c = 44 \<or> c = 93 \<or> c = 125 \<or> c = 10)"

lemma p_unsigned_dec:
  assumes "delimited r"
  shows "p_unsigned L neg (dec n @ r) = Some (PInt (if neg then - int n else int n), r)"
proof -
  have tw: "takeWhile is_digit (dec n @ r) = dec n"
    using assms dec_digits [of n]
    by (cases r) (auto simp: delimited_def takeWhile_append2 is_digit_def)
  have e: "frac_part r = []" "exp_part r = []"
    using assms by (auto simp: delimited_def frac_part_def exp_part_def split: list.splits)
  have z: "(if dec n \<noteq> [] \<and> hd (dec n) = 48 then [48] else dec n) = dec n"
    using dec_no_leading_zero [of n] by (cases "n = 0") auto
  show ?thesis
    unfolding p_unsigned_def Let_def tw z by (simp add: e)
qed

lemma p_num_dump_int: "delimited r \<Longrightarrow> p_num L (dump_int i @ r) = Some (PInt i, r)"
  using dec_digits [of "nat i"] p_unsigned_dec [of r L False "nat i"]
  by (cases "dec (nat i)") (auto simp: p_num_def dump_int_def p_unsigned_dec is_digit_def)

lemma dump_int_first:
  "\<exists>c t. dump_int i = c # t \<and> (is_digit c \<or> c = 45)"
  using dec_digits [of "nat i"] by (cases "dec (nat i)") (auto simp: dump_int_def)

subsection \<open>Values\<close>

definition value_first :: "nat \<Rightarrow> bool" where
  "value_first c \<longleftrightarrow> \<not> is_ws c \<and> c \<noteq> 93 \<and> c \<noteq> 125 \<and> c \<noteq> 65279"

lemma dumps_first:
  assumes "dumps L v = Inr t" "float_free v"
  shows "\<exists>c t'. t = c # t' \<and> value_first c"
proof (cases v)
  case (PInt i)
  with assms dump_int_first [of i] show ?thesis by (auto simp: value_first_def is_ws_def is_digit_def)
qed (use assms in \<open>auto simp: value_first_def is_ws_def lit_def dump_str_def split: if_splits\<close>)

lemma skip_ws_first [simp]: "value_first c \<Longrightarrow> skip_ws (c # s) = c # s"
  by (simp add: skip_ws_def value_first_def)

definition parses :: "pylib \<Rightarrow> (pydict \<Rightarrow> pyexc + pyval) \<Rightarrow> pystr \<Rightarrow> pyval \<Rightarrow> bool" where
  "parses L hk t v \<longleftrightarrow> (\<exists>c t'. t = c # t' \<and> value_first c) \<and>
     (\<forall>cst n r. 2 * length t \<le> n \<longrightarrow> delimited r \<longrightarrow> p_val L hk cst n (t @ r) = Inr (v, r))"

lemma parsesD:
  "parses L hk t v \<Longrightarrow> 2 * length t \<le> n \<Longrightarrow> delimited r \<Longrightarrow> p_val L hk cst n (t @ r) = Inr (v, r)"
  by (auto simp: parses_def)

lemma p_arr_join:
  assumes "list_all2 (parses L hk) ts vs" "ts \<noteq> []"
    and "2 * length (join_on 44 ts @ [93]) \<le> n"
  shows "p_arr L hk cst n (join_on 44 ts @ 93 # r) = Inr (vs, r)"
  using assms
proof (induction ts arbitrary: vs n)
  case Nil
  then show ?case by simp
next
  case (Cons t ts)
  then obtain v vs' where vs: "vs = v # vs'" and p: "parses L hk t v"
    and ps: "list_all2 (parses L hk) ts vs'" by (auto simp: list_all2_Cons1)
  obtain m where m: "n = Suc m" using Cons.prems(3) by (cases n) auto
  show ?case
  proof (cases "ts = []")
    case True
    with ps have "vs' = []" by simp
    with True Cons.prems(3) m show ?thesis
      by (simp add: vs parsesD [OF p] delimited_def skip_ws_def is_ws_def)
  next
    case False
    then have j: "join_on 44 (t # ts) = t @ 44 # join_on 44 ts" by (rule join_on_Cons)
    obtain t2 ts2 where ts: "ts = t2 # ts2" using False by (cases ts) auto
    with ps have "\<exists>c t'. t2 = c # t' \<and> value_first c" by (auto simp: parses_def list_all2_Cons1)
    then have sk: "skip_ws (join_on 44 ts @ 93 # r) = join_on 44 ts @ 93 # r"
      by (cases ts2) (auto simp: ts)
    have "p_arr L hk cst m (join_on 44 ts @ 93 # r) = Inr (vs', r)"
      using Cons.IH [OF ps False] Cons.prems(3) m j by simp
    then show ?thesis using Cons.prems(3) m
      by (simp add: vs j parsesD [OF p] delimited_def sk) (simp add: skip_ws_def is_ws_def sk [unfolded skip_ws_def])
  qed
qed


definition parses_member :: "pylib \<Rightarrow> (pydict \<Rightarrow> pyexc + pyval) \<Rightarrow> pystr \<times> pystr \<Rightarrow> pystr \<times> pyval \<Rightarrow> bool" where
  "parses_member L hk it p \<longleftrightarrow> fst it = fst p \<and> parses L hk (snd it) (snd p)"

lemma p_obj_join:
  assumes "list_all2 (parses_member L hk) its ps" "its \<noteq> []"
    and "2 * length (join_on 44 (map dump_member its) @ [125]) \<le> n"
  shows "p_obj L hk cst n (join_on 44 (map dump_member its) @ 125 # r) = Inr (ps, r)"
  using assms
proof (induction its arbitrary: ps n)
  case Nil
  then show ?case by simp
next
  case (Cons it its)
  from Cons.prems(1) obtain p ps' where vs: "ps = p # ps'" and m1: "parses_member L hk it p"
    and ps: "list_all2 (parses_member L hk) its ps'"
    by (auto simp: list_all2_Cons1)
  from m1 have k: "fst it = fst p" and p: "parses L hk (snd it) (snd p)"
    by (auto simp: parses_member_def)
  obtain c t' where c: "snd it = c # t'" "value_first c" using p by (auto simp: parses_def)
  have sk1: "skip_ws (snd it @ s) = snd it @ s" "skip_ws (58 # s) = 58 # s" for s
    using c by (auto simp: skip_ws_def is_ws_def value_first_def)
  have mem: "dump_member it @ s = 34 # concat (map esc_char (fst it)) @ 34 # 58 # snd it @ s" for s
    by (simp add: dump_member_def dump_str_def)
  obtain m where m: "n = Suc m" using Cons.prems(3) by (cases n) auto
  show ?case
  proof (cases "its = []")
    case True
    with ps have "ps' = []" by simp
    moreover have "p_val L hk cst m (snd it @ 125 # r) = Inr (snd p, 125 # r)"
      using Cons.prems(3) m True by (intro parsesD [OF p]) (auto simp: dump_member_def delimited_def)
    ultimately show ?thesis using True k
      by (simp add: vs m mem p_str_escs sk1) (simp add: skip_ws_def is_ws_def)
  next
    case False
    then have j: "join_on 44 (map dump_member (it # its))
        = dump_member it @ 44 # join_on 44 (map dump_member its)" by (simp add: join_on_Cons)
    obtain x xs where its: "map dump_member its = (34 # x) # xs"
      using False by (cases its) (auto simp: dump_member_def dump_str_def)
    then have sk: "skip_ws (join_on 44 (map dump_member its) @ 125 # r)
        = join_on 44 (map dump_member its) @ 125 # r"
      by (cases xs) (auto simp: skip_ws_def is_ws_def)
    have len: "2 * length (dump_member it) + 2 * length (join_on 44 (map dump_member its)) + 4 \<le> n"
      using Cons.prems(3) j by simp
    then have "2 * length (join_on 44 (map dump_member its) @ [125]) \<le> m" using m by simp
    then have "p_obj L hk cst m (join_on 44 (map dump_member its) @ 125 # r) = Inr (ps', r)"
      by (rule Cons.IH [OF ps False])
    moreover have "p_val L hk cst m (snd it @ 44 # s) = Inr (snd p, 44 # s)" for s
      using len m by (intro parsesD [OF p]) (auto simp: dump_member_def delimited_def)
    moreover have "skip_ws (44 # s) = 44 # s" for s by (simp add: skip_ws_def is_ws_def)
    ultimately show ?thesis using k
      unfolding j m by (simp add: vs mem p_str_escs sk1 sk)
  qed
qed

lemma dumps_list_Inr:
  "dumps_list L xs = Inr ts \<longleftrightarrow> list_all2 (\<lambda>x t. dumps L x = Inr t) xs ts"
  by (induction xs arbitrary: ts) (auto simp: list_all2_Cons1)

lemma dumps_items_Inr:
  "dumps_items L d = Inr its \<longleftrightarrow>
     list_all2 (\<lambda>p it. fst it = fst p \<and> dumps L (snd p) = Inr (snd it)) d its"
  by (induction d arbitrary: its) (force simp: list_all2_Cons1)+

lemma p_val_lit:
  "p_val L hk cst (Suc n) (lit ''null'' @ r) = Inr (PNone, r)"
  "p_val L hk cst (Suc n) (lit ''true'' @ r) = Inr (PBool True, r)"
  "p_val L hk cst (Suc n) (lit ''false'' @ r) = Inr (PBool False, r)"
  by (simp_all add: lit_def starts_with_def)

lemma p_val_dump_int:
  assumes "delimited r"
  shows "p_val L hk cst (Suc n) (dump_int i @ r) = Inr (PInt i, r)"
proof -
  obtain c t where c: "dump_int i = c # t" "is_digit c \<or> c = 45"
    using dump_int_first by blast
  then have "c < 58" by (auto simp: is_digit_def)
  moreover have "c \<noteq> 34" using c by (auto simp: is_digit_def)
  ultimately show ?thesis using p_num_dump_int [OF assms, of L i] c(1)
    by (simp add: starts_with_def lit_def)
qed

lemma parses_atom:
  assumes "\<And>cst n r. delimited r \<Longrightarrow> p_val L hk cst (Suc n) (t @ r) = Inr (v, r)"
    and "\<exists>c t'. t = c # t' \<and> value_first c"
  shows "parses L hk t v"
  unfolding parses_def
proof (intro conjI allI impI)
  show "\<exists>c t'. t = c # t' \<and> value_first c" by (rule assms(2))
  fix cst n r assume "2 * length t \<le> n" "delimited r"
  moreover from this assms(2) obtain m where "n = Suc m" by (cases n) auto
  ultimately show "p_val L hk cst n (t @ r) = Inr (v, r)" using assms(1) by simp
qed

lemma parses_list:
  assumes "list_all2 (parses L hk) ts vs"
  shows "parses L hk (91 # join_on 44 ts @ [93]) (PList vs)"
  unfolding parses_def
proof (intro conjI allI impI)
  fix cst n r assume n: "2 * length (91 # join_on 44 ts @ [93]) \<le> n" and "delimited r"
  obtain m where m: "n = Suc m" using n by (cases n) auto
  show "p_val L hk cst n ((91 # join_on 44 ts @ [93]) @ r) = Inr (PList vs, r)"
  proof (cases ts)
    case Nil
    with assms show ?thesis by (simp add: m skip_ws_def is_ws_def)
  next
    case (Cons t ts')
    with assms obtain c t' where c: "t = c # t'" "value_first c"
      by (auto simp: parses_def list_all2_Cons1)
    then obtain s where s: "join_on 44 ts = c # s" by (cases ts') (auto simp: Cons)
    have "p_arr L hk cst m (join_on 44 ts @ 93 # r) = Inr (vs, r)"
      using assms n m Cons by (intro p_arr_join) auto
    then show ?thesis using c(2) by (simp add: m s value_first_def)
  qed
qed (simp add: value_first_def is_ws_def)

lemma parses_dict:
  assumes "list_all2 (parses_member L hk) its ps" "hk ps = Inr (PDict ps)"
  shows "parses L hk (123 # join_on 44 (map dump_member its) @ [125]) (PDict ps)"
  unfolding parses_def
proof (intro conjI allI impI)
  fix cst n r assume n: "2 * length (123 # join_on 44 (map dump_member its) @ [125]) \<le> n"
    and "delimited r"
  obtain m where m: "n = Suc m" using n by (cases n) auto
  show "p_val L hk cst n ((123 # join_on 44 (map dump_member its) @ [125]) @ r) = Inr (PDict ps, r)"
  proof (cases its)
    case Nil
    with assms show ?thesis by (simp add: m skip_ws_def is_ws_def)
  next
    case (Cons t ts')
    then obtain s where s: "join_on 44 (map dump_member its) = 34 # s"
      by (cases ts') (auto simp: Cons dump_member_def dump_str_def)
    have "p_obj L hk cst m (join_on 44 (map dump_member its) @ 125 # r) = Inr (ps, r)"
      using assms n m Cons by (intro p_obj_join) auto
    then show ?thesis using assms(2) by (simp add: m s skip_ws_def is_ws_def)
  qed
qed (simp add: value_first_def is_ws_def)

definition keeps_pairs :: "(pydict \<Rightarrow> pyexc + pyval) \<Rightarrow> bool" where
  "keeps_pairs hk \<longleftrightarrow> (\<forall>ps. distinct (map fst ps) \<longrightarrow> hk ps = Inr (PDict ps))"

theorem parses_dumps:
  assumes hk: "keeps_pairs hk"
  shows "wf_val v \<Longrightarrow> float_free v \<Longrightarrow> dumps L v = Inr t \<Longrightarrow> parses L hk t (canon v)"
proof (induction v arbitrary: t)
  case PNone
  have f: "\<exists>c t'. t = c # t' \<and> value_first c" using dumps_first [OF PNone(3)] by simp
  have t: "t = lit ''null''" using PNone(3) by simp
  show ?case by (rule parses_atom [OF _ f]) (simp add: t p_val_lit del: p_val.simps)
next
  case (PBool b)
  have f: "\<exists>c t'. t = c # t' \<and> value_first c" using dumps_first [OF PBool(3)] by simp
  have t: "t = lit (if b then ''true'' else ''false'')" using PBool(3) by simp
  show ?case
    by (rule parses_atom [OF _ f]) (cases b; simp add: t p_val_lit del: p_val.simps)
next
  case (PInt i)
  have f: "\<exists>c t'. t = c # t' \<and> value_first c" using dumps_first [OF PInt(3)] by simp
  have t: "t = dump_int i" using PInt(3) by simp
  show ?case by (rule parses_atom [OF _ f]) (simp add: t p_val_dump_int del: p_val.simps)
next
  case (PFloat f)
  then show ?case by simp
next
  case (PStr s)
  have f: "\<exists>c t'. t = c # t' \<and> value_first c" using dumps_first [OF PStr(3)] by simp
  have t: "t = dump_str s" using PStr(3) by simp
  show ?case by (rule parses_atom [OF _ f]) (simp add: t dump_str_def p_str_escs)
next
  case (PList xs)
  then obtain ts where ts: "list_all2 (\<lambda>x t. dumps L x = Inr t) xs ts"
    and t: "t = 91 # join_on 44 ts @ [93]" by (auto simp: dumps_list_Inr)
  have "list_all2 (parses L hk) ts (map canon xs)"
    using PList.IH PList.prems(1,2) ts
    by (auto simp: list_all2_conv_all_nth list_all_length)
  then show ?case unfolding t by (simp add: parses_list)
next
  case (PDict d)
  then obtain its where its: "list_all2 (\<lambda>p it. fst it = fst p \<and> dumps L (snd p) = Inr (snd it)) d its"
    and t: "t = 123 # join_on 44 (map dump_member (sort_key fst its)) @ [125]"
    by (auto simp: dumps_items_Inr)
  have "list_all2 (parses_member L hk) its (map (\<lambda>p. (fst p, canon (snd p))) d)"
    unfolding list_all2_conv_all_nth
  proof (intro conjI allI impI)
    show "length its = length (map (\<lambda>p. (fst p, canon (snd p))) d)"
      using its by (simp add: list_all2_lengthD)
    fix i assume i: "i < length its"
    then have i': "i < length d" using its by (simp add: list_all2_lengthD)
    then have "d ! i \<in> set d" "snd (d ! i) \<in> Basic_BNFs.snds (d ! i)" by (auto simp: snds.simps)
    moreover have "wf_val (snd (d ! i))" "float_free (snd (d ! i))"
      using PDict.prems(1,2) i' by (auto simp: list_all_length)
    moreover have k: "fst (its ! i) = fst (d ! i)" "dumps L (snd (d ! i)) = Inr (snd (its ! i))"
      using its i' by (auto dest: list_all2_nthD)
    ultimately have "parses L hk (snd (its ! i)) (canon (snd (d ! i)))" by (intro PDict.IH)
    then show "parses_member L hk (its ! i) (map (\<lambda>p. (fst p, canon (snd p))) d ! i)"
      using k i' by (simp add: parses_member_def)
  qed
  then have "list_all2 (parses_member L hk) (sort_key fst its)
      (sort_key fst (map (\<lambda>p. (fst p, canon (snd p))) d))"
    by (rule list_all2_sort_key) (simp add: parses_member_def)
  moreover have "distinct (map fst (sort_key fst (map (\<lambda>p. (fst p, canon (snd p))) d)))"
    using PDict.prems(1) by (simp add: distinct_map_sort_key o_def)
  ultimately show ?case using hk unfolding t by (simp add: parses_dict keeps_pairs_def)
next
  case (POther x)
  then show ?case by simp
qed

theorem loads_dumps:
  assumes "keeps_pairs hk" "wf_val v" "float_free v" "dumps L v = Inr t" 
  shows "loads L hk cst (t @ [10]) = Inr (canon v)"
proof -
  have p: "parses L hk t (canon v)" using assms by (rule parses_dumps)
  then obtain c t' where c: "t = c # t'" "value_first c" by (auto simp: parses_def)
  have "p_val L hk cst (2 * length (t @ [10]) + 2) (t @ [10]) = Inr (canon v, [10])"
    by (rule parsesD [OF p]) (auto simp: delimited_def)
  then show ?thesis using c by (simp add: loads_def starts_with_def value_first_def skip_ws_def is_ws_def)
qed


section \<open>A concrete library\<close>

text \<open>
  An instance of the parameters for concrete examples: on ASCII text normalisation is the
  identity and case folding is lower case. The digest is a placeholder of the right form.
\<close>

definition sample_lib :: pylib where
  "sample_lib = \<lparr>nfc = (\<lambda>s. s), casefold = map (\<lambda>c. if 65 \<le> c \<and> c \<le> 90 then c + 32 else c),
     sha256 = (\<lambda>b. dec_pad 64 (length b)), float_repr = (\<lambda>_. lit ''0.0''),
     float_of = (\<lambda>_. FFin False 0 0)\<rparr>"

end
