(* ===== verification/Paths.thy ===== *)
theory Paths
  imports Json
begin

text \<open>
  The path boundary of \<^verbatim>\<open>src/src/benchhandoff/storage.py\<close>: which strings are accepted as portable
  relative file paths, the case-insensitive alias key of a path, and the containment test of
  two directory trees.
\<close>

section \<open>Definitions\<close>

definition MAX_WINDOWS_COMPONENT_UTF8_BYTES :: nat where
  "MAX_WINDOWS_COMPONENT_UTF8_BYTES = 240"

definition MAX_PORTABLE_PATH_UTF8_BYTES :: nat where
  "MAX_PORTABLE_PATH_UTF8_BYTES = 1024"

text \<open>The characters \<open><>:"/\|?*\<close> as code points.\<close>

definition WINDOWS_INVALID_CHARACTERS :: "nat list" where
  "WINDOWS_INVALID_CHARACTERS = [60, 62, 58, 34, 47, 92, 124, 63, 42]"

definition WINDOWS_RESERVED_NAMES :: "pystr list" where
  "WINDOWS_RESERVED_NAMES =
     map lit [''con'', ''prn'', ''aux'', ''nul'', ''conin$'', ''conout$'', ''clock$'']
     @ map (\<lambda>n. lit ''com'' @ dec n) [1..<10]
     @ map (\<lambda>n. lit ''lpt'' @ dec n) [1..<10]
     @ map (\<lambda>c. lit ''com'' @ [c]) [0xB9, 0xB2, 0xB3]
     @ map (\<lambda>c. lit ''lpt'' @ [c]) [0xB9, 0xB2, 0xB3]"

definition windows_component_key :: "pylib \<Rightarrow> pystr \<Rightarrow> pyexc + pystr" where
  "windows_component_key L s =
     (if s = [] then Inl BoundaryError
      else if \<exists>c \<in> set s. c \<in> set WINDOWS_INVALID_CHARACTERS \<or> c < 32 then Inl BoundaryError
      else if last s = 32 \<or> last s = 46 then Inl BoundaryError
      else case utf8 s of None \<Rightarrow> Inl BoundaryError
        | Some b \<Rightarrow>
            if length b > MAX_WINDOWS_COMPONENT_UTF8_BYTES then Inl BoundaryError
            else (let normalized = nfc L s;
                      device_stem = casefold L (takeWhile (\<lambda>c. c \<noteq> 46) normalized)
                  in if device_stem \<in> set WINDOWS_RESERVED_NAMES then Inl BoundaryError
                     else Inr (casefold L normalized)))"

text \<open>
  \<open>str(PurePosixPath(s))\<close>: empty and \<open>.\<close> components are dropped, a leading separator is
  kept (exactly two leading separators stay two), the empty path prints as \<open>.\<close>.
\<close>

definition posix_root :: "pystr \<Rightarrow> pystr" where
  "posix_root s =
     (if starts_with [47, 47] s \<and> \<not> starts_with [47, 47, 47] s then [47, 47]
      else if starts_with [47] s then [47] else [])"

definition pure_posix_str :: "pystr \<Rightarrow> pystr" where
  "pure_posix_str s =
     (let comps = filter (\<lambda>p. p \<noteq> [] \<and> p \<noteq> [46]) (split_on 47 s);
          text = posix_root s @ join_on 47 comps
      in if text = [] then [46] else text)"

definition normalize_relative_file :: "pylib \<Rightarrow> pyval \<Rightarrow> pyexc + pystr" where
  "normalize_relative_file L v =
     (case v of
        PStr s \<Rightarrow>
          (if s = [] then Inl BoundaryError
           else if 0 \<in> set s then Inl BoundaryError
           else case utf8 s of None \<Rightarrow> Inl BoundaryError
             | Some b \<Rightarrow>
                 if length b > MAX_PORTABLE_PATH_UTF8_BYTES then Inl BoundaryError
                 else if 92 \<in> set s then Inl BoundaryError
                 else if 58 \<in> set s then Inl BoundaryError
                 else (let raw_parts = split_on 47 s in
                   if \<exists>p \<in> set raw_parts. p = [] \<or> p = [46] \<or> p = [46, 46] then Inl BoundaryError
                   else rbind (rmap (windows_component_key L) raw_parts) (\<lambda>_.
                     if posix_root s \<noteq> [] \<or> pure_posix_str s \<noteq> s then Inl BoundaryError
                     else Inr s)))
      | _ \<Rightarrow> Inl BoundaryError)"

definition windows_path_key :: "pylib \<Rightarrow> pystr \<Rightarrow> pyexc + pystr list" where
  "windows_path_key L s =
     rbind (normalize_relative_file L (PStr s)) (\<lambda>normalized.
       rmap (windows_component_key L) (split_on 47 normalized))"

text \<open>
  \<open>_is_within\<close>: an absolute path is the list of its components, and
  \<open>os.path.commonpath\<close> of two of them is their longest common prefix.
\<close>

type_synonym path = "pystr list"

fun commonpath :: "path \<Rightarrow> path \<Rightarrow> path" where
  "commonpath (x # xs) (y # ys) = (if x = y then x # commonpath xs ys else [])"
| "commonpath _ _ = []"

definition is_within :: "path \<Rightarrow> path \<Rightarrow> bool" where
  "is_within p root \<longleftrightarrow> commonpath p root = root"

definition require_separate_trees :: "path \<Rightarrow> path \<Rightarrow> pyexc + unit" where
  "require_separate_trees a b =
     (if is_within a b \<or> is_within b a then Inl BoundaryError else Inr ())"

section \<open>What an accepted path is\<close>

text \<open>The declarative reading of the boundary: what every component and the whole satisfy.\<close>

definition portable_component :: "pylib \<Rightarrow> pystr \<Rightarrow> bool" where
  "portable_component L p \<longleftrightarrow>
     p \<noteq> [] \<and> (\<forall>c \<in> set p. 32 \<le> c \<and> c \<notin> set WINDOWS_INVALID_CHARACTERS)
     \<and> last p \<noteq> 32 \<and> last p \<noteq> 46
     \<and> (\<exists>b. utf8 p = Some b \<and> length b \<le> MAX_WINDOWS_COMPONENT_UTF8_BYTES)
     \<and> casefold L (takeWhile (\<lambda>c. c \<noteq> 46) (nfc L p)) \<notin> set WINDOWS_RESERVED_NAMES"

definition portable_path :: "pylib \<Rightarrow> pystr \<Rightarrow> bool" where
  "portable_path L s \<longleftrightarrow>
     (\<forall>p \<in> set (split_on 47 s). portable_component L p)
     \<and> (\<exists>b. utf8 s = Some b \<and> length b \<le> MAX_PORTABLE_PATH_UTF8_BYTES)"

lemma windows_component_key_iff:
  "windows_component_key L s = Inr k \<longleftrightarrow> portable_component L s \<and> k = casefold L (nfc L s)"
  by (auto simp: windows_component_key_def portable_component_def Let_def not_less not_le
      split: option.splits)

lemma windows_component_key_error:
  "windows_component_key L s = Inl e \<Longrightarrow> e = BoundaryError"
  by (auto simp: windows_component_key_def Let_def split: option.splits if_splits)

lemma rmap_component_key:
  "(\<exists>ks. rmap (windows_component_key L) ps = Inr ks) \<longleftrightarrow> (\<forall>p \<in> set ps. portable_component L p)"
  by (induction ps) (auto simp: windows_component_key_iff)

lemma portable_path_parts:
  assumes "portable_path L s" and "p \<in> set (split_on 47 s)"
  shows "p \<noteq> []" and "p \<noteq> [46]" and "p \<noteq> [46, 46]" and "47 \<notin> set p"
  using assms by (auto simp: portable_path_def portable_component_def dest: split_on_no_sep)

lemma portable_path_chars:
  assumes "portable_path L s" and "c \<in> set s"
  shows "32 \<le> c" and "c \<noteq> 92" and "c \<noteq> 58"
proof -
  have "c = 47 \<or> (\<exists>p \<in> set (split_on 47 s). c \<in> set p)"
    using assms(2) set_join_on [of 47 "split_on 47 s"] by auto
  then have "c = 47 \<or> 32 \<le> c \<and> c \<notin> set WINDOWS_INVALID_CHARACTERS"
    using assms(1) unfolding portable_path_def by (metis portable_component_def)
  then show "32 \<le> c" and "c \<noteq> 92" and "c \<noteq> 58"
    by (auto simp: WINDOWS_INVALID_CHARACTERS_def)
qed

text \<open>The final \<open>PurePosixPath\<close> comparison of the source never rejects anything by then.\<close>

lemma pure_posix_str_parts:
  assumes "\<forall>p \<in> set (split_on 47 s). p \<noteq> [] \<and> p \<noteq> [46]"
  shows "posix_root s = []" and "pure_posix_str s = s"
proof -
  have "s \<noteq> []" using assms by auto
  moreover have "hd s \<noteq> 47" using assms by (cases s) auto
  ultimately show r: "posix_root s = []"
    by (cases s) (auto simp: posix_root_def starts_with_def)
  have "filter (\<lambda>p. p \<noteq> [] \<and> p \<noteq> [46]) (split_on 47 s) = split_on 47 s"
    using assms by (intro filter_True) auto
  with r \<open>s \<noteq> []\<close> show "pure_posix_str s = s" by (simp add: pure_posix_str_def)
qed

lemma normalize_relative_file_iff:
  "normalize_relative_file L v = Inr s \<longleftrightarrow> v = PStr s \<and> portable_path L s"
proof (cases v)
  case (PStr t)
  show ?thesis
  proof
    assume a: "normalize_relative_file L v = Inr s"
    then show "v = PStr s \<and> portable_path L s"
      using rmap_component_key [of L "split_on 47 t"]
      by (auto simp: PStr normalize_relative_file_def portable_path_def Let_def not_less
          split: option.splits)
  next
    assume a: "v = PStr s \<and> portable_path L s"
    then have p: "portable_path L s" and [simp]: "t = s" using PStr by auto
    note parts = portable_path_parts [OF p] and chars = portable_path_chars [OF p]
    have "\<exists>ks. rmap (windows_component_key L) (split_on 47 s) = Inr ks"
      using p by (simp add: rmap_component_key portable_path_def)
    moreover have "s \<noteq> []" using parts by force
    moreover have "posix_root s = []" "pure_posix_str s = s"
      using parts by (auto intro: pure_posix_str_parts)
    moreover have "0 \<notin> set s" "92 \<notin> set s" "58 \<notin> set s" using chars by force+
    ultimately show "normalize_relative_file L v = Inr s"
      using p parts
      by (auto simp: PStr normalize_relative_file_def portable_path_def Let_def not_less)
  qed
qed (auto simp: normalize_relative_file_def)

lemma normalize_relative_file_error:
  "normalize_relative_file L v = Inl e \<Longrightarrow> e = BoundaryError"
proof (cases v)
  case (PStr s)
  have "rmap (windows_component_key L) ps = Inl e' \<Longrightarrow> e' = BoundaryError" for ps e'
    using rmap_error windows_component_key_error by metis
  then show "normalize_relative_file L v = Inl e \<Longrightarrow> e = BoundaryError"
    unfolding PStr normalize_relative_file_def Let_def
    by (auto simp: rbind_Inl_iff simp del: bex_simps split: option.splits if_splits)
qed (auto simp: normalize_relative_file_def)

lemma windows_path_key_iff:
  "windows_path_key L s = Inr k \<longleftrightarrow>
     portable_path L s \<and> k = map (\<lambda>p. casefold L (nfc L p)) (split_on 47 s)"
proof -
  have "rmap (windows_component_key L) ps = Inr k \<longleftrightarrow>
      (\<forall>p \<in> set ps. portable_component L p) \<and> k = map (\<lambda>p. casefold L (nfc L p)) ps" for ps k
    by (induction ps arbitrary: k) (auto simp: windows_component_key_iff)
  then show ?thesis
    by (auto simp: windows_path_key_def normalize_relative_file_iff portable_path_def)
qed

lemma windows_path_key_error: "windows_path_key L s = Inl e \<Longrightarrow> e = BoundaryError"
  by (auto simp: windows_path_key_def rbind_Inl_iff
      dest!: rmap_error windows_component_key_error normalize_relative_file_error)

section \<open>Containment\<close>

lemma is_within_iff: "is_within p root \<longleftrightarrow> (\<exists>rest. p = root @ rest)"
proof -
  have "commonpath p root = root \<longleftrightarrow> take (length root) p = root"
    by (induction p root rule: commonpath.induct) auto
  then show ?thesis by (metis is_within_def append_eq_conv_conj)
qed

lemma separate_trees_disjoint:
  assumes "require_separate_trees a b = Inr ()"
  shows "a @ x \<noteq> b @ y"
proof
  assume "a @ x = b @ y"
  then have "(\<exists>us. a = b @ us) \<or> (\<exists>us. b = a @ us)"
    by (metis append_eq_append_conv2)
  with assms show False by (auto simp: require_separate_trees_def is_within_iff)
qed

text \<open>What the simplifier needs to compute with the definitions on concrete paths.\<close>

lemmas paths_eval = windows_component_key_def WINDOWS_INVALID_CHARACTERS_def utf8_char_def
  MAX_WINDOWS_COMPONENT_UTF8_BYTES_def Let_def WINDOWS_RESERVED_NAMES_def upt_rec dec.simps
  normalize_relative_file_def MAX_PORTABLE_PATH_UTF8_BYTES_def posix_root_def pure_posix_str_def
  windows_path_key_def starts_with_def sample_lib_def utf8_decode.simps

lemmas decompose_simps = if_raise_Inr rbind_Inr_iff rcatch_Inr_iff if_ok_Inr

section \<open>Properties\<close>

text \<open>
  C35: A relative path is accepted exactly when every \<open>/\<close>-separated component is portable
  (nonempty, no control or reserved character, no trailing space or dot, not a device name,
  at most 240 bytes) and the whole is at most 1024 bytes; every other value, also one that is
  not a string, is a boundary error. In particular the redundant \<open>PurePosixPath\<close> comparison
  rejects nothing more.
\<close>

theorem normalize_relative_file_exact:
  "normalize_relative_file L v =
     (case v of PStr s \<Rightarrow> if portable_path L s then Inr s else Inl BoundaryError
      | _ \<Rightarrow> Inl BoundaryError)"
proof (cases "normalize_relative_file L v")
  case (Inl e)
  then have "\<not> portable_path L s" if "v = PStr s" for s
    using that by (metis normalize_relative_file_iff sum.distinct(1))
  with Inl normalize_relative_file_error [OF Inl] show ?thesis by (auto split: pyval.splits)
next
  case (Inr s)
  then show ?thesis by (auto simp: normalize_relative_file_iff)
qed

text \<open>
  Two trees that pass the separation check have no path in common.
\<close>

theorem separate_trees_share_nothing:
  assumes "require_separate_trees a b = Inr ()"
  shows "a @ x \<noteq> b @ y"
  using assms by (rule separate_trees_disjoint)

theorem separate_trees_share_nothing_witness:
  "require_separate_trees [lit ''r'', lit ''task''] [lit ''r'', lit ''run''] = Inr ()
   \<and> [lit ''r'', lit ''task''] @ [lit ''f''] \<noteq> [lit ''r'', lit ''run''] @ [lit ''f'']"
proof -
  have "require_separate_trees [lit ''r'', lit ''task''] [lit ''r'', lit ''run''] = Inr ()"
    by (simp add: require_separate_trees_def is_within_def)
  with separate_trees_share_nothing [OF this] show ?thesis by blast
qed

end
