(* ===== verification/Records.thy ===== *)
theory Records
  imports Paths
begin

text \<open>
  The evidence-record layer of \<^verbatim>\<open>src/src/benchhandoff/storage.py\<close>: canonical JSON bytes, the
  duplicate-key and complexity limits of reader and writer, and content identities. Shown
  here: the stack-based complexity check decides exactly the depth, node and finiteness
  limits, and whatever the writer publishes the reader accepts and returns.
\<close>

section \<open>Definitions\<close>

definition MAX_JSON_BYTES :: nat where
  "MAX_JSON_BYTES = 16 * 1024 * 1024"

definition MAX_JSON_DEPTH :: nat where
  "MAX_JSON_DEPTH = 64"

definition MAX_JSON_NODES :: nat where
  "MAX_JSON_NODES = 100000"

definition canonical_json_bytes :: "pylib \<Rightarrow> pyval \<Rightarrow> pyexc + bytes" where
  "canonical_json_bytes L v =
     (case dumps L v of Inl _ \<Rightarrow> Inl EvidenceError
      | Inr text \<Rightarrow>
          (case utf8 (text @ [10]) of None \<Rightarrow> Inl UnicodeEncodeError | Some b \<Rightarrow> Inr b))"

fun unique_pairs :: "pydict \<Rightarrow> pydict \<Rightarrow> pyexc + pydict" where
  "unique_pairs [] d = Inr d"
| "unique_pairs ((k, v) # ps) d =
     (if map_of d k \<noteq> None then Inl EvidenceError else unique_pairs ps (AList.update k v d))"

definition unique_json_object :: "pydict \<Rightarrow> pyexc + pyval" where
  "unique_json_object pairs = rbind (unique_pairs pairs []) (\<lambda>d. Inr (PDict d))"

definition reject_nonfinite_json :: "pystr \<Rightarrow> pyexc + pyval" where
  "reject_nonfinite_json s = Inl EvidenceError"

definition nonfinite :: "pyfloat \<Rightarrow> bool" where
  "nonfinite f \<longleftrightarrow> (case f of FFin _ _ _ \<Rightarrow> False | _ \<Rightarrow> True)"

text \<open>The stack is held with its top first, so \<open>stack.extend\<close> prepends the reversed children.\<close>

function complexity_loop :: "(pyval \<times> nat) list \<Rightarrow> nat \<Rightarrow> pyexc + unit" where
  "complexity_loop [] nodes = Inr ()"
| "complexity_loop ((current, depth) # stack) nodes =
     (if depth > MAX_JSON_DEPTH then Inl EvidenceError
      else if nodes + 1 > MAX_JSON_NODES then Inl EvidenceError
      else case current of
        PDict d \<Rightarrow>
          (if nodes + 1 + length d > MAX_JSON_NODES then Inl EvidenceError
           else complexity_loop (rev (map (\<lambda>p. (snd p, depth + 1)) d) @ stack) (nodes + 1 + length d))
      | PList xs \<Rightarrow> complexity_loop (rev (map (\<lambda>x. (x, depth + 1)) xs) @ stack) (nodes + 1)
      | PFloat f \<Rightarrow>
          (if nonfinite f then Inl EvidenceError else complexity_loop stack (nodes + 1))
      | _ \<Rightarrow> complexity_loop stack (nodes + 1))"
  by pat_completeness auto
termination
  by (relation "measure (\<lambda>(stack, nodes). MAX_JSON_NODES - nodes)") auto

definition validate_json_complexity :: "pyval \<Rightarrow> pyexc + unit" where
  "validate_json_complexity v = complexity_loop [(v, 0)] 0"

text \<open>The bytes \<open>atomic_write_json\<close> publishes, and what \<open>read_json_file\<close> makes of raw bytes.\<close>

definition json_output_bytes :: "pylib \<Rightarrow> pyval \<Rightarrow> pyexc + bytes" where
  "json_output_bytes L v =
     rbind (validate_json_complexity v) (\<lambda>_.
       rbind (canonical_json_bytes L v) (\<lambda>payload.
         if length payload > MAX_JSON_BYTES then Inl EvidenceError else Inr payload))"

definition json_input_value :: "pylib \<Rightarrow> bytes \<Rightarrow> pyexc + pyval" where
  "json_input_value L raw =
     (case utf8_decode raw of None \<Rightarrow> Inl EvidenceError
      | Some text \<Rightarrow>
          rbind (rcatch (\<lambda>_. EvidenceError) (loads L unique_json_object reject_nonfinite_json text))
            (\<lambda>v. rbind (validate_json_complexity v) (\<lambda>_. Inr v)))"

definition identity_of :: "pylib \<Rightarrow> bytes \<Rightarrow> pyval" where
  "identity_of L b =
     PDict [(lit ''sha256'', PStr (sha256 L b)), (lit ''size'', PInt (int (length b)))]"

definition identities_match :: "pyval \<Rightarrow> pyval \<Rightarrow> bool" where
  "identities_match l r =
     (case (l, r) of
        (PDict a, PDict b) \<Rightarrow>
          py_eq (fld a ''sha256'') (fld b ''sha256'') \<and> py_eq (fld a ''size'') (fld b ''size'')
      | _ \<Rightarrow> False)"

section \<open>The complexity check\<close>

text \<open>The recursive reading of the limits.\<close>

fun json_depth :: "pyval \<Rightarrow> nat" where
  "json_depth (PList xs) = (if xs = [] then 0 else Suc (Max (set (map json_depth xs))))"
| "json_depth (PDict d) = (if d = [] then 0 else Suc (Max (set (map (\<lambda>p. json_depth (snd p)) d))))"
| "json_depth v = 0"

fun json_nodes :: "pyval \<Rightarrow> nat" where
  "json_nodes (PList xs) = Suc (sum_list (map json_nodes xs))"
| "json_nodes (PDict d) = Suc (length d + sum_list (map (\<lambda>p. json_nodes (snd p)) d))"
| "json_nodes v = 1"

fun json_finite :: "pyval \<Rightarrow> bool" where
  "json_finite (PFloat f) = (\<not> nonfinite f)"
| "json_finite (PList xs) = list_all json_finite xs"
| "json_finite (PDict d) = list_all (\<lambda>p. json_finite (snd p)) d"
| "json_finite v = True"

lemma Suc_Max_le_iff:
  "xs \<noteq> [] \<Longrightarrow> k + Suc (Max (f ` set xs)) \<le> m \<longleftrightarrow> (\<forall>x \<in> set xs. Suc k + f x \<le> (m :: nat))"
proof -
  assume ne: "xs \<noteq> []"
  have "k + Suc (Max (f ` set xs)) \<le> m \<longleftrightarrow> Suc k \<le> m \<and> Max (f ` set xs) \<le> m - Suc k"
    by auto
  also have "\<dots> \<longleftrightarrow> Suc k \<le> m \<and> (\<forall>x \<in> set xs. f x \<le> m - Suc k)"
    using ne by (subst Max_le_iff) auto
  also have "\<dots> \<longleftrightarrow> (\<forall>x \<in> set xs. Suc k + f x \<le> m)"
    using ne by (cases xs) auto
  finally show ?thesis .
qed

lemma json_depth_children:
  "d \<le> m \<Longrightarrow> d + json_depth (PList xs) \<le> m \<longleftrightarrow> (\<forall>x \<in> set xs. Suc d + json_depth x \<le> m)"
  "d \<le> m \<Longrightarrow> d + json_depth (PDict ps) \<le> m \<longleftrightarrow> (\<forall>p \<in> set ps. Suc d + json_depth (snd p) \<le> m)"
  using Suc_Max_le_iff [of xs d json_depth m] Suc_Max_le_iff [of ps d "\<lambda>p. json_depth (snd p)" m]
  by auto

lemma sum_list_map_rev: "sum_list (map f (rev xs)) = (sum_list (map f xs) :: nat)"
  by (simp add: rev_map [symmetric])

text \<open>
  What the loop decides, whatever is already on the stack: every pending value is within the
  depth limit and finite, and all of them together within the node limit.
\<close>

definition stack_ok :: "(pyval \<times> nat) list \<Rightarrow> nat \<Rightarrow> bool" where
  "stack_ok stack nodes \<longleftrightarrow>
     (\<forall>p \<in> set stack. snd p + json_depth (fst p) \<le> MAX_JSON_DEPTH \<and> json_finite (fst p))
     \<and> nodes + sum_list (map (\<lambda>p. json_nodes (fst p)) stack) \<le> MAX_JSON_NODES"

lemma stack_ok_PList:
  "depth \<le> MAX_JSON_DEPTH \<Longrightarrow>
   stack_ok ((PList xs, depth) # stack) nodes \<longleftrightarrow>
   stack_ok (rev (map (\<lambda>x. (x, depth + 1)) xs) @ stack) (nodes + 1)"
  unfolding stack_ok_def using json_depth_children(1) [of depth MAX_JSON_DEPTH xs]
  by (auto simp: ball_Un sum_list_map_rev o_def list_all_iff simp del: json_depth.simps)

lemma stack_ok_PDict:
  "depth \<le> MAX_JSON_DEPTH \<Longrightarrow>
   stack_ok ((PDict d, depth) # stack) nodes \<longleftrightarrow>
   stack_ok (rev (map (\<lambda>p. (snd p, depth + 1)) d) @ stack) (nodes + 1 + length d)"
  unfolding stack_ok_def using json_depth_children(2) [of depth MAX_JSON_DEPTH d]
  by (auto simp: ball_Un sum_list_map_rev o_def list_all_iff simp del: json_depth.simps)

lemma json_nodes_pos: "0 < json_nodes v"
  by (cases v) auto

lemma complexity_loop_iff:
  "nodes \<le> MAX_JSON_NODES \<Longrightarrow> complexity_loop stack nodes = Inr () \<longleftrightarrow> stack_ok stack nodes"
proof (induction stack nodes rule: complexity_loop.induct)
  case (1 nodes)
  then show ?case by (simp add: stack_ok_def)
next
  case (2 current depth stack nodes)
  show ?case
  proof (cases "depth > MAX_JSON_DEPTH \<or> nodes + 1 > MAX_JSON_NODES")
    case True
    then show ?thesis using json_nodes_pos [of current] by (auto simp: stack_ok_def)
  next
    case False
    then have d: "\<not> MAX_JSON_DEPTH < depth" "\<not> MAX_JSON_NODES < nodes + 1" "depth \<le> MAX_JSON_DEPTH" by auto
    show ?thesis
    proof (cases current)
      case (PDict ps)
      show ?thesis
      proof (cases "nodes + 1 + length ps > MAX_JSON_NODES")
        case True
        then have "\<not> stack_ok ((PDict ps, depth) # stack) nodes" by (auto simp: stack_ok_def)
        with True d show ?thesis by (simp add: PDict)
      next
        case False
        with 2(7) [OF d(1,2) PDict False] d show ?thesis
          by (simp add: PDict stack_ok_PDict)
      qed
    next
      case (PList xs)
      with 2(6) [OF d(1,2) PList] d show ?thesis by (simp add: stack_ok_PList)
    qed (use d 2(1-5,8-) in \<open>auto simp: stack_ok_def\<close>)
  qed
qed

lemma validate_json_complexity_iff:
  "validate_json_complexity v = Inr () \<longleftrightarrow>
   json_depth v \<le> MAX_JSON_DEPTH \<and> json_nodes v \<le> MAX_JSON_NODES \<and> json_finite v"
  unfolding validate_json_complexity_def
  by (subst complexity_loop_iff) (auto simp: stack_ok_def)

section \<open>Writer and reader\<close>

lemma update_new_key: "map_of d k = None \<Longrightarrow> AList.update k v d = d @ [(k, v)]"
  by (induction d) auto

lemma unique_pairs_distinct:
  "distinct (map fst (d @ ps)) \<Longrightarrow> unique_pairs ps d = Inr (d @ ps)"
proof (induction ps d rule: unique_pairs.induct)
  case (2 k v ps d)
  then have "map_of d k = None" by (auto simp: map_of_eq_None_iff)
  with 2 show ?case by (simp add: update_new_key)
qed simp

lemma unique_pairs_repeated:
  "\<not> distinct (map fst ps) \<or> (\<exists>p \<in> set ps. map_of d (fst p) \<noteq> None) \<Longrightarrow>
   unique_pairs ps d = Inl EvidenceError"
proof (induction ps d rule: unique_pairs.induct)
  case (2 k v ps d)
  show ?case
  proof (cases "map_of d k")
    case None
    with 2(2) have "\<not> distinct (map fst ps) \<or>
        (\<exists>p \<in> set ps. map_of (AList.update k v d) (fst p) \<noteq> None)"
      by (auto simp: update_conv image_iff)
    with 2(1) None show ?thesis by simp
  qed simp
qed simp

lemma unique_json_object_eq:
  "unique_json_object ps =
     (if distinct (map fst ps) then Inr (PDict ps) else Inl EvidenceError)"
  using unique_pairs_distinct [of "[]" ps] unique_pairs_repeated [of ps "[]"]
  by (simp add: unique_json_object_def)

lemma keeps_pairs_unique: "keeps_pairs unique_json_object"
  by (simp add: keeps_pairs_def unique_json_object_eq)

lemma sort_key_Nil_iff: "sort_key f xs = [] \<longleftrightarrow> xs = []"
  by (metis length_0_conv length_sort)

lemma sum_list_insort_key:
  "sum_list (map f (insort_key g x xs)) = (f x + sum_list (map f xs) :: nat)"
  by (induction xs) auto

lemma sum_list_sort_key: "sum_list (map f (sort_key g xs)) = (sum_list (map f xs) :: nat)"
  by (induction xs) (auto simp: sum_list_insort_key)

lemma canon_depth [simp]: "json_depth (canon v) = json_depth v"
  by (induction v) (auto simp: sort_key_Nil_iff image_image intro!: arg_cong [where f = Max] image_cong)

lemma canon_nodes [simp]: "json_nodes (canon v) = json_nodes v"
proof (induction v)
  case (PList xs)
  then have "map (\<lambda>x. json_nodes (canon x)) xs = map json_nodes xs" by simp
  then show ?case by (simp add: o_def del: map_eq_conv)
next
  case (PDict d)
  then have "map (\<lambda>p. json_nodes (canon (snd p))) d = map (\<lambda>p. json_nodes (snd p)) d"
    by (auto simp: snds.simps)
  then show ?case by (simp add: sum_list_sort_key o_def del: map_eq_conv)
qed simp_all

lemma canon_finite [simp]: "json_finite (canon v) = json_finite v"
  by (induction v) (auto simp: list_all_iff snds.simps)

lemma json_output_bytes_iff:
  "json_output_bytes L v = Inr b \<longleftrightarrow>
   validate_json_complexity v = Inr () \<and> canonical_json_bytes L v = Inr b \<and>
   length b \<le> MAX_JSON_BYTES"
  by (auto simp: json_output_bytes_def)

theorem json_output_input:
  assumes "wf_val v" "float_free v" "json_output_bytes L v = Inr b"
  shows "json_input_value L b = Inr (canon v)"
proof -
  from assms(3) obtain t where t: "dumps L v = Inr t" "utf8 (t @ [10]) = Some b"
    by (auto simp: json_output_bytes_iff canonical_json_bytes_def split: sum.splits option.splits)
  have "loads L unique_json_object reject_nonfinite_json (t @ [10]) = Inr (canon v)"
    using keeps_pairs_unique assms(1,2) t(1) by (rule loads_dumps)
  moreover have "validate_json_complexity (canon v) = Inr ()"
    using assms(3) by (simp add: json_output_bytes_iff validate_json_complexity_iff)
  ultimately show ?thesis
    by (simp add: json_input_value_def utf8_decode_utf8 [OF t(2)])
qed

text \<open>Equal canonical bytes mean equal values, so a digest of the bytes binds the value.\<close>

theorem canonical_json_bytes_inj:
  assumes "wf_val v" "float_free v" "wf_val w" "float_free w"
    and "canonical_json_bytes L v = Inr b" "canonical_json_bytes L w = Inr b"
  shows "canon v = canon w"
proof -
  from assms(5,6) obtain t u where t: "dumps L v = Inr t" "utf8 (t @ [10]) = Some b"
    and u: "dumps L w = Inr u" "utf8 (u @ [10]) = Some b"
    by (auto simp: canonical_json_bytes_def split: sum.splits option.splits)
  have "t = u" using utf8_inj [OF t(2) u(2)] by simp
  then show ?thesis
    using loads_dumps [OF keeps_pairs_unique assms(1,2) t(1), of undefined]
      loads_dumps [OF keeps_pairs_unique assms(3,4) u(1), of undefined] by simp
qed

section \<open>Properties\<close>

text \<open>
  The iterative complexity check accepts a value exactly when its nesting depth is at
  most 64, its values and object keys number at most 100000 and it holds no infinity or NaN;
  otherwise it raises an evidence error. It always terminates.
\<close>

theorem validate_json_complexity_exact:
  "validate_json_complexity v =
     (if json_depth v \<le> MAX_JSON_DEPTH \<and> json_nodes v \<le> MAX_JSON_NODES \<and> json_finite v
      then Inr () else Inl EvidenceError)"
proof -
  have "complexity_loop stack nodes = Inl e \<Longrightarrow> e = EvidenceError" for stack nodes e
    by (induction stack nodes rule: complexity_loop.induct) (auto split: pyval.splits if_splits)
  then have "validate_json_complexity v = Inl e \<Longrightarrow> e = EvidenceError" for e
    by (simp add: validate_json_complexity_def del: complexity_loop.simps)
  with validate_json_complexity_iff [of v] show ?thesis
    by (cases "validate_json_complexity v") auto
qed



text \<open>
  Two values with the same canonical bytes are the same value up to the order of object
  keys, so that a digest of the bytes identifies the value.
\<close>

theorem canonical_bytes_identify:
  assumes "wf_val v" "float_free v" "wf_val w" "float_free w"
    and "canonical_json_bytes L v = Inr b" "canonical_json_bytes L w = Inr b"
  shows "canon v = canon w"
  using assms by (rule canonical_json_bytes_inj)

theorem canonical_bytes_identify_witness:
  "canon (PDict [(lit ''b'', PNone), (lit ''a'', PInt 7)])
     = canon (PDict [(lit ''a'', PInt 7), (lit ''b'', PNone)])"
proof (rule canonical_bytes_identify)
  let ?b = "map char_of [123 :: nat, 34, 97, 34, 58, 55, 44, 34, 98, 34, 58, 110, 117, 108, 108, 125, 10]"
  note eval = canonical_json_bytes_def dump_member_def dump_str_def esc_char_def dump_int_def
    dec.simps lit_def utf8_char_def
  show "canonical_json_bytes sample_lib (PDict [(lit ''b'', PNone), (lit ''a'', PInt 7)]) = Inr ?b"
    "canonical_json_bytes sample_lib (PDict [(lit ''a'', PInt 7), (lit ''b'', PNone)]) = Inr ?b"
    by (simp_all add: eval)
qed simp_all

end
