(* ===== verification/Filesystem.thy ===== *)
theory Filesystem
  imports Records
begin

text \<open>
  The operating system the sources run on, as far as they use it: a tree of directory entries
  over inodes with regular files, directories, symbolic links and other kinds, path resolution
  that follows links, and system calls. Effectful code is a function from the world to an
  outcome and the next world. Between two calls another process may change the file system, a
  call may fail, and the process may be killed; these choices are part of the world, so that a
  statement for all worlds covers every interleaving, fault and crash.
\<close>

section \<open>Outcomes\<close>

text \<open>A killed process runs no handler and no \<open>finally\<close> block.\<close>

datatype 'a outcome = Ret 'a | Exc pyexc | Killed

section \<open>File systems\<close>

type_synonym ino = nat

datatype node = Reg bytes | Dir | Lnk path | Special

text \<open>
  Names are physical: no directory on the way to a name is a link. The target of a link is
  kept as an absolute path. The kernel keeps, for an inode, the process whose advisory lock
  (\<open>flock\<close>) is on it. An inode number is never used twice. Which process made an inode is
  recorded for the proofs only; no operation reads it.
\<close>

record fs =
  fs_names :: "(path \<times> ino) list"
  fs_nodes :: "ino \<Rightarrow> node"
  fs_dev :: "ino \<Rightarrow> nat"
  fs_next :: ino
  fs_locks :: "ino \<Rightarrow> nat option"
  fs_maker :: "ino \<Rightarrow> nat"

definition entry :: "fs \<Rightarrow> path \<Rightarrow> ino option" where
  "entry s p = map_of (fs_names s) p"

definition node_at :: "fs \<Rightarrow> path \<Rightarrow> node option" where
  "node_at s p = map_option (fs_nodes s) (entry s p)"

definition dotdot :: pystr where
  "dotdot = [46, 46]"

text \<open>
  Path resolution: the first path is the physical directory reached, the second what is left.
  A missing final component resolves to the name it would have; \<open>follow\<close> says whether a final
  link is followed. The number bounds the links followed, as the kernel does.
\<close>

fun walk :: "fs \<Rightarrow> nat \<Rightarrow> bool \<Rightarrow> path \<Rightarrow> path \<Rightarrow> pyexc + path" where
  "walk s n follow acc [] = Inr acc"
| "walk s n follow acc (c # rest) =
     (if c = dotdot then walk s n follow (butlast acc) rest
      else case node_at s (acc @ [c]) of
        None \<Rightarrow> (if rest = [] then Inr (acc @ [c]) else Inl FileNotFoundError)
      | Some Dir \<Rightarrow> walk s n follow (acc @ [c]) rest
      | Some (Lnk target) \<Rightarrow>
          (if rest = [] \<and> \<not> follow then Inr (acc @ [c])
           else (case n of 0 \<Rightarrow> Inl OSError | Suc m \<Rightarrow> walk s m follow [] (target @ rest)))
      | Some _ \<Rightarrow> (if rest = [] then Inr (acc @ [c]) else Inl OSError))"

definition MAX_LINKS :: nat where
  "MAX_LINKS = 40"

definition locate :: "fs \<Rightarrow> bool \<Rightarrow> path \<Rightarrow> pyexc + path" where
  "locate s follow p = walk s MAX_LINKS follow [] p"

text \<open>What \<open>stat\<close> reports of an inode.\<close>

record stat_result =
  st_node :: node
  st_ino :: ino
  st_dev :: nat
  st_nlink :: nat

definition node_size :: "node \<Rightarrow> nat" where
  "node_size n = (case n of Reg b \<Rightarrow> length b | _ \<Rightarrow> 0)"

definition stat_ino :: "fs \<Rightarrow> ino \<Rightarrow> stat_result" where
  "stat_ino s i = \<lparr>st_node = fs_nodes s i, st_ino = i, st_dev = fs_dev s i,
     st_nlink = length (filter (\<lambda>q. snd q = i) (fs_names s))\<rparr>"

definition is_reg :: "node \<Rightarrow> bool" where
  "is_reg n \<longleftrightarrow> (case n of Reg _ \<Rightarrow> True | _ \<Rightarrow> False)"

definition is_lnk :: "node \<Rightarrow> bool" where
  "is_lnk n \<longleftrightarrow> (case n of Lnk _ \<Rightarrow> True | _ \<Rightarrow> False)"

section \<open>The world\<close>

datatype fate = Run | Fail pyexc | Kill | Tear nat

text \<open>
  What the kernel tells about processes at a time: whether \<open>/proc\<close> is mounted, the names in it,
  the text of a file below it, the outcome of sending a signal to a process or, with the sign
  turned, a process group, the exit status of the child this process has started (none while it
  runs), the monotonic clock, and how many bytes a write call takes. Signal 0 only probes.
\<close>

record os_view =
  os_proc :: bool
  os_names :: "nat \<Rightarrow> pystr list"
  os_text :: "nat \<Rightarrow> path \<Rightarrow> pyexc + pystr"
  os_kill :: "nat \<Rightarrow> int \<Rightarrow> nat \<Rightarrow> pyexc + unit"
  os_exit :: "nat \<Rightarrow> int option"
  os_clock :: "nat \<Rightarrow> nat"
  os_chunk :: "nat \<Rightarrow> nat"

text \<open>
  \<open>w_pid\<close> is the running process and \<open>w_log\<close> the file systems before and after each call it has
  made, latest first; no operation reads the log.
\<close>

record world =
  w_fs :: fs
  w_tick :: nat
  w_env :: "nat \<Rightarrow> fs \<Rightarrow> fs"
  w_fate :: "nat \<Rightarrow> fate"
  w_uuid :: "nat \<Rightarrow> pystr"
  w_now :: "nat \<Rightarrow> pystr"
  w_pid :: nat
  w_os :: os_view
  w_log :: "(fs \<times> fs) list"

type_synonym 'a io = "world \<Rightarrow> 'a outcome \<times> world"

definition ret :: "'a \<Rightarrow> 'a io" where
  "ret x w = (Ret x, w)"

definition raise :: "pyexc \<Rightarrow> 'a io" where
  "raise e w = (Exc e, w)"

definition iob :: "'a io \<Rightarrow> ('a \<Rightarrow> 'b io) \<Rightarrow> 'b io" where
  "iob m f w =
     (case m w of
        (Ret x, w1) \<Rightarrow> f x w1
      | (Exc e, w1) \<Rightarrow> (Exc e, w1)
      | (Killed, w1) \<Rightarrow> (Killed, w1))"

definition from_result :: "pyexc + 'a \<Rightarrow> 'a io" where
  "from_result r = (case r of Inl e \<Rightarrow> raise e | Inr x \<Rightarrow> ret x)"

text \<open>\<open>try: m except ...\<close>: the handler decides from the exception what happens next.\<close>

definition handle :: "'a io \<Rightarrow> (pyexc \<Rightarrow> 'a io) \<Rightarrow> 'a io" where
  "handle m h w =
     (case m w of
        (Exc e, w1) \<Rightarrow> h e w1
      | r \<Rightarrow> r)"

text \<open>\<open>except\<close> clauses that only replace the exception\<close>

definition reraise :: "(pyexc \<Rightarrow> pyexc) \<Rightarrow> 'a io \<Rightarrow> 'a io" where
  "reraise f m = handle m (\<lambda>e. raise (f e))"

text \<open>\<open>try: m finally: c\<close>: an exception of the clean-up replaces the outcome.\<close>

definition finally_do :: "'a io \<Rightarrow> unit io \<Rightarrow> 'a io" where
  "finally_do m c w =
     (case m w of
        (Killed, w1) \<Rightarrow> (Killed, w1)
      | (out, w1) \<Rightarrow>
          (case c w1 of
             (Ret _, w2) \<Rightarrow> (out, w2)
           | (Exc e, w2) \<Rightarrow> (Exc e, w2)
           | (Killed, w2) \<Rightarrow> (Killed, w2)))"

fun io_map :: "('a \<Rightarrow> 'b io) \<Rightarrow> 'a list \<Rightarrow> 'b list io" where
  "io_map f [] = ret []"
| "io_map f (x # xs) = iob (f x) (\<lambda>y. iob (io_map f xs) (\<lambda>ys. ret (y # ys)))"

fun io_fold :: "('a \<Rightarrow> 's \<Rightarrow> 's io) \<Rightarrow> 'a list \<Rightarrow> 's \<Rightarrow> 's io" where
  "io_fold f [] s = ret s"
| "io_fold f (x # xs) s = iob (f x s) (\<lambda>s'. io_fold f xs s')"

section \<open>System calls\<close>

text \<open>
  One call: other processes act, then the call is killed, fails, or takes effect. The second
  function is the effect of a torn call, of which only a beginning happened.
\<close>

definition sys_torn :: "(fs \<Rightarrow> (pyexc + 'a) \<times> fs) \<Rightarrow> (nat \<Rightarrow> fs \<Rightarrow> fs) \<Rightarrow> 'a io" where
  "sys_torn f g w =
     (let t = w_tick w; s = w_env w t (w_fs w);
          after = (\<lambda>s1. w\<lparr>w_tick := Suc t, w_fs := s1, w_log := (s, s1) # w_log w\<rparr>) in
      case w_fate w t of
        Kill \<Rightarrow> (Killed, after s)
      | Tear n \<Rightarrow> (Killed, after (g n s))
      | Fail e \<Rightarrow> (Exc e, after s)
      | Run \<Rightarrow> (case f s of
                  (Inl e, s1) \<Rightarrow> (Exc e, after s1)
                | (Inr x, s1) \<Rightarrow> (Ret x, after s1)))"

definition sys :: "(fs \<Rightarrow> (pyexc + 'a) \<times> fs) \<Rightarrow> 'a io" where
  "sys f = sys_torn f (\<lambda>_ s. s)"

text \<open>Calls that only look.\<close>

definition look :: "(fs \<Rightarrow> pyexc + 'a) \<Rightarrow> 'a io" where
  "look f = sys (\<lambda>s. (f s, s))"

text \<open>
  Lookups that the library answers without raising an \<open>OSError\<close> (\<open>os.path.lexists\<close>,
  \<open>Path.resolve(strict=False)\<close>, \<open>shutil.which\<close>): they are answered from the file system even where
  a fault is due, that is, an unreadable name is not among the faults here. Other exceptions,
  such as an interrupt, still arrive.
\<close>

definition answered :: "(fs \<Rightarrow> 'a) \<Rightarrow> 'a io" where
  "answered f w = (Ret (f (w_fs w)), w)"

definition peek :: "(fs \<Rightarrow> 'a) \<Rightarrow> 'a io" where
  "peek f = handle (look (\<lambda>s. Inr (f s))) (\<lambda>e. if is_os_error e then answered f else raise e)"

definition fs_lstat :: "path \<Rightarrow> fs \<Rightarrow> pyexc + stat_result" where
  "fs_lstat p s =
     rbind (locate s False p) (\<lambda>q.
       case entry s q of None \<Rightarrow> Inl FileNotFoundError | Some i \<Rightarrow> Inr (stat_ino s i))"

definition fs_stat :: "path \<Rightarrow> fs \<Rightarrow> pyexc + stat_result" where
  "fs_stat p s =
     rbind (locate s True p) (\<lambda>q.
       case entry s q of None \<Rightarrow> Inl FileNotFoundError | Some i \<Rightarrow> Inr (stat_ino s i))"

definition fs_lexists :: "path \<Rightarrow> fs \<Rightarrow> bool" where
  "fs_lexists p s = (case fs_lstat p s of Inl _ \<Rightarrow> False | Inr _ \<Rightarrow> True)"

text \<open>\<open>Path.resolve(strict=True)\<close>: the physical path of an existing file.\<close>

definition fs_resolve :: "path \<Rightarrow> fs \<Rightarrow> pyexc + path" where
  "fs_resolve p s =
     rbind (locate s True p) (\<lambda>q. case entry s q of None \<Rightarrow> Inl FileNotFoundError | Some _ \<Rightarrow> Inr q)"

text \<open>
  \<open>Path.resolve(strict=False)\<close>: links are followed as long as components exist, the rest is
  kept as it is.
\<close>

fun realpath :: "fs \<Rightarrow> nat \<Rightarrow> path \<Rightarrow> path \<Rightarrow> path" where
  "realpath s n acc [] = acc"
| "realpath s n acc (c # rest) =
     (if c = dotdot then realpath s n (butlast acc) rest
      else case node_at s (acc @ [c]) of
        Some (Lnk target) \<Rightarrow>
          (case n of 0 \<Rightarrow> acc @ c # rest | Suc m \<Rightarrow> realpath s m [] (target @ rest))
      | _ \<Rightarrow> realpath s n (acc @ [c]) rest)"

text \<open>Opening without following a final link, and reading through the descriptor (an inode).\<close>

definition fs_open_nofollow :: "path \<Rightarrow> fs \<Rightarrow> pyexc + ino" where
  "fs_open_nofollow p s =
     rbind (locate s False p) (\<lambda>q.
       case entry s q of None \<Rightarrow> Inl FileNotFoundError
       | Some i \<Rightarrow> if is_lnk (fs_nodes s i) then Inl OSError else Inr i)"

definition fs_read :: "ino \<Rightarrow> fs \<Rightarrow> pyexc + bytes" where
  "fs_read i s = (case fs_nodes s i of Reg b \<Rightarrow> Inr b | _ \<Rightarrow> Inl OSError)"

text \<open>Creation of a new name; the parent must be a directory and the name absent.\<close>

definition fs_create :: "node \<Rightarrow> path \<Rightarrow> fs \<Rightarrow> (pyexc + ino) \<times> fs" where
  "fs_create nd p s =
     (case locate s False p of
        Inl e \<Rightarrow> (Inl e, s)
      | Inr q \<Rightarrow>
          (if entry s q \<noteq> None then (Inl FileExistsError, s)
           else let i = fs_next s in
             (Inr i, s\<lparr>fs_names := fs_names s @ [(q, i)], fs_nodes := (fs_nodes s)(i := nd),
                       fs_dev := (fs_dev s)(i := (case entry s (butlast q) of
                                                    None \<Rightarrow> 0 | Some j \<Rightarrow> fs_dev s j)),
                       fs_next := Suc i\<rparr>)))"

definition fs_set :: "ino \<Rightarrow> bytes \<Rightarrow> fs \<Rightarrow> fs" where
  "fs_set i b s = s\<lparr>fs_nodes := (fs_nodes s)(i := Reg b)\<rparr>"

text \<open>\<open>rename\<close> of a file: the name moves with its inode and replaces what was there.\<close>

definition fs_move :: "path \<Rightarrow> path \<Rightarrow> fs \<Rightarrow> fs" where
  "fs_move a b s =
     (case entry s a of
        None \<Rightarrow> s
      | Some i \<Rightarrow> s\<lparr>fs_names := AList.update b i (AList.delete a (fs_names s))\<rparr>)"

definition fs_replace :: "path \<Rightarrow> path \<Rightarrow> fs \<Rightarrow> (pyexc + unit) \<times> fs" where
  "fs_replace p q s =
     (case (locate s False p, locate s False q) of
        (Inr a, Inr b) \<Rightarrow>
          (case node_at s a of
             None \<Rightarrow> (Inl FileNotFoundError, s)
           | Some nd \<Rightarrow>
               if node_at s b = Some Dir \<or> nd = Dir then (Inl OSError, s)
               else if a = b then (Inr (), s)
               else (Inr (), fs_move a b s))
      | (Inl e, _) \<Rightarrow> (Inl e, s)
      | (_, Inl e) \<Rightarrow> (Inl e, s))"

definition fs_rename_noreplace :: "path \<Rightarrow> path \<Rightarrow> fs \<Rightarrow> (pyexc + unit) \<times> fs" where
  "fs_rename_noreplace p q s =
     (case (locate s False p, locate s False q) of
        (Inr a, Inr b) \<Rightarrow>
          (if entry s a = None then (Inl FileNotFoundError, s)
           else if entry s b \<noteq> None then (Inl FileExistsError, s)
           else (Inr (), fs_move a b s))
      | (Inl e, _) \<Rightarrow> (Inl e, s)
      | (_, Inl e) \<Rightarrow> (Inl e, s))"

definition fs_unlink :: "path \<Rightarrow> fs \<Rightarrow> (pyexc + unit) \<times> fs" where
  "fs_unlink p s =
     (case locate s False p of
        Inl e \<Rightarrow> (Inl e, s)
      | Inr q \<Rightarrow>
          (case node_at s q of
             None \<Rightarrow> (Inl FileNotFoundError, s)
           | Some nd \<Rightarrow>
               if nd = Dir then (Inl PermissionError, s)
               else (Inr (), s\<lparr>fs_names := AList.delete q (fs_names s)\<rparr>)))"

text \<open>
  A hard link to a file, writing at an offset through a descriptor, and the advisory lock of a
  process on an inode: taken only where no process has it, dropped only by its holder.
\<close>

definition fs_link :: "path \<Rightarrow> path \<Rightarrow> fs \<Rightarrow> (pyexc + unit) \<times> fs" where
  "fs_link p q s =
     (case (locate s False p, locate s False q) of
        (Inr a, Inr b) \<Rightarrow>
          (case entry s a of
             None \<Rightarrow> (Inl FileNotFoundError, s)
           | Some i \<Rightarrow>
               if entry s b \<noteq> None then (Inl FileExistsError, s)
               else if fs_nodes s i = Dir then (Inl PermissionError, s)
               else (Inr (), s\<lparr>fs_names := fs_names s @ [(b, i)]\<rparr>))
      | (Inl e, _) \<Rightarrow> (Inl e, s)
      | (_, Inl e) \<Rightarrow> (Inl e, s))"

definition fs_write_at :: "ino \<Rightarrow> nat \<Rightarrow> bytes \<Rightarrow> fs \<Rightarrow> fs" where
  "fs_write_at i off chunk s =
     (let b = (case fs_nodes s i of Reg b \<Rightarrow> b | _ \<Rightarrow> []) in
      fs_set i (take off (b @ replicate (off - length b) (CHR 0x00)) @ chunk @ drop (off + length chunk) b) s)"

definition fs_flock :: "nat \<Rightarrow> ino \<Rightarrow> fs \<Rightarrow> (pyexc + bool) \<times> fs" where
  "fs_flock process i s =
     (if fs_locks s i = None then (Inr True, s\<lparr>fs_locks := (fs_locks s)(i := Some process)\<rparr>)
      else (Inr False, s))"

definition fs_unflock :: "nat \<Rightarrow> ino \<Rightarrow> fs \<Rightarrow> fs" where
  "fs_unflock process i s =
     (if fs_locks s i = Some process then s\<lparr>fs_locks := (fs_locks s)(i := None)\<rparr> else s)"

text \<open>Exclusive creation of an empty file by a process.\<close>

definition fs_create_by :: "nat \<Rightarrow> path \<Rightarrow> fs \<Rightarrow> (pyexc + ino) \<times> fs" where
  "fs_create_by process p s =
     (case fs_create (Reg []) p s of
        (Inl e, s1) \<Rightarrow> (Inl e, s1)
      | (Inr i, s1) \<Rightarrow> (Inr i, s1\<lparr>fs_maker := (fs_maker s1)(i := process)\<rparr>))"

text \<open>\<open>os.scandir\<close>: the entries of a directory with their kind, in directory order.\<close>

definition fs_scandir :: "path \<Rightarrow> fs \<Rightarrow> pyexc + (pystr \<times> node) list" where
  "fs_scandir p s =
     rbind (locate s True p) (\<lambda>q.
       if node_at s q = Some Dir
       then Inr (map (\<lambda>e. (last (fst e), fs_nodes s (snd e)))
              (filter (\<lambda>e. fst e \<noteq> [] \<and> butlast (fst e) = q) (fs_names s)))
       else Inl (if node_at s q = None then FileNotFoundError else OSError))"

text \<open>A call that only asks the kernel about processes.\<close>

definition ask :: "(os_view \<Rightarrow> nat \<Rightarrow> pyexc + 'a) \<Rightarrow> 'a io" where
  "ask f = iob (look (\<lambda>_. Inr ())) (\<lambda>_ w. from_result (f (w_os w) (w_tick w)) w)"

text \<open>No other process, no \<open>/proc\<close>, no signal delivered.\<close>

definition bare_os :: os_view where
  "bare_os = \<lparr>os_proc = False, os_names = (\<lambda>_. []), os_text = (\<lambda>_ _. Inl FileNotFoundError),
     os_kill = (\<lambda>_ _ _. Inl ProcessLookupError), os_exit = (\<lambda>_. None), os_clock = (\<lambda>t. t),
     os_chunk = (\<lambda>_. 4096)\<rparr>"

section \<open>Lemmas\<close>

lemma io_simps [simp]:
  "ret x w = (Ret x, w)" "raise e w = (Exc e, w)"
  "iob (ret x) f = f x" "iob (raise e) f = raise e"
  by (auto simp: ret_def raise_def iob_def fun_eq_iff)

lemma iob_Pair:
  "m w = (Ret x, w1) \<Longrightarrow> iob m f w = f x w1"
  "m w = (Exc e, w1) \<Longrightarrow> iob m f w = (Exc e, w1)"
  "m w = (Killed, w1) \<Longrightarrow> iob m f w = (Killed, w1)"
  by (simp_all add: iob_def)

lemma from_result_simps [simp]:
  "from_result (Inl e) = raise e" "from_result (Inr x) = ret x"
  by (simp_all add: from_result_def)

lemma iob_assoc: "iob (iob m f) g = iob m (\<lambda>x. iob (f x) g)"
  by (auto simp: iob_def fun_eq_iff split: outcome.splits prod.splits)

named_theorems returns_simps \<open>how a return decomposes, in any world\<close>

lemma returns_iob [returns_simps]:
  "iob m f w = (Ret y, w2) \<longleftrightarrow> (\<exists>x w1. m w = (Ret x, w1) \<and> f x w1 = (Ret y, w2))"
  by (auto simp: iob_def split: outcome.splits prod.splits)

lemma returns_reraise [returns_simps]: "reraise g m w = (Ret y, w2) \<longleftrightarrow> m w = (Ret y, w2)"
  by (auto simp: reraise_def handle_def split: outcome.splits prod.splits)

lemma returns_from_result [returns_simps]: "from_result r w = (Ret y, w2) \<longleftrightarrow> r = Inr y \<and> w2 = w"
  by (auto simp: from_result_def split: sum.splits)

lemma iob_cong_ret:
  assumes "\<And>x w w1. m w = (Ret x, w1) \<Longrightarrow> f x w1 = g x w1"
  shows "iob m f = iob m g"
  using assms by (auto simp: iob_def fun_eq_iff split: outcome.splits prod.splits)

text \<open>Nothing else acts on the file system.\<close>

definition calm :: "world \<Rightarrow> bool" where
  "calm w \<longleftrightarrow> (\<forall>t s. w_env w t s = s)"

section \<open>Program logic\<close>

text \<open>
  \<open>wp m Q X K s\<close>: started in a calm world with file system \<open>s\<close>, the code returns with \<open>Q\<close>,
  raises with \<open>X\<close>, or is killed in a file system satisfying \<open>K\<close>, whichever faults and kills
  the world holds.
\<close>

definition meets :: "('a \<Rightarrow> fs \<Rightarrow> bool) \<Rightarrow> (pyexc \<Rightarrow> fs \<Rightarrow> bool) \<Rightarrow> (fs \<Rightarrow> bool)
    \<Rightarrow> 'a outcome \<times> world \<Rightarrow> bool" where
  "meets Q X K r \<longleftrightarrow>
     (case fst r of
        Ret x \<Rightarrow> calm (snd r) \<and> Q x (w_fs (snd r))
      | Exc e \<Rightarrow> calm (snd r) \<and> X e (w_fs (snd r))
      | Killed \<Rightarrow> K (w_fs (snd r)))"

definition wp :: "'a io \<Rightarrow> ('a \<Rightarrow> fs \<Rightarrow> bool) \<Rightarrow> (pyexc \<Rightarrow> fs \<Rightarrow> bool) \<Rightarrow> (fs \<Rightarrow> bool) \<Rightarrow> fs \<Rightarrow> bool" where
  "wp m Q X K s \<longleftrightarrow> (\<forall>w. calm w \<longrightarrow> w_fs w = s \<longrightarrow> meets Q X K (m w))"

named_theorems wp_intros \<open>rules of the program logic\<close>

lemma meets_simps [simp]:
  "meets Q X K (Ret x, w) \<longleftrightarrow> calm w \<and> Q x (w_fs w)"
  "meets Q X K (Exc e, w) \<longleftrightarrow> calm w \<and> X e (w_fs w)"
  "meets Q X K (Killed, w) \<longleftrightarrow> K (w_fs w)"
  by (simp_all add: meets_def)

lemma wpI: "(\<And>w. calm w \<Longrightarrow> w_fs w = s \<Longrightarrow> meets Q X K (m w)) \<Longrightarrow> wp m Q X K s"
  by (simp add: wp_def)

lemma wpE: "wp m Q X K (w_fs w) \<Longrightarrow> calm w \<Longrightarrow> meets Q X K (m w)"
  by (simp add: wp_def)

lemma wpD:
  assumes "wp m Q X K (w_fs w)" "calm w"
  shows "m w = (Ret x, w') \<Longrightarrow> Q x (w_fs w')" "m w = (Exc e, w') \<Longrightarrow> X e (w_fs w')"
    "m w = (Killed, w') \<Longrightarrow> K (w_fs w')"
  using wpE [OF assms] by auto

lemma wp_ret [wp_intros]: "Q x s \<Longrightarrow> wp (ret x) Q X K s"
  by (simp add: wp_def)

lemma wp_raise [wp_intros]: "X e s \<Longrightarrow> wp (raise e) Q X K s"
  by (simp add: wp_def)

lemma wp_iob [wp_intros]:
  assumes "wp m (\<lambda>x. wp (f x) Q X K) X K s"
  shows "wp (iob m f) Q X K s"
proof (rule wpI)
  fix w assume w: "calm w" "w_fs w = s"
  obtain out w1 where m: "m w = (out, w1)" by fastforce
  from wpE [of m _ X K w] assms w m show "meets Q X K (iob m f w)"
    by (cases out) (auto simp: iob_def intro: wpE)
qed

lemma wp_handle:
  assumes "wp m Q (\<lambda>e. wp (h e) Q X K) K s"
  shows "wp (handle m h) Q X K s"
proof (rule wpI)
  fix w assume w: "calm w" "w_fs w = s"
  obtain out w1 where m: "m w = (out, w1)" by fastforce
  from wpE [of m Q _ K w] assms w m show "meets Q X K (handle m h w)"
    by (cases out) (auto simp: handle_def intro: wpE)
qed

lemma wp_mono:
  assumes "wp m Q' X' K' s" "\<And>x s. Q' x s \<Longrightarrow> Q x s" "\<And>e s. X' e s \<Longrightarrow> X e s" "\<And>s. K' s \<Longrightarrow> K s"
  shows "wp m Q X K s"
proof (rule wpI)
  fix w assume w: "calm w" "w_fs w = s"
  obtain out w1 where m: "m w = (out, w1)" by fastforce
  from wpE [of m Q' X' K' w] w m assms show "meets Q X K (m w)" by (cases out) auto
qed

lemma wp_reraise [wp_intros]: "wp m Q (\<lambda>e. X (f e)) K s \<Longrightarrow> wp (reraise f m) Q X K s"
  unfolding reraise_def by (intro wp_handle) (auto elim: wp_mono intro: wp_raise)

lemma wp_finally [wp_intros]:
  assumes "wp m (\<lambda>x. wp c (\<lambda>_. Q x) X K) (\<lambda>e. wp c (\<lambda>_. X e) X K) K s"
  shows "wp (finally_do m c) Q X K s"
proof (rule wpI)
  fix w assume w: "calm w" "w_fs w = s"
  obtain out w1 where m: "m w = (out, w1)" by fastforce
  obtain out2 w2 where c: "c w1 = (out2, w2)" by fastforce
  have r: "meets (\<lambda>x. wp c (\<lambda>_. Q x) X K) (\<lambda>e. wp c (\<lambda>_. X e) X K) K (out, w1)"
    using wpE [of m _ _ K w] assms w m by simp
  show "meets Q X K (finally_do m c w)"
  proof (cases out)
    case (Ret x)
    with r have "meets (\<lambda>_. Q x) X K (c w1)" by (simp add: wpE)
    with Ret m c show ?thesis by (cases out2) (auto simp: finally_do_def)
  next
    case (Exc e)
    with r have "meets (\<lambda>_. X e) X K (c w1)" by (simp add: wpE)
    with Exc m c show ?thesis by (cases out2) (auto simp: finally_do_def)
  qed (use r m in \<open>simp add: finally_do_def\<close>)
qed

lemma wp_if [wp_intros]:
  "(b \<Longrightarrow> wp m Q X K s) \<Longrightarrow> (\<not> b \<Longrightarrow> wp n Q X K s) \<Longrightarrow> wp (if b then m else n) Q X K s"
  by simp

lemma wp_let [wp_intros]: "wp (f a) Q X K s \<Longrightarrow> wp (Let a f) Q X K s"
  by simp

lemma wp_option [wp_intros]:
  "(x = None \<Longrightarrow> wp m Q X K s) \<Longrightarrow> (\<And>a. x = Some a \<Longrightarrow> wp (f a) Q X K s) \<Longrightarrow>
   wp (case x of None \<Rightarrow> m | Some a \<Rightarrow> f a) Q X K s"
  by (cases x) simp_all

lemma wp_from_result [wp_intros]:
  "(\<And>e. r = Inl e \<Longrightarrow> X e s) \<Longrightarrow> (\<And>x. r = Inr x \<Longrightarrow> Q x s) \<Longrightarrow> wp (from_result r) Q X K s"
  by (cases r) (auto simp: wp_def)

lemma wp_sys_torn [wp_intros]:
  assumes "\<And>x s'. f s = (Inr x, s') \<Longrightarrow> Q x s'" "\<And>e s'. f s = (Inl e, s') \<Longrightarrow> X e s'" "\<And>e. X e s"
    and "\<And>n. K (g n s)" "K s"
  shows "wp (sys_torn f g) Q X K s"
  using assms unfolding wp_def
  by (auto simp: sys_torn_def calm_def Let_def split: fate.splits prod.splits sum.splits)

lemma wp_sys [wp_intros]:
  assumes "\<And>x s'. f s = (Inr x, s') \<Longrightarrow> Q x s'" "\<And>e s'. f s = (Inl e, s') \<Longrightarrow> X e s'" "\<And>e. X e s"
    and "K s"
  shows "wp (sys f) Q X K s"
  using assms unfolding sys_def by (intro wp_sys_torn) auto

lemma wp_look [wp_intros]:
  assumes "\<And>x. f s = Inr x \<Longrightarrow> Q x s" "\<And>e. X e s" "K s"
  shows "wp (look f) Q X K s"
  using assms unfolding look_def by (intro wp_sys) auto

lemma wp_peek [wp_intros]: "Q (f s) s \<Longrightarrow> (\<And>e. X e s) \<Longrightarrow> K s \<Longrightarrow> wp (peek f) Q X K s"
  unfolding peek_def by (rule wp_handle, rule wp_look) (auto simp: wp_def answered_def)

subsection \<open>Runs without faults\<close>

text \<open>
  A kernel whose files below \<open>/proc\<close> hold ASCII text or cannot be read, and whose write calls
  take at least one byte.
\<close>

definition sane_os :: "os_view \<Rightarrow> bool" where
  "sane_os v \<longleftrightarrow> (\<forall>t. os_chunk v t > 0)
     \<and> (\<forall>t p e. os_text v t p = Inl e \<longrightarrow> is_os_error e \<or> e = UnicodeDecodeError)
     \<and> (\<forall>t p x. os_text v t p = Inr x \<longrightarrow> (\<forall>c \<in> set x. c < 0x80))"

lemma sane_bare_os [simp]: "sane_os bare_os"
  by (simp add: sane_os_def bare_os_def)

text \<open>
  \<open>runs U m Q s\<close>: with no fault, no kill, no other process and random names from \<open>U\<close>, the code
  started on \<open>s\<close> returns, with \<open>Q\<close>.
\<close>

definition quiet :: "pystr set \<Rightarrow> world \<Rightarrow> bool" where
  "quiet U w \<longleftrightarrow> calm w \<and> (\<forall>t. w_fate w t = Run) \<and> (\<forall>t. w_uuid w t \<in> U) \<and> sane_os (w_os w)"

definition runs :: "pystr set \<Rightarrow> 'a io \<Rightarrow> ('a \<Rightarrow> fs \<Rightarrow> bool) \<Rightarrow> fs \<Rightarrow> bool" where
  "runs U m Q s \<longleftrightarrow>
     (\<forall>w. quiet U w \<longrightarrow> w_fs w = s \<longrightarrow> (\<exists>x w'. m w = (Ret x, w') \<and> quiet U w' \<and> Q x (w_fs w')))"

named_theorems runs_intros \<open>rules for runs without faults\<close>

lemma runsE:
  assumes "runs U m Q (w_fs w)" "quiet U w"
  obtains x w' where "m w = (Ret x, w')" "quiet U w'" "Q x (w_fs w')"
  using assms unfolding runs_def by blast

lemma runs_ret [runs_intros]: "Q x s \<Longrightarrow> runs U (ret x) Q s"
  by (simp add: runs_def)

lemma runs_iob [runs_intros]: "runs U m (\<lambda>x. runs U (f x) Q) s \<Longrightarrow> runs U (iob m f) Q s"
  unfolding runs_def iob_def by fastforce

lemma runs_mono: "runs U m Q' s \<Longrightarrow> (\<And>x s. Q' x s \<Longrightarrow> Q x s) \<Longrightarrow> runs U m Q s"
  unfolding runs_def by (metis (no_types))

lemma runs_handle [runs_intros]: "runs U m Q s \<Longrightarrow> runs U (handle m h) Q s"
  unfolding runs_def handle_def by fastforce

lemma runs_reraise [runs_intros]: "runs U m Q s \<Longrightarrow> runs U (reraise f m) Q s"
  unfolding reraise_def by (rule runs_handle)

lemma runs_finally [runs_intros]:
  "runs U m (\<lambda>x. runs U c (\<lambda>_. Q x)) s \<Longrightarrow> runs U (finally_do m c) Q s"
  unfolding runs_def finally_do_def by fastforce

lemma runs_if [runs_intros]:
  "(b \<Longrightarrow> runs U m Q s) \<Longrightarrow> (\<not> b \<Longrightarrow> runs U n Q s) \<Longrightarrow> runs U (if b then m else n) Q s"
  by simp

lemma runs_let [runs_intros]: "runs U (f a) Q s \<Longrightarrow> runs U (Let a f) Q s"
  by simp

lemma runs_from_result [runs_intros]: "r = Inr x \<Longrightarrow> Q x s \<Longrightarrow> runs U (from_result r) Q s"
  by (simp add: runs_def)

lemma runs_sys_torn [runs_intros]: "f s = (Inr x, s') \<Longrightarrow> Q x s' \<Longrightarrow> runs U (sys_torn f g) Q s"
  by (auto simp: runs_def sys_torn_def quiet_def calm_def Let_def)

lemma runs_sys [runs_intros]: "f s = (Inr x, s') \<Longrightarrow> Q x s' \<Longrightarrow> runs U (sys f) Q s"
  unfolding sys_def by (rule runs_sys_torn)

lemma runs_look [runs_intros]: "f s = Inr x \<Longrightarrow> Q x s \<Longrightarrow> runs U (look f) Q s"
  unfolding look_def by (rule runs_sys) simp_all

lemma runs_peek [runs_intros]: "Q (f s) s \<Longrightarrow> runs U (peek f) Q s"
  unfolding peek_def by (rule runs_handle, rule runs_look) simp_all

section \<open>Well-formed file systems\<close>

text \<open>
  One entry per name, names below directories only, the root a directory, no name with a
  \<open>..\<close> component, and new inodes unused.
\<close>

definition wf_fs :: "fs \<Rightarrow> bool" where
  "wf_fs s \<longleftrightarrow> distinct (map fst (fs_names s)) \<and> node_at s [] = Some Dir
     \<and> (\<forall>(p, i) \<in> set (fs_names s). i < fs_next s \<and> dotdot \<notin> set p
          \<and> (p \<noteq> [] \<longrightarrow> node_at s (butlast p) = Some Dir))"

lemma entry_in_names: "wf_fs s \<Longrightarrow> entry s p = Some i \<longleftrightarrow> (p, i) \<in> set (fs_names s)"
  by (simp add: wf_fs_def entry_def)

lemma wf_fs_parent: "wf_fs s \<Longrightarrow> entry s (p @ [c]) = Some i \<Longrightarrow> node_at s p = Some Dir \<and> c \<noteq> dotdot"
  unfolding wf_fs_def entry_def by (fastforce dest: map_of_SomeD)

lemma wf_fs_no_dotdot: "wf_fs s \<Longrightarrow> entry s p \<noteq> None \<Longrightarrow> dotdot \<notin> set p"
  unfolding wf_fs_def entry_def by (fastforce dest: map_of_SomeD)

lemma wf_fs_prefix_dir:
  "wf_fs s \<Longrightarrow> entry s (p @ q) \<noteq> None \<Longrightarrow> q \<noteq> [] \<Longrightarrow> node_at s p = Some Dir"
proof (induction q rule: rev_induct)
  case (snoc c q)
  then have d: "node_at s (p @ q) = Some Dir" using wf_fs_parent [of s "p @ q" c] by auto
  show ?case
  proof (cases "q = []")
    case False
    with d snoc show ?thesis by (auto simp: node_at_def)
  qed (use d in simp)
qed simp

text \<open>A physical directory resolves to itself, and so does a name in it.\<close>

lemma walk_physical:
  assumes "wf_fs s" "node_at s p = Some Dir"
  shows "walk s n f [] (p @ r) = walk s n f p r"
proof -
  have "walk s n f a (q @ r) = walk s n f (a @ q) r" if "a @ q = p" for a q
    using that
  proof (induction q arbitrary: a)
    case (Cons c q)
    have "entry s (a @ [c] @ q) \<noteq> None" using Cons.prems assms(2) by (auto simp: node_at_def)
    then have "node_at s (a @ [c]) = Some Dir" "c \<noteq> dotdot"
      using wf_fs_prefix_dir [of s "a @ [c]" q] Cons.prems assms wf_fs_no_dotdot [of s "a @ [c] @ q"]
      by (cases "q = []"; auto)+
    with Cons show ?case by simp
  qed simp
  from this [of "[]" p] show ?thesis by simp
qed

lemma locate_child:
  assumes "wf_fs s" "node_at s p = Some Dir" "c \<noteq> dotdot"
  shows "locate s False (p @ [c]) = Inr (p @ [c])"
  unfolding locate_def walk_physical [OF assms(1,2)]
  using assms(3) by (auto split: option.splits node.splits)

text \<open>The result of following a path to an existing directory, then one more name.\<close>

lemma walk_snoc:
  assumes "walk s n True a p = Inr q" "node_at s q = Some Dir" "c \<noteq> dotdot"
  shows "walk s n False a (p @ [c]) = Inr (q @ [c])"
  using assms
proof (induction s n True a p rule: walk.induct)
  case (1 s n acc)
  then show ?case by (auto split: option.splits node.splits)
next
  case (2 s n acc d rest)
  show ?case
  proof (cases "d = dotdot")
    case True
    then show ?thesis using 2 by simp
  next
    case False
    then show ?thesis
    proof (cases "node_at s (acc @ [d])")
      case None
      with 2 False show ?thesis by (auto split: if_splits)
    next
      case (Some nd)
      with 2 False show ?thesis by (cases nd) (auto split: nat.splits if_splits)
    qed
  qed
qed

lemma walk_follow:
  assumes "walk s n False a p = Inr q" "node_at s q = Some nd" "\<not> is_lnk nd"
  shows "walk s n True a p = Inr q"
  using assms
proof (induction s n False a p rule: walk.induct)
  case (2 s n acc c rest)
  show ?case
  proof (cases "c = dotdot")
    case False
    then show ?thesis
    proof (cases "node_at s (acc @ [c])")
      case (Some nd')
      with 2 False show ?thesis
        by (cases nd') (auto simp: is_lnk_def split: nat.splits if_splits)
    qed (use 2 False in \<open>auto split: if_splits\<close>)
  qed (use 2 in simp)
qed simp

text \<open>What \<open>checked_directory\<close> establishes by its two looks.\<close>

lemma checked_directory_looks:
  assumes "fs_lstat p s = Inr m" "st_node m = Dir" "fs_resolve p s = Inr q"
  shows "node_at s q = Some Dir" "locate s True p = Inr q" "locate s False p = Inr q"
proof -
  from assms(1,2) obtain r where r: "locate s False p = Inr r" "node_at s r = Some Dir"
    by (auto simp: fs_lstat_def stat_ino_def node_at_def split: option.splits)
  then have t: "locate s True p = Inr r"
    unfolding locate_def by (rule walk_follow) (simp add: is_lnk_def)
  with assms(3) have "q = r" by (auto simp: fs_resolve_def split: option.splits)
  with r t show "node_at s q = Some Dir" "locate s True p = Inr q" "locate s False p = Inr q" by simp_all
qed

lemma locate_under:
  assumes "locate s True p = Inr q" "node_at s q = Some Dir" "c \<noteq> dotdot"
  shows "locate s False (p @ [c]) = Inr (q @ [c])"
  using assms unfolding locate_def by (rule walk_snoc)

text \<open>Directories and links decide where a path leads; regular files may come and go.\<close>

definition same_tree :: "fs \<Rightarrow> fs \<Rightarrow> bool" where
  "same_tree s s' \<longleftrightarrow>
     (\<forall>x nd. node_at s x = Some nd \<longrightarrow> nd = Dir \<or> is_lnk nd \<longrightarrow> node_at s' x = Some nd)"

lemma walk_same_tree:
  assumes "same_tree s s'" "walk s n True a p = Inr q" "node_at s q = Some Dir"
  shows "walk s' n True a p = Inr q"
  using assms
proof (induction s n True a p rule: walk.induct)
  case (2 s n acc c rest)
  show ?case
  proof (cases "c = dotdot")
    case False
    show ?thesis
    proof (cases "node_at s (acc @ [c])")
      case None
      with 2 False show ?thesis by (auto split: if_splits)
    next
      case (Some nd)
      then have "nd = Dir \<or> is_lnk nd \<Longrightarrow> node_at s' (acc @ [c]) = Some nd"
        using 2(4) by (auto simp: same_tree_def)
      with 2 False Some show ?thesis
        by (cases nd) (auto simp: is_lnk_def split: nat.splits if_splits)
    qed
  qed (use 2 in simp)
qed simp

text \<open>The node a path leads to, without following a final link.\<close>

definition node_via :: "fs \<Rightarrow> path \<Rightarrow> node option" where
  "node_via s p = (case locate s False p of Inl _ \<Rightarrow> None | Inr q \<Rightarrow> node_at s q)"

lemma node_via_under:
  assumes "locate s True p = Inr q" "node_at s q = Some Dir" "same_tree s s'" "c \<noteq> dotdot"
  shows "node_via s' (p @ [c]) = node_at s' (q @ [c])"
proof -
  have "locate s' True p = Inr q"
    unfolding locate_def by (rule walk_same_tree [OF assms(3) assms(1) [unfolded locate_def] assms(2)])
  moreover have "node_at s' q = Some Dir" using assms by (auto simp: same_tree_def)
  ultimately show ?thesis using assms(4) by (simp add: node_via_def locate_under)
qed

lemma same_tree_refl: "same_tree s s"
  by (simp add: same_tree_def)

subsection \<open>Changing one name\<close>

lemma entry_delete: "entry (s\<lparr>fs_names := AList.delete q (fs_names s)\<rparr>) p = (if p = q then None else entry s p)"
  by (simp add: entry_def delete_conv)

lemma node_at_unlink:
  "node_at (s\<lparr>fs_names := AList.delete q (fs_names s)\<rparr>) p = (if p = q then None else node_at s p)"
  by (simp add: node_at_def entry_def delete_conv)

lemma node_at_create:
  assumes "wf_fs s" "entry s q = None"
  shows "node_at (s\<lparr>fs_names := fs_names s @ [(q, fs_next s)], fs_nodes := (fs_nodes s)(fs_next s := nd),
    fs_dev := dv, fs_next := k\<rparr>) p = (if p = q then Some nd else node_at s p)"
proof (cases "entry s p")
  case None
  then show ?thesis by (simp add: node_at_def entry_def map_add_def)
next
  case (Some i)
  then have "(p, i) \<in> set (fs_names s)" using assms(1) by (simp add: entry_in_names)
  then have "i \<noteq> fs_next s" using assms(1) by (auto simp: wf_fs_def)
  moreover have "p \<noteq> q" using Some assms(2) by auto
  ultimately show ?thesis using Some by (simp add: node_at_def entry_def map_add_def)
qed

text \<open>The inode of a name that no other name shares.\<close>

definition sole :: "fs \<Rightarrow> path \<Rightarrow> ino \<Rightarrow> bool" where
  "sole s p i \<longleftrightarrow> entry s p = Some i \<and> (\<forall>q. entry s q = Some i \<longrightarrow> q = p)"

lemma node_at_set:
  assumes "sole s q i"
  shows "node_at (fs_set i b s) p = (if p = q then Some (Reg b) else node_at s p)"
proof -
  have e: "entry (fs_set i b s) p = entry s p" by (simp add: entry_def fs_set_def)
  show ?thesis
  proof (cases "entry s p = Some i")
    case True
    then have "p = q" using assms unfolding sole_def by blast
    with True show ?thesis unfolding node_at_def e by (simp add: fs_set_def)
  next
    case False
    then have "p \<noteq> q" using assms unfolding sole_def by blast
    with False show ?thesis unfolding node_at_def e by (cases "entry s p") (auto simp: fs_set_def)
  qed
qed

lemma node_at_move:
  assumes "entry s a = Some i" "a \<noteq> b"
  shows "node_at (fs_move a b s) p =
    (if p = b then node_at s a else if p = a then None else node_at s p)"
  using assms by (auto simp: node_at_def entry_def fs_move_def update_conv delete_conv)

subsection \<open>Well-formedness is kept\<close>

definition tree_ok :: "(path \<Rightarrow> node option) \<Rightarrow> bool" where
  "tree_ok n \<longleftrightarrow> n [] = Some Dir
     \<and> (\<forall>p. n p \<noteq> None \<longrightarrow> dotdot \<notin> set p \<and> (p \<noteq> [] \<longrightarrow> n (butlast p) = Some Dir))"

lemma tree_ok_upd:
  assumes "tree_ok n" "n q \<noteq> Some Dir"
    and "x \<noteq> None \<Longrightarrow> q \<noteq> [] \<and> dotdot \<notin> set q \<and> n (butlast q) = Some Dir"
  shows "tree_ok (n(q := x))"
proof -
  have "q \<noteq> []" using assms(1,2) by (auto simp: tree_ok_def)
  then have "butlast q \<noteq> q" by (metis append_butlast_last_id append_self_conv not_Cons_self2)
  moreover have "butlast p \<noteq> q" if "n p \<noteq> None" "p \<noteq> []" for p
    using assms(1,2) that unfolding tree_ok_def by metis
  ultimately show ?thesis using assms \<open>q \<noteq> []\<close> unfolding tree_ok_def by auto
qed

lemma wf_fs_alt:
  "wf_fs s \<longleftrightarrow> distinct (map fst (fs_names s)) \<and> (\<forall>p i. entry s p = Some i \<longrightarrow> i < fs_next s)
     \<and> tree_ok (node_at s)"
proof (cases "distinct (map fst (fs_names s))")
  case True
  then have e: "entry s p = Some i \<longleftrightarrow> (p, i) \<in> set (fs_names s)" for p i by (simp add: entry_def)
  have n: "node_at s p \<noteq> None \<longleftrightarrow> (\<exists>i. (p, i) \<in> set (fs_names s))" for p
    by (auto simp: node_at_def e)
  show ?thesis unfolding wf_fs_def tree_ok_def n e using True by auto
qed (simp add: wf_fs_def)

lemma wf_fs_create:
  assumes "wf_fs s" "entry s q = None" "q \<noteq> []" "dotdot \<notin> set q" "node_at s (butlast q) = Some Dir"
  shows "wf_fs (s\<lparr>fs_names := fs_names s @ [(q, fs_next s)], fs_nodes := (fs_nodes s)(fs_next s := nd),
    fs_dev := dv, fs_next := Suc (fs_next s)\<rparr>)" (is "wf_fs ?s")
proof -
  have "node_at ?s = (node_at s)(q := Some nd)"
    using node_at_create [OF assms(1,2)] by auto
  moreover have "tree_ok ((node_at s)(q := Some nd))"
    using assms by (intro tree_ok_upd) (auto simp: wf_fs_alt node_at_def)
  moreover have "distinct (map fst (fs_names ?s))" "\<And>p i. entry ?s p = Some i \<Longrightarrow> i < fs_next ?s"
    using assms by (auto simp: wf_fs_alt entry_def map_of_eq_None_iff map_add_def less_SucI
        split: option.splits if_splits)
  ultimately show ?thesis by (auto simp: wf_fs_alt)
qed

lemma wf_fs_set:
  assumes "wf_fs s" "sole s q i" "node_at s q = Some (Reg c)"
  shows "wf_fs (fs_set i b s)"
proof -
  have "node_at (fs_set i b s) = (node_at s)(q := Some (Reg b))"
    using node_at_set [OF assms(2)] by auto
  moreover have "tree_ok ((node_at s)(q := Some (Reg b)))"
    using assms(1,3) by (intro tree_ok_upd) (auto simp: wf_fs_alt tree_ok_def)
  ultimately show ?thesis using assms(1) by (auto simp: wf_fs_alt fs_set_def entry_def)
qed

lemma wf_fs_unlink:
  assumes "wf_fs s" "node_at s q \<noteq> Some Dir"
  shows "wf_fs (s\<lparr>fs_names := AList.delete q (fs_names s)\<rparr>)" (is "wf_fs ?s")
proof -
  have "node_at ?s = (node_at s)(q := None)" using node_at_unlink by auto
  moreover have "tree_ok ((node_at s)(q := None))"
    using assms by (intro tree_ok_upd) (auto simp: wf_fs_alt)
  ultimately show ?thesis using assms(1) by (auto simp: wf_fs_alt entry_delete distinct_delete split: if_splits)
qed

lemma wf_fs_move:
  assumes "wf_fs s" "entry s a = Some i" "a \<noteq> b" "node_at s a \<noteq> Some Dir" "node_at s b \<noteq> Some Dir"
    and "b \<noteq> []" "dotdot \<notin> set b" "node_at s (butlast b) = Some Dir"
  shows "wf_fs (fs_move a b s)"
proof -
  have "node_at (fs_move a b s) = (node_at s)(a := None, b := node_at s a)"
    using node_at_move [OF assms(2,3)] by auto
  moreover have "tree_ok ((node_at s)(a := None, b := node_at s a))"
    using assms by (intro tree_ok_upd) (auto simp: wf_fs_alt)
  moreover have "entry (fs_move a b s) p = Some j \<Longrightarrow> j < fs_next s" for p j
    using assms(1,2) by (auto simp: wf_fs_alt entry_def fs_move_def update_conv delete_conv split: if_splits)
  ultimately show ?thesis
    using assms(1,2) by (auto simp: wf_fs_alt fs_move_def distinct_update distinct_delete)
qed

end
