(* ===== verification/Storage.thy ===== *)
theory Storage
  imports Filesystem
begin

text \<open>
  The file operations of \<^verbatim>\<open>src/src/benchhandoff/storage.py\<close> on the file system model: boundary
  checks, checked reads, content identities, the atomic replace of evidence files and the
  no-replace move into quarantine. Shown here, with faults and kills at every system call: an
  atomic write leaves the old or the new content and touches nothing else, a move keeps the
  content under exactly one of the two names, and a resolved member has no link on its way.
\<close>

section \<open>Definitions\<close>

definition path_lexists :: "path \<Rightarrow> bool io" where
  "path_lexists p = peek (fs_lexists p)"

text \<open>\<open>except FileNotFoundError as exc: raise BoundaryError(...)\<close>\<close>

definition missing_to_boundary :: "pyexc \<Rightarrow> pyexc" where
  "missing_to_boundary e = (if e = FileNotFoundError then BoundaryError else e)"

definition checked_directory :: "path \<Rightarrow> path io" where
  "checked_directory p =
     iob (reraise missing_to_boundary (look (fs_lstat p))) (\<lambda>metadata.
       if is_lnk (st_node metadata) then raise BoundaryError
       else if st_node metadata \<noteq> Dir then raise BoundaryError
       else look (fs_resolve p))"

text \<open>The loop over the components: \<open>current\<close> grows by one part at a time.\<close>

fun member_scan :: "path \<Rightarrow> pystr list \<Rightarrow> unit io" where
  "member_scan current [] = ret ()"
| "member_scan current (part # rest) =
     (let here = current @ [part] in
      iob (path_lexists here) (\<lambda>found.
        if \<not> found then member_scan here rest
        else iob (look (fs_lstat here)) (\<lambda>metadata.
          if is_lnk (st_node metadata) then raise BoundaryError
          else if rest \<noteq> [] \<and> st_node metadata \<noteq> Dir then raise BoundaryError
          else member_scan here rest)))"

definition resolve_member :: "pylib \<Rightarrow> path \<Rightarrow> pystr \<Rightarrow> path io" where
  "resolve_member L root relative =
     iob (from_result (normalize_relative_file L (PStr relative))) (\<lambda>normalized.
     iob (checked_directory root) (\<lambda>resolved_root.
     let candidate = resolved_root @ split_on 47 normalized in
     iob (member_scan resolved_root (split_on 47 normalized)) (\<lambda>_.
     iob (peek (\<lambda>s. realpath s MAX_LINKS [] candidate)) (\<lambda>resolved_candidate.
     if \<not> is_within resolved_candidate resolved_root then raise BoundaryError
     else ret candidate))))"

definition open_regular_readonly :: "path \<Rightarrow> ino io" where
  "open_regular_readonly p =
     iob (reraise missing_to_boundary (look (fs_lstat p))) (\<lambda>metadata.
     if is_lnk (st_node metadata) then raise BoundaryError
     else if \<not> is_reg (st_node metadata) then raise BoundaryError
     else iob (reraise (\<lambda>e. if is_os_error e then BoundaryError else e) (look (fs_open_nofollow p)))
       (\<lambda>descriptor.
     iob (look (\<lambda>s. Inr (stat_ino s descriptor))) (\<lambda>opened.
     if \<not> is_reg (st_node opened) then raise BoundaryError
     else if (st_ino metadata, st_dev metadata) \<noteq> (st_ino opened, st_dev opened)
     then raise BoundaryError
     else ret descriptor)))"

text \<open>
  A read of the descriptor returns the content the file has then; \<open>handle.read(n)\<close> at most the
  first \<open>n\<close> bytes of it.
\<close>

definition read_regular_bytes :: "path \<Rightarrow> nat option \<Rightarrow> bytes io" where
  "read_regular_bytes p max_bytes =
     iob (open_regular_readonly p) (\<lambda>descriptor.
     case max_bytes of
       None \<Rightarrow> look (fs_read descriptor)
     | Some limit \<Rightarrow>
         iob (look (\<lambda>s. Inr (stat_ino s descriptor))) (\<lambda>opened.
         if node_size (st_node opened) > limit then raise EvidenceError
         else iob (look (fs_read descriptor)) (\<lambda>content.
           let payload = take (limit + 1) content in
           if length payload > limit then raise EvidenceError else ret payload)))"

definition file_identity :: "pylib \<Rightarrow> path \<Rightarrow> pyval io" where
  "file_identity L p =
     iob (open_regular_readonly p) (\<lambda>descriptor.
     iob (look (fs_read descriptor)) (\<lambda>content. ret (identity_of L content)))"

definition member_identity :: "pylib \<Rightarrow> path \<Rightarrow> pystr \<Rightarrow> pyval io" where
  "member_identity L root relative =
     iob (resolve_member L root relative) (\<lambda>p. file_identity L p)"

definition ensure_member_absent :: "pylib \<Rightarrow> path \<Rightarrow> pystr \<Rightarrow> path io" where
  "ensure_member_absent L root relative =
     iob (resolve_member L root relative) (\<lambda>candidate.
     iob (path_lexists candidate) (\<lambda>found.
     if found then raise BoundaryError else ret candidate))"

text \<open>
  The parents of the candidate, nearest first, up to the root: the candidate is the root with
  the components appended, so the walk upward is over the prefixes of those.
\<close>

fun parents_scan :: "path list \<Rightarrow> unit io" where
  "parents_scan [] = ret ()"
| "parents_scan (current # rest) =
     iob (path_lexists current) (\<lambda>found.
       if found then
         iob (look (fs_lstat current)) (\<lambda>metadata.
           if is_lnk (st_node metadata) \<or> st_node metadata \<noteq> Dir then raise BoundaryError
           else parents_scan rest)
       else parents_scan rest)"

definition parents_below :: "path \<Rightarrow> path \<Rightarrow> path list" where
  "parents_below root candidate =
     map (\<lambda>n. take n candidate) (rev [Suc (length root)..<length candidate])"

definition ensure_output_parent_boundary :: "pylib \<Rightarrow> path \<Rightarrow> pystr \<Rightarrow> unit io" where
  "ensure_output_parent_boundary L root relative =
     iob (resolve_member L root relative) (\<lambda>candidate.
     iob (checked_directory root) (\<lambda>resolved_root.
     parents_scan (parents_below resolved_root candidate)))"

definition fs_mkdir :: "path \<Rightarrow> unit io" where
  "fs_mkdir p = iob (sys (fs_create Dir p)) (\<lambda>_. ret ())"

definition prepare_new_directory :: "path \<Rightarrow> path io" where
  "prepare_new_directory p =
     iob (path_lexists p) (\<lambda>found.
     if found then raise BoundaryError
     else iob (checked_directory (butlast p)) (\<lambda>parent.
     let candidate = parent @ [last p] in
     iob (fs_mkdir candidate) (\<lambda>_. checked_directory candidate)))"

definition io_separate_trees :: "path \<Rightarrow> path \<Rightarrow> unit io" where
  "io_separate_trees a b =
     iob (peek (\<lambda>s. realpath s MAX_LINKS [] a)) (\<lambda>first_resolved.
     iob (peek (\<lambda>s. realpath s MAX_LINKS [] b)) (\<lambda>second_resolved.
     from_result (require_separate_trees first_resolved second_resolved)))"

text \<open>The walk upward ends at the file system root, the empty component list.\<close>

function nearest_existing_directory :: "path \<Rightarrow> path io" where
  "nearest_existing_directory p =
     iob (path_lexists p) (\<lambda>found.
     if found then checked_directory p
     else if p = [] then raise BoundaryError
     else nearest_existing_directory (butlast p))"
  by pat_completeness auto
termination
  by (relation "measure length") auto

declare nearest_existing_directory.simps [simp del]

definition require_same_filesystem :: "path \<Rightarrow> path \<Rightarrow> unit io" where
  "require_same_filesystem a b =
     iob (checked_directory a) (\<lambda>first_directory.
     iob (checked_directory b) (\<lambda>second_directory.
     iob (reraise (\<lambda>e. if is_os_error e then BoundaryError else e)
           (iob (look (fs_stat first_directory)) (\<lambda>m1.
            iob (look (fs_stat second_directory)) (\<lambda>m2. ret (st_dev m1, st_dev m2))))) (\<lambda>devs.
     if fst devs \<noteq> snd devs then raise BoundaryError else ret ())))"

definition fsync_directory :: "path \<Rightarrow> unit io" where
  "fsync_directory p =
     iob (reraise (\<lambda>e. if is_os_error e then EvidenceError else e) (look (fs_open_nofollow p))) (\<lambda>_.
     reraise (\<lambda>e. if is_os_error e then EvidenceError else e) (look (\<lambda>_. Inr ())))"

definition rename_no_replace :: "path \<Rightarrow> path \<Rightarrow> unit io" where
  "rename_no_replace p q =
     reraise (\<lambda>e. if e = FileExistsError then BoundaryError
                  else if is_os_error e then EvidenceError else e)
       (sys (fs_rename_noreplace p q))"

definition move_regular_same_filesystem :: "pylib \<Rightarrow> path \<Rightarrow> path \<Rightarrow> pyval io" where
  "move_regular_same_filesystem L source destination =
     iob (checked_directory (butlast source)) (\<lambda>source_parent.
     iob (checked_directory (butlast destination)) (\<lambda>destination_parent.
     let src = source_parent @ [last source]; dst = destination_parent @ [last destination] in
     iob (path_lexists dst) (\<lambda>found.
     if found then raise BoundaryError
     else iob (reraise (\<lambda>e. if is_os_error e then BoundaryError else e)
           (iob (look (fs_lstat src)) (\<lambda>m1.
            iob (look (fs_stat destination_parent)) (\<lambda>m2. ret (st_dev m1, st_dev m2))))) (\<lambda>devs.
     if fst devs \<noteq> snd devs then raise BoundaryError
     else iob (file_identity L src) (\<lambda>expected.
     iob (rename_no_replace src dst) (\<lambda>_.
     iob (file_identity L dst) (\<lambda>actual.
     if \<not> identities_match actual expected then raise EvidenceError
     else iob (fsync_directory source_parent) (\<lambda>_.
     iob (if destination_parent \<noteq> source_parent then fsync_directory destination_parent else ret ())
       (\<lambda>_. ret actual)))))))))"

text \<open>The random part of the temporary name comes from the world.\<close>

definition uuid4 :: "pystr io" where
  "uuid4 w = (Ret (w_uuid w (w_tick w)), w)"

definition temp_name :: "pystr \<Rightarrow> pystr \<Rightarrow> pystr" where
  "temp_name name u = lit ''.'' @ name @ lit ''.'' @ u @ lit ''.tmp''"

definition write_file :: "ino \<Rightarrow> bytes \<Rightarrow> unit io" where
  "write_file i payload =
     sys_torn (\<lambda>s. (Inr (), fs_set i payload s)) (\<lambda>n s. fs_set i (take n payload) s)"

text \<open>The \<open>finally\<close> block, and the \<open>try\<close> statement around it.\<close>

definition remove_temporary :: "path \<Rightarrow> unit io" where
  "remove_temporary temporary =
     iob (path_lexists temporary) (\<lambda>left. if left then sys (fs_unlink temporary) else ret ())"

definition publish_temporary :: "ino \<Rightarrow> path \<Rightarrow> path \<Rightarrow> path \<Rightarrow> bytes \<Rightarrow> unit io" where
  "publish_temporary descriptor temporary destination parent payload =
     finally_do
       (iob (write_file descriptor payload) (\<lambda>_.
        iob (look (\<lambda>_. Inr ())) (\<lambda>_.
        iob (sys (fs_replace temporary destination)) (\<lambda>_.
        fsync_directory parent))))
       (remove_temporary temporary)"

definition atomic_write_bytes :: "pylib \<Rightarrow> path \<Rightarrow> bytes \<Rightarrow> unit io" where
  "atomic_write_bytes L destination payload =
     iob (checked_directory (butlast destination)) (\<lambda>parent.
     iob (path_lexists destination) (\<lambda>found.
     iob (if found then iob (file_identity L destination) (\<lambda>_. ret ()) else ret ()) (\<lambda>_.
     iob uuid4 (\<lambda>u.
     let temporary = parent @ [temp_name (last destination) u] in
     iob (sys (fs_create (Reg []) temporary)) (\<lambda>descriptor.
     publish_temporary descriptor temporary destination parent payload)))))"

definition atomic_write_json :: "pylib \<Rightarrow> path \<Rightarrow> pyval \<Rightarrow> unit io" where
  "atomic_write_json L p v =
     iob (from_result (json_output_bytes L v)) (\<lambda>payload. atomic_write_bytes L p payload)"

definition read_json_file :: "pylib \<Rightarrow> path \<Rightarrow> pyval io" where
  "read_json_file L p =
     iob (read_regular_bytes p (Some MAX_JSON_BYTES)) (\<lambda>raw. from_result (json_input_value L raw))"

definition create_empty_regular :: "path \<Rightarrow> unit io" where
  "create_empty_regular p =
     iob (checked_directory (butlast p)) (\<lambda>_. iob (sys (fs_create (Reg []) p)) (\<lambda>_. ret ()))"

text \<open>
  \<open>iter_regular_artifacts\<close>: depth-first over the directories below \<open>start\<close>. The number bounds the
  directories visited; a tree that another process grows without end would exhaust it.
\<close>

fun artifact_entries :: "pylib \<Rightarrow> path \<Rightarrow> path \<Rightarrow> (pystr \<times> node) list \<Rightarrow> path list \<Rightarrow> pystr list
    \<Rightarrow> pyexc + path list \<times> pystr list" where
  "artifact_entries L root current [] stack collected = Inr (stack, collected)"
| "artifact_entries L root current ((name, nd) # es) stack collected =
     (let here = current @ [name] in
      if is_lnk nd then Inl EvidenceError
      else if nd = Dir then artifact_entries L root current es (here # stack) collected
      else if is_reg nd then
        rbind (normalize_relative_file L (PStr (join_on 47 (drop (length root) here)))) (\<lambda>relative.
          artifact_entries L root current es stack (collected @ [relative]))
      else Inl EvidenceError)"

fun artifact_walk :: "pylib \<Rightarrow> nat \<Rightarrow> path \<Rightarrow> path list \<Rightarrow> pystr list \<Rightarrow> pystr list io" where
  "artifact_walk L fuel root [] collected = ret collected"
| "artifact_walk L 0 root (current # stack) collected = raise RuntimeError"
| "artifact_walk L (Suc fuel) root (current # stack) collected =
     iob (look (fs_scandir current)) (\<lambda>entries.
     iob (from_result (artifact_entries L root current entries stack collected)) (\<lambda>(stack', collected').
     artifact_walk L fuel root stack' collected'))"

definition iter_regular_artifacts :: "pylib \<Rightarrow> nat \<Rightarrow> path \<Rightarrow> pystr list \<Rightarrow> pystr list io" where
  "iter_regular_artifacts L fuel root directories =
     iob (checked_directory root) (\<lambda>resolved_root.
     iob (io_fold (\<lambda>name collected.
            iob (resolve_member L resolved_root name) (\<lambda>start.
            iob (checked_directory start) (\<lambda>start_checked.
            artifact_walk L fuel resolved_root [start_checked] collected))) directories []) (\<lambda>collected.
     ret (sort collected)))"

section \<open>Reading\<close>

lemma lit_dotdot [simp]: "lit s = dotdot \<longleftrightarrow> s = ''..''" "dotdot = lit s \<longleftrightarrow> s = ''..''"
proof -
  have "dotdot = lit ''..''" by (simp add: dotdot_def lit_def)
  then show "lit s = dotdot \<longleftrightarrow> s = ''..''" "dotdot = lit s \<longleftrightarrow> s = ''..''"
    using lit_eq_iff [of s "''..''"] by (auto simp only:)
qed

lemma wp_path_lexists [wp_intros]:
  "Q (fs_lexists p s) s \<Longrightarrow> (\<And>e. X e s) \<Longrightarrow> K s \<Longrightarrow> wp (path_lexists p) Q X K s"
  unfolding path_lexists_def by (rule wp_peek)

lemma wp_checked_directory [wp_intros]:
  assumes "\<And>q. locate s True p = Inr q \<Longrightarrow> node_at s q = Some Dir \<Longrightarrow> Q q s"
    and "\<And>e. X e s" "K s"
  shows "wp (checked_directory p) Q X K s"
  unfolding checked_directory_def
  by (intro wp_intros assms) (auto dest: checked_directory_looks)

definition regular_at :: "fs \<Rightarrow> path \<Rightarrow> ino \<Rightarrow> bool" where
  "regular_at s p i \<longleftrightarrow> (\<exists>q. locate s False p = Inr q \<and> entry s q = Some i \<and> is_reg (fs_nodes s i))"

lemma wp_open_regular_readonly [wp_intros]:
  assumes "\<And>i. regular_at s p i \<Longrightarrow> Q i s" and "\<And>e. X e s" "K s"
  shows "wp (open_regular_readonly p) Q X K s"
  unfolding open_regular_readonly_def
  by (intro wp_intros assms)
    (auto simp: regular_at_def fs_open_nofollow_def stat_ino_def split: option.splits if_splits)

lemma regular_at_node: "regular_at s p i \<Longrightarrow> fs_nodes s i = Reg b \<Longrightarrow> node_via s p = Some (Reg b)"
  by (auto simp: regular_at_def node_via_def node_at_def)

lemma wp_file_identity [wp_intros]:
  assumes "\<And>b. node_via s p = Some (Reg b) \<Longrightarrow> Q (identity_of L b) s" and "\<And>e. X e s" "K s"
  shows "wp (file_identity L p) Q X K s"
  unfolding file_identity_def
  by (intro wp_intros assms) (auto simp: fs_read_def regular_at_node split: node.splits)

lemma wp_read_regular_bytes [wp_intros]:
  assumes "\<And>b. node_via s p = Some (Reg b) \<Longrightarrow> (\<And>n. limit = Some n \<Longrightarrow> length b \<le> n) \<Longrightarrow> Q b s"
    and "\<And>e. X e s" "K s"
  shows "wp (read_regular_bytes p limit) Q X K s"
  unfolding read_regular_bytes_def
  by (intro wp_intros assms)
    (auto simp: fs_read_def regular_at_node stat_ino_def node_size_def not_less min_def
      split: node.splits if_splits)

section \<open>The atomic replace\<close>

lemma wp_uuid4 [wp_intros]: "(\<And>u. Q u s) \<Longrightarrow> wp uuid4 Q X K s"
  by (simp add: wp_def uuid4_def)

lemma wp_fsync_directory [wp_intros]: "Q () s \<Longrightarrow> (\<And>e. X e s) \<Longrightarrow> K s \<Longrightarrow> wp (fsync_directory p) Q X K s"
  unfolding fsync_directory_def by (intro wp_intros) simp_all

lemma temp_name_fresh: "temp_name n u \<noteq> n" "temp_name n u \<noteq> dotdot"
proof -
  have "length (temp_name n u) > length n" by (simp add: temp_name_def)
  then show "temp_name n u \<noteq> n" by auto
  show "temp_name n u \<noteq> dotdot" by (simp add: temp_name_def dotdot_def lit_def)
qed

lemma fs_lexists_iff: "fs_lexists p s \<longleftrightarrow> node_via s p \<noteq> None"
  by (auto simp: fs_lexists_def fs_lstat_def node_via_def node_at_def rbind_def
      split: option.splits sum.splits)

text \<open>
  The stages of a write below directory \<open>q\<close>: a temporary file with the inode \<open>i\<close> and content
  \<open>b\<close>, everything else as in \<open>s0\<close>; then the destination replaced and the temporary name gone.
\<close>

definition staged :: "fs \<Rightarrow> path \<Rightarrow> ino \<Rightarrow> bytes \<Rightarrow> fs \<Rightarrow> bool" where
  "staged s0 tmp i b s \<longleftrightarrow> wf_fs s \<and> sole s tmp i
     \<and> (\<forall>p. node_at s p = (if p = tmp then Some (Reg b) else node_at s0 p))"

definition published :: "fs \<Rightarrow> path \<Rightarrow> bytes \<Rightarrow> fs \<Rightarrow> bool" where
  "published s0 dst b s \<longleftrightarrow> wf_fs s \<and> (\<forall>p. node_at s p = (if p = dst then Some (Reg b) else node_at s0 p))"

definition untouched :: "fs \<Rightarrow> path \<Rightarrow> fs \<Rightarrow> bool" where
  "untouched s0 tmp s \<longleftrightarrow> wf_fs s \<and> (\<forall>p. p \<noteq> tmp \<longrightarrow> node_at s p = node_at s0 p)
     \<and> (node_at s tmp = None \<or> (\<exists>b. node_at s tmp = Some (Reg b)))"

lemma staged_untouched: "staged s0 tmp i b s \<Longrightarrow> untouched s0 tmp s"
  by (simp add: staged_def untouched_def)

lemma staged_create:
  assumes "wf_fs s0" "node_at s0 q = Some Dir" "c \<noteq> dotdot" "fs_create (Reg []) (q @ [c]) s0 = (Inr i, s1)"
  shows "staged s0 (q @ [c]) i [] s1" "node_at s0 (q @ [c]) = None"
proof -
  have l: "locate s0 False (q @ [c]) = Inr (q @ [c])" using assms by (intro locate_child)
  with assms(4) have e: "entry s0 (q @ [c]) = None" "i = fs_next s0"
    and s1: "\<exists>dv. s1 = s0\<lparr>fs_names := fs_names s0 @ [(q @ [c], fs_next s0)],
        fs_nodes := (fs_nodes s0)(fs_next s0 := Reg []), fs_dev := dv, fs_next := Suc (fs_next s0)\<rparr>"
    by (auto simp: fs_create_def Let_def split: if_splits)
  then have n: "node_at s1 p = (if p = q @ [c] then Some (Reg []) else node_at s0 p)" for p
    using node_at_create [OF assms(1) e(1)] by auto
  have "entry s0 p \<noteq> Some i" for p
    using assms(1) e(2) by (auto simp: entry_in_names wf_fs_def)
  then have "sole s1 (q @ [c]) i"
    using s1 e by (auto simp: sole_def entry_def map_add_def split: option.splits if_splits)
  moreover have "dotdot \<notin> set (q @ [c])"
    using assms(1-3) wf_fs_no_dotdot [of s0 q] by (auto simp: node_at_def)
  then have "wf_fs s1" using s1 wf_fs_create [OF assms(1) e(1)] assms(2) by auto
  ultimately show "staged s0 (q @ [c]) i [] s1" using n by (simp add: staged_def)
  show "node_at s0 (q @ [c]) = None" using e(1) by (simp add: node_at_def)
qed

lemma staged_write: "staged s0 tmp i b s \<Longrightarrow> staged s0 tmp i b' (fs_set i b' s)"
  by (auto simp: staged_def node_at_set intro: wf_fs_set) (simp add: sole_def entry_def fs_set_def)

text \<open>The situation when the temporary file has been created.\<close>

definition write_target :: "fs \<Rightarrow> path \<Rightarrow> path \<Rightarrow> pystr \<Rightarrow> bool" where
  "write_target s0 d q c \<longleftrightarrow>
     wf_fs s0 \<and> d \<noteq> [] \<and> last d \<noteq> dotdot \<and> locate s0 True (butlast d) = Inr q
     \<and> node_at s0 q = Some Dir \<and> c \<noteq> last d \<and> c \<noteq> dotdot \<and> node_at s0 (q @ [c]) = None
     \<and> (node_at s0 (q @ [last d]) = None \<or> (\<exists>b. node_at s0 (q @ [last d]) = Some (Reg b)))"

lemma target_locate:
  assumes w: "write_target s0 d q c" and t: "same_tree s0 s"
  shows "locate s False (q @ [c]) = Inr (q @ [c])" "locate s False d = Inr (q @ [last d])"
    "node_via s (q @ [c]) = node_at s (q @ [c])"
proof -
  have q0: "node_at s0 q = Some Dir" "wf_fs s0" "locate s0 True (butlast d) = Inr q"
    and d: "d \<noteq> []" "last d \<noteq> dotdot" "c \<noteq> dotdot"
    using w by (simp_all add: write_target_def)
  have "locate s0 True q = Inr q"
    using walk_physical [OF q0(2,1), of MAX_LINKS True "[]"] by (simp add: locate_def)
  then have q: "locate s True q = Inr q" "locate s True (butlast d) = Inr q"
    using walk_same_tree [OF t _ q0(1)] q0(3) by (simp_all add: locate_def)
  have n: "node_at s q = Some Dir" using t q0(1) by (simp add: same_tree_def)
  show l: "locate s False (q @ [c]) = Inr (q @ [c])" using q(1) n d(3) by (rule locate_under)
  show "locate s False d = Inr (q @ [last d])"
    using locate_under [OF q(2) n d(2)] d(1) by simp
  show "node_via s (q @ [c]) = node_at s (q @ [c])" by (simp add: node_via_def l)
qed

lemma staged_tree: "write_target s0 d q c \<Longrightarrow> staged s0 (q @ [c]) i b s \<Longrightarrow> same_tree s0 s"
  by (auto simp: staged_def same_tree_def write_target_def)

lemma published_tree: "write_target s0 d q c \<Longrightarrow> published s0 (q @ [last d]) b s \<Longrightarrow> same_tree s0 s"
  by (auto simp: published_def same_tree_def is_lnk_def write_target_def)

lemma replace_publishes:
  assumes w: "write_target s0 d q c" and s: "staged s0 (q @ [c]) i b s"
  shows "fs_replace (q @ [c]) d s = (Inr x, s') \<Longrightarrow> published s0 (q @ [last d]) b s'"
    and "fs_replace (q @ [c]) d s = (Inl e, s') \<Longrightarrow> staged s0 (q @ [c]) i b s'"
proof -
  note l = target_locate [OF w staged_tree [OF w s]]
  have n: "node_at s (q @ [c]) = Some (Reg b)" "entry s (q @ [c]) = Some i"
    using s by (auto simp: staged_def sole_def)
  have "q @ [c] \<noteq> q @ [last d]" "node_at s0 (q @ [c]) = None" using w by (auto simp: write_target_def)
  moreover have "node_at s q = Some Dir" using w s by (auto simp: write_target_def staged_def)
  moreover have "dotdot \<notin> set (q @ [last d])"
    using w wf_fs_no_dotdot [of s0 q] by (auto simp: write_target_def node_at_def)
  moreover have "node_at s (q @ [last d]) \<noteq> Some Dir"
    using w s by (auto simp: write_target_def staged_def)
  moreover have "wf_fs s" using s by (simp add: staged_def)
  ultimately have wf: "wf_fs (fs_move (q @ [c]) (q @ [last d]) s)"
    using n by (intro wf_fs_move [OF _ n(2)]) auto
  have "q @ [c] \<noteq> q @ [last d]" "node_at s0 (q @ [c]) = None" using w by (auto simp: write_target_def)
  then show "fs_replace (q @ [c]) d s = (Inr x, s') \<Longrightarrow> published s0 (q @ [last d]) b s'"
    "fs_replace (q @ [c]) d s = (Inl e, s') \<Longrightarrow> staged s0 (q @ [c]) i b s'"
    using s l(1,2) n
    by (auto simp: fs_replace_def staged_def published_def node_at_move wf split: if_splits)
qed

lemma cleanup_restores:
  assumes w: "write_target s0 d q c" and s: "staged s0 (q @ [c]) i b s"
  shows "fs_unlink (q @ [c]) s = (r, s') \<Longrightarrow> untouched s0 (q @ [c]) s'"
  using s target_locate(1) [OF w staged_tree [OF w s]]
  by (auto simp: fs_unlink_def staged_def node_at_unlink untouched_def wf_fs_unlink
      split: option.splits if_splits)

lemma temp_visible:
  assumes w: "write_target s0 d q c"
  shows "published s0 (q @ [last d]) b s \<Longrightarrow> \<not> fs_lexists (q @ [c]) s"
    and "staged s0 (q @ [c]) i b s \<Longrightarrow> fs_lexists (q @ [c]) s"
  using w target_locate(3) [OF w published_tree [OF w]] target_locate(3) [OF w staged_tree [OF w]]
  by (auto simp: fs_lexists_iff published_def staged_def write_target_def)

text \<open>What may be left when a write does not return: the old tree or the new one.\<close>

definition old_or_new :: "fs \<Rightarrow> path \<Rightarrow> bytes \<Rightarrow> fs \<Rightarrow> bool" where
  "old_or_new s0 d b s \<longleftrightarrow>
     s = s0 \<or> (\<exists>q c. write_target s0 d q c \<and> (untouched s0 (q @ [c]) s \<or> published s0 (q @ [last d]) b s))"

lemma old_or_newI:
  "write_target s0 d q c \<Longrightarrow> untouched s0 (q @ [c]) s \<Longrightarrow> old_or_new s0 d b s"
  "write_target s0 d q c \<Longrightarrow> published s0 (q @ [last d]) b s \<Longrightarrow> old_or_new s0 d b s"
  by (auto simp: old_or_new_def)

lemma fs_create_absent: "fs_create nd p s0 = (Inl e, s1) \<Longrightarrow> s1 = s0"
  by (auto simp: fs_create_def Let_def split: sum.splits if_splits)

lemma wp_remove_temporary:
  assumes w: "write_target s0 d q c"
  shows "staged s0 (q @ [c]) i b s \<Longrightarrow> wp (remove_temporary (q @ [c])) (\<lambda>_. old_or_new s0 d payload)
      (\<lambda>_. old_or_new s0 d payload) (old_or_new s0 d payload) s"
    and "published s0 (q @ [last d]) payload s \<Longrightarrow> Q s \<Longrightarrow> wp (remove_temporary (q @ [c])) (\<lambda>_. Q)
      (\<lambda>_. old_or_new s0 d payload) (old_or_new s0 d payload) s"
proof -
  assume s: "staged s0 (q @ [c]) i b s"
  then have "old_or_new s0 d payload s" using old_or_newI(1) [OF w staged_untouched] by blast
  then show "wp (remove_temporary (q @ [c])) (\<lambda>_. old_or_new s0 d payload)
      (\<lambda>_. old_or_new s0 d payload) (old_or_new s0 d payload) s"
    unfolding remove_temporary_def
    by (intro wp_intros) (auto intro: old_or_newI(1) [OF w cleanup_restores [OF w s]])
next
  assume s: "published s0 (q @ [last d]) payload s" "Q s"
  then have "old_or_new s0 d payload s" using old_or_newI(2) [OF w] by blast
  with s(2) temp_visible(1) [OF w s(1)] show "wp (remove_temporary (q @ [c])) (\<lambda>_. Q)
      (\<lambda>_. old_or_new s0 d payload) (old_or_new s0 d payload) s"
    unfolding remove_temporary_def by (intro wp_intros) auto
qed

lemma wp_publish_temporary:
  assumes w: "write_target s0 d q c" and s: "staged s0 (q @ [c]) i [] s"
  shows "wp (publish_temporary i (q @ [c]) d q payload)
     (\<lambda>_. published s0 (q @ [last d]) payload) (\<lambda>_. old_or_new s0 d payload) (old_or_new s0 d payload) s"
proof -
  note s2 = staged_write [OF s]
  note clean = wp_remove_temporary(1) [OF w] and fin = wp_remove_temporary(2) [OF w]
  have st: "old_or_new s0 d payload s'" if "staged s0 (q @ [c]) i b s'" for b s'
    using old_or_newI(1) [OF w staged_untouched [OF that]] .
  have pu: "old_or_new s0 d payload s'" if "published s0 (q @ [last d]) payload s'" for s'
    using old_or_newI(2) [OF w that] .
  let ?O = "old_or_new s0 d payload"
  let ?Q = "\<lambda>_. wp (remove_temporary (q @ [c])) (\<lambda>_. published s0 (q @ [last d]) payload) (\<lambda>_. ?O) ?O"
  let ?X = "\<lambda>_. wp (remove_temporary (q @ [c])) (\<lambda>_. ?O) (\<lambda>_. ?O) ?O"
  have sync: "wp (fsync_directory q) ?Q ?X ?O s'" if "published s0 (q @ [last d]) payload s'" for s'
    by (rule wp_fsync_directory) (auto intro: fin that pu)
  have repl: "wp (iob (sys (fs_replace (q @ [c]) d)) (\<lambda>_. fsync_directory q)) ?Q ?X ?O s'"
    if "staged s0 (q @ [c]) i payload s'" for s'
    by (rule wp_iob, rule wp_sys)
      (erule sync [OF replace_publishes(1) [OF w that]] clean [OF replace_publishes(2) [OF w that]]
        | rule clean [OF that] st [OF that])+
  show ?thesis
    unfolding publish_temporary_def write_file_def
  proof (rule wp_finally, rule wp_iob, rule wp_sys_torn)
    fix x s' assume "(\<lambda>s. (Inr (), fs_set i payload s)) s = (Inr x, s')"
    then have s': "staged s0 (q @ [c]) i payload s'" using s2 by auto
    show "wp (iob (look (\<lambda>_. Inr ())) (\<lambda>_. iob (sys (fs_replace (q @ [c]) d)) (\<lambda>_. fsync_directory q)))
        ?Q ?X ?O s'"
      by (rule wp_iob, rule wp_look) (rule repl [OF s'] clean [OF s'] st [OF s'])+
  qed (use clean [OF s] st [OF s] st [OF s2] in auto)
qed

lemma old_or_new_refl: "old_or_new s0 d b s0"
  by (simp add: old_or_new_def)

lemma wp_atomic_write_bytes:
  assumes "wf_fs s0" "d \<noteq> []" "last d \<noteq> dotdot"
  shows "wp (atomic_write_bytes L d payload)
    (\<lambda>_ s. \<exists>q c. write_target s0 d q c \<and> published s0 (q @ [last d]) payload s)
    (\<lambda>_. old_or_new s0 d payload) (old_or_new s0 d payload) s0"
proof -
  have target: "write_target s0 d q (temp_name (last d) u) \<and> staged s0 (q @ [temp_name (last d) u]) i [] s1"
    if q: "locate s0 True (butlast d) = Inr q" "node_at s0 q = Some Dir"
      and old: "fs_lexists d s0 \<longrightarrow> (\<exists>b. node_via s0 d = Some (Reg b))"
      and new: "fs_create (Reg []) (q @ [temp_name (last d) u]) s0 = (Inr i, s1)" for q u i s1
  proof -
    note st = staged_create [OF assms(1) q(2) temp_name_fresh(2) new]
    have "node_via s0 d = node_at s0 (q @ [last d])"
      using node_via_under [OF q same_tree_refl assms(3)] assms(2) by simp
    then have "node_at s0 (q @ [last d]) = None \<or> (\<exists>b. node_at s0 (q @ [last d]) = Some (Reg b))"
      using old by (auto simp: fs_lexists_iff)
    with st assms q temp_name_fresh show ?thesis by (simp add: write_target_def)
  qed
  show ?thesis
    unfolding atomic_write_bytes_def
    by (intro wp_intros)
      (auto intro!: old_or_new_refl wp_mono [OF wp_publish_temporary] dest: target fs_create_absent)
qed

text \<open>What a reader of the destination sees afterwards.\<close>

lemma published_via:
  assumes "write_target s0 d q c" "published s0 (q @ [last d]) b s"
  shows "node_via s d = Some (Reg b)"
  using target_locate(2) [OF assms(1) published_tree [OF assms]] assms(2)
  by (simp add: node_via_def published_def)

lemma untouched_via:
  assumes w: "write_target s0 d q c" and u: "untouched s0 (q @ [c]) s"
  shows "node_via s d = node_via s0 d"
proof -
  have c: "node_at s0 (q @ [c]) = None" "last d \<noteq> c" using w by (auto simp: write_target_def)
  then have same: "node_at s x = node_at s0 x" if "x \<noteq> q @ [c]" for x
    using u that by (simp add: untouched_def)
  have "same_tree s0 s" unfolding same_tree_def using same c(1) by (metis option.distinct(1))
  then show ?thesis
    using target_locate(2) [OF w] same_tree_refl [of s0] same [of "q @ [last d]"] c(2)
    by (simp add: node_via_def)
qed

lemma old_or_new_cases:
  assumes "old_or_new s0 d b s" "wf_fs s0"
  shows "node_via s d = node_via s0 d \<or> node_via s d = Some (Reg b)"
    and "\<exists>q c. \<forall>p. p \<noteq> q @ [last d] \<and> p \<noteq> q @ [c] \<longrightarrow> node_at s p = node_at s0 p"
    and "wf_fs s"
proof -
  consider "s = s0" | q c where "write_target s0 d q c" "untouched s0 (q @ [c]) s"
    | q c where "write_target s0 d q c" "published s0 (q @ [last d]) b s"
    using assms(1) unfolding old_or_new_def by blast
  then have "(node_via s d = node_via s0 d \<or> node_via s d = Some (Reg b)) \<and> wf_fs s
    \<and> (\<exists>q c. \<forall>p. p \<noteq> q @ [last d] \<and> p \<noteq> q @ [c] \<longrightarrow> node_at s p = node_at s0 p)"
  proof cases
    case 2
    then have "\<forall>p. p \<noteq> q @ [last d] \<and> p \<noteq> q @ [c] \<longrightarrow> node_at s p = node_at s0 p" "wf_fs s"
      by (simp_all add: untouched_def)
    with untouched_via [OF 2] show ?thesis by blast
  next
    case 3
    then have "\<forall>p. p \<noteq> q @ [last d] \<and> p \<noteq> q @ [c] \<longrightarrow> node_at s p = node_at s0 p" "wf_fs s"
      by (simp_all add: published_def)
    with published_via [OF 3] show ?thesis by blast
  qed (use assms(2) in simp)
  then show "node_via s d = node_via s0 d \<or> node_via s d = Some (Reg b)" "wf_fs s"
    "\<exists>q c. \<forall>p. p \<noteq> q @ [last d] \<and> p \<noteq> q @ [c] \<longrightarrow> node_at s p = node_at s0 p" by blast+
qed

section \<open>The move into quarantine\<close>

definition moved :: "fs \<Rightarrow> path \<Rightarrow> path \<Rightarrow> fs \<Rightarrow> bool" where
  "moved s0 a b s \<longleftrightarrow> wf_fs s
     \<and> (\<forall>p. node_at s p = (if p = b then node_at s0 a else if p = a then None else node_at s0 p))"

definition move_target :: "fs \<Rightarrow> path \<Rightarrow> path \<Rightarrow> path \<Rightarrow> path \<Rightarrow> bool" where
  "move_target s0 src dst a b \<longleftrightarrow>
     (\<exists>p q. locate s0 True (butlast src) = Inr p \<and> locate s0 True (butlast dst) = Inr q
        \<and> node_at s0 p = Some Dir \<and> node_at s0 q = Some Dir \<and> a = p @ [last src] \<and> b = q @ [last dst])
     \<and> node_at s0 b = None \<and> (\<exists>c. node_at s0 a = Some (Reg c))"

lemma wp_rename_no_replace:
  assumes "wf_fs s0" "node_at s0 p = Some Dir" "node_at s0 q = Some Dir" "c \<noteq> dotdot" "e \<noteq> dotdot"
    and "node_at s0 (p @ [c]) = Some (Reg x)"
    and "\<And>s. moved s0 (p @ [c]) (q @ [e]) s \<Longrightarrow> node_at s0 (q @ [e]) = None \<Longrightarrow> Q () s"
    and "\<And>e. X e s0" "K s0"
  shows "wp (rename_no_replace (p @ [c]) (q @ [e])) Q X K s0"
proof -
  have l: "locate s0 False (p @ [c]) = Inr (p @ [c])" "locate s0 False (q @ [e]) = Inr (q @ [e])"
    using assms(1-5) by (simp_all add: locate_child)
  obtain i where i: "entry s0 (p @ [c]) = Some i" using assms(6) by (auto simp: node_at_def)
  have m: "moved s0 (p @ [c]) (q @ [e]) (fs_move (p @ [c]) (q @ [e]) s0)"
    if "entry s0 (q @ [e]) = None"
  proof -
    have "p @ [c] \<noteq> q @ [e]" using that i by auto
    moreover have "dotdot \<notin> set (q @ [e])"
      using assms(1,3,5) wf_fs_no_dotdot [of s0 q] by (auto simp: node_at_def)
    then have "wf_fs (fs_move (p @ [c]) (q @ [e]) s0)"
      using assms that calculation by (intro wf_fs_move [OF assms(1) i]) (auto simp: node_at_def)
    ultimately show ?thesis using node_at_move [OF i] by (simp add: moved_def)
  qed
  show ?thesis
    unfolding rename_no_replace_def
    by (intro wp_intros)
      (use l i m assms(7-) in \<open>auto simp: fs_rename_noreplace_def node_at_def split: if_splits\<close>)
qed

lemma moved_tree:
  assumes "move_target s0 src dst a b" "moved s0 a b s"
  shows "same_tree s0 s"
  using assms by (auto simp: move_target_def moved_def same_tree_def is_lnk_def)

lemma wp_move_regular:
  assumes wf: "wf_fs s0" and names: "last src \<noteq> dotdot" "last dst \<noteq> dotdot"
  shows "wp (move_regular_same_filesystem L src dst)
    (\<lambda>v s. \<exists>a b c. move_target s0 src dst a b \<and> moved s0 a b s \<and> node_at s0 a = Some (Reg c)
       \<and> v = identity_of L c)
    (\<lambda>_ s. s = s0 \<or> (\<exists>a b. move_target s0 src dst a b \<and> moved s0 a b s))
    (\<lambda>s. s = s0 \<or> (\<exists>a b. move_target s0 src dst a b \<and> moved s0 a b s)) s0"
    (is "wp _ ?Q ?X ?K s0")
proof -
  have child: "node_via s (p @ [c]) = node_at s (p @ [c])"
    if "node_at s0 p = Some Dir" "c \<noteq> dotdot" "same_tree s0 s" for s p c
  proof -
    have "locate s0 True p = Inr p"
      using walk_physical [OF wf that(1), of MAX_LINKS True "[]"] by (simp add: locate_def)
    then show ?thesis using that by (intro node_via_under) auto
  qed
  show ?thesis
    unfolding move_regular_same_filesystem_def
  proof (intro wp_iob wp_checked_directory wp_let wp_path_lexists wp_if wp_raise wp_reraise wp_look
      wp_ret wp_file_identity; (simp; fail)?)
    fix p q m1 m2 ca
    assume p: "locate s0 True (butlast src) = Inr p" "node_at s0 p = Some Dir"
      and q: "locate s0 True (butlast dst) = Inr q" "node_at s0 q = Some Dir"
      and absent: "\<not> fs_lexists (q @ [last dst]) s0"
      and ca: "node_via s0 (p @ [last src]) = Some (Reg ca)"
    let ?a = "p @ [last src]" and ?b = "q @ [last dst]"
    have n: "node_at s0 ?a = Some (Reg ca)" "node_at s0 ?b = None"
      using ca absent child [OF p(2) names(1) same_tree_refl] child [OF q(2) names(2) same_tree_refl]
      by (simp_all add: fs_lexists_iff)
    have t: "move_target s0 src dst ?a ?b" using p q n by (auto simp: move_target_def)
    have after: "node_via s ?b = Some (Reg ca)" if "moved s0 ?a ?b s" for s
      using child [OF q(2) names(2) moved_tree [OF t that]] that n(1) by (simp add: moved_def)
    show "wp (rename_no_replace ?a ?b) (\<lambda>_. wp (iob (file_identity L ?b) (\<lambda>actual.
        if \<not> identities_match actual (identity_of L ca) then raise EvidenceError
        else iob (fsync_directory p) (\<lambda>_. iob (if q \<noteq> p then fsync_directory q else ret ()) (\<lambda>_. ret actual))))
        ?Q ?X ?K) ?X ?K s0"
    proof (rule wp_rename_no_replace [OF wf p(2) q(2) names n(1)])
      fix s assume m: "moved s0 ?a ?b s"
      then have k: "?Q (identity_of L ca) s" "?K s" "\<And>e. ?X e s" using t n(1) by blast+
      show "wp (iob (file_identity L ?b) (\<lambda>actual.
        if \<not> identities_match actual (identity_of L ca) then raise EvidenceError
        else iob (fsync_directory p) (\<lambda>_. iob (if q \<noteq> p then fsync_directory q else ret ()) (\<lambda>_. ret actual))))
        ?Q ?X ?K s"
        by (intro wp_iob wp_file_identity wp_if wp_raise wp_fsync_directory wp_ret)
          (use k after [OF m] in simp_all)
    qed simp_all
  qed
qed

section \<open>Runs without faults\<close>

lemma runs_uuid4 [runs_intros]: "(\<And>u. u \<in> U \<Longrightarrow> Q u s) \<Longrightarrow> runs U uuid4 Q s"
  by (simp add: runs_def uuid4_def quiet_def)

lemma runs_path_lexists [runs_intros]: "Q (fs_lexists p s) s \<Longrightarrow> runs U (path_lexists p) Q s"
  unfolding path_lexists_def by (rule runs_peek)

text \<open>A directory given by its physical path, and a file in it.\<close>

definition dir_at :: "fs \<Rightarrow> path \<Rightarrow> bool" where
  "dir_at s q \<longleftrightarrow> wf_fs s \<and> node_at s q = Some Dir"

lemma dir_at_locate: "dir_at s q \<Longrightarrow> locate s f q = Inr q"
  unfolding dir_at_def locate_def using walk_physical [of s q MAX_LINKS f "[]"] by simp

lemma file_at_locate: "dir_at s q \<Longrightarrow> c \<noteq> dotdot \<Longrightarrow> locate s False (q @ [c]) = Inr (q @ [c])"
  unfolding dir_at_def using locate_child by blast

lemma file_at_via: "dir_at s q \<Longrightarrow> c \<noteq> dotdot \<Longrightarrow> node_via s (q @ [c]) = node_at s (q @ [c])"
  by (simp add: node_via_def file_at_locate)

lemma node_at_entry: "node_at s p = Some nd \<longleftrightarrow> (\<exists>i. entry s p = Some i \<and> fs_nodes s i = nd)"
  by (auto simp: node_at_def)

lemma runs_checked_directory [runs_intros]:
  assumes "dir_at s q" "Q q s"
  shows "runs U (checked_directory q) Q s"
proof -
  obtain i where "entry s q = Some i" "fs_nodes s i = Dir"
    using assms(1) by (auto simp: dir_at_def node_at_entry)
  then have "fs_lstat q s = Inr (stat_ino s i)" "fs_resolve q s = Inr q" "st_node (stat_ino s i) = Dir"
    using dir_at_locate [OF assms(1)] by (simp_all add: fs_lstat_def fs_resolve_def stat_ino_def)
  with assms(2) show ?thesis
    unfolding checked_directory_def by (intro runs_intros) (auto simp: is_lnk_def intro!: runs_intros)
qed

lemma runs_fsync_directory [runs_intros]:
  assumes "dir_at s q" "Q () s"
  shows "runs U (fsync_directory q) Q s"
proof -
  obtain i where "entry s q = Some i" "fs_nodes s i = Dir"
    using assms(1) by (auto simp: dir_at_def node_at_entry)
  then have "fs_open_nofollow q s = Inr i"
    using dir_at_locate [OF assms(1)] by (simp add: fs_open_nofollow_def is_lnk_def)
  with assms(2) show ?thesis unfolding fsync_directory_def by (intro runs_intros) auto
qed

lemma runs_open_regular:
  assumes "dir_at s q" "c \<noteq> dotdot" "entry s (q @ [c]) = Some i" "fs_nodes s i = Reg b" "Q i s"
  shows "runs U (open_regular_readonly (q @ [c])) Q s"
proof -
  have "fs_lstat (q @ [c]) s = Inr (stat_ino s i)" "fs_open_nofollow (q @ [c]) s = Inr i"
    "st_node (stat_ino s i) = Reg b"
    using file_at_locate [OF assms(1,2)] assms(3,4)
    by (simp_all add: fs_lstat_def fs_open_nofollow_def stat_ino_def is_lnk_def)
  with assms(5) show ?thesis
    unfolding open_regular_readonly_def
    by (intro runs_intros) (auto simp: is_lnk_def is_reg_def intro!: runs_intros)
qed

lemma runs_file_identity [runs_intros]:
  assumes "dir_at s q" "c \<noteq> dotdot" "node_at s (q @ [c]) = Some (Reg b)" "Q (identity_of L b) s"
  shows "runs U (file_identity L (q @ [c])) Q s"
proof -
  obtain i where "entry s (q @ [c]) = Some i" "fs_nodes s i = Reg b"
    using assms(3) by (auto simp: node_at_entry)
  with assms show ?thesis
    unfolding file_identity_def
    by (intro runs_iob runs_open_regular) (auto simp: fs_read_def intro!: runs_intros)
qed

lemma runs_read_regular_bytes [runs_intros]:
  assumes "dir_at s q" "c \<noteq> dotdot" "node_at s (q @ [c]) = Some (Reg b)"
    and "\<And>n. limit = Some n \<Longrightarrow> length b \<le> n" "Q b s"
  shows "runs U (read_regular_bytes (q @ [c]) limit) Q s"
proof -
  obtain i where "entry s (q @ [c]) = Some i" "fs_nodes s i = Reg b"
    using assms(3) by (auto simp: node_at_entry)
  with assms show ?thesis
    unfolding read_regular_bytes_def
    by (intro runs_iob runs_open_regular)
      (auto simp: fs_read_def stat_ino_def node_size_def split: option.splits intro!: runs_intros)
qed

lemma runs_atomic_write_bytes [runs_intros]:
  assumes d: "dir_at s0 q" "c \<noteq> dotdot"
    and old: "node_at s0 (q @ [c]) = None \<or> (\<exists>b. node_at s0 (q @ [c]) = Some (Reg b))"
    and fresh: "\<And>u. u \<in> U \<Longrightarrow> node_at s0 (q @ [temp_name c u]) = None"
    and Q: "\<And>s. published s0 (q @ [c]) payload s \<Longrightarrow> Q () s"
  shows "runs U (atomic_write_bytes L (q @ [c]) payload) Q s0"
proof -
  have main: "runs U (iob (sys (fs_create (Reg []) (q @ [temp_name c u]))) (\<lambda>i.
      publish_temporary i (q @ [temp_name c u]) (q @ [c]) q payload)) Q s0" if u: "u \<in> U" for u
  proof -
    let ?t = "temp_name c u"
    obtain i s1 where new: "fs_create (Reg []) (q @ [?t]) s0 = (Inr i, s1)"
      using fresh [OF u] file_at_locate [OF d(1) temp_name_fresh(2)]
      by (auto simp: fs_create_def Let_def node_at_def)
    have w: "write_target s0 (q @ [c]) q ?t"
      using d old fresh [OF u] dir_at_locate [OF d(1)] temp_name_fresh
      by (simp add: write_target_def dir_at_def)
    have st: "staged s0 (q @ [?t]) i [] s1"
      using staged_create [OF _ _ temp_name_fresh(2) new] d(1) by (simp add: dir_at_def)
    let ?s2 = "fs_set i payload s1"
    have s2: "staged s0 (q @ [?t]) i payload ?s2" using staged_write [OF st] .
    have l: "locate ?s2 False (q @ [?t]) = Inr (q @ [?t])" "locate ?s2 False (q @ [c]) = Inr (q @ [c])"
      using target_locate [OF w staged_tree [OF w s2]] by simp_all
    have "node_at ?s2 (q @ [c]) \<noteq> Some Dir" "node_at ?s2 (q @ [?t]) = Some (Reg payload)"
      using s2 old w by (auto simp: staged_def)
    with l temp_name_fresh have r: "fs_replace (q @ [?t]) (q @ [c]) ?s2 = (Inr (), fs_move (q @ [?t]) (q @ [c]) ?s2)"
      by (simp add: fs_replace_def)
    note p = replace_publishes(1) [OF w s2 r, unfolded last_snoc]
    then have "dir_at (fs_move (q @ [?t]) (q @ [c]) ?s2) q" "\<not> fs_lexists (q @ [?t]) (fs_move (q @ [?t]) (q @ [c]) ?s2)"
      using d(1) temp_visible(1) [OF w] by (auto simp: dir_at_def published_def)
    with new r p Q show ?thesis
      unfolding publish_temporary_def write_file_def remove_temporary_def
      by (intro runs_intros) (auto intro!: runs_intros)
  qed
  have "runs U (if fs_lexists (q @ [c]) s0 then iob (file_identity L (q @ [c])) (\<lambda>_. ret ()) else ret ())
      (\<lambda>_ s. s = s0) s0"
    using old file_at_via [OF d] by (auto simp: fs_lexists_iff intro!: runs_intros runs_file_identity d)
  note identity = this
  have rest: "runs U (iob uuid4 (\<lambda>u. let temporary = q @ [temp_name c u] in
      iob (sys (fs_create (Reg []) temporary)) (\<lambda>i. publish_temporary i temporary (q @ [c]) q payload))) Q s0"
    by (rule runs_iob, rule runs_uuid4, rule runs_let, erule main)
  show ?thesis
    unfolding atomic_write_bytes_def butlast_snoc last_snoc
    by (rule runs_iob, rule runs_checked_directory [OF d(1)], rule runs_iob, rule runs_path_lexists,
        rule runs_iob, rule runs_mono [OF identity], simp only: rest)
qed

section \<open>Cells\<close>

text \<open>
  A file that is only ever replaced as a whole. The interface the transition protocol relies on:
  a put installs the content of its value or leaves the cell as it was, whatever fails, keeps
  every other existing name, makes no name outside the directory of the cell, and succeeds when
  nothing fails.
\<close>

definition kept :: "fs \<Rightarrow> fs \<Rightarrow> path set \<Rightarrow> bool" where
  "kept s0 s P \<longleftrightarrow> wf_fs s \<and> (\<forall>x. x \<notin> P \<longrightarrow> node_at s0 x \<noteq> None \<longrightarrow> node_at s x = node_at s0 x)
     \<and> (\<forall>x. node_at s0 x = None \<longrightarrow> node_at s x \<noteq> None \<longrightarrow> butlast x \<in> butlast ` P)"

lemma kept_refl: "wf_fs s \<Longrightarrow> kept s s P"
  by (simp add: kept_def)

lemma kept_trans: "kept s0 s1 P \<Longrightarrow> kept s1 s2 P \<Longrightarrow> kept s0 s2 P"
  unfolding kept_def by metis

lemma kept_mono: "kept s0 s P \<Longrightarrow> P \<subseteq> P' \<Longrightarrow> kept s0 s P'"
  unfolding kept_def by blast

lemma kept_dir: "kept s0 s P \<Longrightarrow> dir_at s0 r \<Longrightarrow> r \<notin> P \<Longrightarrow> dir_at s r"
  by (auto simp: kept_def dir_at_def)

definition holds :: "('v \<Rightarrow> bytes option) \<Rightarrow> fs \<Rightarrow> path \<Rightarrow> 'v \<Rightarrow> bool" where
  "holds content s p v \<longleftrightarrow> (\<exists>b. content v = Some b \<and> node_at s p = Some (Reg b))"

definition put_outcome :: "('v \<Rightarrow> bytes option) \<Rightarrow> fs \<Rightarrow> path \<Rightarrow> 'v \<Rightarrow> fs \<Rightarrow> bool" where
  "put_outcome content s0 p v s \<longleftrightarrow>
     kept s0 s {p} \<and> (holds content s p v \<or> node_at s p = node_at s0 p)"

locale atomic_cell =
  fixes put :: "path \<Rightarrow> 'v \<Rightarrow> unit io" and content :: "'v \<Rightarrow> bytes option"
  assumes put_wp: "dir_at s0 r \<Longrightarrow> c \<noteq> dotdot \<Longrightarrow>
      wp (put (r @ [c]) v) (\<lambda>_ s. kept s0 s {r @ [c]} \<and> holds content s (r @ [c]) v)
        (\<lambda>_. put_outcome content s0 (r @ [c]) v) (put_outcome content s0 (r @ [c]) v) s0"
    and put_runs: "dir_at s0 r \<Longrightarrow> c \<noteq> dotdot \<Longrightarrow>
      node_at s0 (r @ [c]) = None \<or> (\<exists>b. node_at s0 (r @ [c]) = Some (Reg b)) \<Longrightarrow>
      (\<And>u. u \<in> U \<Longrightarrow> node_at s0 (r @ [temp_name c u]) = None) \<Longrightarrow> content v = Some b \<Longrightarrow>
      runs U (put (r @ [c]) v) (\<lambda>_ s. wf_fs s
        \<and> (\<forall>p. node_at s p = (if p = r @ [c] then Some (Reg b) else node_at s0 p))) s0"
begin

lemma put_rule:
  assumes "dir_at s0 r" "c \<noteq> dotdot"
    and "\<And>s b. kept s0 s {r @ [c]} \<Longrightarrow> content v = Some b \<Longrightarrow> node_at s (r @ [c]) = Some (Reg b) \<Longrightarrow> Q () s"
    and "\<And>e s. put_outcome content s0 (r @ [c]) v s \<Longrightarrow> X e s"
    and "\<And>s. put_outcome content s0 (r @ [c]) v s \<Longrightarrow> K s"
  shows "wp (put (r @ [c]) v) Q X K s0"
  by (rule wp_mono [OF put_wp [OF assms(1,2)]]) (use assms(3-) in \<open>auto simp: holds_def\<close>)

text \<open>A value without content is refused and nothing is touched but the refused cell's old content.\<close>

lemma put_refused:
  assumes "dir_at s0 r" "c \<noteq> dotdot" "content v = None"
  shows "wp (put (r @ [c]) v) (\<lambda>_ _. False) (\<lambda>_ s. node_at s (r @ [c]) = node_at s0 (r @ [c]))
    (\<lambda>s. node_at s (r @ [c]) = node_at s0 (r @ [c])) s0"
  by (rule put_rule [OF assms(1,2)]) (use assms(3) in \<open>auto simp: put_outcome_def holds_def\<close>)

end

lemma published_kept: "published s0 p b s \<Longrightarrow> kept s0 s {p} \<and> holds Some s p b"
  by (auto simp: published_def kept_def holds_def)

lemma old_or_new_outcome:
  assumes "old_or_new s0 (r @ [c]) b s" "dir_at s0 r"
  shows "put_outcome Some s0 (r @ [c]) b s"
proof -
  have here: "q = r" if "write_target s0 (r @ [c]) q c'" for q c'
    using that dir_at_locate [OF assms(2)] by (simp add: write_target_def)
  have "s = s0 \<or> (\<exists>c'. write_target s0 (r @ [c]) r c' \<and> untouched s0 (r @ [c']) s)
      \<or> published s0 (r @ [c]) b s"
    using assms(1) here unfolding old_or_new_def by fastforce
  then consider "s = s0" | c' where "write_target s0 (r @ [c]) r c'" "untouched s0 (r @ [c']) s"
    | "published s0 (r @ [c]) b s"
    by blast
  then show ?thesis
  proof cases
    case 1
    then show ?thesis using assms(2) by (simp add: put_outcome_def kept_refl dir_at_def)
  next
    case 2
    then have "node_at s0 (r @ [c']) = None" "c' \<noteq> c" by (simp_all add: write_target_def)
    moreover have eq: "node_at s x = node_at s0 x" if "x \<noteq> r @ [c']" for x
      using 2(2) that by (simp add: untouched_def)
    ultimately have "node_at s x = node_at s0 x" if "node_at s0 x \<noteq> None" for x
      using that by metis
    moreover have "butlast x = r" if "node_at s0 x = None" "node_at s x \<noteq> None" for x
      using that eq by (cases "x = r @ [c']") auto
    ultimately show ?thesis using eq [of "r @ [c]"] \<open>c' \<noteq> c\<close> 2(2)
      by (simp add: put_outcome_def kept_def untouched_def)
  next
    case 3
    then show ?thesis using published_kept by (simp add: put_outcome_def)
  qed
qed

interpretation bytes_cell: atomic_cell "atomic_write_bytes L" Some
proof
  fix s0 r c v
  assume d: "dir_at s0 r" "c \<noteq> dotdot"
  have "wp (atomic_write_bytes L (r @ [c]) v)
      (\<lambda>_ s. \<exists>q c'. write_target s0 (r @ [c]) q c' \<and> published s0 (q @ [last (r @ [c])]) v s)
      (\<lambda>_. old_or_new s0 (r @ [c]) v) (old_or_new s0 (r @ [c]) v) s0"
    using d by (intro wp_atomic_write_bytes) (auto simp: dir_at_def)
  then show "wp (atomic_write_bytes L (r @ [c]) v) (\<lambda>_ s. kept s0 s {r @ [c]} \<and> holds Some s (r @ [c]) v)
      (\<lambda>_. put_outcome Some s0 (r @ [c]) v) (put_outcome Some s0 (r @ [c]) v) s0"
    by (rule wp_mono)
      (use old_or_new_outcome [OF _ d(1)] published_kept dir_at_locate [OF d(1)] in
        \<open>auto simp: write_target_def\<close>)
next
  fix s0 r c U and v b :: bytes
  assume "dir_at s0 r" "c \<noteq> dotdot"
    "node_at s0 (r @ [c]) = None \<or> (\<exists>b. node_at s0 (r @ [c]) = Some (Reg b))"
    "\<And>u. u \<in> U \<Longrightarrow> node_at s0 (r @ [temp_name c u]) = None" "Some v = Some b"
  then show "runs U (atomic_write_bytes L (r @ [c]) v) (\<lambda>_ s. wf_fs s
      \<and> (\<forall>p. node_at s p = (if p = r @ [c] then Some (Reg b) else node_at s0 p))) s0"
    by (intro runs_atomic_write_bytes) (auto simp: published_def)
qed

text \<open>The JSON files: the content of a value is what the writer publishes for it.\<close>

definition json_content :: "pylib \<Rightarrow> pyval \<Rightarrow> bytes option" where
  "json_content L v = (case json_output_bytes L v of Inl _ \<Rightarrow> None | Inr b \<Rightarrow> Some b)"

interpretation json_cell: atomic_cell "atomic_write_json L" "json_content L"
proof
  fix s0 r c v
  assume d: "dir_at s0 r" "c \<noteq> dotdot"
  have same: "put_outcome (json_content L) s0 (r @ [c]) v s0"
    using d by (simp add: put_outcome_def kept_refl dir_at_def)
  have lift: "json_output_bytes L v = Inr b \<Longrightarrow> holds Some s (r @ [c]) b \<Longrightarrow> holds (json_content L) s (r @ [c]) v"
    for b s by (simp add: holds_def json_content_def)
  show "wp (atomic_write_json L (r @ [c]) v) (\<lambda>_ s. kept s0 s {r @ [c]} \<and> holds (json_content L) s (r @ [c]) v)
      (\<lambda>_. put_outcome (json_content L) s0 (r @ [c]) v) (put_outcome (json_content L) s0 (r @ [c]) v) s0"
    unfolding atomic_write_json_def
    by (intro wp_iob wp_from_result same wp_mono [OF bytes_cell.put_wp [OF d]])
      (use lift in \<open>auto simp: put_outcome_def\<close>)
next
  fix s0 r c U v b
  assume a: "dir_at s0 r" "c \<noteq> dotdot"
    "node_at s0 (r @ [c]) = None \<or> (\<exists>b. node_at s0 (r @ [c]) = Some (Reg b))"
    "\<And>u. u \<in> U \<Longrightarrow> node_at s0 (r @ [temp_name c u]) = None" and c: "json_content L v = Some b"
  have "json_output_bytes L v = Inr b" using c by (simp add: json_content_def split: sum.splits)
  then show "runs U (atomic_write_json L (r @ [c]) v) (\<lambda>_ s. wf_fs s
      \<and> (\<forall>p. node_at s p = (if p = r @ [c] then Some (Reg b) else node_at s0 p))) s0"
    unfolding atomic_write_json_def using bytes_cell.put_runs [OF a refl]
    by (auto intro: runs_intros)
qed

section \<open>Members of a root\<close>

text \<open>Below \<open>current\<close>: no component is a link, and only the last may be a non-directory.\<close>

fun no_links :: "fs \<Rightarrow> path \<Rightarrow> pystr list \<Rightarrow> bool" where
  "no_links s current [] = True"
| "no_links s current (part # rest) =
     ((case node_at s (current @ [part]) of None \<Rightarrow> True
       | Some nd \<Rightarrow> \<not> is_lnk nd \<and> (rest \<noteq> [] \<longrightarrow> nd = Dir))
      \<and> no_links s (current @ [part]) rest)"

lemma absent_below:
  assumes "wf_fs s" "node_at s p = None"
  shows "node_at s (p @ q) = None"
proof (rule ccontr)
  assume "node_at s (p @ q) \<noteq> None"
  then show False
    using wf_fs_prefix_dir [OF assms(1), of p q] assms(2) by (cases "q = []") (auto simp: node_at_def)
qed

lemma absent_no_links: "wf_fs s \<Longrightarrow> node_at s p = None \<Longrightarrow> no_links s p parts"
  by (induction parts arbitrary: p) (auto simp: absent_below)

lemma file_no_links: "wf_fs s \<Longrightarrow> node_at s p = Some nd \<Longrightarrow> nd \<noteq> Dir \<Longrightarrow> no_links s p parts"
proof (cases parts)
  case (Cons c cs)
  assume a: "wf_fs s" "node_at s p = Some nd" "nd \<noteq> Dir"
  then have "node_at s (p @ [c]) = None"
    using wf_fs_prefix_dir [OF a(1), of p "[c]"] by (cases "entry s (p @ [c])") (auto simp: node_at_def)
  with Cons a(1) show ?thesis by (simp add: absent_no_links)
qed simp

lemma fs_lstat_via: "fs_lstat p s = Inr m \<Longrightarrow> node_via s p = Some (st_node m)"
  by (auto simp: fs_lstat_def node_via_def node_at_def stat_ino_def split: option.splits)

lemma wp_member_scan [wp_intros]:
  assumes "wf_fs s" "dotdot \<notin> set parts" "node_at s cur = Some Dir"
    and "no_links s cur parts \<Longrightarrow> Q () s" "\<And>e. X e s" "K s"
  shows "wp (member_scan cur parts) Q X K s"
proof -
  have "wp (member_scan p parts) (\<lambda>x s'. s' = s \<and> (node_at s p = Some Dir \<longrightarrow> no_links s p parts))
      (\<lambda>_ s'. s' = s) (\<lambda>s'. s' = s) s" for p
    using assms(2)
  proof (induction parts arbitrary: p)
    case (Cons c cs)
    let ?n = "node_at s (p @ [c])"
    have via: "node_via s (p @ [c]) = ?n" if "node_at s p = Some Dir"
      using file_at_via [of s p c] that Cons.prems assms(1) by (auto simp: dir_at_def)
    have stat: "?n = Some (st_node m)" if "fs_lstat (p @ [c]) s = Inr m" "node_at s p = Some Dir" for m
      using via [OF that(2)] fs_lstat_via [OF that(1)] by simp
    have skip: "no_links s p (c # cs)" if "\<not> fs_lexists (p @ [c]) s" "node_at s p = Some Dir"
      using that via absent_no_links [OF assms(1)] by (auto simp: fs_lexists_iff)
    have step: "no_links s p (c # cs)"
      if "fs_lstat (p @ [c]) s = Inr m" "node_at s p = Some Dir" "\<not> is_lnk (st_node m)"
        "cs \<noteq> [] \<longrightarrow> st_node m = Dir" "?n = Some Dir \<longrightarrow> no_links s (p @ [c]) cs" for m
      using that stat [OF that(1,2)] by (cases cs) auto
    note IH = wp_mono [OF Cons.IH]
    show ?case
      unfolding member_scan.simps
      by (intro wp_let wp_iob wp_path_lexists wp_if wp_look wp_raise IH)
        (use Cons.prems skip step in \<open>auto simp del: no_links.simps(2)\<close>)
  qed (simp add: wp_ret)
  from wp_mono [OF this [of cur]] assms(3-) show ?thesis by auto
qed

lemma wp_resolve_member [wp_intros]:
  assumes "wf_fs s"
    and "\<And>q. locate s True root = Inr q \<Longrightarrow> node_at s q = Some Dir \<Longrightarrow> portable_path L rel \<Longrightarrow>
        no_links s q (split_on 47 rel) \<Longrightarrow> Q (q @ split_on 47 rel) s"
    and "\<And>e. X e s" "K s"
  shows "wp (resolve_member L root rel) Q X K s"
proof -
  have dd: "dotdot \<notin> set (split_on 47 rel)" if "portable_path L rel"
    using portable_path_parts(3) [OF that] by (auto simp: dotdot_def)
  show ?thesis
    unfolding resolve_member_def
    by (intro wp_iob wp_from_result wp_checked_directory wp_let wp_member_scan wp_peek wp_if wp_raise wp_ret)
      (use assms dd in \<open>auto simp: normalize_relative_file_iff\<close>)
qed

text \<open>Such a path is physical: it leads to the node of its own name.\<close>

lemma walk_no_links:
  "no_links s q ps \<Longrightarrow> dotdot \<notin> set ps \<Longrightarrow> ps \<noteq> [] \<Longrightarrow>
   walk s n f q ps = Inr (q @ ps) \<or> (\<exists>e p r. walk s n f q ps = Inl e \<and> q @ ps = p @ r \<and> node_at s p = None)"
proof (induction ps arbitrary: q)
  case (Cons c cs)
  show ?case
  proof (cases "cs = []")
    case True
    with Cons.prems show ?thesis by (auto simp: is_lnk_def split: option.splits node.splits)
  next
    case False
    show ?thesis
    proof (cases "node_at s (q @ [c])")
      case None
      then have "walk s n f q (c # cs) = Inl FileNotFoundError" "q @ c # cs = (q @ [c]) @ cs"
        using False Cons.prems by auto
      with None show ?thesis by blast
    next
      case (Some nd)
      then have "walk s n f q (c # cs) = walk s n f (q @ [c]) cs" "no_links s (q @ [c]) cs"
        using False Cons.prems by auto
      with Cons.IH [of "q @ [c]"] Cons.prems(2) False show ?thesis by simp
    qed
  qed
qed simp

lemma no_links_via:
  assumes "dir_at s q" "no_links s q ps" "dotdot \<notin> set ps"
  shows "node_via s (q @ ps) = node_at s (q @ ps)"
proof (cases "ps = []")
  case False
  have w: "locate s False (q @ ps) = walk s MAX_LINKS False q ps"
    unfolding locate_def using assms(1) walk_physical by (simp add: dir_at_def)
  have "wf_fs s" using assms(1) by (simp add: dir_at_def)
  then show ?thesis
    using walk_no_links [OF assms(2,3) False, of MAX_LINKS False]
    by (auto simp: node_via_def w absent_below)
qed (use assms(1) in \<open>simp add: node_via_def dir_at_locate\<close>)

lemma realpath_no_links:
  "no_links s q ps \<Longrightarrow> dotdot \<notin> set ps \<Longrightarrow> realpath s n q ps = q @ ps"
  by (induction ps arbitrary: q) (auto simp: is_lnk_def split: option.splits node.splits)

lemma dir_prefix:
  assumes "dir_at s q"
  shows "realpath s n [] (q @ r) = realpath s n q r"
proof -
  have "realpath s n a (p @ r) = realpath s n (a @ p) r" if "a @ p = q" for a p
    using that
  proof (induction p arbitrary: a)
    case (Cons c p)
    have "node_at s (a @ [c]) = Some Dir" "c \<noteq> dotdot"
      using wf_fs_prefix_dir [of s "a @ [c]" p] wf_fs_no_dotdot [of s q] assms Cons.prems
      by (cases "p = []"; auto simp: dir_at_def node_at_def)+
    with Cons show ?case by simp
  qed simp
  from this [of "[]" q] show ?thesis by simp
qed

lemma runs_member_scan:
  assumes "dir_at s q" "no_links s q (front @ rest)" "dotdot \<notin> set (front @ rest)" "Q () s"
  shows "runs U (member_scan (q @ front) rest) Q s"
  using assms(2,3)
proof (induction rest arbitrary: front)
  case (Cons c cs)
  have nl: "no_links s q (xs @ ys) \<Longrightarrow> no_links s q xs \<and> no_links s (q @ xs) ys" for xs ys q
  proof (induction xs arbitrary: q)
    case (Cons x xs)
    then show ?case using Cons.IH [of "q @ [x]"] by (auto split: option.splits)
  qed simp
  let ?p = "q @ front @ [c]"
  have here: "no_links s q (front @ [c])" "no_links s (q @ front) (c # cs)"
    using nl [of q "front @ [c]" cs] nl [of q front "c # cs"] Cons.prems by auto
  then have via: "node_via s ?p = node_at s ?p" using Cons.prems no_links_via [OF assms(1)] by auto
  have IH: "runs U (member_scan ?p cs) Q s" using Cons.IH [of "front @ [c]"] Cons.prems by simp
  show ?case
  proof (cases "node_at s ?p")
    case None
    with via IH show ?thesis by (auto simp: fs_lexists_iff intro!: runs_intros)
  next
    case (Some nd)
    then obtain m where m: "fs_lstat ?p s = Inr m"
      using via by (auto simp: node_via_def fs_lstat_def node_at_def split: sum.splits option.splits)
    then have "st_node m = nd" using fs_lstat_via [OF m] via Some by simp
    with m via IH Some here(2) show ?thesis
      by (auto simp: fs_lexists_iff intro!: runs_intros)
  qed
qed (use assms(4) in \<open>simp add: runs_ret\<close>)

lemma runs_resolve_member [runs_intros]:
  assumes "dir_at s q" "portable_path L rel" "no_links s q (split_on 47 rel)" "Q (q @ split_on 47 rel) s"
  shows "runs U (resolve_member L q rel) Q s"
proof -
  have dd: "dotdot \<notin> set (split_on 47 rel)"
    using portable_path_parts(3) [OF assms(2)] by (auto simp: dotdot_def)
  have "normalize_relative_file L (PStr rel) = Inr rel"
    using assms(2) by (simp add: normalize_relative_file_iff)
  moreover have "runs U (member_scan q (split_on 47 rel)) (\<lambda>_ s'. s' = s) s"
    using runs_member_scan [OF assms(1), of "[]" "split_on 47 rel"] assms(3) dd by simp
  moreover have "realpath s MAX_LINKS [] (q @ split_on 47 rel) = q @ split_on 47 rel"
    using dir_prefix [OF assms(1)] realpath_no_links [OF assms(3) dd] by simp
  moreover have "is_within (q @ split_on 47 rel) q" by (auto simp: is_within_iff)
  ultimately show ?thesis
    unfolding resolve_member_def using assms(1,4)
    by (auto intro!: runs_iob runs_from_result runs_checked_directory runs_let runs_peek runs_ret
        elim!: runs_mono)
qed

section \<open>Properties\<close>

text \<open>A small file system and worlds on it, for concrete instances.\<close>

definition sample_fs :: fs where
  "sample_fs = \<lparr>fs_names = [([], 0), ([lit ''r''], 1), ([lit ''r'', lit ''state.json''], 2)],
     fs_nodes = (\<lambda>i. if i = 2 then Reg ''old'' else Dir), fs_dev = (\<lambda>_. 0), fs_next = 3,
     fs_locks = (\<lambda>_. None), fs_maker = (\<lambda>_. 0)\<rparr>"

definition sample_world :: "(nat \<Rightarrow> fate) \<Rightarrow> world" where
  "sample_world fates = \<lparr>w_fs = sample_fs, w_tick = 0, w_env = (\<lambda>_ s. s), w_fate = fates,
     w_uuid = (\<lambda>_. lit ''u''), w_now = (\<lambda>_. lit ''now''),
     w_pid = 1, w_os = bare_os, w_log = []\<rparr>"

lemma sample_fs_wf: "wf_fs sample_fs"
  by (simp add: wf_fs_def sample_fs_def node_at_def entry_def dotdot_def lit_def)

lemma sample_world_simps [simp]:
  "calm (sample_world fates)" "w_fs (sample_world fates) = sample_fs"
  "quiet {lit ''u''} (sample_world (\<lambda>_. Run))"
  by (simp_all add: sample_world_def calm_def quiet_def)

lemma sample_runs:
  "runs {lit ''u''} m Q sample_fs \<Longrightarrow> \<exists>x w'. m (sample_world (\<lambda>_. Run)) = (Ret x, w') \<and> Q x (w_fs w')"
  unfolding runs_def using sample_world_simps by blast

lemma sample_via: "node_via sample_fs [lit ''r'', lit ''state.json''] = Some (Reg ''old'')"
  by (simp add: node_via_def locate_def MAX_LINKS_def sample_fs_def node_at_def entry_def dotdot_def lit_def)

text \<open>
  C1: An atomic write is all or nothing under every pattern of failing system calls, kills and
  torn writes: afterwards the destination holds what it held before or exactly the payload, it
  holds the payload if the call returned, and at most the destination and one temporary name
  next to it differ from before.
\<close>

theorem atomic_write_all_or_nothing:
  assumes "calm w" "wf_fs (w_fs w)" "d \<noteq> []" "last d \<noteq> dotdot"
    and "atomic_write_bytes L d payload w = (out, w')"
  shows "(node_via (w_fs w') d = node_via (w_fs w) d \<or> node_via (w_fs w') d = Some (Reg payload))
    \<and> (out = Ret () \<longrightarrow> node_via (w_fs w') d = Some (Reg payload))
    \<and> (\<exists>q c. \<forall>p. p \<noteq> q @ [last d] \<and> p \<noteq> q @ [c] \<longrightarrow> node_at (w_fs w') p = node_at (w_fs w) p)
    \<and> wf_fs (w_fs w')"
proof -
  let ?a = "w_fs w" and ?b = "w_fs w'"
  note wp = wpD [OF wp_atomic_write_bytes [OF assms(2-4)] assms(1)]
  have old: "old_or_new ?a d payload ?b"
  proof (cases out)
    case (Ret x)
    show ?thesis using wp(1) [OF assms(5) [unfolded Ret]] unfolding old_or_new_def by blast
  qed (use wp(2,3) assms(5) in simp_all)
  moreover have "out = Ret () \<Longrightarrow> node_via ?b d = Some (Reg payload)"
    using wp(1) assms(5) published_via by blast
  ultimately show ?thesis using old_or_new_cases [OF old assms(2)] by blast
qed

theorem atomic_write_all_or_nothing_witness:
  "node_via (w_fs (snd (atomic_write_bytes sample_lib [lit ''r'', lit ''state.json''] ''new''
      (sample_world (\<lambda>t. if t = 5 then Tear 2 else Run))))) [lit ''r'', lit ''state.json'']
   \<in> {Some (Reg ''old''), Some (Reg ''new'')}"
proof -
  let ?d = "[lit ''r'', lit ''state.json'']" and ?w = "sample_world (\<lambda>t. if t = 5 then Tear 2 else Run)"
  let ?r = "atomic_write_bytes sample_lib ?d ''new'' ?w"
  have "node_via (w_fs (snd ?r)) ?d = node_via (w_fs ?w) ?d \<or> node_via (w_fs (snd ?r)) ?d = Some (Reg ''new'')"
    by (rule conjunct1 [OF atomic_write_all_or_nothing [of ?w ?d sample_lib "''new''" "fst ?r"]])
      (auto simp: sample_fs_wf)
  then show ?thesis by (auto simp: sample_via)
qed

text \<open>
  In a directory where the destination is a regular file or absent and no temporary name is
  taken, an atomic write without faults returns, and the destination then holds the payload
  while every other name is as before: no temporary file is left.
\<close>

theorem atomic_write_completes:
  assumes "quiet U w" "dir_at (w_fs w) q" "c \<noteq> dotdot"
    and "node_at (w_fs w) (q @ [c]) = None \<or> (\<exists>b. node_at (w_fs w) (q @ [c]) = Some (Reg b))"
    and "\<forall>u \<in> U. node_at (w_fs w) (q @ [temp_name c u]) = None"
  shows "\<exists>w'. atomic_write_bytes L (q @ [c]) payload w = (Ret (), w') \<and>
    (\<forall>p. node_at (w_fs w') p = (if p = q @ [c] then Some (Reg payload) else node_at (w_fs w) p))"
proof -
  have "runs U (atomic_write_bytes L (q @ [c]) payload) (\<lambda>_. published (w_fs w) (q @ [c]) payload) (w_fs w)"
    using assms(2-) by (intro runs_atomic_write_bytes) auto
  then show ?thesis by (rule runsE [OF _ assms(1)]) (auto simp: published_def)
qed

theorem atomic_write_completes_witness:
  "\<exists>w'. atomic_write_bytes sample_lib [lit ''r'', lit ''state.json''] ''new''
     (sample_world (\<lambda>_. Run)) = (Ret (), w')
   \<and> node_at (w_fs w') [lit ''r'', lit ''state.json''] = Some (Reg ''new'')"
proof -
  have "dir_at sample_fs [lit ''r'']" "node_at sample_fs [lit ''r'', lit ''state.json''] = Some (Reg ''old'')"
    "node_at sample_fs [lit ''r'', temp_name (lit ''state.json'') (lit ''u'')] = None"
    using sample_fs_wf
    by (simp_all add: dir_at_def sample_fs_def node_at_def entry_def temp_name_def lit_def)
  then show ?thesis
    using atomic_write_completes [of "{lit ''u''}" "sample_world (\<lambda>_. Run)" "[lit ''r'']" "lit ''state.json''"
        sample_lib "''new''"]
    by auto
qed

text \<open>
  C24: A move into quarantine never overwrites and never loses the file: whatever fails or is
  killed, either nothing changed, or the destination was absent, the source was a regular file,
  its content is now under the destination name alone, and every other name is as before. When
  the call returns the move has happened and the returned identity is that of the content.
\<close>

theorem move_keeps_content:
  assumes "calm w" "wf_fs (w_fs w)" "last src \<noteq> dotdot" "last dst \<noteq> dotdot"
    and "move_regular_same_filesystem L src dst w = (out, w')"
  shows "(w_fs w' = w_fs w \<and> (\<forall>v. out \<noteq> Ret v))
    \<or> (\<exists>a b c. node_at (w_fs w) a = Some (Reg c) \<and> last a = last src
        \<and> node_at (w_fs w) b = None \<and> last b = last dst
        \<and> (\<forall>p. node_at (w_fs w') p =
             (if p = b then Some (Reg c) else if p = a then None else node_at (w_fs w) p))
        \<and> (\<forall>v. out = Ret v \<longrightarrow> v = identity_of L c))"
proof -
  note wp = wpD [OF wp_move_regular [OF assms(2-4)] assms(1), of L]
  have target: ?thesis if t: "move_target (w_fs w) src dst a b" "moved (w_fs w) a b (w_fs w')"
    "\<And>v c. out = Ret v \<Longrightarrow> node_at (w_fs w) a = Some (Reg c) \<Longrightarrow> v = identity_of L c" for a b
  proof -
    obtain c where c: "node_at (w_fs w) a = Some (Reg c)" "node_at (w_fs w) b = None"
        "last a = last src" "last b = last dst"
      using t(1) by (auto simp: move_target_def)
    moreover have "\<forall>p. node_at (w_fs w') p =
        (if p = b then Some (Reg c) else if p = a then None else node_at (w_fs w) p)"
      using t(2) c(1) by (simp add: moved_def)
    ultimately show ?thesis using t(3) [OF _ c(1)] by blast
  qed
  show ?thesis
  proof (cases out)
    case (Ret v)
    obtain a b c where "move_target (w_fs w) src dst a b" "moved (w_fs w) a b (w_fs w')"
      "node_at (w_fs w) a = Some (Reg c)" "v = identity_of L c"
      using wp(1) [OF assms(5) [unfolded Ret]] by blast
    then show ?thesis using Ret by (intro target) auto
  next
    case (Exc e)
    then have n: "out \<noteq> Ret v" for v by simp
    show ?thesis using wp(2) [OF assms(5) [unfolded Exc]] target n by blast
  next
    case Killed
    then have n: "out \<noteq> Ret v" for v by simp
    show ?thesis using wp(3) [OF assms(5) [unfolded Killed]] target n by blast
  qed
qed

theorem move_keeps_content_witness:
  "let r = move_regular_same_filesystem sample_lib [lit ''r'', lit ''state.json''] [lit ''r'', lit ''q'']
      (sample_world (\<lambda>t. if t = 12 then Kill else Run))
   in node_at (w_fs (snd r)) [lit ''r''] = Some Dir"
proof -
  let ?w = "sample_world (\<lambda>t. if t = 12 then Kill else Run)"
  let ?r = "move_regular_same_filesystem sample_lib [lit ''r'', lit ''state.json''] [lit ''r'', lit ''q''] ?w"
  have "node_at sample_fs [lit ''r''] = Some Dir"
    by (simp add: sample_fs_def node_at_def entry_def lit_def)
  then show ?thesis
    using move_keeps_content [of ?w "[lit ''r'', lit ''state.json'']" "[lit ''r'', lit ''q'']" sample_lib
        "fst ?r" "snd ?r"] sample_fs_wf
    by (auto simp: Let_def)
qed

text \<open>
  A bounded read returns the complete content of the regular file at the path, never a
  prefix and never more than the limit, without following a link at the end of the path and
  without changing anything; it may fail instead.
\<close>

theorem read_regular_bytes_exact:
  assumes "calm w" "read_regular_bytes p limit w = (out, w')"
  shows "w_fs w' = w_fs w
    \<and> (\<forall>b. out = Ret b \<longrightarrow> node_via (w_fs w) p = Some (Reg b) \<and> (\<forall>n. limit = Some n \<longrightarrow> length b \<le> n))"
proof -
  have "wp (read_regular_bytes p limit) (\<lambda>b s. s = w_fs w \<and> node_via s p = Some (Reg b)
      \<and> (\<forall>n. limit = Some n \<longrightarrow> length b \<le> n)) (\<lambda>_ s. s = w_fs w) (\<lambda>s. s = w_fs w) (w_fs w)"
    by (rule wp_read_regular_bytes) auto
  from wpE [OF this assms(1)] assms(2) show ?thesis by (cases out) auto
qed

theorem read_regular_bytes_exact_witness:
  "\<exists>b w'. read_regular_bytes [lit ''r'', lit ''state.json''] (Some 3) (sample_world (\<lambda>_. Run)) = (Ret b, w')
     \<and> b = ''old'' \<and> w_fs w' = sample_fs"
proof -
  have "runs {lit ''u''} (read_regular_bytes ([lit ''r''] @ [lit ''state.json'']) (Some 3)) (\<lambda>_ _. True) sample_fs"
    using sample_fs_wf
    by (intro runs_read_regular_bytes [of _ _ _ "''old''"])
      (simp_all add: dir_at_def sample_fs_def node_at_def entry_def dotdot_def lit_def)
  then obtain b w' where r: "read_regular_bytes [lit ''r'', lit ''state.json''] (Some 3) (sample_world (\<lambda>_. Run)) = (Ret b, w')"
    using sample_runs by fastforce
  then show ?thesis using read_regular_bytes_exact [OF _ r] by (auto simp: sample_via)
qed

text \<open>
  C25: A resolved member is the root's physical path followed by the components of the relative
  path, no existing component below the root is a symbolic link and every component but the
  last is a directory or absent, so the file meant lies inside the root; nothing is changed.
\<close>

theorem resolve_member_stays_inside:
  assumes "calm w" "wf_fs (w_fs w)" "resolve_member L root rel w = (Ret p, w')"
  shows "w_fs w' = w_fs w \<and> (\<exists>q. locate (w_fs w) True root = Inr q \<and> p = q @ split_on 47 rel
    \<and> no_links (w_fs w) q (split_on 47 rel))"
proof -
  have "wp (resolve_member L root rel) (\<lambda>p s. s = w_fs w \<and> (\<exists>q. locate s True root = Inr q
      \<and> p = q @ split_on 47 rel \<and> no_links s q (split_on 47 rel))) (\<lambda>_ _. True) (\<lambda>_. True) (w_fs w)"
    using assms(2) by (intro wp_resolve_member) auto
  from wpD(1) [OF this assms(1,3)] show ?thesis by auto
qed

theorem resolve_member_stays_inside_witness:
  "\<exists>p w'. resolve_member sample_lib [lit ''r''] (lit ''a/b'') (sample_world (\<lambda>_. Run)) = (Ret p, w')
     \<and> p = [lit ''r'', lit ''a'', lit ''b'']"
proof -
  have "portable_path sample_lib (lit ''a/b'')"
    by (simp add: portable_path_def portable_component_def paths_eval lit_def WINDOWS_RESERVED_NAMES_def
        MAX_WINDOWS_COMPONENT_UTF8_BYTES_def MAX_PORTABLE_PATH_UTF8_BYTES_def)
  then have "runs {lit ''u''} (resolve_member sample_lib [lit ''r''] (lit ''a/b'')) (\<lambda>_ _. True) sample_fs"
    using sample_fs_wf
    by (intro runs_resolve_member) (simp_all add: dir_at_def sample_fs_def node_at_def entry_def lit_def)
  then obtain p w' where r: "resolve_member sample_lib [lit ''r''] (lit ''a/b'') (sample_world (\<lambda>_. Run)) = (Ret p, w')"
    using sample_runs by fastforce
  have "locate sample_fs True [lit ''r''] = Inr [lit ''r'']"
    by (simp add: locate_def MAX_LINKS_def sample_fs_def node_at_def entry_def dotdot_def lit_def)
  with resolve_member_stays_inside [OF _ _ r] r show ?thesis
    by (auto simp: sample_fs_wf lit_def)
qed

end
