(* ===== verification/Canonical.thy ===== *)
theory Canonical
  imports Records
begin

text \<open>
  Canonical text as lines and as a function of the value: a canonical record is one line, and
  its bytes do not depend on the order of dictionary keys.
\<close>

section \<open>One record, one line\<close>

lemma esc_char_no_lf: "10 \<notin> set (esc_char c)"
proof -
  have "hex_digit n \<noteq> 10" for n by (simp add: hex_digit_def)
  then show ?thesis by (auto simp: esc_char_def)
qed

lemma dump_str_no_lf: "10 \<notin> set (dump_str s)"
  using esc_char_no_lf by (auto simp: dump_str_def)

lemma dec_no_lf: "10 \<notin> set (dec n)"
  using dec_digits [of n] by (auto simp: is_digit_def)

lemma dump_int_no_lf: "10 \<notin> set (dump_int i)"
  using dec_no_lf by (simp add: dump_int_def)

lemma join_on_no_lf: "\<forall>t \<in> set ts. 10 \<notin> set t \<Longrightarrow> (10 :: nat) \<notin> set (join_on 44 ts)"
  using set_join_on [of 44 ts] by auto

lemma dumps_no_lf: "float_free v \<Longrightarrow> dumps L v = Inr t \<Longrightarrow> 10 \<notin> set t"
proof (induction v arbitrary: t)
  case (PList xs)
  then obtain ts where ts: "list_all2 (\<lambda>x t. dumps L x = Inr t) xs ts"
    and t: "t = 91 # join_on 44 ts @ [93]" by (auto simp: dumps_list_Inr)
  have "\<forall>u \<in> set ts. 10 \<notin> set u"
  proof
    fix u assume "u \<in> set ts"
    with ts obtain x where "x \<in> set xs" "dumps L x = Inr u"
      unfolding list_all2_conv_all_nth by (metis in_set_conv_nth)
    with PList.IH PList.prems(1) show "10 \<notin> set u" by (auto simp: list_all_iff)
  qed
  with join_on_no_lf show ?case by (simp add: t)
next
  case (PDict d)
  then obtain its where its: "list_all2 (\<lambda>p it. fst it = fst p \<and> dumps L (snd p) = Inr (snd it)) d its"
    and t: "t = 123 # join_on 44 (map dump_member (sort_key fst its)) @ [125]"
    by (auto simp: dumps_items_Inr)
  have "10 \<notin> set (snd it)" if "it \<in> set its" for it
  proof -
    obtain p where p: "p \<in> set d" "dumps L (snd p) = Inr (snd it)"
      using \<open>it \<in> set its\<close> its unfolding list_all2_conv_all_nth by (metis in_set_conv_nth)
    then have "float_free (snd p)" using PDict.prems(1) by (auto simp: list_all_iff)
    with PDict.IH [of p "snd p"] p show ?thesis by (cases p) (auto simp: snds.simps)
  qed
  then have "\<forall>u \<in> set (map dump_member (sort_key fst its)). 10 \<notin> set u"
    using dump_str_no_lf by (auto simp: dump_member_def)
  with join_on_no_lf show ?case by (simp add: t)
qed (auto simp: lit_def dump_int_no_lf dump_str_no_lf split: if_splits)

lemma char_of_lf:
  "(char_of (n :: nat) :: char) = CHR 0x0A \<longleftrightarrow> n mod 256 = 10"
  "CHR 0x0A = (char_of (n :: nat) :: char) \<longleftrightarrow> n mod 256 = 10"
proof -
  have "(char_of n :: char) = CHR 0x0A \<longleftrightarrow> (of_char (char_of n :: char) :: nat) = of_char (CHR 0x0A)"
    by (simp only: of_char_eq_iff)
  then show "(char_of n :: char) = CHR 0x0A \<longleftrightarrow> n mod 256 = 10" by simp
  then show "CHR 0x0A = (char_of n :: char) \<longleftrightarrow> n mod 256 = 10" by metis
qed

lemma utf8_char_no_lf: "utf8_char n = Some b \<Longrightarrow> n \<noteq> 10 \<Longrightarrow> CHR 0x0A \<notin> set b"
proof -
  have b: "n < 1114112 \<Longrightarrow> n div 262144 < 16" "n < 65536 \<Longrightarrow> n div 4096 < 16" "n < 2048 \<Longrightarrow> n div 64 < 32"
    by (simp_all add: div_less_iff_less_mult)
  assume "utf8_char n = Some b" "n \<noteq> 10"
  then show ?thesis using b by (auto simp: utf8_char_def char_of_lf split: if_splits)
qed

lemma utf8_no_lf: "utf8 s = Some b \<Longrightarrow> 10 \<notin> set s \<Longrightarrow> CHR 0x0A \<notin> set b"
  using utf8_char_no_lf by (induction s arbitrary: b) (auto split: option.splits)

theorem canonical_line:
  assumes "float_free v" "canonical_json_bytes L v = Inr b"
  obtains l where "b = l @ [CHR 0x0A]" "CHR 0x0A \<notin> set l" "l \<noteq> []"
proof -
  from assms(2) obtain t where t: "dumps L v = Inr t" "utf8 (t @ [10]) = Some b"
    by (auto simp: canonical_json_bytes_def split: sum.splits option.splits)
  then obtain l where l: "utf8 t = Some l" "b = l @ [CHR 0x0A]"
    by (auto simp: utf8_append bind_eq_Some_conv utf8_char_def char_of_lf)
  have "t \<noteq> []" using dumps_first [OF t(1) assms(1)] by auto
  then have "l \<noteq> []" using l(1) utf8_decode_utf8 [OF l(1)] by (auto simp: utf8_decode.simps)
  with l utf8_no_lf [OF l(1) dumps_no_lf [OF assms(1) t(1)]] that show ?thesis by blast
qed

section \<open>The order of keys does not matter\<close>

lemma dumps_canon: "dumps L v = Inr t \<Longrightarrow> dumps L (canon v) = Inr t"
proof (induction v arbitrary: t)
  case (PList xs)
  then obtain ts where ts: "list_all2 (\<lambda>x t. dumps L x = Inr t) xs ts"
    and t: "t = 91 # join_on 44 ts @ [93]" by (auto simp: dumps_list_Inr)
  have "list_all2 (\<lambda>x t. dumps L x = Inr t) (map canon xs) ts"
    unfolding list_all2_map1 using ts by (rule list.rel_mono_strong) (use PList.IH in auto)
  then have "dumps_list L (map canon xs) = Inr ts" by (simp add: dumps_list_Inr)
  then show ?case by (simp add: t)
next
  case (PDict d)
  then obtain its where its: "list_all2 (\<lambda>p it. fst it = fst p \<and> dumps L (snd p) = Inr (snd it)) d its"
    and t: "t = 123 # join_on 44 (map dump_member (sort_key fst its)) @ [125]"
    by (auto simp: dumps_items_Inr)
  have "list_all2 (\<lambda>p it. fst it = fst p \<and> dumps L (snd p) = Inr (snd it))
      (map (\<lambda>p. (fst p, canon (snd p))) d) its"
    unfolding list_all2_map1 using its
    by (rule list.rel_mono_strong) (use PDict.IH in \<open>auto simp: snds.simps\<close>)
  then have "list_all2 (\<lambda>p it. fst it = fst p \<and> dumps L (snd p) = Inr (snd it))
      (sort_key fst (map (\<lambda>p. (fst p, canon (snd p))) d)) (sort_key fst its)"
    by (rule list_all2_sort_key) auto
  then have "dumps_items L (sort_key fst (map (\<lambda>p. (fst p, canon (snd p))) d)) = Inr (sort_key fst its)"
    by (simp only: dumps_items_Inr)
  then show ?case by (simp add: t sort_key_id_if_sorted)
qed simp_all

text \<open>Which values have a text at all.\<close>

fun dumpable :: "pyval \<Rightarrow> bool" where
  "dumpable (PFloat f) = (\<not> nonfinite f)"
| "dumpable (POther _) = False"
| "dumpable (PList xs) = list_all dumpable xs"
| "dumpable (PDict d) = list_all (\<lambda>p. dumpable (snd p)) d"
| "dumpable v = True"

lemma dumps_dumpable:
  "(\<exists>t. dumps L v = Inr t) = dumpable v"
  "(\<exists>ts. dumps_list L xs = Inr ts) = list_all dumpable xs"
  "(\<exists>its. dumps_items L d = Inr its) = list_all (\<lambda>p. dumpable (snd p)) d"
  by (induction L v and L xs and L d rule: dumps_dumps_list_dumps_items.induct)
    (auto simp: nonfinite_def split: pyfloat.splits)

lemma dumpable_canon: "dumpable (canon v) = dumpable v"
  by (induction v) (auto simp: list_all_iff snds.simps)

lemma dumps_canon_iff: "dumps L (canon v) = Inr t \<longleftrightarrow> dumps L v = Inr t"
  by (metis dumpable_canon dumps_canon dumps_dumpable(1) sum.inject(2))

lemma canonical_json_bytes_canon: "canonical_json_bytes L (canon v) = Inr b \<longleftrightarrow> canonical_json_bytes L v = Inr b"
proof (cases "dumps L v")
  case (Inl e)
  then obtain e' where "dumps L (canon v) = Inl e'"
    using dumps_canon_iff [of L v] by (cases "dumps L (canon v)") auto
  with Inl show ?thesis by (simp add: canonical_json_bytes_def)
next
  case (Inr t)
  with dumps_canon [OF Inr] show ?thesis by (simp add: canonical_json_bytes_def)
qed

lemma json_output_bytes_canon: "json_output_bytes L (canon v) = Inr b \<longleftrightarrow> json_output_bytes L v = Inr b"
  by (simp add: canonical_json_bytes_canon json_output_bytes_iff validate_json_complexity_iff)

lemma sorted_map_of_unique:
  assumes "sorted (map fst xs)" "distinct (map fst xs)" "sorted (map fst ys)" "distinct (map fst ys)"
    and "map_of xs = map_of (ys :: ('a :: linorder \<times> 'b) list)"
  shows "xs = ys"
proof -
  have s: "set xs = set ys"
  proof -
    have "p \<in> set xs \<longleftrightarrow> p \<in> set ys" for p
      using assms(2,4,5) by (cases p) (metis map_of_eq_Some_iff)
    then show ?thesis by blast
  qed
  then have "inj_on fst (set xs \<union> set ys)" using assms(2) by (simp add: distinct_map)
  with s assms show ?thesis by (intro map_sorted_distinct_set_unique [of fst xs ys]) auto
qed

lemma map_of_map_snd: "map_of (map (\<lambda>p. (fst p, f (snd p))) d) k = map_option f (map_of d k)"
  by (induction d) auto

lemma map_of_sort_key: "distinct (map fst d) \<Longrightarrow> map_of (sort_key fst d) = map_of d"
  by (rule map_of_eqI) (auto simp: distinct_map_sort_key)

lemma canon_dict_eqI:
  assumes "distinct (map fst d)" "distinct (map fst e)"
    and "\<And>k. map_option canon (map_of d k) = map_option canon (map_of e k)"
  shows "canon (PDict d) = canon (PDict e)"
proof -
  let ?c = "map (\<lambda>p. (fst p, canon (snd p)))"
  have m: "distinct (map fst (?c d))" "distinct (map fst (?c e))" using assms(1,2) by (simp_all add: o_def)
  have "map_of (?c d) = map_of (?c e)" using assms(3) by (auto simp: map_of_map_snd)
  with m have "sort_key fst (?c d) = sort_key fst (?c e)"
    by (intro sorted_map_of_unique) (auto simp: distinct_map_sort_key map_of_sort_key)
  then show ?thesis by simp
qed

text \<open>The dictionary a reader gets for a written one: the same keys, values read back.\<close>

definition reread :: "pydict \<Rightarrow> pydict" where
  "reread d = dict_of (canon (PDict d))"

lemma PDict_reread: "PDict (reread d) = canon (PDict d)"
  by (simp add: reread_def)

lemma reread_distinct: "distinct (map fst d) \<Longrightarrow> distinct (map fst (reread d))"
  by (simp add: reread_def distinct_map_sort_key o_def)

lemma map_of_reread: "distinct (map fst d) \<Longrightarrow> map_of (reread d) k = map_option canon (map_of d k)"
  by (simp add: reread_def map_of_sort_key map_of_map_snd o_def)

lemma fld_reread: "distinct (map fst d) \<Longrightarrow> fld (reread d) k = canon (fld d k)"
  by (simp add: fld_def map_of_reread split: option.splits)

lemma canon_idem: "canon (canon v) = canon v"
proof (induction v)
  case (PDict d)
  let ?f = "\<lambda>p. (fst p, canon (snd p))"
  have "?f p = p" if "p \<in> set (sort_key fst (map ?f d))" for p
    using that PDict by (auto simp: snds.simps)
  then have "map ?f (sort_key fst (map ?f d)) = sort_key fst (map ?f d)" by (rule map_idI)
  then show ?case by (simp add: sort_key_id_if_sorted)
qed simp_all

text \<open>A value whose dictionaries are sorted is its own canonical form.\<close>

lemma canon_fixed:
  assumes "sorted (map fst d)" "\<And>p. p \<in> set d \<Longrightarrow> canon (snd p) = snd p"
  shows "canon (PDict d) = PDict d"
proof -
  have "map (\<lambda>p. (fst p, canon (snd p))) d = d" using assms(2) by (intro map_idI) auto
  then show ?thesis using assms(1) by (simp add: sort_key_id_if_sorted)
qed

section \<open>Values that are sure to be writable\<close>

text \<open>An ASCII value without floats has canonical bytes, and their number is bounded.\<close>

definition ascii :: "pystr \<Rightarrow> bool" where
  "ascii s \<longleftrightarrow> (\<forall>c \<in> set s. c < 0x80)"

fun ascii_val :: "pyval \<Rightarrow> bool" where
  "ascii_val (PStr s) = ascii s"
| "ascii_val (PFloat _) = False"
| "ascii_val (POther _) = False"
| "ascii_val (PList xs) = list_all ascii_val xs"
| "ascii_val (PDict d) = list_all (\<lambda>p. ascii (fst p) \<and> ascii_val (snd p)) d"
| "ascii_val v = True"

fun text_size :: "pyval \<Rightarrow> nat" where
  "text_size (PInt i) = length (dump_int i)"
| "text_size (PStr s) = 6 * length s + 2"
| "text_size (PList xs) = 2 + sum_list (map (\<lambda>x. text_size x + 1) xs)"
| "text_size (PDict d) = 2 + sum_list (map (\<lambda>p. 6 * length (fst p) + text_size (snd p) + 4) d)"
| "text_size v = 5"

lemma length_join_on: "length (join_on c ts) \<le> sum_list (map (\<lambda>t. length t + 1) ts)"
  by (induction c ts rule: join_on.induct) auto

lemma esc_char_bound: "length (esc_char c) \<le> 6" "c < 0x80 \<Longrightarrow> ascii (esc_char c)"
  by (auto simp: esc_char_def ascii_def hex_digit_def)

lemma dump_str_bound: "length (dump_str s) \<le> 6 * length s + 2" "ascii s \<Longrightarrow> ascii (dump_str s)"
proof -
  have "length (concat (map esc_char s)) \<le> 6 * length s"
    using esc_char_bound(1) by (induction s) (auto intro: add_mono)
  then show "length (dump_str s) \<le> 6 * length s + 2" by (simp add: dump_str_def)
  show "ascii s \<Longrightarrow> ascii (dump_str s)"
    using esc_char_bound(2) by (auto simp: dump_str_def ascii_def)
qed

lemma ascii_join_on: "\<forall>t \<in> set ts. ascii t \<Longrightarrow> ascii (join_on 44 ts)"
  using set_join_on [of 44 ts] by (auto simp: ascii_def)

lemma ascii_dump_int: "ascii (dump_int i)"
  using dec_digits by (fastforce simp: dump_int_def ascii_def is_digit_def)

lemma sum_list_all2:
  "list_all2 (\<lambda>x t. f t \<le> g x) xs ts \<Longrightarrow> sum_list (map f ts) \<le> (sum_list (map g xs) :: nat)"
  by (induction rule: list_all2_induct) auto

lemma list_all2_in_set: "list_all2 R xs ts \<Longrightarrow> t \<in> set ts \<Longrightarrow> \<exists>x \<in> set xs. R x t"
  by (induction rule: list_all2_induct) auto

lemma dumps_bound: "ascii_val v \<Longrightarrow> dumps L v = Inr t \<Longrightarrow> ascii t \<and> length t \<le> text_size v"
proof (induction v arbitrary: t)
  case (PList xs)
  then obtain ts where ts: "list_all2 (\<lambda>x t. dumps L x = Inr t) xs ts"
    and t: "t = 91 # join_on 44 ts @ [93]" by (auto simp: dumps_list_Inr)
  have "list_all2 (\<lambda>x t. ascii t \<and> length t + 1 \<le> text_size x + 1) xs ts"
    using ts by (rule list.rel_mono_strong) (use PList in \<open>auto simp: list_all_iff\<close>)
  note a = this
  then have "sum_list (map (\<lambda>t. length t + 1) ts) \<le> sum_list (map (\<lambda>x. text_size x + 1) xs)"
    by (intro sum_list_all2) (auto elim: list_all2_mono)
  then have "length t \<le> text_size (PList xs)" using length_join_on [of 44 ts] by (simp add: t)
  moreover have "ascii (join_on 44 ts)" using list_all2_in_set [OF a] by (intro ascii_join_on) blast
  ultimately show ?case by (simp add: t ascii_def)
next
  case (PDict d)
  then obtain its where its: "list_all2 (\<lambda>p it. fst it = fst p \<and> dumps L (snd p) = Inr (snd it)) d its"
    and t: "t = 123 # join_on 44 (map dump_member (sort_key fst its)) @ [125]"
    by (auto simp: dumps_items_Inr)
  have a: "list_all2 (\<lambda>p it. ascii (dump_member it)
      \<and> length (dump_member it) + 1 \<le> 6 * length (fst p) + text_size (snd p) + 4) d its"
    using its
  proof (rule list.rel_mono_strong)
    fix p it assume p: "p \<in> set d" "fst it = fst p \<and> dumps L (snd p) = Inr (snd it)"
    then have "ascii (fst p)" "ascii (snd it) \<and> length (snd it) \<le> text_size (snd p)"
      using PDict.prems(1) PDict.IH [of p "snd p" "snd it"] by (cases p; auto simp: list_all_iff snds.simps)+
    then show "ascii (dump_member it)
        \<and> length (dump_member it) + 1 \<le> 6 * length (fst p) + text_size (snd p) + 4"
      using dump_str_bound [of "fst it"] p(2) by (auto simp: dump_member_def ascii_def)
  qed
  have "sum_list (map (\<lambda>it. length (dump_member it) + 1) its)
      \<le> sum_list (map (\<lambda>p. 6 * length (fst p) + text_size (snd p) + 4) d)"
    using a by (intro sum_list_all2) (auto elim: list_all2_mono)
  then have "length t \<le> text_size (PDict d)"
    using length_join_on [of 44 "map dump_member (sort_key fst its)"]
    by (simp add: t o_def sum_list_sort_key)
  moreover have "ascii (join_on 44 (map dump_member (sort_key fst its)))"
    using list_all2_in_set [OF a] by (intro ascii_join_on) auto
  ultimately show ?case by (simp add: t ascii_def)
next
  case (PStr s)
  then show ?case using dump_str_bound by auto
qed (auto simp: lit_def ascii_def ascii_dump_int [unfolded ascii_def])

lemma ascii_dumpable: "ascii_val v \<Longrightarrow> dumpable v"
  by (induction v) (auto simp: list_all_iff snds.simps)

theorem ascii_writable:
  assumes "ascii_val v"
  shows "\<exists>b. canonical_json_bytes L v = Inr b \<and> length b \<le> text_size v + 1"
proof -
  obtain t where t: "dumps L v = Inr t" using ascii_dumpable [OF assms] dumps_dumpable(1) by metis
  note b = dumps_bound [OF assms t]
  have "utf8 (t @ [10]) = Some (map char_of (t @ [10]))" using b by (intro utf8_ascii) (auto simp: ascii_def)
  with t b show ?thesis by (simp add: canonical_json_bytes_def)
qed

text \<open>So has a value without floats whose strings are encodable, whatever its length.\<close>

definition encodable :: "pystr \<Rightarrow> bool" where
  "encodable s \<longleftrightarrow> (\<forall>c \<in> set s. utf8_char c \<noteq> None)"

lemma encodable_iff: "encodable s \<longleftrightarrow> utf8 s \<noteq> None"
  by (induction s) (auto simp: encodable_def split: option.splits)

lemma ascii_encodable: "ascii s \<Longrightarrow> encodable s"
  by (auto simp: ascii_def encodable_def utf8_char_def)

fun encodable_val :: "pyval \<Rightarrow> bool" where
  "encodable_val (PStr s) = encodable s"
| "encodable_val (PFloat _) = False"
| "encodable_val (POther _) = False"
| "encodable_val (PList xs) = list_all encodable_val xs"
| "encodable_val (PDict d) = list_all (\<lambda>p. encodable (fst p) \<and> encodable_val (snd p)) d"
| "encodable_val v = True"

lemma utf8_char_ascii [simp]: "c < 0x80 \<Longrightarrow> utf8_char c = Some [char_of c]"
  by (simp add: utf8_char_def)

lemma encodable_dump_str: "encodable s \<Longrightarrow> encodable (dump_str s)"
proof -
  have "encodable (esc_char c)" if "utf8_char c \<noteq> None" for c
    using that esc_char_bound(2) [of c] ascii_encodable
    by (cases "c < 0x80") (auto simp: esc_char_def encodable_def)
  then show "encodable s \<Longrightarrow> encodable (dump_str s)"
    by (force simp: encodable_def dump_str_def)
qed

lemma encodable_join_on: "\<forall>t \<in> set ts. encodable t \<Longrightarrow> encodable (join_on 44 ts)"
proof -
  assume a: "\<forall>t \<in> set ts. encodable t"
  have "utf8_char c \<noteq> None" if "c \<in> set (join_on 44 ts)" for c
  proof -
    have "c = 44 \<or> (\<exists>t \<in> set ts. c \<in> set t)" using that set_join_on [of 44 ts] by blast
    with a show ?thesis by (auto simp: encodable_def)
  qed
  then show ?thesis by (simp add: encodable_def)
qed

lemma encodable_add: "encodable (s @ t) \<longleftrightarrow> encodable s \<and> encodable t"
  "encodable (c # s) \<longleftrightarrow> utf8_char c \<noteq> None \<and> encodable s"
  by (auto simp: encodable_def)

lemma dumps_encodable: "encodable_val v \<Longrightarrow> dumps L v = Inr t \<Longrightarrow> encodable t"
proof (induction v arbitrary: t)
  case (PList xs)
  then obtain ts where ts: "list_all2 (\<lambda>x t. dumps L x = Inr t) xs ts"
    and t: "t = 91 # join_on 44 ts @ [93]" by (auto simp: dumps_list_Inr)
  have "\<forall>u \<in> set ts. encodable u"
    using list_all2_in_set [OF ts] PList by (auto simp: list_all_iff)
  then show ?case using encodable_join_on by (simp add: t encodable_add) (simp add: encodable_def)
next
  case (PDict d)
  then obtain its where its: "list_all2 (\<lambda>p it. fst it = fst p \<and> dumps L (snd p) = Inr (snd it)) d its"
    and t: "t = 123 # join_on 44 (map dump_member (sort_key fst its)) @ [125]"
    by (auto simp: dumps_items_Inr)
  have "encodable (dump_member it)" if it: "it \<in> set its" for it
  proof -
    obtain p where p: "p \<in> set d" "fst it = fst p" "dumps L (snd p) = Inr (snd it)"
      using list_all2_in_set [OF its it] by blast
    then have "encodable (fst p)" "encodable (snd it)"
      using PDict.prems(1) PDict.IH [of p "snd p" "snd it"] by (cases p; auto simp: list_all_iff snds.simps)+
    with p(2) show ?thesis
      using encodable_dump_str [of "fst it"] by (simp add: dump_member_def encodable_add)
  qed
  then have "encodable (join_on 44 (map dump_member (sort_key fst its)))"
    by (intro encodable_join_on) auto
  then show ?case by (simp add: t encodable_add) (simp add: encodable_def)
next
  case (PBool b)
  then show ?case by (cases b) (auto simp: lit_def encodable_def)
next
  case PNone
  then show ?case by (auto simp: lit_def encodable_def)
qed (auto simp: encodable_dump_str ascii_encodable [OF ascii_dump_int])

lemma encodable_dumpable: "encodable_val v \<Longrightarrow> dumpable v"
  by (induction v) (auto simp: list_all_iff snds.simps)

theorem encodable_writable:
  assumes "encodable_val v"
  obtains b where "canonical_json_bytes L v = Inr b"
proof -
  obtain t where t: "dumps L v = Inr t" using encodable_dumpable [OF assms] dumps_dumpable(1) by metis
  have "encodable (t @ [10])" using dumps_encodable [OF assms t] by (simp add: encodable_def utf8_char_def)
  then obtain b where "utf8 (t @ [10]) = Some b" unfolding encodable_iff by blast
  with t that show thesis by (simp add: canonical_json_bytes_def)
qed

end
