(* ===== verification/Processes.thy ===== *)
theory Processes
  imports Filesystem
begin

text \<open>
  Process identity and liveness on Linux, from \<^verbatim>\<open>src/src/benchhandoff/processes.py\<close>: what the code
  reads from \<open>/proc\<close> about a process, a process group and a child, and the process scope that stops
  a group. The Windows branches are not modelled. Shown here: the command name of a process, which
  the process chooses, has no influence on the state and the start time the parser finds; a
  termination that returns has seen the group empty; and waiting for that is bounded.
\<close>

section \<open>Text of a stat record\<close>

text \<open>White space as \<open>str.split\<close> and \<open>str.strip\<close> see it in ASCII text.\<close>

definition is_space :: "nat \<Rightarrow> bool" where
  "is_space c \<longleftrightarrow> 9 \<le> c \<and> c \<le> 13 \<or> 28 \<le> c \<and> c \<le> 32"

fun split_ws :: "pystr \<Rightarrow> pystr \<Rightarrow> pystr list" where
  "split_ws word [] = (if word = [] then [] else [word])"
| "split_ws word (c # s) =
     (if is_space c then (if word = [] then split_ws [] s else word # split_ws [] s)
      else split_ws (word @ [c]) s)"

definition str_split :: "pystr \<Rightarrow> pystr list" where
  "str_split s = split_ws [] s"

definition str_strip :: "pystr \<Rightarrow> pystr" where
  "str_strip s = rev (dropWhile is_space (rev (dropWhile is_space s)))"

text \<open>\<open>str.rfind\<close> of one character, \<open>None\<close> for -1.\<close>

fun rfind :: "nat \<Rightarrow> pystr \<Rightarrow> nat option" where
  "rfind c [] = None"
| "rfind c (d # s) =
     (case rfind c s of Some n \<Rightarrow> Some (Suc n) | None \<Rightarrow> if d = c then Some 0 else None)"

text \<open>\<open>str.isdigit\<close> and \<open>int\<close> on ASCII text without white space.\<close>

definition isdigit :: "pystr \<Rightarrow> bool" where
  "isdigit s \<longleftrightarrow> s \<noteq> [] \<and> list_all is_digit s"

definition digits_value :: "pystr \<Rightarrow> nat option" where
  "digits_value s =
     (if list_all isdigit (split_on 95 s) then Some (undec (concat (split_on 95 s))) else None)"

definition py_int :: "pystr \<Rightarrow> int option" where
  "py_int s =
     (case s of
        [] \<Rightarrow> None
      | c # r \<Rightarrow>
          if c = 45 then map_option (\<lambda>n. - int n) (digits_value r)
          else if c = 43 then map_option int (digits_value r)
          else map_option int (digits_value s))"

definition fields_after_comm :: "pystr \<Rightarrow> pystr list option" where
  "fields_after_comm process_stat =
     map_option (\<lambda>n. str_split (drop (n + 2) process_stat)) (rfind 41 process_stat)"

section \<open>Probes\<close>

datatype liveness = Alive | Dead | Unknown

definition read_proc :: "path \<Rightarrow> pystr io" where
  "read_proc p = ask (\<lambda>v t. os_text v t p)"

definition proc_mounted :: "bool io" where
  "proc_mounted = ask (\<lambda>v t. Inr (os_proc v))"

definition stat_path :: "pystr \<Rightarrow> path" where
  "stat_path name = [lit ''proc'', name, lit ''stat'']"

definition boot_id_path :: path where
  "boot_id_path = map lit [''proc'', ''sys'', ''kernel'', ''random'', ''boot_id'']"

definition is_unicode_error :: "pyexc \<Rightarrow> bool" where
  "is_unicode_error e \<longleftrightarrow> e = UnicodeDecodeError \<or> e = UnicodeEncodeError"

definition start_token_of :: "pystr \<Rightarrow> pystr \<Rightarrow> pystr option" where
  "start_token_of boot_id process_stat =
     (if boot_id = [] then None
      else case fields_after_comm process_stat of
        None \<Rightarrow> None
      | Some fs \<Rightarrow>
          if length fs \<le> 19 then None
          else if \<not> isdigit (fs ! 19) then None
          else Some (lit ''linux:'' @ boot_id @ lit '':'' @ fs ! 19))"

definition linux_process_start_token :: "nat \<Rightarrow> pystr option io" where
  "linux_process_start_token process_id =
     handle
       (iob (read_proc boot_id_path) (\<lambda>boot_text.
        iob (read_proc (stat_path (dec process_id))) (\<lambda>process_stat.
        ret (start_token_of (str_strip boot_text) process_stat))))
       (\<lambda>e. if is_os_error e \<or> is_unicode_error e then ret None else raise e)"

text \<open>The argument is any value; only a positive integer names a process.\<close>

definition positive_pid :: "pyval \<Rightarrow> nat option" where
  "positive_pid v = (case v of PInt i \<Rightarrow> if i > 0 then Some (nat i) else None | _ \<Rightarrow> None)"

definition process_start_token :: "pyval \<Rightarrow> pystr option io" where
  "process_start_token process_id =
     (case positive_pid process_id of
        None \<Rightarrow> ret None
      | Some n \<Rightarrow> iob proc_mounted (\<lambda>m. if m then linux_process_start_token n else ret None))"

definition liveness_of :: "pystr \<Rightarrow> liveness" where
  "liveness_of process_stat =
     (case fields_after_comm process_stat of
        None \<Rightarrow> Unknown
      | Some fs \<Rightarrow>
          (case fs of [] \<Rightarrow> Unknown
           | state # _ \<Rightarrow> if state \<in> {lit ''Z'', lit ''X''} then Dead else Alive))"

definition linux_process_liveness :: "nat \<Rightarrow> liveness io" where
  "linux_process_liveness process_id =
     handle (iob (read_proc (stat_path (dec process_id))) (\<lambda>process_stat. ret (liveness_of process_stat)))
       (\<lambda>e. if e = FileNotFoundError then ret Dead
            else if is_os_error e \<or> is_unicode_error e then ret Unknown else raise e)"

definition process_liveness :: "pyval \<Rightarrow> liveness io" where
  "process_liveness process_id =
     (case positive_pid process_id of
        None \<Rightarrow> ret Dead
      | Some n \<Rightarrow> iob proc_mounted (\<lambda>m.
          if m then linux_process_liveness n
          else handle (iob (ask (\<lambda>v t. os_kill v t (int n) 0)) (\<lambda>_. ret Alive))
            (\<lambda>e. if e = ProcessLookupError then ret Dead
                 else if is_os_error e then ret Unknown else raise e)))"

definition require_process_identity_support :: "unit io" where
  "require_process_identity_support w =
     iob (process_start_token (PInt (int (w_pid w)))) (\<lambda>token.
       if token = None then raise EvidenceError else ret ()) w"

section \<open>Process groups\<close>

text \<open>One entry of \<open>/proc\<close> and what it adds to the members.\<close>

definition group_member_of :: "int \<Rightarrow> pystr \<Rightarrow> pystr \<Rightarrow> pyexc + int list" where
  "group_member_of process_group_id name process_stat =
     (case fields_after_comm process_stat of
        None \<Rightarrow> Inl EvidenceError
      | Some fs \<Rightarrow>
          if length fs \<le> 2 then Inl EvidenceError
          else case py_int (fs ! 2) of
            None \<Rightarrow> Inl EvidenceError
          | Some pgrp \<Rightarrow>
              if pgrp = process_group_id \<and> fs ! 0 \<notin> {lit ''Z'', lit ''X''}
              then Inr [int (undec name)] else Inr [])"

fun group_scan :: "int \<Rightarrow> pystr list \<Rightarrow> int list io" where
  "group_scan process_group_id [] = ret []"
| "group_scan process_group_id (name # names) =
     (if \<not> isdigit name then group_scan process_group_id names
      else iob (handle (iob (read_proc (stat_path name)) (\<lambda>t. ret (Some t)))
             (\<lambda>e. if e = FileNotFoundError then ret None
                  else if is_os_error e \<or> is_unicode_error e then raise EvidenceError
                  else raise e)) (\<lambda>text.
        case text of
          None \<Rightarrow> group_scan process_group_id names
        | Some process_stat \<Rightarrow>
            iob (from_result (group_member_of process_group_id name process_stat)) (\<lambda>found.
            iob (group_scan process_group_id names) (\<lambda>members. ret (found @ members)))))"

definition linux_process_group_members :: "int \<Rightarrow> int list io" where
  "linux_process_group_members process_group_id =
     iob (reraise (\<lambda>e. if is_os_error e then EvidenceError else e)
            (ask (\<lambda>v t. Inr (os_names v t)))) (\<lambda>names.
     iob (group_scan process_group_id names) (\<lambda>members. ret (sort members)))"

definition GROUP_MODE :: string where
  "GROUP_MODE = ''posix-cooperative-process-group''"

text \<open>
  Where \<open>/proc\<close> is not mounted the code asks the command \<open>ps\<close>; the exit status and the output of
  that command are a parameter. Lines end as \<open>str.splitlines\<close> ends them in ASCII text.
\<close>

type_synonym ps_run = "(int \<times> pystr) io"

fun split_lines :: "pystr \<Rightarrow> pystr \<Rightarrow> pystr list" where
  "split_lines line [] = (if line = [] then [] else [line])"
| "split_lines line (c # s) =
     (if c = 13 then line # split_lines [] (if s \<noteq> [] \<and> hd s = 10 then tl s else s)
      else if c \<in> {10, 11, 12, 28, 29, 30} then line # split_lines [] s
      else split_lines (line @ [c]) s)"

definition ps_member :: "int \<Rightarrow> pystr \<Rightarrow> int list" where
  "ps_member process_group_id line =
     (let fs = str_split line in
      if length fs \<noteq> 3 then []
      else case (py_int (fs ! 0), py_int (fs ! 1)) of
        (Some process_id, Some pgrp) \<Rightarrow>
          if pgrp = process_group_id \<and> hd (fs ! 2) \<notin> {90, 88} then [process_id] else []
      | _ \<Rightarrow> [])"

definition ps_process_group_members :: "ps_run \<Rightarrow> int \<Rightarrow> int list io" where
  "ps_process_group_members ps process_group_id =
     iob (reraise (\<lambda>e. if is_os_error e \<or> e = TimeoutExpired then EvidenceError else e) ps)
       (\<lambda>(status, output).
     if status \<noteq> 0 then raise EvidenceError
     else ret (sort (concat (map (ps_member process_group_id) (split_lines [] output)))))"

definition process_scope_liveness :: "ps_run \<Rightarrow> pyval \<Rightarrow> pyval \<Rightarrow> liveness io" where
  "process_scope_liveness ps mode scope_id =
     (case positive_pid scope_id of
        None \<Rightarrow> ret Unknown
      | Some n \<Rightarrow>
          if mode \<noteq> PLit GROUP_MODE then ret Unknown
          else handle
            (iob proc_mounted (\<lambda>m.
             iob (if m then linux_process_group_members (int n) else ps_process_group_members ps (int n)) (\<lambda>members.
             ret (if members \<noteq> [] then Alive else Dead))))
            (\<lambda>e. if is_evidence_error e then ret Unknown else raise e))"

text \<open>On Linux; the process group of the caller is a parameter.\<close>

definition process_scope_policy :: "int \<Rightarrow> pyval io" where
  "process_scope_policy own_group w =
     iob proc_mounted (\<lambda>m.
     iob (if m then process_start_token (PInt (int (w_pid w))) else ret None) (\<lambda>token.
     if token = None then raise EvidenceError
     else iob (reraise (\<lambda>e. if is_os_error e \<or> is_evidence_error e then EvidenceError else e)
                 (linux_process_group_members own_group)) (\<lambda>_.
       ret (PDict [(lit ''mode'', PLit GROUP_MODE), (lit ''cooperative'', PBool True)])))) w"

section \<open>Children\<close>

text \<open>
  \<open>ControllableProcess\<close>: the part of \<open>subprocess.Popen\<close> the code uses. Durations are numbers of
  clock units; \<open>c_join\<close> is \<open>wait()\<close> without a timeout.
\<close>

record controllable =
  c_poll :: "int option io"
  c_terminate :: "unit io"
  c_kill :: "unit io"
  c_wait :: "nat \<Rightarrow> int io"
  c_join :: "int io"

definition os_to_evidence :: "'a io \<Rightarrow> 'a io" where
  "os_to_evidence m = reraise (\<lambda>e. if is_os_error e then EvidenceError else e) m"

definition unless_gone :: "unit io \<Rightarrow> unit io" where
  "unless_gone m =
     handle m (\<lambda>e. if e = ProcessLookupError then ret ()
                  else if is_os_error e then raise EvidenceError else raise e)"

definition wait_after_kill :: "controllable \<Rightarrow> nat \<Rightarrow> int io" where
  "wait_after_kill p kill_timeout =
     iob (unless_gone (c_kill p)) (\<lambda>_.
     reraise (\<lambda>e. if e = TimeoutExpired \<or> is_os_error e then EvidenceError else e)
       (c_wait p kill_timeout))"

definition stop_process :: "controllable \<Rightarrow> nat \<Rightarrow> nat \<Rightarrow> int io" where
  "stop_process p terminate_timeout kill_timeout =
     iob (os_to_evidence (c_poll p)) (\<lambda>return_code.
     case return_code of
       Some code \<Rightarrow> ret code
     | None \<Rightarrow>
         iob (unless_gone (c_terminate p)) (\<lambda>_.
         iob (handle (c_wait p terminate_timeout)
                (\<lambda>e. if e = TimeoutExpired then wait_after_kill p kill_timeout
                     else if is_os_error e then raise EvidenceError else raise e)) (\<lambda>code.
         iob (os_to_evidence (c_poll p)) (\<lambda>last.
         if last = None then raise EvidenceError else ret code))))"

definition confirmed_return_code :: "controllable \<Rightarrow> nat \<Rightarrow> int io" where
  "confirmed_return_code p timeout =
     iob (c_poll p) (\<lambda>return_code.
     case return_code of
       Some code \<Rightarrow> ret code
     | None \<Rightarrow>
         reraise (\<lambda>e. if e = TimeoutExpired \<or> is_os_error e then EvidenceError else e)
           (c_wait p timeout))"

section \<open>Process scopes\<close>

text \<open>
  \<open>_PosixProcessGroupScope\<close> with the \<open>ProcessScope\<close> that owns it: the group of the child, the
  child, and whether the two objects are closed.
\<close>

record scope =
  sc_group :: nat
  sc_process :: controllable
  sc_backend_closed :: bool
  sc_closed :: bool

definition monotonic :: "nat io" where
  "monotonic = ask (\<lambda>v t. Inr (os_clock v t))"

definition backend_active :: "ps_run \<Rightarrow> scope \<Rightarrow> int list io" where
  "backend_active ps sc =
     (if sc_backend_closed sc then ret []
      else iob proc_mounted (\<lambda>m.
        if m then linux_process_group_members (int (sc_group sc)) else ps_process_group_members ps (int (sc_group sc))))"

text \<open>The loop polls until the group is empty or the deadline has passed.\<close>

fun wait_for_empty :: "nat \<Rightarrow> controllable \<Rightarrow> nat \<Rightarrow> int list io \<Rightarrow> bool io" where
  "wait_for_empty 0 p deadline active = raise RuntimeError"
| "wait_for_empty (Suc fuel) p deadline active =
     iob (c_poll p) (\<lambda>_.
     iob active (\<lambda>members.
     if members = [] then ret True
     else iob monotonic (\<lambda>now.
       if deadline \<le> now then ret False
       else iob (ask (\<lambda>_ _. Inr ())) (\<lambda>_. wait_for_empty fuel p deadline active))))"

definition backend_wait_empty :: "ps_run \<Rightarrow> nat \<Rightarrow> scope \<Rightarrow> nat \<Rightarrow> bool io" where
  "backend_wait_empty ps fuel sc timeout =
     iob monotonic (\<lambda>now.
     wait_for_empty fuel (sc_process sc) (now + timeout) (backend_active ps sc))"

definition signal_group :: "scope \<Rightarrow> nat \<Rightarrow> unit io" where
  "signal_group sc signal_number =
     unless_gone (ask (\<lambda>v t. os_kill v t (- int (sc_group sc)) signal_number))"

definition SIGTERM :: nat where "SIGTERM = 15"
definition SIGKILL :: nat where "SIGKILL = 9"

definition backend_terminate :: "ps_run \<Rightarrow> nat \<Rightarrow> scope \<Rightarrow> nat \<Rightarrow> nat \<Rightarrow> int io" where
  "backend_terminate ps fuel sc terminate_timeout kill_timeout =
     iob (backend_active ps sc) (\<lambda>members.
     iob (if members \<noteq> [] then signal_group sc SIGTERM else ret ()) (\<lambda>_.
     iob (backend_wait_empty ps fuel sc terminate_timeout) (\<lambda>empty.
     iob (if empty then ret ()
          else iob (signal_group sc SIGKILL) (\<lambda>_.
            iob (backend_wait_empty ps fuel sc kill_timeout) (\<lambda>gone.
            if gone then ret ()
            else iob (backend_active ps sc) (\<lambda>_. raise EvidenceError)))) (\<lambda>_.
     confirmed_return_code (sc_process sc) kill_timeout))))"

definition scope_active :: "ps_run \<Rightarrow> scope \<Rightarrow> int list io" where
  "scope_active ps sc = (if sc_closed sc then ret [] else backend_active ps sc)"

definition scope_wait_empty :: "ps_run \<Rightarrow> nat \<Rightarrow> scope \<Rightarrow> nat \<Rightarrow> bool io" where
  "scope_wait_empty ps fuel sc timeout =
     (if sc_closed sc then ret True else backend_wait_empty ps fuel sc timeout)"

definition scope_terminate :: "ps_run \<Rightarrow> nat \<Rightarrow> scope \<Rightarrow> nat \<Rightarrow> nat \<Rightarrow> int io" where
  "scope_terminate ps fuel sc terminate_timeout kill_timeout =
     (if sc_closed sc then confirmed_return_code (sc_process sc) 0
      else backend_terminate ps fuel sc terminate_timeout kill_timeout)"

definition scope_close :: "ps_run \<Rightarrow> nat \<Rightarrow> nat \<Rightarrow> scope \<Rightarrow> scope io" where
  "scope_close ps fuel five_seconds sc =
     (if sc_closed sc then ret sc
      else iob (scope_active ps sc) (\<lambda>members.
        iob (if members \<noteq> [] then iob (scope_terminate ps fuel sc five_seconds five_seconds) (\<lambda>_. ret ())
             else iob (c_poll (sc_process sc)) (\<lambda>_. ret ())) (\<lambda>_.
        ret (sc\<lparr>sc_backend_closed := True, sc_closed := True\<rparr>))))"

section \<open>Reading a stat record\<close>

text \<open>The record as the kernel writes it: process id, command name in parentheses, fields.\<close>

definition stat_record :: "nat \<Rightarrow> pystr \<Rightarrow> pystr list \<Rightarrow> pystr" where
  "stat_record process_id comm fs = dec process_id @ lit '' ('' @ comm @ lit '') '' @ join_on 32 fs @ [10]"

definition stat_field :: "pystr \<Rightarrow> bool" where
  "stat_field f \<longleftrightarrow> f \<noteq> [] \<and> (\<forall>c \<in> set f. \<not> is_space c \<and> c \<noteq> 41)"

lemma rfind_append: "c \<notin> set t \<Longrightarrow> rfind c (s @ c # t) = Some (length s)"
proof (induction s)
  case Nil
  then have "rfind c t = None" by (induction t) auto
  then show ?case by simp
qed simp

lemma split_ws_word: "\<forall>c \<in> set f. \<not> is_space c \<Longrightarrow> split_ws word (f @ s) = split_ws (word @ f) s"
  by (induction f arbitrary: word) auto

lemma split_ws_join:
  "\<forall>f \<in> set fs. stat_field f \<Longrightarrow> fs \<noteq> [] \<Longrightarrow> split_ws [] (join_on 32 fs @ [10]) = fs"
proof (induction fs)
  case (Cons f fs)
  then have f: "f \<noteq> []" "\<forall>c \<in> set f. \<not> is_space c" by (auto simp: stat_field_def)
  show ?case
  proof (cases "fs = []")
    case True
    with f split_ws_word [of f "[]" "[10]"] show ?thesis by (simp add: is_space_def)
  next
    case False
    with f Cons split_ws_word [of f "[]" "32 # join_on 32 fs @ [10]"] show ?thesis
      by (simp add: join_on_Cons is_space_def)
  qed
qed simp

lemma fields_of_stat_record:
  assumes "fs \<noteq> []" "\<forall>f \<in> set fs. stat_field f"
  shows "fields_after_comm (stat_record process_id comm fs) = Some fs"
proof -
  let ?t = "32 # join_on 32 fs @ [10]"
  have r: "stat_record process_id comm fs = (dec process_id @ lit '' ('' @ comm) @ 41 # ?t"
    by (simp add: stat_record_def lit_def)
  have "41 \<notin> set ?t" using set_join_on [of 32 fs] assms(2) by (fastforce simp: stat_field_def)
  then have "rfind 41 (stat_record process_id comm fs) = Some (length (dec process_id @ lit '' ('' @ comm))"
    unfolding r by (rule rfind_append)
  with split_ws_join [OF assms(2,1)] show ?thesis
    by (simp add: fields_after_comm_def str_split_def r)
qed

text \<open>C23: Whatever name a process gives itself, parentheses, spaces and line feeds included, the
  parser finds the fields the kernel wrote after the name: the process counts as dead exactly
  when its state is zombie or dead, and its start token is the boot id with its start time.\<close>

theorem stat_record_immune_to_name:
  assumes "\<forall>f \<in> set fs. stat_field f" "length fs > 19" "isdigit (fs ! 19)" "boot_id \<noteq> []"
  shows "liveness_of (stat_record process_id comm fs)
           = (if fs ! 0 = lit ''Z'' \<or> fs ! 0 = lit ''X'' then Dead else Alive)
    \<and> start_token_of boot_id (stat_record process_id comm fs)
           = Some (lit ''linux:'' @ boot_id @ lit '':'' @ fs ! 19)"
proof -
  have "fs \<noteq> []" using assms(2) by auto
  then have "fields_after_comm (stat_record process_id comm fs) = Some fs"
    using assms(1) by (rule fields_of_stat_record)
  with assms(2-) show ?thesis
    by (cases fs) (auto simp: liveness_of_def start_token_of_def)
qed

theorem stat_record_immune_to_name_witness:
  "liveness_of (stat_record 7 (lit ''x) Z '') (lit ''S'' # replicate 18 (lit ''0'') @ [lit ''42''])) = Alive
   \<and> start_token_of (lit ''b'') (stat_record 7 (lit ''x) Z '') (lit ''S'' # replicate 18 (lit ''0'') @ [lit ''42'']))
       = Some (lit ''linux:b:42'')"
proof -
  have "\<forall>f \<in> set (lit ''S'' # replicate 18 (lit ''0'') @ [lit ''42'']). stat_field f"
    by (auto simp: stat_field_def is_space_def lit_def)
  from stat_record_immune_to_name [OF this, of "lit ''b''" 7 "lit ''x) Z ''"] show ?thesis
    by (simp add: isdigit_def is_digit_def lit_def nth_append)
qed

section \<open>Stopping a process group\<close>

lemma returns_handle_os [returns_simps]:
  "os_to_evidence m w = (Ret y, w') \<longleftrightarrow> m w = (Ret y, w')"
  by (simp add: os_to_evidence_def returns_simps)

lemma wait_for_empty_True:
  "wait_for_empty fuel p deadline active w = (Ret True, w') \<Longrightarrow> \<exists>w1. active w1 = (Ret [], w')"
proof (induction fuel arbitrary: w)
  case (Suc fuel)
  then show ?case by (auto simp: returns_simps split: if_splits)
qed simp

lemma backend_terminate_empty:
  assumes "backend_terminate ps fuel sc t k w = (Ret code, w')"
  shows "\<exists>w1 w2. backend_active ps sc w1 = (Ret [], w2) \<and> confirmed_return_code (sc_process sc) k w2 = (Ret code, w')"
proof -
  from assms obtain b u1 u2 u3 where w: "backend_wait_empty ps fuel sc t u1 = (Ret b, u2)"
    and r: "(if b then ret () else iob (signal_group sc SIGKILL) (\<lambda>_.
            iob (backend_wait_empty ps fuel sc k) (\<lambda>gone.
            if gone then ret ()
            else iob (backend_active ps sc) (\<lambda>_. raise EvidenceError)))) u2 = (Ret (), u3)"
    and c: "confirmed_return_code (sc_process sc) k u3 = (Ret code, w')"
    by (auto simp: backend_terminate_def returns_simps simp del: io_simps)
  have "\<exists>w1. backend_wait_empty ps fuel sc (if b then t else k) w1 = (Ret True, u3)"
    using w r by (cases b) (auto simp: returns_simps split: if_splits)
  then obtain w1 where "backend_active ps sc w1 = (Ret [], u3)"
    unfolding backend_wait_empty_def returns_simps using wait_for_empty_True by blast
  with c show ?thesis by blast
qed

text \<open>C21: When stopping an open scope returns an exit status, the last enumeration of its
  process group had found no live member, and after it the leader was polled or waited for and
  had ended with that status.\<close>

theorem scope_terminate_confirms:
  assumes "\<not> sc_closed sc" "scope_terminate ps fuel sc t k w = (Ret code, w')"
  shows "\<exists>w1 w2. backend_active ps sc w1 = (Ret [], w2)
    \<and> (c_poll (sc_process sc) w2 = (Ret (Some code), w')
      \<or> (\<exists>w3. c_poll (sc_process sc) w2 = (Ret None, w3) \<and> c_wait (sc_process sc) k w3 = (Ret code, w')))"
proof -
  from assms have "backend_terminate ps fuel sc t k w = (Ret code, w')" by (simp add: scope_terminate_def)
  from backend_terminate_empty [OF this] obtain w1 w2 where "backend_active ps sc w1 = (Ret [], w2)"
    "confirmed_return_code (sc_process sc) k w2 = (Ret code, w')" by blast
  then show ?thesis
    by (fastforce simp: confirmed_return_code_def returns_simps split: option.split_asm)
qed

text \<open>\<open>subprocess.Popen\<close> on this world; a wait for a child that never ends is interrupted.\<close>

definition popen :: "nat \<Rightarrow> controllable" where
  "popen child = \<lparr>
     c_poll = ask (\<lambda>v t. Inr (os_exit v t)),
     c_terminate = ask (\<lambda>v t. os_kill v t (int child) SIGTERM),
     c_kill = ask (\<lambda>v t. os_kill v t (int child) SIGKILL),
     c_wait = (\<lambda>_. ask (\<lambda>v t. case os_exit v t of None \<Rightarrow> Inl TimeoutExpired | Some c \<Rightarrow> Inr c)),
     c_join = ask (\<lambda>v t. case os_exit v t of None \<Rightarrow> Inl KeyboardInterrupt | Some c \<Rightarrow> Inr c)\<rparr>"

definition group_scope :: "nat \<Rightarrow> scope" where
  "group_scope child = \<lparr>sc_group = child, sc_process = popen child, sc_backend_closed = False, sc_closed = False\<rparr>"

definition quiet_world :: "os_view \<Rightarrow> world" where
  "quiet_world v = \<lparr>w_fs = \<lparr>fs_names = [([], 0)], fs_nodes = (\<lambda>_. Dir), fs_dev = (\<lambda>_. 0), fs_next = 1,
       fs_locks = (\<lambda>_. None), fs_maker = (\<lambda>_. 0)\<rparr>,
     w_tick = 0, w_env = (\<lambda>_ s. s), w_fate = (\<lambda>_. Run), w_uuid = (\<lambda>_. lit ''u''),
     w_now = (\<lambda>_. lit ''now''), w_pid = 1, w_os = v, w_log = []\<rparr>"

lemma ask_returns:
  assumes "w_fate w (w_tick w) = Run" "f (w_os w) (Suc (w_tick w)) = Inr x"
  shows "\<exists>w'. ask f w = (Ret x, w') \<and> w_os w' = w_os w \<and> w_fate w' = w_fate w \<and> w_tick w' = Suc (w_tick w)"
  using assms by (simp add: ask_def iob_def look_def sys_def sys_torn_def Let_def)

text \<open>No file system call of another process, no fault: the kernel answers as \<open>v\<close> says.\<close>

definition answers :: "os_view \<Rightarrow> world \<Rightarrow> bool" where
  "answers v w \<longleftrightarrow> w_os w = v \<and> (\<forall>t. w_fate w t = Run)"

definition gives :: "os_view \<Rightarrow> 'a io \<Rightarrow> 'a \<Rightarrow> bool" where
  "gives v m x \<longleftrightarrow> (\<forall>w. answers v w \<longrightarrow> (\<exists>w'. m w = (Ret x, w') \<and> answers v w'))"

named_theorems gives_intros \<open>what code returns when the kernel answers the same at all times\<close>

lemma gives_ret [gives_intros]: "gives v (ret x) x"
  by (simp add: gives_def)

lemma gives_iob [gives_intros]: "gives v m x \<Longrightarrow> gives v (f x) y \<Longrightarrow> gives v (iob m f) y"
  by (fastforce simp: gives_def iob_def)

lemma gives_ask [gives_intros]: "(\<And>t. f v t = Inr x) \<Longrightarrow> gives v (ask f) x"
  unfolding gives_def using ask_returns [where f = f and x = x] by (fastforce simp: answers_def)

lemma gives_reraise [gives_intros]: "gives v m x \<Longrightarrow> gives v (reraise h m) x"
  by (fastforce simp: gives_def reraise_def handle_def)

lemma gives_if [gives_intros]:
  "(b \<Longrightarrow> gives v m x) \<Longrightarrow> (\<not> b \<Longrightarrow> gives v n x) \<Longrightarrow> gives v (if b then m else n) x"
  by simp

lemma gives_gone_group:
  assumes "os_proc v" "\<And>t. os_names v t = []" "\<And>t. os_exit v t = Some c" "\<And>t. os_clock v t = n"
  shows "gives v (backend_active ps (group_scope g)) []"
    "gives v (backend_wait_empty ps (Suc fuel) (group_scope g) t) True"
    "gives v (scope_terminate ps (Suc fuel) (group_scope g) t k) c"
proof -
  note defs = group_scope_def popen_def linux_process_group_members_def proc_mounted_def
  show a: "gives v (backend_active ps (group_scope g)) []"
    using assms by (auto simp: backend_active_def defs simp del: io_simps
        intro!: gives_intros gives_iob [where x = "[]"] gives_iob [where x = True])
  then have "gives v (wait_for_empty (Suc fuel) (popen g) d (backend_active ps (group_scope g))) True" for d
    using assms by (auto simp: popen_def simp del: io_simps
        intro!: gives_intros gives_iob [where x = "[]"] gives_iob [where x = "Some c"])
  moreover have "gives v monotonic n" using assms by (auto simp: monotonic_def intro: gives_ask)
  moreover have "sc_process (group_scope g) = popen g" by (simp add: group_scope_def)
  ultimately have e: "gives v (backend_wait_empty ps (Suc fuel) (group_scope g) t) True" for t
    unfolding backend_wait_empty_def by (metis gives_iob)
  then show "gives v (backend_wait_empty ps (Suc fuel) (group_scope g) t) True" .
  have c: "gives v (confirmed_return_code (popen g) k) c"
    using assms by (auto simp: confirmed_return_code_def popen_def simp del: io_simps
        intro!: gives_intros gives_iob [where x = "Some c"])
  have "gives v (backend_terminate ps (Suc fuel) (group_scope g) t k) c"
    unfolding backend_terminate_def
    by (intro gives_iob [where x = "[]", OF a] gives_iob [where x = True, OF e] gives_iob [where x = "()"])
      (use c in \<open>auto simp: group_scope_def simp del: io_simps intro: gives_ret\<close>)
  then show "gives v (scope_terminate ps (Suc fuel) (group_scope g) t k) c"
    by (simp add: scope_terminate_def group_scope_def)
qed

lemma answers_quiet_world: "answers v (quiet_world v)"
  by (simp add: answers_def quiet_world_def)

definition gone_os :: os_view where
  "gone_os = bare_os\<lparr>os_proc := True, os_exit := (\<lambda>_. Some 0), os_clock := (\<lambda>_. 0)\<rparr>"

theorem scope_terminate_confirms_witness:
  "\<exists>w' w1 w2. scope_terminate (raise OSError) 1 (group_scope 7) 5 5 (quiet_world gone_os) = (Ret 0, w')
    \<and> backend_active (raise OSError) (group_scope 7) w1 = (Ret [], w2)"
proof -
  have "gives gone_os (scope_terminate (raise OSError) (Suc 0) (group_scope 7) 5 5) 0"
    by (rule gives_gone_group(3)) (simp_all add: gone_os_def bare_os_def)
  then obtain w' where w: "scope_terminate (raise OSError) 1 (group_scope 7) 5 5 (quiet_world gone_os) = (Ret 0, w')"
    unfolding gives_def using answers_quiet_world by fastforce
  have "\<not> sc_closed (group_scope 7)" by (simp add: group_scope_def)
  from scope_terminate_confirms [OF this w] w show ?thesis by blast
qed

section \<open>Waiting ends\<close>

text \<open>Code that changes neither what the kernel will answer nor turns the time back.\<close>

definition forward :: "'a io \<Rightarrow> bool" where
  "forward m \<longleftrightarrow> (\<forall>w out w'. m w = (out, w') \<longrightarrow> w_os w' = w_os w \<and> w_tick w \<le> w_tick w')"

named_theorems forward_intros \<open>code that does not turn back the time\<close>

lemma forward_ret [forward_intros]: "forward (ret x)" "forward (raise e)" "forward (from_result r)"
  by (cases r; simp add: forward_def)+

lemma forward_iob [forward_intros]: "forward m \<Longrightarrow> (\<And>x. forward (f x)) \<Longrightarrow> forward (iob m f)"
  unfolding forward_def iob_def by (fastforce split: prod.splits outcome.splits)

lemma forward_handle [forward_intros]: "forward m \<Longrightarrow> (\<And>e. forward (h e)) \<Longrightarrow> forward (handle m h)"
  unfolding forward_def handle_def by (fastforce split: prod.splits outcome.splits)

lemma forward_reraise [forward_intros]: "forward m \<Longrightarrow> forward (reraise h m)"
  unfolding reraise_def by (intro forward_intros)

lemma forward_if [forward_intros]: "forward m \<Longrightarrow> forward n \<Longrightarrow> forward (if b then m else n)"
  by simp

lemma forward_option [forward_intros]:
  "forward m \<Longrightarrow> (\<And>x. forward (f x)) \<Longrightarrow> forward (case v of None \<Rightarrow> m | Some x \<Rightarrow> f x)"
  by (cases v) simp_all

lemma forward_prod [forward_intros]: "(\<And>a b. forward (f a b)) \<Longrightarrow> forward (case x of (a, b) \<Rightarrow> f a b)"
  by (cases x) simp

lemma ask_step:
  assumes "ask f w = (out, w')"
  shows "w_os w' = w_os w \<and> w_tick w' = Suc (w_tick w) \<and> (\<forall>x. out = Ret x \<longrightarrow> f (w_os w) (Suc (w_tick w)) = Inr x)"
  using assms unfolding ask_def iob_def look_def sys_def sys_torn_def Let_def
  by (cases "f (w_os w) (Suc (w_tick w))") (auto split: fate.splits)

lemma forward_ask [forward_intros]: "forward (ask f)"
  unfolding forward_def using ask_step [of f] by fastforce

lemma forward_group_scan [forward_intros]: "forward (group_scan g names)"
  by (induction names) (auto simp: read_proc_def simp del: io_simps intro!: forward_intros)

lemma forward_backend_active: "forward ps \<Longrightarrow> forward (backend_active ps sc)"
  unfolding backend_active_def linux_process_group_members_def ps_process_group_members_def proc_mounted_def
  by (intro forward_intros)

lemma iob_cong_at: "(\<And>x w1. m w = (Ret x, w1) \<Longrightarrow> f x w1 = g x w1) \<Longrightarrow> iob m f w = iob m g w"
  by (auto simp: iob_def split: outcome.splits prod.splits)

lemma wait_for_empty_step:
  assumes "forward (c_poll p)" "forward active" "strict_mono (os_clock (w_os w))"
    and rest: "\<And>w4. w_os w4 = w_os w \<Longrightarrow> w_tick w < w_tick w4 \<Longrightarrow> os_clock (w_os w) (w_tick w) < deadline \<Longrightarrow>
      wait_for_empty n p deadline active w4 = wait_for_empty m p deadline active w4"
  shows "wait_for_empty (Suc n) p deadline active w = wait_for_empty (Suc m) p deadline active w"
  unfolding wait_for_empty.simps
proof (rule iob_cong_at, rule iob_cong_at)
  fix x w1 members w2
  assume "c_poll p w = (Ret x, w1)" "active w1 = (Ret members, w2)"
  then have w2: "w_os w2 = w_os w" "w_tick w \<le> w_tick w2"
    using assms(1,2) unfolding forward_def by fastforce+
  let ?body = "\<lambda>k. iob monotonic (\<lambda>now. if deadline \<le> now then ret False
    else iob (ask (\<lambda>_ _. Inr ())) (\<lambda>_. wait_for_empty k p deadline active))"
  have "?body n w2 = ?body m w2"
  proof (rule iob_cong_at)
    fix now w3 assume "monotonic w2 = (Ret now, w3)"
    then have w3: "w_os w3 = w_os w" "w_tick w < w_tick w3" "now = os_clock (w_os w) (Suc (w_tick w2))"
      using ask_step [of "\<lambda>v t. Inr (os_clock v t)" w2] w2 by (auto simp: monotonic_def)
    have "os_clock (w_os w) (w_tick w) < now"
      using w3(3) w2(2) assms(3) by (simp add: strict_mono_less)
    moreover have "iob (ask (\<lambda>_ _. Inr ())) (\<lambda>_. wait_for_empty n p deadline active) w3
      = iob (ask (\<lambda>_ _. Inr ())) (\<lambda>_. wait_for_empty m p deadline active) w3" if "now < deadline"
    proof (rule iob_cong_at)
      fix y w4 assume "ask (\<lambda>_ _. Inr ()) w3 = (Ret y, w4)"
      from ask_step [OF this] w3 have "w_os w4 = w_os w" "w_tick w < w_tick w4" by simp_all
      with rest \<open>os_clock _ _ < now\<close> that
      show "wait_for_empty n p deadline active w4 = wait_for_empty m p deadline active w4" by simp
    qed
    ultimately show "(if deadline \<le> now then ret False
        else iob (ask (\<lambda>_ _. Inr ())) (\<lambda>_. wait_for_empty n p deadline active)) w3
      = (if deadline \<le> now then ret False
        else iob (ask (\<lambda>_ _. Inr ())) (\<lambda>_. wait_for_empty m p deadline active)) w3"
      by auto
  qed
  then show "(if members = [] then ret True else ?body n) w2 = (if members = [] then ret True else ?body m) w2"
    by simp
qed

lemma wait_for_empty_fuel:
  assumes "forward (c_poll p)" "forward active" "strict_mono (os_clock (w_os w))"
    and "deadline \<le> os_clock (w_os w) (w_tick w) + fuel"
  shows "wait_for_empty (Suc (fuel + k)) p deadline active w = wait_for_empty (Suc fuel) p deadline active w"
  using assms(3,4)
proof (induction fuel arbitrary: w)
  case 0
  then show ?case by (intro wait_for_empty_step assms(1,2)) auto
next
  case (Suc fuel)
  have "wait_for_empty (Suc (fuel + k)) p deadline active w4 = wait_for_empty (Suc fuel) p deadline active w4"
    if w4: "w_os w4 = w_os w" "w_tick w < w_tick w4" for w4
  proof (rule Suc.IH)
    have "os_clock (w_os w) (w_tick w) < os_clock (w_os w) (w_tick w4)"
      using Suc.prems(1) w4(2) by (simp add: strict_mono_less)
    with Suc.prems w4 show "strict_mono (os_clock (w_os w4))" "deadline \<le> os_clock (w_os w4) (w_tick w4) + fuel"
      by simp_all
  qed
  with wait_for_empty_step [OF assms(1,2) Suc.prems(1)] show ?case unfolding add_Suc by blast
qed



end
