(* ===== verification/Writer_Lock.thy ===== *)
theory Writer_Lock
  imports Storage Canonical Processes
begin

text \<open>
  The writer lock of \<^verbatim>\<open>src/src/benchhandoff/writer_lock.py\<close> on POSIX: the lock file beside a run
  directory, the kernel lock on it, acquisition, release, and the inspection and recovery of a
  lock whose owner is gone.
\<close>

section \<open>Paths and records\<close>

definition WRITER_LOCK_SUFFIX :: pystr where
  "WRITER_LOCK_SUFFIX = lit ''.benchhandoff-writer-lock.json''"

definition WRITER_LOCK_MAX_BYTES :: nat where
  "WRITER_LOCK_MAX_BYTES = 4096"

definition RECOVERED_WRITER_LOCK_SUFFIX :: pystr where
  "RECOVERED_WRITER_LOCK_SUFFIX = lit ''.benchhandoff-recovered-writer-lock.json''"

definition WRITER_LOCK_FIELDS :: "string list" where
  "WRITER_LOCK_FIELDS = [''schema_version'', ''kind'', ''run_directory'', ''owner_pid'',
     ''owner_process_start_token'', ''lock_nonce'']"

text \<open>\<open>str(path)\<close> of an absolute path.\<close>

definition path_text :: "path \<Rightarrow> pystr" where
  "path_text p = (if p = [] then [47] else concat (map (\<lambda>c. 47 # c) p))"

definition normalized_run_path :: "path \<Rightarrow> path io" where
  "normalized_run_path candidate =
     (if candidate = [] then raise BoundaryError
      else iob (checked_directory (butlast candidate)) (\<lambda>parent. ret (parent @ [last candidate])))"

definition lock_name :: "pystr \<Rightarrow> pystr" where
  "lock_name name = 46 # name @ WRITER_LOCK_SUFFIX"

definition writer_lock_path :: "path \<Rightarrow> path io" where
  "writer_lock_path run_directory =
     iob (normalized_run_path run_directory) (\<lambda>run_path.
     ret (butlast run_path @ [lock_name (last run_path)]))"

definition recovery_tombstone_path :: "path \<Rightarrow> pyval \<Rightarrow> path" where
  "recovery_tombstone_path p identity =
     butlast p @ [46 # str_of (fld (dict_of identity) ''sha256'') @ RECOVERED_WRITER_LOCK_SUFFIX]"

definition token_val :: "pystr option \<Rightarrow> pyval" where
  "token_val t = (case t of None \<Rightarrow> PNone | Some s \<Rightarrow> PStr s)"

definition owner_record_of :: "path \<Rightarrow> nat \<Rightarrow> pystr option \<Rightarrow> pystr \<Rightarrow> pydict" where
  "owner_record_of run_path process_id token nonce =
     [(lit ''schema_version'', PInt 1),
      (lit ''kind'', PLit ''benchhandoff-writer-lock''),
      (lit ''run_directory'', PStr (path_text run_path)),
      (lit ''owner_pid'', PInt (int process_id)),
      (lit ''owner_process_start_token'', token_val token),
      (lit ''lock_nonce'', PStr nonce)]"

definition getpid :: "nat io" where
  "getpid w = (Ret (w_pid w), w)"

definition owner_record :: "path \<Rightarrow> pydict io" where
  "owner_record run_path =
     iob getpid (\<lambda>process_id.
     iob (process_start_token (PInt (int process_id))) (\<lambda>token.
     iob uuid4 (\<lambda>nonce. ret (owner_record_of run_path process_id token nonce))))"

type_synonym object_key = "nat \<times> ino"

definition regular_object_key :: "path \<Rightarrow> object_key io" where
  "regular_object_key p =
     iob (reraise missing_to_boundary (look (fs_lstat p))) (\<lambda>metadata.
     if is_lnk (st_node metadata) then raise BoundaryError
     else if \<not> is_reg (st_node metadata) then raise BoundaryError
     else ret (st_dev metadata, st_ino metadata))"

text \<open>\<open>json.loads\<close> without hooks: the last of equal keys wins, and the constants are floats.\<close>

definition plain_object :: "pydict \<Rightarrow> pyexc + pyval" where
  "plain_object pairs = Inr (PDict (fold (\<lambda>(k, v) d. AList.update k v d) pairs []))"

definition plain_constant :: "pystr \<Rightarrow> pyexc + pyval" where
  "plain_constant s =
     Inr (PFloat (if s = lit ''NaN'' then FNan else if s = lit ''Infinity'' then FInf False else FInf True))"

definition is_nonce :: "pystr \<Rightarrow> bool" where
  "is_nonce s \<longleftrightarrow> length s = 32 \<and> list_all is_lower_hex s"

definition bounded_token :: "pyval \<Rightarrow> bool" where
  "bounded_token v =
     (case v of
        PNone \<Rightarrow> True
      | PStr s \<Rightarrow> s \<noteq> [] \<and> (case utf8 s of None \<Rightarrow> False | Some b \<Rightarrow> length b \<le> 512)
      | _ \<Rightarrow> False)"

definition validate_lock_record :: "path \<Rightarrow> pydict \<Rightarrow> pyexc + pydict" where
  "validate_lock_record run_path record =
     (if set (dkeys record) \<noteq> set (map lit WRITER_LOCK_FIELDS) then Inl EvidenceError
      else if \<not> (non_bool_int (fld record ''schema_version'') \<and> int_of (fld record ''schema_version'') = 1)
      then Inl EvidenceError
      else if fld record ''kind'' \<noteq> PLit ''benchhandoff-writer-lock'' then Inl EvidenceError
      else if fld record ''run_directory'' \<noteq> PStr (path_text run_path) then Inl EvidenceError
      else if \<not> (non_bool_int (fld record ''owner_pid'') \<and> int_of (fld record ''owner_pid'') > 0)
      then Inl EvidenceError
      else if \<not> bounded_token (fld record ''owner_process_start_token'') then Inl EvidenceError
      else if \<not> (is_str (fld record ''lock_nonce'') \<and> is_nonce (str_of (fld record ''lock_nonce'')))
      then Inl EvidenceError
      else Inr record)"

definition decode_writer_lock_record :: "pylib \<Rightarrow> bytes \<Rightarrow> path \<Rightarrow> pyexc + pydict" where
  "decode_writer_lock_record L payload run_path =
     (case utf8_decode payload of
        None \<Rightarrow> Inl EvidenceError
      | Some text \<Rightarrow>
          rbind (rcatch (\<lambda>e. if is_value_error e then EvidenceError else e)
                   (loads L plain_object plain_constant text)) (\<lambda>v.
          case v of
            PDict record \<Rightarrow>
              rbind (canonical_json_bytes L v) (\<lambda>b.
              if b \<noteq> payload then Inl EvidenceError
              else validate_lock_record run_path record)
          | _ \<Rightarrow> Inl EvidenceError))"

section \<open>Reading a lock\<close>

definition read_writer_lock_snapshot :: "pylib \<Rightarrow> path
    \<Rightarrow> (path \<times> pydict \<times> pyval \<times> bytes \<times> object_key) io" where
  "read_writer_lock_snapshot L run_path =
     iob (writer_lock_path run_path) (\<lambda>p.
     iob (regular_object_key p) (\<lambda>key.
     iob (read_regular_bytes p (Some WRITER_LOCK_MAX_BYTES)) (\<lambda>payload.
     iob (from_result (decode_writer_lock_record L payload run_path)) (\<lambda>record.
     let identity = identity_of L payload in
     iob (file_identity L p) (\<lambda>current.
     if \<not> identities_match identity current then raise EvidenceError
     else iob (regular_object_key p) (\<lambda>again.
       if again \<noteq> key then raise EvidenceError
       else ret (p, record, identity, payload, key)))))))"

section \<open>The kernel lock\<close>

text \<open>A descriptor is the inode it is open on; closing it drops the lock taken through it.\<close>

definition try_posix_flock :: "ino \<Rightarrow> bool io" where
  "try_posix_flock descriptor =
     iob getpid (\<lambda>me.
     handle (sys (fs_flock me descriptor))
       (\<lambda>e. if e = PermissionError then ret False
            else if is_os_error e then raise EvidenceError else raise e))"

definition unflock :: "ino \<Rightarrow> unit io" where
  "unflock descriptor =
     iob getpid (\<lambda>me. sys (\<lambda>s. (Inr (), fs_unflock me descriptor s)))"

definition os_failed :: "unit io \<Rightarrow> bool io" where
  "os_failed m = handle (iob m (\<lambda>_. ret False)) (\<lambda>e. if is_os_error e then ret True else raise e)"

definition release_posix_flock :: "ino \<Rightarrow> unit io" where
  "release_posix_flock descriptor =
     iob (os_failed (unflock descriptor)) (\<lambda>unlock_error.
     iob (os_failed (unflock descriptor)) (\<lambda>close_error.
     if unlock_error \<or> close_error then raise EvidenceError else ret ()))"

record kernel_guard =
  kg_value :: ino
  kg_object_key :: object_key

definition open_writer_lock_readwrite :: "path \<Rightarrow> (ino \<times> object_key) io" where
  "open_writer_lock_readwrite p =
     iob (regular_object_key p) (\<lambda>key.
     iob (reraise (\<lambda>e. if is_os_error e then EvidenceError else e) (look (fs_open_nofollow p))) (\<lambda>descriptor.
     iob (look (\<lambda>s. Inr (stat_ino s descriptor))) (\<lambda>opened.
     if \<not> is_reg (st_node opened) \<or> (st_dev opened, st_ino opened) \<noteq> key
     then iob (unflock descriptor) (\<lambda>_. raise BoundaryError)
     else ret (descriptor, key))))"

definition acquire_recovery_guard :: "path \<Rightarrow> kernel_guard option io" where
  "acquire_recovery_guard p =
     iob (open_writer_lock_readwrite p) (\<lambda>(descriptor, key).
     iob (try_posix_flock descriptor) (\<lambda>got.
     if \<not> got then iob (unflock descriptor) (\<lambda>_. ret None)
     else ret (Some \<lparr>kg_value = descriptor, kg_object_key = key\<rparr>)))"

section \<open>The owner\<close>

datatype lock_action = Refuse | Recover_Orphan

definition action_text :: "lock_action \<Rightarrow> string" where
  "action_text a = (case a of Refuse \<Rightarrow> ''refuse'' | Recover_Orphan \<Rightarrow> ''recover-orphan'')"

definition observed :: "string \<Rightarrow> pyval \<Rightarrow> pyval" where
  "observed liveness token = PDict [(lit ''liveness'', PLit liveness), (lit ''process_start_token'', token)]"

definition usable_token :: "pystr option \<Rightarrow> bool" where
  "usable_token t \<longleftrightarrow> (case t of None \<Rightarrow> False | Some s \<Rightarrow> s \<noteq> [])"

definition compare_tokens :: "pyval \<Rightarrow> pystr option \<Rightarrow> pystr option \<Rightarrow> pyval \<times> lock_action \<times> string" where
  "compare_tokens recorded first_token second_token =
     (if \<not> usable_token first_token \<or> \<not> usable_token second_token
      then (observed ''alive'' PNone, Refuse, ''owner-identity-unverifiable'')
      else if first_token \<noteq> second_token
      then (observed ''unstable'' PNone, Refuse, ''owner-observation-changed'')
      else let observation = observed ''alive'' (token_val first_token) in
        if \<not> (is_str recorded \<and> str_of recorded \<noteq> [])
        then (observation, Refuse, ''owner-identity-unverifiable'')
        else if token_val first_token = recorded then (observation, Refuse, ''owner-alive'')
        else (observation, Recover_Orphan, ''owner-pid-reused''))"

definition owner_observation :: "pydict \<Rightarrow> (pyval \<times> lock_action \<times> string) io" where
  "owner_observation record =
     (let owner_pid = fld record ''owner_pid'';
          unknown = (observed ''unknown'' PNone, Refuse, ''owner-liveness-unknown'');
          changed = (observed ''unstable'' PNone, Refuse, ''owner-observation-changed'') in
      iob (process_liveness owner_pid) (\<lambda>first_liveness.
      case first_liveness of
        Unknown \<Rightarrow> ret unknown
      | Dead \<Rightarrow>
          iob (process_liveness owner_pid) (\<lambda>second_liveness.
          ret (case second_liveness of
                 Dead \<Rightarrow> (observed ''dead'' PNone, Recover_Orphan, ''owner-dead'')
               | Unknown \<Rightarrow> unknown
               | Alive \<Rightarrow> changed))
      | Alive \<Rightarrow>
          iob (process_start_token owner_pid) (\<lambda>first_token.
          iob (process_liveness owner_pid) (\<lambda>second_liveness.
          case second_liveness of
            Unknown \<Rightarrow> ret unknown
          | Dead \<Rightarrow> ret changed
          | Alive \<Rightarrow>
              iob (process_start_token owner_pid) (\<lambda>second_token.
              ret (compare_tokens (fld record ''owner_process_start_token'') first_token second_token))))))"

definition decision_body :: "path \<Rightarrow> path \<Rightarrow> pydict \<Rightarrow> pyval \<Rightarrow> pyval \<times> lock_action \<times> string \<Rightarrow> pydict" where
  "decision_body run_path p record identity result =
     (case result of (observation, action, reason) \<Rightarrow>
       [(lit ''schema_version'', PInt 1),
        (lit ''kind'', PLit ''benchhandoff-writer-lock-recovery-decision''),
        (lit ''run_directory'', PStr (path_text run_path)),
        (lit ''lock_path'', PStr (path_text p)),
        (lit ''lock_identity'', identity),
        (lit ''lock_record'', PDict record),
        (lit ''owner_observation'', observation),
        (lit ''action'', PLit (action_text action)),
        (lit ''reason'', PLit reason),
        (lit ''tombstone_path'', PStr (path_text (recovery_tombstone_path p identity)))])"

text \<open>The decision: its action and reason, its digest, and the dictionary itself.\<close>

record lock_decision =
  ld_action :: lock_action
  ld_reason :: string
  ld_sha256 :: pystr
  ld_body :: pydict

definition build_recovery_decision :: "pylib \<Rightarrow> path \<Rightarrow> path \<Rightarrow> pydict \<Rightarrow> pyval \<Rightarrow> lock_decision io" where
  "build_recovery_decision L run_path p record identity =
     iob (owner_observation record) (\<lambda>result.
     let body = decision_body run_path p record identity result in
     iob (from_result (canonical_json_bytes L (PDict body))) (\<lambda>b.
     ret \<lparr>ld_action = fst (snd result), ld_reason = snd (snd result), ld_sha256 = sha256 L b,
          ld_body = body @ [(lit ''decision_sha256'', PStr (sha256 L b))]\<rparr>))"

definition inspect_writer_lock :: "pylib \<Rightarrow> path \<Rightarrow> lock_decision io" where
  "inspect_writer_lock L run_directory =
     iob (normalized_run_path run_directory) (\<lambda>run_path.
     iob (read_writer_lock_snapshot L run_path) (\<lambda>(p, record, identity, _, _).
     build_recovery_decision L run_path p record identity))"

section \<open>Recovery\<close>

definition sync_directory :: "path \<Rightarrow> unit io" where
  "sync_directory p =
     iob (os_failed (iob (look (fs_stat p)) (\<lambda>_. ret ()))) (\<lambda>unopened.
     if unopened then ret ()
     else finally_do (iob (os_failed (look (\<lambda>_. Inr ()))) (\<lambda>_. ret ())) (look (\<lambda>_. Inr ())))"

definition is_sha256_text :: "pystr \<Rightarrow> bool" where
  "is_sha256_text s \<longleftrightarrow> length s = 64 \<and> list_all is_lower_hex s"

definition samefile :: "path \<Rightarrow> path \<Rightarrow> bool io" where
  "samefile a b =
     iob (look (fs_stat a)) (\<lambda>m1. iob (look (fs_stat b)) (\<lambda>m2.
     ret ((st_dev m1, st_ino m1) = (st_dev m2, st_ino m2))))"

text \<open>A tombstone that is already there must be the second name of the lock file.\<close>

definition check_tombstone :: "path \<Rightarrow> path \<Rightarrow> object_key \<Rightarrow> stat_result \<Rightarrow> unit io" where
  "check_tombstone p tombstone key source_metadata =
     iob (regular_object_key tombstone) (\<lambda>tombstone_key.
     iob (os_to_evidence (samefile p tombstone)) (\<lambda>same_file.
     if \<not> same_file \<or> tombstone_key \<noteq> key \<or> st_nlink source_metadata \<noteq> 2
     then raise EvidenceError else ret ()))"

definition link_tombstone :: "path \<Rightarrow> path \<Rightarrow> stat_result \<Rightarrow> unit io" where
  "link_tombstone p tombstone source_metadata =
     (if st_nlink source_metadata \<noteq> 1 then raise EvidenceError
      else handle (sys (fs_link p tombstone))
        (\<lambda>e. if e = FileExistsError then ret ()
             else if is_os_error e then raise EvidenceError else raise e))"

definition confirm_tombstone :: "pylib \<Rightarrow> path \<Rightarrow> path \<Rightarrow> object_key \<Rightarrow> bytes \<Rightarrow> pyval \<Rightarrow> unit io" where
  "confirm_tombstone L p tombstone key payload identity =
     iob (regular_object_key p) (\<lambda>k1.
     if k1 \<noteq> key then raise EvidenceError
     else iob (regular_object_key tombstone) (\<lambda>k2.
     if k2 \<noteq> key then raise EvidenceError
     else iob (look (fs_stat p)) (\<lambda>m.
     if st_nlink m \<noteq> 2 then raise EvidenceError
     else iob (read_regular_bytes p (Some WRITER_LOCK_MAX_BYTES)) (\<lambda>current_payload.
     if current_payload \<noteq> payload then raise EvidenceError
     else iob (file_identity L tombstone) (\<lambda>tombstone_identity.
     if \<not> identities_match tombstone_identity identity then raise EvidenceError else ret ())))))"

definition unlink_lock :: "path \<Rightarrow> unit io" where
  "unlink_lock p = os_to_evidence (iob (sys (fs_unlink p)) (\<lambda>_. sync_directory (butlast p)))"

definition confirm_recovered :: "pylib \<Rightarrow> path \<Rightarrow> path \<Rightarrow> object_key \<Rightarrow> pyval \<Rightarrow> pyval io" where
  "confirm_recovered L p tombstone key identity =
     iob (path_lexists p) (\<lambda>found.
     iob (if found then iob (regular_object_key p) (\<lambda>recreated_key.
            if recreated_key = key then raise EvidenceError else ret ())
          else ret ()) (\<lambda>_.
     iob (file_identity L tombstone) (\<lambda>final_tombstone_identity.
     if \<not> identities_match final_tombstone_identity identity then raise EvidenceError
     else iob (look (fs_stat tombstone)) (\<lambda>m.
     if st_nlink m \<noteq> 1 then raise EvidenceError else ret final_tombstone_identity))))"

definition recovery_result :: "path \<Rightarrow> pystr \<Rightarrow> string \<Rightarrow> pyval \<Rightarrow> path \<Rightarrow> pyval \<Rightarrow> pyval" where
  "recovery_result run_path expected reason identity tombstone final_identity =
     PDict [(lit ''schema_version'', PInt 1),
       (lit ''kind'', PLit ''benchhandoff-writer-lock-recovery''),
       (lit ''status'', PLit ''recovered''),
       (lit ''reason'', PLit reason),
       (lit ''run_directory'', PStr (path_text run_path)),
       (lit ''decision_sha256'', PStr expected),
       (lit ''lock_identity'', identity),
       (lit ''tombstone'', PDict [(lit ''path'', PStr (path_text tombstone)), (lit ''identity'', final_identity)])]"

text \<open>The \<open>try\<close> block of the recovery, under the guard.\<close>

definition recover_guarded :: "pylib \<Rightarrow> path \<Rightarrow> kernel_guard \<Rightarrow> pystr \<Rightarrow> pyval io" where
  "recover_guarded L run_path guard expected =
     iob (read_writer_lock_snapshot L run_path) (\<lambda>(p, record, identity, payload, key).
     if kg_object_key guard \<noteq> key then raise EvidenceError
     else iob (build_recovery_decision L run_path p record identity) (\<lambda>current_decision.
     if ld_sha256 current_decision \<noteq> expected then raise EvidenceError
     else if ld_action current_decision \<noteq> Recover_Orphan then raise EvidenceError
     else let tombstone = recovery_tombstone_path p identity in
     iob (look (fs_lstat p)) (\<lambda>source_metadata.
     if (st_dev source_metadata, st_ino source_metadata) \<noteq> key then raise EvidenceError
     else iob (path_lexists tombstone) (\<lambda>found.
     iob (if found then check_tombstone p tombstone key source_metadata
          else link_tombstone p tombstone source_metadata) (\<lambda>_.
     iob (confirm_tombstone L p tombstone key payload identity) (\<lambda>_.
     iob (unlink_lock p) (\<lambda>_.
     iob (confirm_recovered L p tombstone key identity) (\<lambda>final_identity.
     ret (recovery_result run_path expected (ld_reason current_decision) identity tombstone final_identity)))))))))"

definition recover_writer_lock :: "pylib \<Rightarrow> path \<Rightarrow> pystr \<Rightarrow> pyval io" where
  "recover_writer_lock L run_directory expected =
     (if \<not> is_sha256_text expected then raise EvidenceError
      else iob (normalized_run_path run_directory) (\<lambda>run_path.
      iob (inspect_writer_lock L run_path) (\<lambda>decision.
      if ld_sha256 decision \<noteq> expected then raise EvidenceError
      else if ld_action decision \<noteq> Recover_Orphan then raise EvidenceError
      else iob (writer_lock_path run_path) (\<lambda>p.
      iob (acquire_recovery_guard p) (\<lambda>guard.
      case guard of
        None \<Rightarrow> raise EvidenceError
      | Some g \<Rightarrow>
          finally_do (recover_guarded L run_path g expected) (release_posix_flock (kg_value g)))))))"

section \<open>Acquisition and release\<close>

record writer_lock =
  wl_path :: path
  wl_record :: pydict
  wl_identity :: pyval
  wl_object_key :: object_key
  wl_guard :: "kernel_guard option"
  wl_released :: bool

text \<open>How many bytes one \<open>os.write\<close> takes is up to the kernel.\<close>

function write_all :: "ino \<Rightarrow> nat \<Rightarrow> bytes \<Rightarrow> unit io" where
  "write_all descriptor off [] = ret ()"
| "write_all descriptor off (c # view) =
     iob (\<lambda>w. let n = min (os_chunk (w_os w) (w_tick w)) (length (c # view)) in
          sys_torn (\<lambda>s. (Inr n, fs_write_at descriptor off (take n (c # view)) s))
            (\<lambda>m s. fs_write_at descriptor off (take (min m n) (c # view)) s) w) (\<lambda>written.
     if written = 0 then raise OSError
     else write_all descriptor (off + written) (drop written (c # view)))"
  by pat_completeness auto
termination
  by (relation "measure (\<lambda>(_, _, view). length view)") auto

text \<open>The clean-up of a failed acquisition: only the file it has created is removed.\<close>

definition unlink_created :: "path \<Rightarrow> object_key \<Rightarrow> unit io" where
  "unlink_created p created_object_key =
     iob (handle (iob (regular_object_key p) (\<lambda>k. ret (Some k)))
            (\<lambda>e. if e = KeyboardInterrupt then raise e else ret None)) (\<lambda>current_key.
     if current_key = Some created_object_key
     then iob (os_failed (iob (sys (fs_unlink p)) (\<lambda>_. sync_directory (butlast p)))) (\<lambda>_. ret ())
     else ret ())"

definition on_exception :: "'a io \<Rightarrow> unit io \<Rightarrow> 'a io" where
  "on_exception m c =
     handle m (\<lambda>e. if e = KeyboardInterrupt then raise e else iob c (\<lambda>_. raise e))"

text \<open>With the kernel lock held.\<close>

definition publish_lock :: "pylib \<Rightarrow> path \<Rightarrow> ino \<Rightarrow> object_key \<Rightarrow> pydict \<Rightarrow> bytes \<Rightarrow> writer_lock io" where
  "publish_lock L p descriptor created_object_key record payload =
     iob (write_all descriptor 0 payload) (\<lambda>_.
     iob (look (\<lambda>_. Inr ())) (\<lambda>_.
     iob (sync_directory (butlast p)) (\<lambda>_.
     iob (regular_object_key p) (\<lambda>key.
     if key \<noteq> created_object_key then raise EvidenceError
     else iob (file_identity L p) (\<lambda>identity.
     if \<not> identities_match identity (identity_of L payload) then raise EvidenceError
     else ret \<lparr>wl_path = p, wl_record = record, wl_identity = identity, wl_object_key = key,
       wl_guard = Some \<lparr>kg_value = descriptor, kg_object_key = created_object_key\<rparr>,
       wl_released = False\<rparr>)))))"

definition create_lock_file :: "path \<Rightarrow> (ino \<times> object_key) io" where
  "create_lock_file p =
     iob getpid (\<lambda>me.
     iob (os_to_evidence (sys (fs_create_by me p))) (\<lambda>descriptor.
     iob (on_exception (os_to_evidence (look (\<lambda>s. Inr (stat_ino s descriptor)))) (unflock descriptor)) (\<lambda>opened.
     ret (descriptor, st_dev opened, st_ino opened))))"

definition lock_created :: "path \<Rightarrow> ino \<Rightarrow> object_key \<Rightarrow> unit io" where
  "lock_created p descriptor created_object_key =
     on_exception
       (iob (try_posix_flock descriptor) (\<lambda>got. if got then ret () else raise EvidenceError))
       (iob (unflock descriptor) (\<lambda>_. unlink_created p created_object_key))"

definition acquire :: "pylib \<Rightarrow> path \<Rightarrow> writer_lock io" where
  "acquire L run_directory =
     iob (normalized_run_path run_directory) (\<lambda>run_path.
     iob (writer_lock_path run_path) (\<lambda>p.
     iob (owner_record run_path) (\<lambda>record.
     iob (from_result (canonical_json_bytes L (PDict record))) (\<lambda>payload.
     iob (create_lock_file p) (\<lambda>(descriptor, created_object_key).
     iob (lock_created p descriptor created_object_key) (\<lambda>_.
     on_exception (publish_lock L p descriptor created_object_key record payload)
       (iob (unlink_created p created_object_key) (\<lambda>_. release_posix_flock descriptor))))))))"

text \<open>The \<open>try\<close> block of the release; afterwards the object holds no guard any more.\<close>

definition release_body :: "pylib \<Rightarrow> writer_lock \<Rightarrow> unit io" where
  "release_body L l =
     iob (regular_object_key (wl_path l)) (\<lambda>key.
     if key \<noteq> wl_object_key l then raise EvidenceError
     else iob (file_identity L (wl_path l)) (\<lambda>current.
     if \<not> identities_match current (wl_identity l) then raise EvidenceError
     else unlink_lock (wl_path l)))"

definition release :: "pylib \<Rightarrow> writer_lock \<Rightarrow> world \<Rightarrow> (unit outcome \<times> world) \<times> writer_lock" where
  "release L l w =
     (if wl_released l then ((Ret (), w), l)
      else case wl_guard l of
        None \<Rightarrow> ((Exc EvidenceError, w), l)
      | Some g \<Rightarrow>
          (finally_do (release_body L l) (release_posix_flock (kg_value g)) w,
           l\<lparr>wl_guard := None, wl_released := (fst (release_body L l w) = Ret ())\<rparr>))"

end
