(* ===== verification/Interference.thy ===== *)
theory Interference
  imports Storage
begin

text \<open>
  Rely and guarantee for code that runs beside other processes. \<open>rg me R G m Q X s\<close>: run by process
  \<open>me\<close> from the file system \<open>s\<close>, where between two calls others change the file system only as \<open>R\<close>
  allows, every call of \<open>m\<close> changes it only as \<open>G\<close> allows, and \<open>m\<close> returns with \<open>Q\<close> or raises
  with \<open>X\<close>, whichever faults happen and wherever it is killed.
\<close>

section \<open>Judgement\<close>

definition obeys :: "(fs \<Rightarrow> fs \<Rightarrow> bool) \<Rightarrow> world \<Rightarrow> bool" where
  "obeys R w \<longleftrightarrow> (\<forall>t s. R s (w_env w t s))"

text \<open>The calls made from one world to a later one.\<close>

definition guarded :: "(fs \<Rightarrow> fs \<Rightarrow> bool) \<Rightarrow> world \<Rightarrow> world \<Rightarrow> bool" where
  "guarded G w w' \<longleftrightarrow> (\<exists>calls. w_log w' = calls @ w_log w \<and> (\<forall>(a, b) \<in> set calls. G a b))"

definition rg_post :: "nat \<Rightarrow> (fs \<Rightarrow> fs \<Rightarrow> bool) \<Rightarrow> ('a \<Rightarrow> fs \<Rightarrow> bool) \<Rightarrow> (pyexc \<Rightarrow> fs \<Rightarrow> bool)
    \<Rightarrow> 'a outcome \<times> world \<Rightarrow> bool" where
  "rg_post me R Q X r \<longleftrightarrow>
     (case fst r of
        Ret x \<Rightarrow> w_pid (snd r) = me \<and> obeys R (snd r) \<and> Q x (w_fs (snd r))
      | Exc e \<Rightarrow> w_pid (snd r) = me \<and> obeys R (snd r) \<and> X e (w_fs (snd r))
      | Killed \<Rightarrow> True)"

definition rg :: "nat \<Rightarrow> (fs \<Rightarrow> fs \<Rightarrow> bool) \<Rightarrow> (fs \<Rightarrow> fs \<Rightarrow> bool) \<Rightarrow> 'a io
    \<Rightarrow> ('a \<Rightarrow> fs \<Rightarrow> bool) \<Rightarrow> (pyexc \<Rightarrow> fs \<Rightarrow> bool) \<Rightarrow> fs \<Rightarrow> bool" where
  "rg me R G m Q X s \<longleftrightarrow>
     (\<forall>w. w_fs w = s \<longrightarrow> w_pid w = me \<longrightarrow> obeys R w \<longrightarrow>
        guarded G w (snd (m w)) \<and> rg_post me R Q X (m w))"

lemma rg_post_simps [simp]:
  "rg_post me R Q X (Ret x, w) \<longleftrightarrow> w_pid w = me \<and> obeys R w \<and> Q x (w_fs w)"
  "rg_post me R Q X (Exc e, w) \<longleftrightarrow> w_pid w = me \<and> obeys R w \<and> X e (w_fs w)"
  "rg_post me R Q X (Killed, w)"
  by (simp_all add: rg_post_def)

lemma guarded_refl [simp]: "guarded G w w"
  by (simp add: guarded_def)

lemma guarded_trans: "guarded G w1 w2 \<Longrightarrow> guarded G w2 w3 \<Longrightarrow> guarded G w1 w3"
proof -
  assume "guarded G w1 w2" "guarded G w2 w3"
  then obtain a b where "w_log w2 = a @ w_log w1" "\<forall>(x, y) \<in> set a. G x y"
    "w_log w3 = b @ w_log w2" "\<forall>(x, y) \<in> set b. G x y" by (auto simp: guarded_def)
  then show ?thesis unfolding guarded_def by (intro exI [of _ "b @ a"]) auto
qed

lemma rgI:
  "(\<And>w. w_fs w = s \<Longrightarrow> w_pid w = me \<Longrightarrow> obeys R w \<Longrightarrow> guarded G w (snd (m w)) \<and> rg_post me R Q X (m w)) \<Longrightarrow>
   rg me R G m Q X s"
  by (simp add: rg_def)

lemma rgE:
  assumes "rg me R G m Q X (w_fs w)" "w_pid w = me" "obeys R w"
  shows "guarded G w (snd (m w))" "rg_post me R Q X (m w)"
  using assms by (auto simp: rg_def)

section \<open>Rules\<close>

named_theorems rg_intros \<open>rules of the rely-guarantee logic\<close>

lemma rg_ret [rg_intros]: "Q x s \<Longrightarrow> rg me R G (ret x) Q X s"
  by (simp add: rg_def)

lemma rg_raise [rg_intros]: "X e s \<Longrightarrow> rg me R G (raise e) Q X s"
  by (simp add: rg_def)

lemma rg_iob [rg_intros]:
  assumes "rg me R G m (\<lambda>x. rg me R G (f x) Q X) X s"
  shows "rg me R G (iob m f) Q X s"
proof (rule rgI)
  fix w assume w: "w_fs w = s" "w_pid w = me" "obeys R w"
  obtain out w1 where m: "m w = (out, w1)" by fastforce
  note h = rgE [of me R G m _ X w, OF _ w(2,3), unfolded w(1), OF assms, unfolded m]
  show "guarded G w (snd (iob m f w)) \<and> rg_post me R Q X (iob m f w)"
  proof (cases out)
    case (Ret x)
    with h have "rg me R G (f x) Q X (w_fs w1)" "w_pid w1 = me" "obeys R w1" by auto
    from rgE [OF this] h Ret m guarded_trans show ?thesis by (auto simp: iob_def)
  qed (use h m in \<open>auto simp: iob_def\<close>)
qed

lemma rg_handle [rg_intros]:
  assumes "rg me R G m Q (\<lambda>e. rg me R G (h e) Q X) s"
  shows "rg me R G (handle m h) Q X s"
proof (rule rgI)
  fix w assume w: "w_fs w = s" "w_pid w = me" "obeys R w"
  obtain out w1 where m: "m w = (out, w1)" by fastforce
  note r = rgE [of me R G m Q _ w, OF _ w(2,3), unfolded w(1), OF assms, unfolded m]
  show "guarded G w (snd (handle m h w)) \<and> rg_post me R Q X (handle m h w)"
  proof (cases out)
    case (Exc e)
    with r have "rg me R G (h e) Q X (w_fs w1)" "w_pid w1 = me" "obeys R w1" by auto
    from rgE [OF this] r Exc m guarded_trans show ?thesis by (auto simp: handle_def)
  qed (use r m in \<open>auto simp: handle_def\<close>)
qed

lemma rg_mono:
  assumes "rg me R G m Q' X' s" "\<And>x s. Q' x s \<Longrightarrow> Q x s" "\<And>e s. X' e s \<Longrightarrow> X e s"
  shows "rg me R G m Q X s"
proof (rule rgI)
  fix w assume w: "w_fs w = s" "w_pid w = me" "obeys R w"
  obtain out w1 where m: "m w = (out, w1)" by fastforce
  note h = rgE [of me R G m _ X' w, OF _ w(2,3), unfolded w(1), OF assms(1), unfolded m]
  with m assms(2,3) show "guarded G w (snd (m w)) \<and> rg_post me R Q X (m w)" by (cases out) auto
qed

lemma rg_reraise [rg_intros]: "rg me R G m Q (\<lambda>e. X (f e)) s \<Longrightarrow> rg me R G (reraise f m) Q X s"
  unfolding reraise_def by (rule rg_handle) (auto elim: rg_mono intro: rg_raise)

lemma rg_finally [rg_intros]:
  assumes "rg me R G m (\<lambda>x. rg me R G c (\<lambda>_. Q x) X) (\<lambda>e. rg me R G c (\<lambda>_. X e) X) s"
  shows "rg me R G (finally_do m c) Q X s"
proof (rule rgI)
  fix w assume w: "w_fs w = s" "w_pid w = me" "obeys R w"
  obtain out w1 where m: "m w = (out, w1)" by fastforce
  obtain out2 w2 where c: "c w1 = (out2, w2)" by fastforce
  note h = rgE [of me R G m _ _ w, OF _ w(2,3), unfolded w(1), OF assms, unfolded m]
  show "guarded G w (snd (finally_do m c w)) \<and> rg_post me R Q X (finally_do m c w)"
  proof (cases out)
    case (Ret x)
    with h have "rg me R G c (\<lambda>_. Q x) X (w_fs w1)" "w_pid w1 = me" "obeys R w1" by auto
    from rgE [OF this] h Ret m c guarded_trans [of G w w1 w2] show ?thesis
      by (cases out2) (auto simp: finally_do_def)
  next
    case (Exc e)
    with h have "rg me R G c (\<lambda>_. X e) X (w_fs w1)" "w_pid w1 = me" "obeys R w1" by auto
    from rgE [OF this] h Exc m c guarded_trans [of G w w1 w2] show ?thesis
      by (cases out2) (auto simp: finally_do_def)
  qed (use h m in \<open>auto simp: finally_do_def\<close>)
qed

lemma rg_if [rg_intros]:
  "(b \<Longrightarrow> rg me R G m Q X s) \<Longrightarrow> (\<not> b \<Longrightarrow> rg me R G n Q X s) \<Longrightarrow> rg me R G (if b then m else n) Q X s"
  by simp

lemma rg_let [rg_intros]: "rg me R G (f a) Q X s \<Longrightarrow> rg me R G (Let a f) Q X s"
  by simp

lemma rg_option [rg_intros]:
  "(x = None \<Longrightarrow> rg me R G m Q X s) \<Longrightarrow> (\<And>a. x = Some a \<Longrightarrow> rg me R G (f a) Q X s) \<Longrightarrow>
   rg me R G (case x of None \<Rightarrow> m | Some a \<Rightarrow> f a) Q X s"
  by (cases x) simp_all

lemma rg_prod [rg_intros]:
  "(\<And>a b. x = (a, b) \<Longrightarrow> rg me R G (f a b) Q X s) \<Longrightarrow> rg me R G (case x of (a, b) \<Rightarrow> f a b) Q X s"
  by (cases x) simp_all

lemma rg_from_result [rg_intros]:
  "(\<And>e. r = Inl e \<Longrightarrow> X e s) \<Longrightarrow> (\<And>x. r = Inr x \<Longrightarrow> Q x s) \<Longrightarrow> rg me R G (from_result r) Q X s"
  by (cases r) (auto simp: rg_def)

lemma rg_sys_torn [rg_intros]:
  assumes "\<And>s1 x s2. R s s1 \<Longrightarrow> f s1 = (Inr x, s2) \<Longrightarrow> G s1 s2 \<and> Q x s2"
    and "\<And>s1 e s2. R s s1 \<Longrightarrow> f s1 = (Inl e, s2) \<Longrightarrow> G s1 s2 \<and> X e s2"
    and "\<And>s1 e. R s s1 \<Longrightarrow> G s1 s1 \<and> X e s1"
    and "\<And>s1 n. R s s1 \<Longrightarrow> G s1 (g n s1)"
  shows "rg me R G (sys_torn f g) Q X s"
proof (rule rgI)
  fix w assume w: "w_fs w = s" "w_pid w = me" "obeys R w"
  then have r: "R s (w_env w (w_tick w) s)" by (simp add: obeys_def)
  note r2 = assms(1) [OF r] assms(2) [OF r] assms(3) [OF r] assms(4) [OF r]
  show "guarded G w (snd (sys_torn f g w)) \<and> rg_post me R Q X (sys_torn f g w)"
    using r2 w by (auto simp: sys_torn_def Let_def guarded_def obeys_def split: fate.splits prod.splits sum.splits)
qed

lemma rg_sys [rg_intros]:
  assumes "\<And>s1 x s2. R s s1 \<Longrightarrow> f s1 = (Inr x, s2) \<Longrightarrow> G s1 s2 \<and> Q x s2"
    and "\<And>s1 e s2. R s s1 \<Longrightarrow> f s1 = (Inl e, s2) \<Longrightarrow> G s1 s2 \<and> X e s2"
    and "\<And>s1 e. R s s1 \<Longrightarrow> G s1 s1 \<and> X e s1"
  shows "rg me R G (sys f) Q X s"
  unfolding sys_def using assms by (intro rg_sys_torn) blast+

lemma rg_look [rg_intros]:
  assumes "\<And>s1 x. R s s1 \<Longrightarrow> f s1 = Inr x \<Longrightarrow> Q x s1" "\<And>s1 e. R s s1 \<Longrightarrow> X e s1" "\<And>s1. R s s1 \<Longrightarrow> G s1 s1"
  shows "rg me R G (look f) Q X s"
  unfolding look_def by (rule rg_sys) (use assms in auto)

lemma rg_ask [rg_intros]:
  assumes "\<And>s1 x. R s s1 \<Longrightarrow> Q x s1" "\<And>s1 e. R s s1 \<Longrightarrow> X e s1" "\<And>s1. R s s1 \<Longrightarrow> G s1 s1"
  shows "rg me R G (ask f) Q X s"
  unfolding ask_def
proof (intro rg_iob rg_look)
  fix s1 x assume r: "R s s1"
  show "rg me R G (\<lambda>w. from_result (f (w_os w) (w_tick w)) w) Q X s1"
    using assms(1) [OF r] assms(2) [OF r]
    by (intro rgI) (auto simp: from_result_def split: sum.splits)
qed (use assms in auto)

lemma rg_uuid4 [rg_intros]: "(\<And>u. Q u s) \<Longrightarrow> rg me R G uuid4 Q X s"
  by (simp add: rg_def uuid4_def)

section \<open>Code that only looks\<close>

lemma wp_ask [wp_intros]: "(\<And>x. Q x s) \<Longrightarrow> (\<And>e. X e s) \<Longrightarrow> K s \<Longrightarrow> wp (ask f) Q X K s"
  unfolding ask_def
  by (rule wp_iob, rule wp_look)
    (auto simp: wp_def from_result_def split: sum.splits)

text \<open>Code that leaves the file system as it is, wherever it is killed.\<close>

definition still :: "'a io \<Rightarrow> bool" where
  "still m \<longleftrightarrow> (\<forall>Q X K s. (\<forall>x. Q x s) \<longrightarrow> (\<forall>e. X e s) \<longrightarrow> K s \<longrightarrow> wp m Q X K s)"

named_theorems still_intros \<open>code that leaves the file system as it is\<close>

lemma stillI: "(\<And>Q X K s. (\<And>x. Q x s) \<Longrightarrow> (\<And>e. X e s) \<Longrightarrow> K s \<Longrightarrow> wp m Q X K s) \<Longrightarrow> still m"
  by (simp add: still_def)

lemma stillD: "still m \<Longrightarrow> (\<And>x. Q x s) \<Longrightarrow> (\<And>e. X e s) \<Longrightarrow> K s \<Longrightarrow> wp m Q X K s"
  by (simp add: still_def)

lemma still_basic [still_intros]:
  "still (ret x)" "still (raise e)" "still (from_result r)" "still uuid4" "still (look f)" "still (peek h)" "still (ask g)"
  by (rule stillI, intro wp_intros; assumption)+

lemma still_iob [still_intros]: "still m \<Longrightarrow> (\<And>x. still (f x)) \<Longrightarrow> still (iob m f)"
  by (rule stillI, rule wp_iob, erule stillD) (auto intro: stillD)

lemma still_handle [still_intros]: "still m \<Longrightarrow> (\<And>e. still (h e)) \<Longrightarrow> still (handle m h)"
  by (rule stillI, rule wp_handle, erule stillD) (auto intro: stillD)

lemma still_reraise [still_intros]: "still m \<Longrightarrow> still (reraise f m)"
  unfolding reraise_def by (intro still_intros)

lemma still_finally [still_intros]: "still m \<Longrightarrow> still c \<Longrightarrow> still (finally_do m c)"
  by (rule stillI, rule wp_finally, erule stillD) (auto intro: stillD)

lemma still_if [still_intros]: "still m \<Longrightarrow> still n \<Longrightarrow> still (if b then m else n)"
  by simp

lemma still_let [still_intros]: "still (f a) \<Longrightarrow> still (Let a f)"
  by simp

lemma still_option [still_intros]:
  "still m \<Longrightarrow> (\<And>x. still (f x)) \<Longrightarrow> still (case v of None \<Rightarrow> m | Some x \<Rightarrow> f x)"
  by (cases v) simp_all

text \<open>
  The same beside other processes: with an assertion that holds whatever others do, code made of
  looks keeps it, whatever it returns.
\<close>

definition steady :: "(fs \<Rightarrow> fs \<Rightarrow> bool) \<Rightarrow> (fs \<Rightarrow> bool) \<Rightarrow> bool" where
  "steady R I \<longleftrightarrow> (\<forall>s s'. I s \<longrightarrow> R s s' \<longrightarrow> I s')"

definition reads :: "'a io \<Rightarrow> bool" where
  "reads m \<longleftrightarrow> still m
     \<and> (\<forall>me R G I s. steady R I \<longrightarrow> (\<forall>s. G s s) \<longrightarrow> I s \<longrightarrow> rg me R G m (\<lambda>_. I) (\<lambda>_. I) s)"

named_theorems reads_intros \<open>code that only looks\<close>

lemma readsD:
  assumes "reads m" "steady R I" "\<And>s. G s s" "I s" "\<And>x s. I s \<Longrightarrow> Q x s" "\<And>e s. I s \<Longrightarrow> X e s"
  shows "rg me R G m Q X s"
proof (rule rg_mono)
  show "rg me R G m (\<lambda>_. I) (\<lambda>_. I) s" using assms(1-4) by (simp add: reads_def)
qed (rule assms(5,6), assumption)+

lemma reads_still: "reads m \<Longrightarrow> still m"
  by (simp add: reads_def)

lemma readsI:
  "still m \<Longrightarrow> (\<And>me R G I s. steady R I \<Longrightarrow> (\<And>s. G s s) \<Longrightarrow> I s \<Longrightarrow> rg me R G m (\<lambda>_. I) (\<lambda>_. I) s) \<Longrightarrow> reads m"
  by (simp add: reads_def)

lemma reads_basic [reads_intros]: "reads (ret x)" "reads (raise e)" "reads (from_result r)" "reads uuid4"
  by (intro readsI still_basic rg_intros; assumption)+

lemma reads_look [reads_intros]: "reads (look f)" "reads (ask g)"
  by (rule readsI, rule still_basic, intro rg_look rg_ask; simp add: steady_def)+

lemma reads_answered: "reads (answered f)"
  by (rule readsI) (simp_all add: rg_def answered_def still_def wp_def)

lemma reads_iob [reads_intros]:
  assumes "reads m" "\<And>x. reads (f x)"
  shows "reads (iob m f)"
proof (rule readsI, rule still_iob [OF assms [THEN reads_still]], rule rg_iob)
  fix me R I s and G :: "fs \<Rightarrow> fs \<Rightarrow> bool" assume h: "steady R I" "\<And>s. G s s" "I s"
  note f = readsD [OF assms(2) h(1,2)]
  show "rg me R G m (\<lambda>x. rg me R G (f x) (\<lambda>_. I) (\<lambda>_. I)) (\<lambda>_. I) s"
    by (rule readsD [OF assms(1) h]) (auto intro: f)
qed

lemma reads_handle [reads_intros]:
  assumes "reads m" "\<And>e. reads (h e)"
  shows "reads (handle m h)"
proof (rule readsI, rule still_handle [OF assms [THEN reads_still]], rule rg_handle)
  fix me R I s and G :: "fs \<Rightarrow> fs \<Rightarrow> bool" assume a: "steady R I" "\<And>s. G s s" "I s"
  note f = readsD [OF assms(2) a(1,2)]
  show "rg me R G m (\<lambda>_. I) (\<lambda>e. rg me R G (h e) (\<lambda>_. I) (\<lambda>_. I)) s"
    by (rule readsD [OF assms(1) a]) (auto intro: f)
qed

lemma reads_peek [reads_intros]: "reads (peek f)"
  unfolding peek_def by (intro reads_handle reads_look) (simp add: reads_answered reads_basic)

lemma reads_reraise [reads_intros]: "reads m \<Longrightarrow> reads (reraise h m)"
  unfolding reraise_def by (intro reads_intros)

lemma reads_finally [reads_intros]:
  assumes "reads m" "reads c"
  shows "reads (finally_do m c)"
proof (rule readsI, rule still_finally [OF assms [THEN reads_still]], rule rg_finally)
  fix me R I s and G :: "fs \<Rightarrow> fs \<Rightarrow> bool" assume a: "steady R I" "\<And>s. G s s" "I s"
  note f = readsD [OF assms(2) a(1,2)]
  show "rg me R G m (\<lambda>x. rg me R G c (\<lambda>_. I) (\<lambda>_. I)) (\<lambda>e. rg me R G c (\<lambda>_. I) (\<lambda>_. I)) s"
    by (rule readsD [OF assms(1) a]) (auto intro: f)
qed

lemma reads_if [reads_intros]: "reads m \<Longrightarrow> reads n \<Longrightarrow> reads (if b then m else n)"
  by simp

lemma reads_let [reads_intros]: "reads (f a) \<Longrightarrow> reads (Let a f)"
  by simp

lemma reads_option [reads_intros]:
  "reads m \<Longrightarrow> (\<And>x. reads (f x)) \<Longrightarrow> reads (case v of None \<Rightarrow> m | Some x \<Rightarrow> f x)"
  by (cases v) simp_all

lemma reads_prod [reads_intros]: "(\<And>a b. reads (f a b)) \<Longrightarrow> reads (case x of (a, b) \<Rightarrow> f a b)"
  by (cases x) simp

lemma reads_storage [reads_intros]:
  "reads (path_lexists p)" "reads (checked_directory p)" "reads (open_regular_readonly p)"
  "reads (read_regular_bytes p k)" "reads (file_identity L p)"
proof -
  show o: "reads (open_regular_readonly p)" for p
    unfolding open_regular_readonly_def by (intro reads_intros)
  then show "reads (read_regular_bytes p k)" "reads (file_identity L p)"
    unfolding read_regular_bytes_def file_identity_def by (intro reads_intros o)+
  show "reads (path_lexists p)" "reads (checked_directory p)"
    unfolding path_lexists_def checked_directory_def by (intro reads_intros)+
qed

end
