(* ===== verification/Lock_Protocol.thy ===== *)
theory Lock_Protocol
  imports Writer_Lock Interference
begin

text \<open>
  Mutual exclusion of the writer lock. What a process relies on while others run the same code,
  that each operation of \<^verbatim>\<open>src/src/benchhandoff/writer_lock.py\<close> keeps to what every other process
  relies on, and that a process that has acquired the lock holds it whatever they do.
\<close>

section \<open>Single steps on the file system\<close>

text \<open>Changing the content of a regular file keeps the tree, whatever names the file has.\<close>

definition regular_ino :: "fs \<Rightarrow> ino \<Rightarrow> bool" where
  "regular_ino s i \<longleftrightarrow> is_reg (fs_nodes s i)"

lemma entry_set [simp]: "entry (fs_set i b s) p = entry s p"
  by (simp add: entry_def fs_set_def)

lemma node_at_set_reg:
  "node_at (fs_set i b s) p = (if entry s p = Some i then Some (Reg b) else node_at s p)"
  by (cases "entry s p") (auto simp: node_at_def, auto simp: fs_set_def)

lemma wf_fs_set_reg:
  assumes "wf_fs s" "regular_ino s i"
  shows "wf_fs (fs_set i b s)"
proof -
  have d: "node_at (fs_set i b s) p = Some Dir \<longleftrightarrow> node_at s p = Some Dir" for p
    using assms(2) unfolding node_at_set_reg
    by (auto simp: regular_ino_def is_reg_def node_at_def split: node.splits)
  have n: "node_at (fs_set i b s) p = None \<longleftrightarrow> node_at s p = None" for p
    unfolding node_at_set_reg by (auto simp: node_at_def)
  have "fs_names (fs_set i b s) = fs_names s" "fs_next (fs_set i b s) = fs_next s" by (simp_all add: fs_set_def)
  with assms(1) show ?thesis unfolding wf_fs_alt tree_ok_def d n by simp
qed

lemma same_tree_set: "regular_ino s i \<Longrightarrow> same_tree s (fs_set i b s)"
  unfolding same_tree_def node_at_set_reg
  by (auto simp: regular_ino_def is_reg_def is_lnk_def node_at_def split: node.splits)

lemma entry_link: "entry s b = None \<Longrightarrow>
  entry (s\<lparr>fs_names := fs_names s @ [(b, i)]\<rparr>) p = (if p = b then Some i else entry s p)"
  by (auto simp: entry_def map_add_def split: option.splits)

lemma node_at_link: "entry s b = None \<Longrightarrow>
  node_at (s\<lparr>fs_names := fs_names s @ [(b, i)]\<rparr>) p = (if p = b then Some (fs_nodes s i) else node_at s p)"
  unfolding node_at_def by (simp add: entry_link)

lemma wf_fs_link:
  assumes "wf_fs s" "entry s b = None" "entry s a = Some i" "fs_nodes s i \<noteq> Dir"
    and "b \<noteq> []" "dotdot \<notin> set b" "node_at s (butlast b) = Some Dir"
  shows "wf_fs (s\<lparr>fs_names := fs_names s @ [(b, i)]\<rparr>)" (is "wf_fs ?s")
proof -
  have "node_at ?s = (node_at s)(b := Some (fs_nodes s i))" using node_at_link [OF assms(2)] by auto
  moreover have "tree_ok ((node_at s)(b := Some (fs_nodes s i)))"
    using assms by (intro tree_ok_upd) (auto simp: wf_fs_alt node_at_def)
  moreover have "distinct (map fst (fs_names ?s))"
    using assms(1,2) by (auto simp: wf_fs_alt entry_def map_of_eq_None_iff)
  moreover have "j < fs_next s" if "entry ?s p = Some j" for p j
    using that assms(1,3) unfolding entry_link [OF assms(2)] wf_fs_alt by (auto split: if_splits)
  ultimately show ?thesis unfolding wf_fs_alt by simp
qed

text \<open>The kernel locks and the makers play no part in the tree.\<close>

lemma ghost_simps [simp]:
  "entry (s\<lparr>fs_maker := m\<rparr>) = entry s" "node_at (s\<lparr>fs_maker := m\<rparr>) = node_at s"
  "wf_fs (s\<lparr>fs_maker := m\<rparr>) = wf_fs s"
  "entry (s\<lparr>fs_locks := l\<rparr>) = entry s" "node_at (s\<lparr>fs_locks := l\<rparr>) = node_at s"
  "wf_fs (s\<lparr>fs_locks := l\<rparr>) = wf_fs s"
proof -
  show e: "entry (s\<lparr>fs_maker := m\<rparr>) = entry s" "entry (s\<lparr>fs_locks := l\<rparr>) = entry s"
    by (simp_all add: fun_eq_iff entry_def)
  then show n: "node_at (s\<lparr>fs_maker := m\<rparr>) = node_at s" "node_at (s\<lparr>fs_locks := l\<rparr>) = node_at s"
    by (simp_all add: fun_eq_iff node_at_def)
  show "wf_fs (s\<lparr>fs_maker := m\<rparr>) = wf_fs s" "wf_fs (s\<lparr>fs_locks := l\<rparr>) = wf_fs s"
    unfolding wf_fs_alt e n by simp_all
qed

section \<open>What others may do\<close>

text \<open>
  \<open>others me p\<close>: the steps of processes other than \<open>me\<close> that \<open>me\<close> relies on, for the lock path \<open>p\<close>.
  Directories and links stay; nobody takes away a kernel lock of \<open>me\<close>, nor writes a file that
  \<open>me\<close> has made or locked; the lock file stays in its place while it is an empty one made by
  \<open>me\<close>, or a written one locked by \<open>me\<close>; and only a new file appears there.
\<close>

definition others :: "nat \<Rightarrow> path \<Rightarrow> fs \<Rightarrow> fs \<Rightarrow> bool" where
  "others me p s s' \<longleftrightarrow> (wf_fs s \<longrightarrow>
     wf_fs s' \<and> same_tree s s' \<and> fs_next s \<le> fs_next s'
     \<and> (\<forall>i. fs_locks s i = Some me \<longrightarrow> fs_locks s' i = Some me)
     \<and> (\<forall>i < fs_next s. fs_maker s' i = fs_maker s i)
     \<and> (\<forall>i < fs_next s. fs_maker s i = me \<or> fs_locks s i = Some me \<longrightarrow> fs_nodes s' i = fs_nodes s i)
     \<and> (\<forall>i. entry s p = Some i \<longrightarrow>
          (fs_nodes s i = Reg [] \<and> fs_maker s i = me) \<or> (fs_nodes s i \<noteq> Reg [] \<and> fs_locks s i = Some me)
          \<longrightarrow> entry s' p = Some i)
     \<and> (\<forall>i < fs_next s. entry s' p = Some i \<longrightarrow> entry s p = Some i))"

definition fair :: "nat \<Rightarrow> path \<Rightarrow> fs \<Rightarrow> fs \<Rightarrow> bool" where
  "fair me p s s' \<longleftrightarrow> (\<forall>other. other \<noteq> me \<longrightarrow> others other p s s')"

lemma others_refl [simp]: "others me p s s"
  by (simp add: others_def same_tree_refl)

lemma fair_refl [simp]: "fair me p s s"
  by (simp add: fair_def)

lemma entry_below: "wf_fs s \<Longrightarrow> entry s p = Some i \<Longrightarrow> i < fs_next s"
  by (simp add: wf_fs_alt)

lemma fair_write:
  assumes "regular_ino s i" "fs_maker s i = me" "fs_locks s i = Some me"
  shows "fair me p s (fs_set i b s)"
  using assms wf_fs_set_reg [of s i b] same_tree_set [of s i b] entry_set
  unfolding fair_def others_def by (auto simp: fs_set_def entry_def)

lemma fair_unflock: "fair me p s (fs_unflock me i s)"
proof -
  have "node_at (fs_unflock me i s) = node_at s" "entry (fs_unflock me i s) = entry s"
    by (auto simp: fs_unflock_def node_at_def entry_def fun_eq_iff)
  then show ?thesis
    unfolding fair_def others_def wf_fs_alt same_tree_def by (auto simp: fs_unflock_def)
qed

lemma fair_flock: "fs_flock me i s = (r, s') \<Longrightarrow> fair me p s s'"
proof -
  assume f: "fs_flock me i s = (r, s')"
  then have "node_at s' = node_at s" "entry s' = entry s" "fs_names s' = fs_names s" "fs_next s' = fs_next s"
    "fs_nodes s' = fs_nodes s" "fs_maker s' = fs_maker s"
    by (auto simp: fs_flock_def node_at_def entry_def fun_eq_iff split: if_splits)
  moreover have "fs_locks s j = Some q \<Longrightarrow> fs_locks s' j = Some q" for j q
    using f by (auto simp: fs_flock_def split: if_splits)
  ultimately show ?thesis unfolding fair_def others_def wf_fs_alt same_tree_def by auto
qed

lemma fair_unlink:
  assumes "entry s p = Some i" "is_reg (fs_nodes s i)"
    and "(fs_nodes s i = Reg [] \<and> fs_maker s i = me) \<or> (fs_nodes s i \<noteq> Reg [] \<and> fs_locks s i = Some me)"
  shows "fair me p s (s\<lparr>fs_names := AList.delete p (fs_names s)\<rparr>)" (is "fair me p s ?s")
proof -
  have n: "node_at s p = Some (fs_nodes s i)" using assms(1) by (simp add: node_at_def)
  have "wf_fs s \<Longrightarrow> wf_fs ?s" using wf_fs_unlink [of s p] n assms(2) by (auto simp: is_reg_def split: node.splits)
  moreover have "same_tree s ?s"
    unfolding same_tree_def node_at_unlink using n assms(2) by (auto simp: is_reg_def is_lnk_def split: node.splits)
  ultimately show ?thesis
    using assms(1,3) unfolding fair_def others_def entry_delete by auto
qed

text \<open>A path in a physical directory.\<close>

definition home :: "path \<Rightarrow> fs \<Rightarrow> bool" where
  "home p s \<longleftrightarrow> wf_fs s \<and> p \<noteq> [] \<and> last p \<noteq> dotdot \<and> node_at s (butlast p) = Some Dir"

lemma home_locate: "home p s \<Longrightarrow> locate s False p = Inr p"
  unfolding home_def using locate_child [of s "butlast p" "last p"] by simp

lemma home_no_dotdot:
  assumes "home p s"
  shows "dotdot \<notin> set p"
proof -
  have "entry s (butlast p) \<noteq> None" using assms by (auto simp: home_def node_at_def)
  then have "dotdot \<notin> set (butlast p)" using assms wf_fs_no_dotdot by (auto simp: home_def)
  moreover have "set p = insert (last p) (set (butlast p))"
    using assms unfolding home_def by (metis append_butlast_last_id list.set(2) rotate1.simps(2) set_rotate1)
  ultimately show ?thesis using assms by (auto simp: home_def)
qed

lemma create_by_Inr:
  assumes "home p s" "fs_create_by me p s = (Inr i, s')"
  shows "fair me p s s'" "home p s'" "i = fs_next s" "fs_next s' = Suc i" "entry s' p = Some i"
    "fs_nodes s' i = Reg []" "fs_maker s' i = me"
proof -
  let ?dv = "(fs_dev s)(fs_next s := (case entry s (butlast p) of None \<Rightarrow> 0 | Some j \<Rightarrow> fs_dev s j))"
  let ?s = "s\<lparr>fs_names := fs_names s @ [(p, fs_next s)], fs_nodes := (fs_nodes s)(fs_next s := Reg []),
    fs_dev := ?dv, fs_next := Suc (fs_next s)\<rparr>"
  from assms have a: "entry s p = None" and i: "i = fs_next s"
    and s': "s' = ?s\<lparr>fs_maker := (fs_maker s)(fs_next s := me)\<rparr>"
    by (auto simp: fs_create_by_def fs_create_def home_locate Let_def split: if_splits)
  have wf: "wf_fs ?s"
    using assms(1) a home_no_dotdot [OF assms(1)] by (intro wf_fs_create) (auto simp: home_def)
  have n: "node_at s' q = (if q = p then Some (Reg []) else node_at s q)" for q
    using node_at_create [where s = s and q = p and nd = "Reg []" and dv = ?dv and k = "Suc (fs_next s)" and p = q] a assms(1)
    unfolding s' node_at_def entry_def home_def by simp
  have e: "entry s' q = (if q = p then Some i else entry s q)" for q
    using a unfolding s' i by (auto simp: entry_def map_add_def split: option.splits)
  have wf': "wf_fs s'"
    using wf unfolding s' by simp
  show "fair me p s s'"
    using wf' a e n unfolding fair_def others_def same_tree_def
    by (auto simp: s' i) (auto simp: node_at_def)
  have "butlast p \<noteq> p" using assms(1) by (metis home_def append_butlast_last_id append_self_conv not_Cons_self2)
  then show "home p s'" using assms(1) wf' n by (simp add: home_def)
  show "i = fs_next s" "fs_next s' = Suc i" "entry s' p = Some i" "fs_nodes s' i = Reg []" "fs_maker s' i = me"
    using i e by (simp_all add: s')
qed

lemma create_by_absent:
  assumes "home p s" "entry s p = None"
  obtains s' where "fs_create_by me p s = (Inr (fs_next s), s')" "\<forall>q. entry s' q = (if q = p then Some (fs_next s) else entry s q)"
    "published s p [] s'" "fs_locks s' = fs_locks s" "fs_nodes s' (fs_next s) = Reg []"
proof -
  let ?dv = "(fs_dev s)(fs_next s := (case entry s (butlast p) of None \<Rightarrow> 0 | Some j \<Rightarrow> fs_dev s j))"
  let ?s = "s\<lparr>fs_names := fs_names s @ [(p, fs_next s)], fs_nodes := (fs_nodes s)(fs_next s := Reg []),
    fs_dev := ?dv, fs_next := Suc (fs_next s)\<rparr>"
  let ?s' = "?s\<lparr>fs_maker := (fs_maker s)(fs_next s := me)\<rparr>"
  have c: "fs_create_by me p s = (Inr (fs_next s), ?s')"
    using assms by (simp add: fs_create_by_def fs_create_def home_locate Let_def)
  have e: "\<forall>q. entry ?s' q = (if q = p then Some (fs_next s) else entry s q)"
    using assms(2) by (auto simp: entry_def map_add_def split: option.splits)
  have "published s p [] ?s'"
    using create_by_Inr(2) [OF assms(1) c] assms node_at_create [OF _ assms(2)]
    unfolding published_def home_def by (auto simp: home_def)
  from that [OF c e this] show thesis by simp
qed

lemma create_by_Inl: "fs_create_by me p s = (Inl e, s') \<Longrightarrow> s' = s"
  by (auto simp: fs_create_by_def fs_create_def Let_def split: sum.splits if_splits)

lemma link_fair:
  assumes "home p s" "home q s" "q \<noteq> p" "fs_link p q s = (r, s')"
  shows "fair me p s s' \<and> fs_nodes s' = fs_nodes s \<and> fs_locks s' = fs_locks s \<and> entry s' p = entry s p \<and> home p s'"
proof (cases "s' = s")
  case False
  with assms obtain i where i: "entry s p = Some i" "entry s q = None" "fs_nodes s i \<noteq> Dir"
    and s': "s' = s\<lparr>fs_names := fs_names s @ [(q, i)]\<rparr>"
    by (auto simp: fs_link_def home_locate split: option.splits if_splits)
  have wf: "wf_fs s'"
    unfolding s' using assms(2) home_no_dotdot [OF assms(2)] i by (intro wf_fs_link) (auto simp: home_def)
  have e: "entry s' x = (if x = q then Some i else entry s x)" for x using i(2) by (simp add: s' entry_link)
  have n: "node_at s' x = (if x = q then Some (fs_nodes s i) else node_at s x)" for x
    using i(2) by (simp add: s' node_at_link)
  have "node_at s q = None" using i(2) by (simp add: node_at_def)
  then have "fair me p s s'" "butlast p \<noteq> q"
    using wf e n assms(1,3) unfolding fair_def others_def same_tree_def home_def by (auto simp: s')
  then show ?thesis using assms(1,3) wf e n by (simp add: s' home_def)
qed (use assms(1) in simp)

section \<open>Assertions that last\<close>

definition mine :: "nat \<Rightarrow> path \<Rightarrow> ino \<Rightarrow> bytes \<Rightarrow> fs \<Rightarrow> bool" where
  "mine me p i b s \<longleftrightarrow> home p s \<and> entry s p = Some i \<and> fs_maker s i = me \<and> fs_nodes s i = Reg b"

definition locked :: "nat \<Rightarrow> ino \<Rightarrow> fs \<Rightarrow> bool" where
  "locked me i s \<longleftrightarrow> i < fs_next s \<and> fs_locks s i = Some me"

definition lock_held :: "nat \<Rightarrow> path \<Rightarrow> ino \<Rightarrow> bytes \<Rightarrow> fs \<Rightarrow> bool" where
  "lock_held me p i b s \<longleftrightarrow>
     home p s \<and> entry s p = Some i \<and> fs_nodes s i = Reg b \<and> b \<noteq> [] \<and> fs_locks s i = Some me"

lemma othersD:
  assumes "others me p s s'" "wf_fs s"
  shows "wf_fs s'" "same_tree s s'" "fs_next s \<le> fs_next s'"
    "fs_locks s i = Some me \<Longrightarrow> fs_locks s' i = Some me"
    "i < fs_next s \<Longrightarrow> fs_maker s' i = fs_maker s i"
    "i < fs_next s \<Longrightarrow> fs_maker s i = me \<Longrightarrow> fs_nodes s' i = fs_nodes s i"
    "i < fs_next s \<Longrightarrow> fs_locks s i = Some me \<Longrightarrow> fs_nodes s' i = fs_nodes s i"
    "entry s p = Some i \<Longrightarrow> fs_nodes s i = Reg [] \<Longrightarrow> fs_maker s i = me \<Longrightarrow> entry s' p = Some i"
    "entry s p = Some i \<Longrightarrow> fs_nodes s i \<noteq> Reg [] \<Longrightarrow> fs_locks s i = Some me \<Longrightarrow> entry s' p = Some i"
    "i < fs_next s \<Longrightarrow> entry s' p = Some i \<Longrightarrow> entry s p = Some i"
  using assms unfolding others_def by blast+

lemma home_others: "home q s \<Longrightarrow> others me p s s' \<Longrightarrow> home q s'"
  using othersD(1,2) [of me p s s'] unfolding home_def same_tree_def by blast

lemma steady_home: "steady (others me p) (home q)"
  using home_others unfolding steady_def by blast

lemma steady_created: "steady (others me p) (mine me p i [])"
  unfolding steady_def
proof (intro allI impI)
  fix s s' assume a: "mine me p i [] s" and o: "others me p s s'"
  then have wf: "wf_fs s" and i: "i < fs_next s" using entry_below by (auto simp: mine_def home_def)
  show "mine me p i [] s'"
    using a othersD(5,6,8) [OF o wf, of i] i home_others [OF _ o] unfolding mine_def by metis
qed

lemma steady_written: "steady (others me p) (\<lambda>s. mine me p i b s \<and> locked me i s)"
  unfolding steady_def
proof (intro allI impI)
  fix s s' assume a: "mine me p i b s \<and> locked me i s" and o: "others me p s s'"
  then have wf: "wf_fs s" and i: "i < fs_next s" by (auto simp: mine_def home_def locked_def)
  have "entry s' p = Some i"
    using a othersD(8,9) [OF o wf, of i] unfolding mine_def locked_def by (cases "b = []") auto
  then show "mine me p i b s' \<and> locked me i s'"
    using a othersD(3) [OF o wf] othersD(4-6) [OF o wf, of i] i home_others [OF _ o] unfolding mine_def locked_def by auto
qed

lemma steady_locked: "steady (others me p) (\<lambda>s. home p s \<and> locked me i s)"
  unfolding steady_def
proof (intro allI impI)
  fix s s' assume a: "home p s \<and> locked me i s" and o: "others me p s s'"
  then have wf: "wf_fs s" by (simp add: home_def)
  from othersD(3) [OF o wf] othersD(4) [OF o wf, of i] a home_others [OF _ o] show "home p s' \<and> locked me i s'"
    by (auto simp: locked_def)
qed

lemma steady_held: "steady (others me p) (lock_held me p i b)"
  unfolding steady_def
proof (intro allI impI)
  fix s s' assume a: "lock_held me p i b s" and o: "others me p s s'"
  then have wf: "wf_fs s" and i: "i < fs_next s" using entry_below by (auto simp: lock_held_def home_def)
  show "lock_held me p i b s'"
    using a othersD(4,7,9) [OF o wf, of i] i home_others [OF _ o] unfolding lock_held_def by auto
qed

lemma steadyD: "steady R I \<Longrightarrow> I s \<Longrightarrow> R s s' \<Longrightarrow> I s'"
  by (simp add: steady_def)

section \<open>The operations keep to the protocol\<close>

text \<open>Beside others that keep to it; nothing is asked of an exception.\<close>

definition protocol :: "nat \<Rightarrow> path \<Rightarrow> 'a io \<Rightarrow> ('a \<Rightarrow> fs \<Rightarrow> bool) \<Rightarrow> (pyexc \<Rightarrow> fs \<Rightarrow> bool) \<Rightarrow> fs \<Rightarrow> bool" where
  "protocol me p = rg me (others me p) (fair me p)"

lemmas rg_control = rg_ret rg_raise rg_iob rg_handle rg_reraise rg_finally rg_if rg_let rg_option
  rg_prod rg_from_result rg_uuid4

lemmas protocol_rules = rg_control [where R = "others me p" and G = "fair me p" and me = me for me p,
  folded protocol_def]

lemma protocol_mono:
  "protocol me p m Q' X' s \<Longrightarrow> (\<And>x s. Q' x s \<Longrightarrow> Q x s) \<Longrightarrow> (\<And>e s. X' e s \<Longrightarrow> X e s) \<Longrightarrow> protocol me p m Q X s"
  unfolding protocol_def by (rule rg_mono)

lemma protocol_reads:
  assumes "reads m" "steady (others me p) I" "I s" "\<And>x s. I s \<Longrightarrow> Q x s" "\<And>e s. I s \<Longrightarrow> X e s"
  shows "protocol me p m Q X s"
  unfolding protocol_def using assms by (intro readsD [of m _ I]) auto

lemma protocol_look:
  assumes "steady (others me p) I" "I s" "\<And>x s. I s \<Longrightarrow> f s = Inr x \<Longrightarrow> Q x s" "\<And>e s. I s \<Longrightarrow> X e s"
  shows "protocol me p (look f) Q X s"
  unfolding protocol_def using assms steadyD [OF assms(1,2)] by (intro rg_look) auto

lemma protocol_getpid [intro]: "Q me s \<Longrightarrow> protocol me p getpid Q X s"
  by (simp add: protocol_def rg_def getpid_def)

lemma steady_True: "steady R (\<lambda>_. True)"
  by (simp add: steady_def)

lemma protocol_idle: "reads m \<Longrightarrow> protocol me p m (\<lambda>_ _. True) (\<lambda>_ _. True) s"
  by (rule protocol_reads [OF _ steady_True]) auto

lemma protocol_unflock:
  assumes "steady (others me p) I" "I s" "\<And>s. I s \<Longrightarrow> Q () (fs_unflock me i s)" "\<And>e s. I s \<Longrightarrow> X e s"
  shows "protocol me p (unflock i) Q X s"
  unfolding unflock_def protocol_def
  by (intro rg_iob protocol_getpid [unfolded protocol_def] rg_sys)
    (use assms(3,4) steadyD [OF assms(1,2)] fair_unflock in auto)

lemmas protocol_unflock_any = protocol_unflock [OF steady_True TrueI]

lemma protocol_flock:
  assumes "steady (others me p) I" "I s" "\<And>e s. I s \<Longrightarrow> X e s" "\<And>s. I s \<Longrightarrow> Q False s"
    and "\<And>s. I s \<Longrightarrow> fs_locks s i = None \<Longrightarrow> Q True (s\<lparr>fs_locks := (fs_locks s)(i := Some me)\<rparr>)"
  shows "protocol me p (try_posix_flock i) Q X s"
proof -
  have "protocol me p (sys (fs_flock me i)) Q (\<lambda>e s. I s) s"
    unfolding protocol_def
  proof (rule rg_sys)
    fix s1 x s2 assume "others me p s s1" and f: "fs_flock me i s1 = (Inr x, s2)"
    with steadyD [OF assms(1,2)] have "I s1" by blast
    with f assms(4,5) fair_flock [OF f] show "fair me p s1 s2 \<and> Q x s2"
      by (auto simp: fs_flock_def split: if_splits)
  next
    fix s1 e s2 assume "fs_flock me i s1 = (Inl e, s2)"
    then show "fair me p s1 s2 \<and> I s2" by (simp add: fs_flock_def split: if_splits)
  qed (use steadyD [OF assms(1,2)] in simp)
  then show ?thesis
    unfolding try_posix_flock_def
    by (intro protocol_rules(3,4) protocol_getpid, elim protocol_mono)
      (auto simp del: io_simps intro!: protocol_rules assms(3,4))
qed

lemma protocol_on_exception:
  assumes "protocol me p m Q (\<lambda>e s. X e s \<and> protocol me p c (\<lambda>_. X e) X s) s"
  shows "protocol me p (on_exception m c) Q X s"
  unfolding on_exception_def protocol_def
  by (rule rg_handle, rule rg_mono [OF assms [unfolded protocol_def]])
    (auto simp del: io_simps intro!: rg_intros elim!: rg_mono)

lemma protocol_os_failed:
  assumes "protocol me p m (\<lambda>_. Q False) (\<lambda>e s. Q True s \<and> X e s) s"
  shows "protocol me p (os_failed m) Q X s"
  unfolding os_failed_def protocol_def
  by (rule rg_handle, rule rg_iob, rule rg_mono [OF assms [unfolded protocol_def]])
    (auto simp del: io_simps intro!: rg_intros)

lemma protocol_os_to_evidence:
  "protocol me p m Q (\<lambda>_ s. X EvidenceError s) s \<Longrightarrow> (\<And>e s. X e s) \<Longrightarrow> protocol me p (os_to_evidence m) Q X s"
  unfolding os_to_evidence_def protocol_def by (rule rg_reraise) (auto elim: rg_mono)

lemma protocol_release_flock:
  "protocol me p (release_posix_flock i) (\<lambda>_ _. True) (\<lambda>_ _. True) s"
  unfolding release_posix_flock_def
  by (auto simp del: io_simps intro!: protocol_rules protocol_os_failed protocol_unflock_any)

lemma reads_sync_directory [reads_intros]: "reads (sync_directory p)"
  unfolding sync_directory_def os_failed_def by (intro reads_intros)

lemma reads_object_key [reads_intros]: "reads (regular_object_key p)"
  unfolding regular_object_key_def by (intro reads_intros)

lemma protocol_object_key:
  assumes "steady (others me p) I" "\<And>s. I s \<Longrightarrow> home q s" "I s"
    and "\<And>k s. I s \<Longrightarrow> entry s q = Some (snd k) \<Longrightarrow> is_reg (fs_nodes s (snd k)) \<Longrightarrow> Q k s" "\<And>e s. I s \<Longrightarrow> X e s"
  shows "protocol me p (regular_object_key q) Q X s"
  unfolding regular_object_key_def
proof (intro protocol_rules protocol_look [OF assms(1,3)])
  fix s m assume "I s" "fs_lstat q s = Inr m" "\<not> is_lnk (st_node m)" "\<not> \<not> is_reg (st_node m)"
  then show "Q (st_dev m, st_ino m) s"
    using assms(2) [of s] by (intro assms(4)) (auto simp: fs_lstat_def home_locate stat_ino_def split: option.splits)
qed (use assms(5) in auto)

lemma protocol_create:
  assumes "home p s"
  shows "protocol me p (create_lock_file p) (\<lambda>(i, k) s. snd k = i \<and> mine me p i [] s) (\<lambda>_ _. True) s"
    (is "protocol me p _ ?Q ?X s")
proof -
  have h: "home p s1" if "others me p s s1" for s1 using home_others [OF assms that] .
  have c: "protocol me p (sys (fs_create_by me p)) (\<lambda>i. mine me p i []) (\<lambda>_ _. True) s"
    unfolding protocol_def
  proof (rule rg_sys)
    fix s1 i s2 assume "others me p s s1" "fs_create_by me p s1 = (Inr i, s2)"
    from create_by_Inr [OF h this(2), OF this(1)]
    show "fair me p s1 s2 \<and> mine me p i [] s2" by (simp add: mine_def)
  qed (auto dest: create_by_Inl)
  have "protocol me p (iob (on_exception (os_to_evidence (look (\<lambda>s. Inr (stat_ino s i)))) (unflock i))
       (\<lambda>opened. ret (i, st_dev opened, st_ino opened))) ?Q ?X s" if m: "mine me p i [] s" for i s
    by (intro protocol_rules(3) protocol_on_exception protocol_os_to_evidence protocol_look [OF steady_created m])
      (auto simp: stat_ino_def simp del: io_simps intro!: protocol_rules protocol_unflock_any)
  with c show ?thesis
    unfolding create_lock_file_def
    by (intro protocol_rules(3) protocol_getpid protocol_os_to_evidence) (auto elim: protocol_mono)
qed

text \<open>The clean-up of a failed acquisition removes at most the file made by it.\<close>

lemma protocol_unlink:
  assumes "steady (others me p) I" "I s"
    and "\<And>s. I s \<Longrightarrow> home p s \<and> (\<exists>i b. entry s p = Some i \<and> fs_nodes s i = Reg b
      \<and> (b = [] \<and> fs_maker s i = me \<or> b \<noteq> [] \<and> fs_locks s i = Some me))"
  shows "protocol me p (sys (fs_unlink p)) (\<lambda>_ _. True) (\<lambda>_ _. True) s"
proof -
  have "fair me p s1 s2" if o: "others me p s s1" and u: "fs_unlink p s1 = (r, s2)" for s1 s2 r
  proof -
    from steadyD [OF assms(1,2) o] assms(3) obtain i b where i: "home p s1" "entry s1 p = Some i"
      "fs_nodes s1 i = Reg b" "b = [] \<and> fs_maker s1 i = me \<or> b \<noteq> [] \<and> fs_locks s1 i = Some me" by blast
    then have "s2 = s1\<lparr>fs_names := AList.delete p (fs_names s1)\<rparr>"
      using u by (auto simp: fs_unlink_def home_locate node_at_def)
    with fair_unlink [of s1 p i me] i show ?thesis by (auto simp: is_reg_def)
  qed
  then show ?thesis unfolding protocol_def by (intro rg_sys) auto
qed

lemma protocol_unlink_created:
  assumes "steady (others me p) I" "I s"
    and "\<And>s. I s \<Longrightarrow> home p s \<and> (\<exists>i b. entry s p = Some i \<and> fs_nodes s i = Reg b
      \<and> (b = [] \<and> fs_maker s i = me \<or> b \<noteq> [] \<and> fs_locks s i = Some me))"
  shows "protocol me p (unlink_created p k) (\<lambda>_ _. True) (\<lambda>_ _. True) s"
  unfolding unlink_created_def
proof (rule protocol_rules(3), rule protocol_reads [OF _ assms(1,2)])
  show "reads (handle (iob (regular_object_key p) (\<lambda>k. ret (Some k)))
      (\<lambda>e. if e = KeyboardInterrupt then raise e else ret None))"
    by (intro reads_intros)
  fix c s assume "I s"
  note u = protocol_unlink [OF assms(1) this assms(3)]
  have "protocol me p (iob (sys (fs_unlink p)) (\<lambda>_. sync_directory (butlast p))) (\<lambda>_ _. True) (\<lambda>_ _. True) s"
    by (intro protocol_rules) (auto intro!: protocol_mono [OF u] protocol_idle reads_intros)
  then have "protocol me p (os_failed (iob (sys (fs_unlink p)) (\<lambda>_. sync_directory (butlast p))))
      (\<lambda>_ _. True) (\<lambda>_ _. True) s"
    by (intro protocol_os_failed) (auto elim: protocol_mono)
  then show "protocol me p (if c = Some k
      then iob (os_failed (iob (sys (fs_unlink p)) (\<lambda>_. sync_directory (butlast p)))) (\<lambda>_. ret ())
      else ret ()) (\<lambda>_ _. True) (\<lambda>_ _. True) s"
    by (intro protocol_rules) (auto simp del: io_simps intro!: protocol_rules(1) elim!: protocol_mono)
qed simp_all

lemma mine_unlinkable:
  "mine me p i [] s \<Longrightarrow> home p s \<and> (\<exists>i b. entry s p = Some i \<and> fs_nodes s i = Reg b
      \<and> (b = [] \<and> fs_maker s i = me \<or> b \<noteq> [] \<and> fs_locks s i = Some me))"
  "mine me p i b s \<and> locked me i s \<Longrightarrow> home p s \<and> (\<exists>i b. entry s p = Some i \<and> fs_nodes s i = Reg b
      \<and> (b = [] \<and> fs_maker s i = me \<or> b \<noteq> [] \<and> fs_locks s i = Some me))"
  by (auto simp: mine_def locked_def)

lemma mine_locks [simp]: "mine me p i b (s\<lparr>fs_locks := l\<rparr>) \<longleftrightarrow> mine me p i b s"
  by (simp add: mine_def home_def)

lemma mine_unflock [simp]: "mine me p i b (fs_unflock q j s) \<longleftrightarrow> mine me p i b s"
  by (simp add: fs_unflock_def)

lemma protocol_lock_created:
  assumes "mine me p i [] s"
  shows "protocol me p (lock_created p i k) (\<lambda>_ s. mine me p i [] s \<and> locked me i s) (\<lambda>_ _. True) s"
proof -
  have c: "protocol me p (iob (unflock i) (\<lambda>_. unlink_created p k)) (\<lambda>_ _. True) (\<lambda>_ _. True) s"
    if m: "mine me p i [] s" for s
    by (intro protocol_rules(3) protocol_unflock [OF steady_created m]
        protocol_unlink_created [OF steady_created _ mine_unlinkable(1)]) auto
  have "i < fs_next s" if "mine me p i [] s" for s
    using that entry_below by (auto simp: mine_def home_def)
  then show ?thesis
    unfolding lock_created_def
    by (intro protocol_on_exception protocol_rules(3) protocol_flock [OF steady_created assms])
      (auto simp: locked_def simp del: io_simps intro!: protocol_rules c)
qed

lemma fs_write_at_end: "fs_nodes s i = Reg b \<Longrightarrow> fs_write_at i (length b) c s = fs_set i (b @ c) s"
  by (simp add: fs_write_at_def)

lemma written_set:
  "mine me p i b s \<and> locked me i s \<Longrightarrow> mine me p i c (fs_set i c s) \<and> locked me i (fs_set i c s)"
  "mine me p i b s \<and> locked me i s \<Longrightarrow> fair me p s (fs_set i c s)"
proof -
  assume a: "mine me p i b s \<and> locked me i s"
  then have r: "regular_ino s i" by (simp add: mine_def regular_ino_def is_reg_def)
  with a show "fair me p s (fs_set i c s)" by (intro fair_write) (auto simp: mine_def locked_def)
  have "home p (fs_set i c s)"
    using a r wf_fs_set_reg [of s i c] unfolding home_def mine_def node_at_set_reg
    by (auto simp: node_at_def)
  with a show "mine me p i c (fs_set i c s) \<and> locked me i (fs_set i c s)"
    by (simp add: mine_def locked_def) (simp add: fs_set_def)
qed

lemma rg_any: "(\<And>n. rg me R G (m n) Q X s) \<Longrightarrow> rg me R G (\<lambda>w. m (g w) w) Q X s"
  by (simp add: rg_def)

lemma protocol_write_all:
  assumes "mine me p i b s \<and> locked me i s"
  shows "protocol me p (write_all i (length b) view) (\<lambda>_ s. mine me p i (b @ view) s \<and> locked me i s)
    (\<lambda>_ s. \<exists>b. mine me p i b s \<and> locked me i s) s"
  using assms
proof (induction i "length b" view arbitrary: b s rule: write_all.induct)
  case (1 i)
  then show ?case by (auto simp del: io_simps intro!: protocol_rules)
next
  case (2 i c view)
  let ?v = "c # view"
  have w: "protocol me p (sys_torn (\<lambda>s. (Inr n, fs_write_at i (length b) (take n ?v) s))
       (\<lambda>m s. fs_write_at i (length b) (take (min m n) ?v) s))
     (\<lambda>x s. x = n \<and> mine me p i (b @ take n ?v) s \<and> locked me i s)
     (\<lambda>_ s. \<exists>b. mine me p i b s \<and> locked me i s) s" for n
    unfolding protocol_def
  proof (rule rg_sys_torn)
    fix s1 assume "others me p s s1"
    then have m: "mine me p i b s1 \<and> locked me i s1" using steadyD [OF steady_written] 2(2) by blast
    then have f: "fs_write_at i (length b) z s1 = fs_set i (b @ z) s1" for z
      by (simp add: fs_write_at_end mine_def)
    show "fair me p s1 (fs_write_at i (length b) (take (min k n) ?v) s1)" for k
      using written_set(2) [OF m] by (simp add: f)
    show "fair me p s1 s1 \<and> (\<exists>b. mine me p i b s1 \<and> locked me i s1)" for e :: pyexc
      using m by auto
    show "fair me p s1 s2 \<and> x = n \<and> mine me p i (b @ take n ?v) s2 \<and> locked me i s2"
      if "(Inr n, fs_write_at i (length b) (take n ?v) s1) = (Inr x, s2)" for x s2
      using that written_set [OF m] by (auto simp: f)
  qed auto
  have r: "protocol me p (if n = 0 then raise OSError else write_all i (length b + n) (drop n ?v))
      (\<lambda>_ s. mine me p i (b @ ?v) s \<and> locked me i s) (\<lambda>_ s. \<exists>b. mine me p i b s \<and> locked me i s) s"
    if n: "n \<le> length ?v" and m: "mine me p i (b @ take n ?v) s \<and> locked me i s" for n s
  proof (cases "n = 0")
    case False
    have l: "length (b @ take n ?v) = length b + n" using n by simp
    from 2(1) [OF False l [symmetric] m] show ?thesis
      unfolding l append_assoc append_take_drop_id using False by simp
  qed (use m in \<open>auto simp del: io_simps intro!: protocol_rules\<close>)
  show ?case
    unfolding write_all.simps Let_def
  proof (rule protocol_rules(3))
    let ?f = "\<lambda>n. sys_torn (\<lambda>s. (Inr (min n (length ?v)), fs_write_at i (length b) (take (min n (length ?v)) ?v) s))
       (\<lambda>m s. fs_write_at i (length b) (take (min m (min n (length ?v))) ?v) s)"
    have "protocol me p (?f n) (\<lambda>written. protocol me p
        (if written = 0 then raise OSError else write_all i (length b + written) (drop written ?v))
        (\<lambda>_ s. mine me p i (b @ ?v) s \<and> locked me i s) (\<lambda>_ s. \<exists>b. mine me p i b s \<and> locked me i s))
      (\<lambda>_ s. \<exists>b. mine me p i b s \<and> locked me i s) s" for n
      by (rule protocol_mono [OF w]) (use r in auto)
    then show "protocol me p (\<lambda>w. ?f (os_chunk (w_os w) (w_tick w)) w) (\<lambda>written. protocol me p
        (if written = 0 then raise OSError else write_all i (length b + written) (drop written ?v))
        (\<lambda>_ s. mine me p i (b @ ?v) s \<and> locked me i s) (\<lambda>_ s. \<exists>b. mine me p i b s \<and> locked me i s))
      (\<lambda>_ s. \<exists>b. mine me p i b s \<and> locked me i s) s"
      unfolding protocol_def by (rule rg_any)
  qed
qed

lemma identity_of_match [simp]: "identities_match (identity_of L b) (identity_of L b)"
  by (simp add: identities_match_def identity_of_def)

lemma protocol_publish:
  assumes "mine me p i [] s \<and> locked me i s" "payload \<noteq> []"
  shows "protocol me p (publish_lock L p i k record payload)
    (\<lambda>l s. lock_held me p i payload s \<and> wl_path l = p \<and> wl_object_key l = k
      \<and> wl_guard l = Some \<lparr>kg_value = i, kg_object_key = k\<rparr> \<and> \<not> wl_released l)
    (\<lambda>_ s. \<exists>b. mine me p i b s \<and> locked me i s) s"
proof -
  let ?C = "\<lambda>s. mine me p i payload s \<and> locked me i s"
  have held: "lock_held me p i payload s" if "?C s" for s
    using that assms(2) by (simp add: lock_held_def mine_def locked_def)
  have w: "protocol me p (write_all i 0 payload) (\<lambda>_. ?C) (\<lambda>_ s. \<exists>b. mine me p i b s \<and> locked me i s) s"
    using protocol_write_all [OF assms(1), of payload] by simp
  have "protocol me p (iob (look (\<lambda>_. Inr ())) (\<lambda>_.
     iob (sync_directory (butlast p)) (\<lambda>_.
     iob (regular_object_key p) (\<lambda>key.
     if key \<noteq> k then raise EvidenceError
     else iob (file_identity L p) (\<lambda>identity.
     if \<not> identities_match identity (identity_of L payload) then raise EvidenceError
     else ret \<lparr>wl_path = p, wl_record = record, wl_identity = identity, wl_object_key = key,
       wl_guard = Some \<lparr>kg_value = i, kg_object_key = k\<rparr>, wl_released = False\<rparr>)))))
    (\<lambda>l s. lock_held me p i payload s \<and> wl_path l = p \<and> wl_object_key l = k
      \<and> wl_guard l = Some \<lparr>kg_value = i, kg_object_key = k\<rparr> \<and> \<not> wl_released l)
    (\<lambda>_ s. \<exists>b. mine me p i b s \<and> locked me i s) s" if c: "?C s" for s
  proof -
    note r = protocol_reads [OF _ steady_written, where Q = Q and X = "\<lambda>_ s. \<exists>b. mine me p i b s \<and> locked me i s" for Q]
    show ?thesis
      by (intro protocol_rules(3) r [OF reads_look(1) c] r [OF reads_sync_directory] r [OF reads_object_key]
          protocol_rules(7) r [OF reads_storage(5)])
        (auto simp del: io_simps intro!: protocol_rules held)
  qed
  with w show ?thesis unfolding publish_lock_def by (intro protocol_rules(3)) (auto elim: protocol_mono)
qed

section \<open>The path of the lock\<close>

text \<open>The run directory is \<open>run\<close>, its parent resolves to the physical directory \<open>d\<close>.\<close>

definition anchored :: "path \<Rightarrow> path \<Rightarrow> fs \<Rightarrow> bool" where
  "anchored run d s \<longleftrightarrow> run \<noteq> [] \<and> wf_fs s \<and> node_at s d = Some Dir \<and> locate s True (butlast run) = Inr d"

definition lock_path :: "path \<Rightarrow> path \<Rightarrow> path" where
  "lock_path run d = d @ [lock_name (last run)]"

lemma lock_name_not_dotdot: "lock_name n \<noteq> dotdot"
  by (auto simp: lock_name_def WRITER_LOCK_SUFFIX_def dotdot_def lit_def)

lemma anchored_home: "anchored run d s \<Longrightarrow> home (lock_path run d) s"
  by (simp add: anchored_def home_def lock_path_def lock_name_not_dotdot)

lemma steady_anchored: "steady (others me p) (anchored run d)"
  unfolding steady_def
proof (intro allI impI)
  fix s s' assume a: "anchored run d s" and o: "others me p s s'"
  then have wf: "wf_fs s" by (simp add: anchored_def)
  have "locate s' True (butlast run) = Inr d"
    using a walk_same_tree [OF othersD(2) [OF o wf]] by (simp add: anchored_def locate_def)
  then show "anchored run d s'"
    using a othersD(1,2) [OF o wf] unfolding anchored_def same_tree_def by blast
qed

lemma protocol_checked_directory:
  assumes "steady (others me p) I" "I s" "\<And>s. I s \<Longrightarrow> locate s True q = Inr d"
    and "\<And>s. I s \<Longrightarrow> Q d s" "\<And>e s. I s \<Longrightarrow> X e s"
  shows "protocol me p (checked_directory q) Q X s"
  unfolding checked_directory_def
proof (intro protocol_rules(3) protocol_reads [OF _ assms(1,2)] protocol_rules(7))
  show "reads (reraise missing_to_boundary (look (fs_lstat q)))" by (intro reads_intros)
  fix s assume "I s"
  then show "protocol me p (look (fs_resolve q)) Q X s"
    by (rule protocol_look [OF assms(1)]) (use assms(3-) in \<open>auto simp: fs_resolve_def split: option.splits\<close>)
qed (use assms(5) in \<open>auto simp del: io_simps intro!: protocol_rules\<close>)

lemma protocol_run_path:
  assumes "anchored run d s" "\<And>s. anchored run d s \<Longrightarrow> Q (d @ [last run]) s" "\<And>e s. X e s"
  shows "protocol me p (normalized_run_path run) Q X s"
  unfolding normalized_run_path_def
  by (intro protocol_rules(3,7) protocol_checked_directory [OF steady_anchored assms(1)])
    (use assms in \<open>auto simp: anchored_def simp del: io_simps intro!: protocol_rules\<close>)

lemma protocol_lock_path:
  assumes "steady (others me p) I" "I s" "\<And>s. I s \<Longrightarrow> anchored run d s"
    and "\<And>s. I s \<Longrightarrow> Q (lock_path run d) s" "\<And>e s. X e s"
  shows "protocol me p (writer_lock_path (d @ [last run])) Q X s"
proof -
  have l: "locate s True d = Inr d" if "I s" for s
    using assms(3) [OF that] dir_at_locate [of s d] by (simp add: anchored_def dir_at_def)
  show ?thesis
    unfolding writer_lock_path_def normalized_run_path_def
    by (intro protocol_rules(3,7) protocol_checked_directory [OF assms(1,2)])
      (use assms l in \<open>auto simp: lock_path_def simp del: io_simps intro!: protocol_rules\<close>)
qed

section \<open>Acquisition\<close>

lemma canonical_nonempty: "canonical_json_bytes L v = Inr b \<Longrightarrow> b \<noteq> []"
  by (auto simp: canonical_json_bytes_def utf8_append utf8_char_def split: sum.splits option.splits
      bind_splits)

lemma wp_getpid [wp_intros]: "(\<And>n. Q n s) \<Longrightarrow> wp getpid Q X K s"
  by (simp add: wp_def getpid_def)

lemma reads_getpid [reads_intros]: "reads getpid"
  by (rule readsI) (simp_all add: rg_def getpid_def still_def wp_def)

lemma reads_processes [reads_intros]: "reads (process_start_token v)" "reads (process_liveness v)"
  unfolding process_start_token_def process_liveness_def linux_process_start_token_def
    linux_process_liveness_def proc_mounted_def read_proc_def
  by (intro reads_intros)+

lemma reads_owner_record [reads_intros]: "reads (owner_record p)"
  unfolding owner_record_def by (intro reads_intros)

text \<open>The lock object of a process that holds the lock.\<close>

definition lock_owner :: "nat \<Rightarrow> path \<Rightarrow> writer_lock \<Rightarrow> fs \<Rightarrow> bool" where
  "lock_owner me p l s \<longleftrightarrow> wl_path l = p \<and> \<not> wl_released l
     \<and> (\<exists>b. lock_held me p (snd (wl_object_key l)) b s)
     \<and> wl_guard l = Some \<lparr>kg_value = snd (wl_object_key l), kg_object_key = wl_object_key l\<rparr>"

lemma protocol_acquire:
  assumes "anchored run d s"
  shows "protocol me (lock_path run d) (acquire L run) (lock_owner me (lock_path run d)) (\<lambda>_ _. True) s"
proof -
  let ?p = "lock_path run d"
  let ?Q = "lock_owner me ?p"
  have publish: "protocol me ?p (on_exception (publish_lock L ?p i k rcd payload)
       (iob (unlink_created ?p k) (\<lambda>_. release_posix_flock i))) ?Q (\<lambda>_ _. True) s"
    if "mine me ?p i [] s \<and> locked me i s" "payload \<noteq> []" "snd k = i" for i k payload rcd s
  proof (rule protocol_on_exception, rule protocol_mono [OF protocol_publish [OF that(1,2)]])
    fix e s assume "\<exists>b. mine me ?p i b s \<and> locked me i s"
    then obtain b where b: "mine me ?p i b s \<and> locked me i s" by blast
    note u = protocol_unlink_created [OF steady_written b mine_unlinkable(2)]
    show "True \<and> protocol me ?p (iob (unlink_created ?p k) (\<lambda>_. release_posix_flock i)) (\<lambda>_ _. True) (\<lambda>_ _. True) s"
      by (auto intro!: protocol_rules(3) protocol_mono [OF u] protocol_release_flock)
  qed (use that(3) in \<open>auto simp: lock_owner_def\<close>)
  have create: "protocol me ?p (iob (create_lock_file ?p) (\<lambda>(descriptor, created_object_key).
     iob (lock_created ?p descriptor created_object_key) (\<lambda>_.
     on_exception (publish_lock L ?p descriptor created_object_key rcd payload)
       (iob (unlink_created ?p created_object_key) (\<lambda>_. release_posix_flock descriptor))))) ?Q (\<lambda>_ _. True) s"
    if "anchored run d s" "payload \<noteq> []" for payload rcd s
  proof (rule protocol_rules(3), rule protocol_mono [OF protocol_create [OF anchored_home [OF that(1)]]])
    fix x :: "ino \<times> object_key" and s assume "(case x of (i, k) \<Rightarrow> \<lambda>s. snd k = i \<and> mine me ?p i [] s) s"
    then obtain i k where x: "x = (i, k)" "snd k = i" "mine me ?p i [] s" by (cases x) auto
    show "protocol me ?p (case x of (descriptor, created_object_key) \<Rightarrow>
         iob (lock_created ?p descriptor created_object_key) (\<lambda>_.
         on_exception (publish_lock L ?p descriptor created_object_key rcd payload)
           (iob (unlink_created ?p created_object_key) (\<lambda>_. release_posix_flock descriptor)))) ?Q (\<lambda>_ _. True) s"
      unfolding x(1) prod.case
      by (intro protocol_rules(3) protocol_mono [OF protocol_lock_created [OF x(3)]]) (use publish that(2) x(2) in auto)
  qed simp
  show ?thesis
    unfolding acquire_def
    by (intro protocol_rules(3) protocol_run_path [OF assms] protocol_lock_path [OF steady_anchored]
        protocol_reads [OF reads_owner_record steady_anchored] protocol_rules(11) create)
      (auto dest: canonical_nonempty)
qed

section \<open>Release\<close>

lemma held_unlinkable: "lock_held me p i b s \<Longrightarrow> home p s \<and> (\<exists>i b. entry s p = Some i \<and> fs_nodes s i = Reg b
      \<and> (b = [] \<and> fs_maker s i = me \<or> b \<noteq> [] \<and> fs_locks s i = Some me))"
  by (auto simp: lock_held_def)

lemma protocol_unlink_lock:
  assumes "lock_held me p i b s"
  shows "protocol me p (unlink_lock p) (\<lambda>_ _. True) (\<lambda>_ _. True) s"
  unfolding unlink_lock_def
  by (intro protocol_os_to_evidence protocol_rules(3) protocol_mono [OF protocol_unlink [OF steady_held assms held_unlinkable]])
    (auto intro!: protocol_idle reads_intros)

lemma protocol_release:
  assumes "lock_owner me p l s" "wl_guard l = Some g"
  shows "protocol me p (finally_do (release_body L l) (release_posix_flock (kg_value g)))
    (\<lambda>_ _. True) (\<lambda>_ _. True) s"
proof -
  obtain b where h: "lock_held me p (snd (wl_object_key l)) b s" and p: "wl_path l = p"
    using assms(1) by (auto simp: lock_owner_def)
  have "protocol me p (release_body L l) (\<lambda>_ _. True) (\<lambda>_ _. True) s"
    unfolding release_body_def p
    by (intro protocol_rules(3,7) protocol_reads [OF reads_object_key steady_held h]
        protocol_reads [OF reads_storage(5) steady_held] protocol_unlink_lock)
      (auto simp del: io_simps intro!: protocol_rules)
  then show ?thesis
    by (intro protocol_rules(6)) (auto elim!: protocol_mono intro: protocol_release_flock)
qed

section \<open>Recovery\<close>

text \<open>
  Under the kernel lock on a file \<open>i\<close>. What is read through the lock path is the content of \<open>i\<close>
  as long as \<open>i\<close> is found there again afterwards, since a file that has left the path does not
  come back.
\<close>

definition guarding :: "nat \<Rightarrow> path \<Rightarrow> path \<Rightarrow> ino \<Rightarrow> fs \<Rightarrow> bool" where
  "guarding me run d i s \<longleftrightarrow> anchored run d s \<and> locked me i s"

lemma steady_conj: "steady R I \<Longrightarrow> steady R J \<Longrightarrow> steady R (\<lambda>s. I s \<and> J s)"
  by (auto simp: steady_def)

lemma steady_guarding: "steady (others me (lock_path run d)) (guarding me run d i)"
  unfolding steady_def
proof (intro allI impI)
  fix s s' assume a: "guarding me run d i s" and o: "others me (lock_path run d) s s'"
  then have "home (lock_path run d) s \<and> locked me i s" using anchored_home by (auto simp: guarding_def)
  from steadyD [OF steady_locked this o] steadyD [OF steady_anchored _ o] a
  show "guarding me run d i s'" by (auto simp: guarding_def)
qed

lemma steady_opened:
  "steady (others me (lock_path run d))
     (\<lambda>s. guarding me run d i s \<and> (entry s (lock_path run d) = Some i \<longrightarrow> j = i))"
  unfolding steady_def
proof (intro allI impI)
  fix s s' assume a: "guarding me run d i s \<and> (entry s (lock_path run d) = Some i \<longrightarrow> j = i)"
    and o: "others me (lock_path run d) s s'"
  then have "wf_fs s" "i < fs_next s" by (auto simp: guarding_def anchored_def locked_def)
  from othersD(10) [OF o this] steadyD [OF steady_guarding _ o] a
  show "guarding me run d i s' \<and> (entry s' (lock_path run d) = Some i \<longrightarrow> j = i)" by auto
qed

lemma steady_content:
  "steady (others me (lock_path run d))
     (\<lambda>s. guarding me run d i s \<and> (entry s (lock_path run d) = Some i \<longrightarrow> fs_nodes s i = Reg b))"
  unfolding steady_def
proof (intro allI impI)
  fix s s' assume a: "guarding me run d i s \<and> (entry s (lock_path run d) = Some i \<longrightarrow> fs_nodes s i = Reg b)"
    and o: "others me (lock_path run d) s s'"
  then have i: "wf_fs s" "i < fs_next s" "fs_locks s i = Some me"
    by (auto simp: guarding_def anchored_def locked_def)
  from othersD(10) [OF o i(1,2)] othersD(7) [OF o i] steadyD [OF steady_guarding _ o] a
  show "guarding me run d i s' \<and> (entry s' (lock_path run d) = Some i \<longrightarrow> fs_nodes s' i = Reg b)" by auto
qed

lemma protocol_open_guarded:
  assumes "guarding me run d i s"
  shows "protocol me (lock_path run d) (open_regular_readonly (lock_path run d))
    (\<lambda>j s. guarding me run d i s \<and> (entry s (lock_path run d) = Some i \<longrightarrow> j = i)) (\<lambda>_ _. True) s"
proof -
  let ?p = "lock_path run d"
  have o: "guarding me run d i s \<and> (entry s ?p = Some i \<longrightarrow> j = i)"
    if "guarding me run d i s" "fs_open_nofollow ?p s = Inr j" for s j
    using that anchored_home [of run d s]
    by (auto simp: guarding_def fs_open_nofollow_def home_locate split: option.splits if_splits)
  show ?thesis
    unfolding open_regular_readonly_def
    by (intro protocol_rules(3,5,7) protocol_look [OF steady_guarding assms] protocol_look [OF steady_guarding]
        protocol_look [OF steady_opened o])
      (auto simp del: io_simps intro!: protocol_rules)
qed

lemma protocol_read_guarded:
  assumes "guarding me run d i s"
  shows "protocol me (lock_path run d) (read_regular_bytes (lock_path run d) (Some k))
    (\<lambda>b s. guarding me run d i s \<and> (entry s (lock_path run d) = Some i \<longrightarrow> fs_nodes s i = Reg b)) (\<lambda>_ _. True) s"
  unfolding read_regular_bytes_def option.case
proof (rule protocol_rules(3), rule protocol_mono [OF protocol_open_guarded [OF assms]])
  let ?p = "lock_path run d"
  fix j s assume j: "guarding me run d i s \<and> (entry s ?p = Some i \<longrightarrow> j = i)"
  show "protocol me ?p
     (iob (look (\<lambda>s. Inr (stat_ino s j))) (\<lambda>opened.
       if k < node_size (st_node opened) then raise EvidenceError
       else iob (look (fs_read j)) (\<lambda>content.
         let payload = take (k + 1) content in if k < length payload then raise EvidenceError else ret payload)))
     (\<lambda>b s. guarding me run d i s \<and> (entry s ?p = Some i \<longrightarrow> fs_nodes s i = Reg b)) (\<lambda>_ _. True) s"
    by (intro protocol_rules(3,7,8) protocol_look [OF steady_opened j] protocol_look [OF steady_opened])
      (auto simp: fs_read_def simp del: io_simps intro!: protocol_rules split: node.splits)
qed simp

lemma decode_nonempty:
  assumes "decode_writer_lock_record L b r = Inr d"
  shows "b \<noteq> []"
proof -
  obtain v where "(case v of PDict rcd \<Rightarrow> rbind (canonical_json_bytes L v) (\<lambda>c.
      if c \<noteq> b then Inl EvidenceError else validate_lock_record r rcd) | _ \<Rightarrow> Inl EvidenceError) = Inr d"
    using assms unfolding decode_writer_lock_record_def rbind_Inr_iff by (auto split: option.splits)
  then show ?thesis by (cases v) (auto dest: canonical_nonempty split: if_splits)
qed

lemma guarding_held:
  "guarding me run d i s \<Longrightarrow> entry s (lock_path run d) = Some i \<Longrightarrow> fs_nodes s i = Reg b \<Longrightarrow> b \<noteq> [] \<Longrightarrow>
   lock_held me (lock_path run d) i b s"
  using anchored_home by (auto simp: guarding_def lock_held_def locked_def)

lemma protocol_snapshot:
  assumes "guarding me run d i s"
  shows "protocol me (lock_path run d) (read_writer_lock_snapshot L (d @ [last run]))
    (\<lambda>(q, rcd, identity, payload, key) s. q = lock_path run d
      \<and> (snd key = i \<longrightarrow> anchored run d s \<and> lock_held me (lock_path run d) i payload s)) (\<lambda>_ _. True) s"
    (is "protocol me ?p _ ?Q ?X s")
proof -
  have h: "home ?p s" if "guarding me run d i s" for s
    using that anchored_home by (auto simp: guarding_def)
  note tail = protocol_reads [OF reads_storage(5) steady_content, where X = "\<lambda>_ _. True"]
  have after: "protocol me ?p (iob (file_identity L ?p) (\<lambda>current.
        if \<not> identities_match (identity_of L b) current then raise EvidenceError
        else iob (regular_object_key ?p) (\<lambda>again.
          if again \<noteq> key then raise EvidenceError else ret (?p, rcd, identity_of L b, b, key)))) ?Q ?X s"
    if "guarding me run d i s \<and> (entry s ?p = Some i \<longrightarrow> fs_nodes s i = Reg b)" "b \<noteq> []" for b rcd key s
    by (intro protocol_rules(3,7) tail [OF that(1)] protocol_object_key [OF steady_content])
      (use h that(2) guarding_held in \<open>auto simp: guarding_def simp del: io_simps intro!: protocol_rules\<close>)
  have "protocol me ?p (iob (read_regular_bytes ?p (Some WRITER_LOCK_MAX_BYTES)) (\<lambda>payload.
     iob (from_result (decode_writer_lock_record L payload (d @ [last run]))) (\<lambda>rcd.
     let identity = identity_of L payload in
     iob (file_identity L ?p) (\<lambda>current.
     if \<not> identities_match identity current then raise EvidenceError
     else iob (regular_object_key ?p) (\<lambda>again.
       if again \<noteq> key then raise EvidenceError
       else ret (?p, rcd, identity, payload, key)))))) ?Q ?X s"
    if "guarding me run d i s" for key s
  proof (rule protocol_rules(3), rule protocol_mono [OF protocol_read_guarded [OF that]])
    fix b s assume b: "guarding me run d i s \<and> (entry s ?p = Some i \<longrightarrow> fs_nodes s i = Reg b)"
    show "protocol me ?p (iob (from_result (decode_writer_lock_record L b (d @ [last run]))) (\<lambda>rcd.
       let identity = identity_of L b in
       iob (file_identity L ?p) (\<lambda>current.
       if \<not> identities_match identity current then raise EvidenceError
       else iob (regular_object_key ?p) (\<lambda>again.
         if again \<noteq> key then raise EvidenceError
         else ret (?p, rcd, identity, b, key))))) ?Q ?X s"
      unfolding Let_def
      by (intro protocol_rules(3,11) after [OF b]) (auto dest: decode_nonempty)
  qed simp
  note body = this
  show ?thesis
    unfolding read_writer_lock_snapshot_def
    apply (rule protocol_rules(3), rule protocol_lock_path [OF steady_guarding assms])
      apply (simp add: guarding_def)
     apply (rule protocol_rules(3), erule protocol_reads [OF reads_object_key steady_guarding])
      apply (erule body)
     apply simp_all
    done
qed

lemma reads_liveness [reads_intros]:
  "reads a \<Longrightarrow> reads b \<Longrightarrow> reads c \<Longrightarrow> reads (case l of Alive \<Rightarrow> a | Dead \<Rightarrow> b | Unknown \<Rightarrow> c)"
  by (cases l) simp_all

lemma reads_decision [reads_intros]: "reads (build_recovery_decision L r q rcd identity)"
  unfolding build_recovery_decision_def owner_observation_def by (intro reads_intros)

lemma reads_checks [reads_intros]:
  "reads (samefile a b)" "reads (check_tombstone a b k m)" "reads (confirm_tombstone L a b k c v)"
  "reads (confirm_recovered L a b k v)"
proof -
  show s: "reads (samefile a b)" for a b unfolding samefile_def by (intro reads_intros)
  then show "reads (check_tombstone a b k m)"
    unfolding check_tombstone_def os_to_evidence_def by (intro reads_intros s)
  show "reads (confirm_tombstone L a b k c v)" "reads (confirm_recovered L a b k v)"
    unfolding confirm_tombstone_def confirm_recovered_def by (intro reads_intros)+
qed

lemma tombstone_elsewhere: "recovery_tombstone_path (lock_path run d) v \<noteq> lock_path run d"
proof
  assume "recovery_tombstone_path (lock_path run d) v = lock_path run d"
  then have "str_of (fld (dict_of v) ''sha256'') @ RECOVERED_WRITER_LOCK_SUFFIX = last run @ WRITER_LOCK_SUFFIX"
    by (simp add: recovery_tombstone_path_def lock_path_def lock_name_def)
  moreover have l: "length RECOVERED_WRITER_LOCK_SUFFIX = 40" "length WRITER_LOCK_SUFFIX = 30"
    by (simp_all add: RECOVERED_WRITER_LOCK_SUFFIX_def WRITER_LOCK_SUFFIX_def)
  moreover have "us @ RECOVERED_WRITER_LOCK_SUFFIX \<noteq> WRITER_LOCK_SUFFIX" for us
  proof
    assume "us @ RECOVERED_WRITER_LOCK_SUFFIX = WRITER_LOCK_SUFFIX"
    from arg_cong [OF this, of length] l show False by simp
  qed
  ultimately obtain us where us: "RECOVERED_WRITER_LOCK_SUFFIX = us @ WRITER_LOCK_SUFFIX"
    unfolding append_eq_append_conv2 by blast
  from arg_cong [OF us, of length] l have "length us = 10" by simp
  with us have "drop 10 RECOVERED_WRITER_LOCK_SUFFIX = WRITER_LOCK_SUFFIX" by (metis append_eq_conv_conj)
  then show False by (simp add: RECOVERED_WRITER_LOCK_SUFFIX_def WRITER_LOCK_SUFFIX_def lit_def)
qed

lemma tombstone_home: "anchored run d s \<Longrightarrow> home (recovery_tombstone_path (lock_path run d) v) s"
  by (auto simp: anchored_def home_def recovery_tombstone_path_def lock_path_def dotdot_def
      RECOVERED_WRITER_LOCK_SUFFIX_def lit_def)

lemma protocol_link:
  assumes "anchored run d s \<and> lock_held me (lock_path run d) i b s"
  shows "protocol me (lock_path run d)
    (link_tombstone (lock_path run d) (recovery_tombstone_path (lock_path run d) v) m)
    (\<lambda>_. lock_held me (lock_path run d) i b) (\<lambda>_ _. True) s"
proof -
  let ?p = "lock_path run d" and ?t = "recovery_tombstone_path (lock_path run d) v"
  have "protocol me ?p (sys (fs_link ?p ?t)) (\<lambda>_. lock_held me ?p i b) (\<lambda>_. lock_held me ?p i b) s"
    unfolding protocol_def
  proof (rule rg_sys)
    fix s1 assume "others me ?p s s1"
    then have s1: "anchored run d s1" "lock_held me ?p i b s1"
      using steadyD [OF steady_conj [OF steady_anchored steady_held] assms] by auto
    then show "fair me ?p s1 s1 \<and> lock_held me ?p i b s1" by simp
    have "home ?p s1" using s1(2) by (simp add: lock_held_def)
    note f = link_fair [OF this tombstone_home [OF s1(1)] tombstone_elsewhere, of v]
    show "fair me ?p s1 s2 \<and> lock_held me ?p i b s2" if "fs_link ?p ?t s1 = (Inr x, s2)" for x s2
      using f [OF that] s1(2) by (auto simp: lock_held_def)
    show "fair me ?p s1 s2 \<and> lock_held me ?p i b s2" if "fs_link ?p ?t s1 = (Inl e, s2)" for e s2
      using f [OF that] s1(2) by (auto simp: lock_held_def)
  qed
  then show ?thesis
    unfolding link_tombstone_def
    by (intro protocol_rules(4,7)) (auto simp del: io_simps elim!: protocol_mono intro!: protocol_rules)
qed

lemma protocol_recover_guarded:
  assumes "guarding me run d (snd (kg_object_key g)) s"
  shows "protocol me (lock_path run d) (recover_guarded L (d @ [last run]) g expected) (\<lambda>_ _. True) (\<lambda>_ _. True) s"
proof -
  let ?p = "lock_path run d" and ?i = "snd (kg_object_key g)"
  have tail: "protocol me ?p (iob (confirm_tombstone L ?p t k b v) (\<lambda>_. iob (unlink_lock ?p) (\<lambda>_.
       iob (confirm_recovered L ?p t k v) (\<lambda>f. ret (r f))))) (\<lambda>_ _. True) (\<lambda>_ _. True) s"
    if h: "lock_held me ?p ?i b s" for t k b v r s
    by (intro protocol_rules(3) protocol_reads [OF reads_checks(3) steady_held h] protocol_mono [OF protocol_unlink_lock]
        protocol_idle reads_checks(4))
      (auto simp del: io_simps intro!: protocol_rules protocol_idle reads_intros)
  have link: "protocol me ?p (if found then check_tombstone ?p t k m else link_tombstone ?p t m)
      (\<lambda>_. lock_held me ?p ?i b) (\<lambda>_ _. True) s"
    if "anchored run d s \<and> lock_held me ?p ?i b s" "t = recovery_tombstone_path ?p v" for found t k m b v s
    unfolding that(2) using that(1)
    by (intro protocol_rules(7) protocol_link protocol_reads [OF reads_checks(2) steady_held]) auto
  show ?thesis
    unfolding recover_guarded_def
  proof (rule protocol_rules(3), rule protocol_mono [OF protocol_snapshot [OF assms]])
    fix x :: "path \<times> pydict \<times> pyval \<times> bytes \<times> object_key" and s
    assume x: "(case x of (q, rcd, identity, payload, key) \<Rightarrow> \<lambda>s. q = ?p
      \<and> (snd key = ?i \<longrightarrow> anchored run d s \<and> lock_held me ?p ?i payload s)) s"
    obtain q rcd identity payload key where xs: "x = (q, rcd, identity, payload, key)" by (cases x)
    with x have q: "q = ?p" by simp
    note sc = steady_conj [OF steady_anchored steady_held]
    show "protocol me ?p (case x of (p, rcd, identity, payload, key) \<Rightarrow>
       if kg_object_key g \<noteq> key then raise EvidenceError
       else iob (build_recovery_decision L (d @ [last run]) p rcd identity) (\<lambda>current_decision.
       if ld_sha256 current_decision \<noteq> expected then raise EvidenceError
       else if ld_action current_decision \<noteq> Recover_Orphan then raise EvidenceError
       else let tombstone = recovery_tombstone_path p identity in
       iob (look (fs_lstat p)) (\<lambda>source_metadata.
       if (st_dev source_metadata, st_ino source_metadata) \<noteq> key then raise EvidenceError
       else iob (path_lexists tombstone) (\<lambda>found.
       iob (if found then check_tombstone p tombstone key source_metadata
            else link_tombstone p tombstone source_metadata) (\<lambda>_.
       iob (confirm_tombstone L p tombstone key payload identity) (\<lambda>_.
       iob (unlink_lock p) (\<lambda>_.
       iob (confirm_recovered L p tombstone key identity) (\<lambda>final_identity.
       ret (recovery_result (d @ [last run]) expected (ld_reason current_decision) identity tombstone final_identity)))))))))
      (\<lambda>_ _. True) (\<lambda>_ _. True) s"
    proof (cases "kg_object_key g = key")
      case True
      with x xs have h: "anchored run d s \<and> lock_held me ?p ?i payload s" by simp
      show ?thesis
        unfolding xs prod.case q Let_def
        by (rule protocol_rules(7), rule protocol_rules(2), rule TrueI,
            intro protocol_rules(3,7) protocol_reads [OF reads_decision sc h] protocol_look [OF sc]
            protocol_reads [OF reads_storage(1) sc] protocol_mono [OF link] tail)
          (auto simp del: io_simps intro!: protocol_rules(2))
    next
      case False
      then show ?thesis unfolding xs prod.case by (auto simp del: io_simps intro!: protocol_rules(2))
    qed
  qed simp
qed

lemma reads_inspect [reads_intros]: "reads (inspect_writer_lock L run)"
  unfolding inspect_writer_lock_def read_writer_lock_snapshot_def writer_lock_path_def normalized_run_path_def
  by (intro reads_intros)

lemma steady_bounded: "steady (others me p) (\<lambda>s. anchored run d s \<and> i < fs_next s)"
  unfolding steady_def
proof (intro allI impI)
  fix s s' assume a: "anchored run d s \<and> i < fs_next s" and o: "others me p s s'"
  then have "wf_fs s" by (simp add: anchored_def)
  from othersD(3) [OF o this] a steadyD [OF steady_anchored _ o] show "anchored run d s' \<and> i < fs_next s'"
    by auto
qed

lemma protocol_open_readwrite:
  assumes "anchored run d s"
  shows "protocol me p (open_writer_lock_readwrite (lock_path run d))
    (\<lambda>(i, k) s. snd k = i \<and> anchored run d s \<and> i < fs_next s) (\<lambda>_ _. True) s"
proof -
  have o: "anchored run d s \<and> i < fs_next s"
    if "anchored run d s" "fs_open_nofollow (lock_path run d) s = Inr i" for s i
    using that anchored_home [OF that(1)] entry_below [of s "lock_path run d" i]
    by (auto simp: fs_open_nofollow_def home_locate home_def split: option.splits if_splits)
  show ?thesis
    unfolding open_writer_lock_readwrite_def
    by (intro protocol_rules(3,5,7) protocol_reads [OF reads_object_key steady_anchored assms]
        protocol_look [OF steady_anchored] protocol_look [OF steady_bounded o] protocol_unflock_any)
      (auto simp: stat_ino_def simp del: io_simps intro!: protocol_rules)
qed

lemma protocol_recovery_guard:
  assumes "anchored run d s"
  shows "protocol me (lock_path run d) (acquire_recovery_guard (lock_path run d))
    (\<lambda>g s. \<forall>x. g = Some x \<longrightarrow> guarding me run d (snd (kg_object_key x)) s) (\<lambda>_ _. True) s"
    (is "protocol me ?p _ ?Q ?X s")
  unfolding acquire_recovery_guard_def
proof (rule protocol_rules(3), rule protocol_mono [OF protocol_open_readwrite [OF assms]])
  fix x :: "ino \<times> object_key" and s
  assume "(case x of (i, k) \<Rightarrow> \<lambda>s. snd k = i \<and> anchored run d s \<and> i < fs_next s) s"
  then obtain i k where x: "x = (i, k)" "snd k = i" "anchored run d s \<and> i < fs_next s" by (cases x) auto
  have "anchored run d (s\<lparr>fs_locks := l\<rparr>) \<longleftrightarrow> anchored run d s" for s l
  proof -
    have "walk (s\<lparr>fs_locks := l\<rparr>) n f a q = walk s n f a q" for n f a q
      by (induction s n f a q rule: walk.induct) (auto split: option.splits node.splits nat.splits)
    then show ?thesis by (simp add: anchored_def locate_def)
  qed
  with x(2) show "protocol me ?p (case x of (descriptor, key) \<Rightarrow>
      iob (try_posix_flock descriptor) (\<lambda>got. if \<not> got then iob (unflock descriptor) (\<lambda>_. ret None)
        else ret (Some \<lparr>kg_value = descriptor, kg_object_key = key\<rparr>))) ?Q ?X s"
    unfolding x(1) prod.case
    by (intro protocol_rules(3) protocol_flock [OF steady_bounded x(3)])
      (auto simp: guarding_def locked_def simp del: io_simps intro!: protocol_rules protocol_unflock_any)
qed simp

lemma protocol_recover:
  assumes "anchored run d s"
  shows "protocol me (lock_path run d) (recover_writer_lock L run expected) (\<lambda>_ _. True) (\<lambda>_ _. True) s"
proof -
  let ?p = "lock_path run d"
  have guarded: "protocol me ?p (iob (acquire_recovery_guard ?p) (\<lambda>guard. case guard of
        None \<Rightarrow> raise EvidenceError
      | Some g \<Rightarrow> finally_do (recover_guarded L (d @ [last run]) g expected) (release_posix_flock (kg_value g))))
      (\<lambda>_ _. True) (\<lambda>_ _. True) s" if "anchored run d s" for s
  proof (rule protocol_rules(3), rule protocol_mono [OF protocol_recovery_guard [OF that]])
    fix x :: "kernel_guard option" and s assume x: "\<forall>g. x = Some g \<longrightarrow> guarding me run d (snd (kg_object_key g)) s"
    show "protocol me ?p (case x of None \<Rightarrow> raise EvidenceError
      | Some g \<Rightarrow> finally_do (recover_guarded L (d @ [last run]) g expected) (release_posix_flock (kg_value g)))
      (\<lambda>_ _. True) (\<lambda>_ _. True) s"
      using x by (intro protocol_rules(9,6) protocol_mono [OF protocol_recover_guarded])
        (auto simp del: io_simps intro!: protocol_rules protocol_release_flock)
  qed simp
  show ?thesis
    unfolding recover_writer_lock_def
    by (intro protocol_rules(3,7) protocol_run_path [OF assms]
        protocol_reads [OF reads_inspect steady_anchored] protocol_lock_path [OF steady_anchored] guarded)
      (auto simp del: io_simps intro!: protocol_rules)
qed

end
