(* ===== verification/Lock_Recovery.thy ===== *)
theory Lock_Recovery
  imports Lock_Protocol
begin

text \<open>
  The writer lock without interference: acquisition succeeds when nobody holds the lock, release
  removes exactly what was acquired, the record written is the record read, and recovery keeps
  the bytes of the lock it removes, wherever it is interrupted.
\<close>

section \<open>Acquisition succeeds\<close>

lemma runs_getpid [runs_intros]: "(\<And>n. Q n s) \<Longrightarrow> runs U getpid Q s"
  by (simp add: runs_def getpid_def)

lemma quiet_ask:
  assumes "quiet U w"
  shows "\<exists>w'. quiet U w' \<and> w_fs w' = w_fs w \<and> w_os w' = w_os w \<and>
    ask f w = (case f (w_os w) (Suc (w_tick w)) of Inl e \<Rightarrow> Exc e | Inr x \<Rightarrow> Ret x, w')"
  using assms by (auto simp: ask_def look_def sys_def sys_torn_def Let_def iob_def quiet_def calm_def
      from_result_def split: sum.splits)

lemma runs_ask:
  assumes "\<And>v t. sane_os v \<Longrightarrow> \<exists>x. f v t = Inr x \<and> Q x s"
  shows "runs U (ask f) Q s"
  unfolding runs_def
proof (intro allI impI)
  fix w assume w: "quiet U w" "w_fs w = s"
  then have "sane_os (w_os w)" by (simp add: quiet_def)
  from assms [OF this] obtain x where "f (w_os w) (Suc (w_tick w)) = Inr x" "Q x s" by blast
  with quiet_ask [OF w(1), of f] w(2) show "\<exists>x w'. ask f w = (Ret x, w') \<and> quiet U w' \<and> Q x (w_fs w')" by auto
qed

lemma split_ws_chars: "f \<in> set (split_ws word s) \<Longrightarrow> set f \<subseteq> set word \<union> set s"
  by (induction word s rule: split_ws.induct) (auto split: if_splits)

lemma start_token_ascii:
  assumes "start_token_of b t = Some x" "ascii b" "ascii t"
  shows "ascii x"
proof -
  obtain fs where fs: "fields_after_comm t = Some fs" "length fs > 19" "x = lit ''linux:'' @ b @ lit '':'' @ fs ! 19"
    using assms(1) by (auto simp: start_token_of_def split: option.splits if_splits)
  then obtain n where "fs = split_ws [] (drop n t)" by (auto simp: fields_after_comm_def str_split_def)
  then have "set (fs ! 19) \<subseteq> set t" using split_ws_chars [of "fs ! 19" "[]" "drop n t"] fs(2) set_drop_subset by fastforce
  with assms(2,3) show ?thesis by (auto simp: fs(3) ascii_def lit_def)
qed

lemma ascii_strip: "ascii s \<Longrightarrow> ascii (str_strip s)"
  unfolding ascii_def str_strip_def by (auto dest!: set_dropWhileD)

lemma runs_linux_token:
  assumes "\<And>t. (\<And>x. t = Some x \<Longrightarrow> ascii x) \<Longrightarrow> Q t s"
  shows "runs U (linux_process_start_token n) Q s"
  unfolding runs_def
proof (intro allI impI)
  fix w assume w: "quiet U w" "w_fs w = s"
  have h: "is_os_error e \<or> is_unicode_error e" if "os_text v t p = Inl e" "sane_os v" for e v t p
    using that by (auto simp: sane_os_def is_unicode_error_def)
  have sane: "sane_os (w_os w)" using w(1) by (simp add: quiet_def)
  obtain w1 where w1: "quiet U w1" "w_fs w1 = s" "w_os w1 = w_os w"
    "read_proc boot_id_path w = (case os_text (w_os w) (Suc (w_tick w)) boot_id_path of Inl e \<Rightarrow> Exc e | Inr x \<Rightarrow> Ret x, w1)"
    using quiet_ask [OF w(1), of "\<lambda>v t. os_text v t boot_id_path"] w(2) by (auto simp: read_proc_def)
  obtain w2 where w2: "quiet U w2" "w_fs w2 = s" "w_os w2 = w_os w"
    "read_proc (stat_path (dec n)) w1
      = (case os_text (w_os w) (Suc (w_tick w1)) (stat_path (dec n)) of Inl e \<Rightarrow> Exc e | Inr x \<Rightarrow> Ret x, w2)"
    using quiet_ask [OF w1(1), of "\<lambda>v t. os_text v t (stat_path (dec n))"] w1(2,3) by (auto simp: read_proc_def)
  have none: "Q None s" by (rule assms) simp
  show "\<exists>x w'. linux_process_start_token n w = (Ret x, w') \<and> quiet U w' \<and> Q x (w_fs w')"
  proof (cases "os_text (w_os w) (Suc (w_tick w)) boot_id_path")
    case (Inl e)
    with w1 h [OF Inl sane] none show ?thesis by (simp add: linux_process_start_token_def handle_def iob_def)
  next
    case boot: (Inr b)
    show ?thesis
    proof (cases "os_text (w_os w) (Suc (w_tick w1)) (stat_path (dec n))")
      case (Inl e)
      with w1 w2 boot h [OF Inl sane] none show ?thesis by (simp add: linux_process_start_token_def handle_def iob_def)
    next
      case (Inr t)
      have "ascii b" "ascii t" using sane boot Inr unfolding sane_os_def ascii_def by blast+
      then have "Q (start_token_of (str_strip b) t) s"
        by (intro assms) (auto intro: start_token_ascii ascii_strip)
      with w1 w2 boot Inr show ?thesis by (simp add: linux_process_start_token_def handle_def iob_def)
    qed
  qed
qed

lemma runs_start_token [runs_intros]:
  assumes "\<And>t. (\<And>x. t = Some x \<Longrightarrow> ascii x) \<Longrightarrow> Q t s"
  shows "runs U (process_start_token v) Q s"
  unfolding process_start_token_def proc_mounted_def
  by (auto split: option.splits simp del: io_simps intro!: runs_intros runs_ask runs_linux_token assms)

lemma fs_set_twice [simp]: "fs_set i c (fs_set i b s) = fs_set i c s"
  by (simp add: fs_set_def)

lemma fs_set_same: "fs_nodes s i = Reg b \<Longrightarrow> fs_set i b s = s"
  by (simp add: fs_set_def fun_upd_idem)

lemma fs_nodes_set [simp]: "fs_nodes (fs_set i b s) i = Reg b"
  by (simp add: fs_set_def)

lemma fs_dev_set [simp]: "fs_dev (fs_set i b s) = fs_dev s"
  by (simp add: fs_set_def)

lemma runs_any: "(\<And>v t. sane_os v \<Longrightarrow> runs U (m (g v t)) Q s) \<Longrightarrow> runs U (\<lambda>w. m (g (w_os w) (w_tick w)) w) Q s"
  unfolding runs_def quiet_def by blast

lemma runs_write_all:
  assumes "fs_nodes s i = Reg b" "Q () (fs_set i (b @ view) s)"
  shows "runs U (write_all i (length b) view) Q s"
  using assms
proof (induction i "length b" view arbitrary: b s rule: write_all.induct)
  case (1 i)
  then show ?case by (simp add: fs_set_same runs_ret del: io_simps)
next
  case (2 i c view)
  let ?v = "c # view"
  have r: "runs U (if n = 0 then raise OSError else write_all i (length b + n) (drop n ?v)) Q
      (fs_write_at i (length b) (take n ?v) s)" if "0 < n" "n \<le> length ?v" for n
  proof -
    have l: "length (b @ take n ?v) = length b + n" using that by simp
    have s: "fs_write_at i (length b) (take n ?v) s = fs_set i (b @ take n ?v) s"
      using 2(2) by (rule fs_write_at_end)
    from 2(1) [of n "b @ take n ?v" "fs_set i (b @ take n ?v) s"] 2(3) l that show ?thesis
      unfolding s by (simp del: take_Suc_Cons drop_Suc_Cons)
  qed
  show ?case
    unfolding write_all.simps Let_def
  proof (rule runs_iob)
    let ?f = "\<lambda>n. sys_torn (\<lambda>s. (Inr (min n (length ?v)), fs_write_at i (length b) (take (min n (length ?v)) ?v) s))
       (\<lambda>m s. fs_write_at i (length b) (take (min m (min n (length ?v))) ?v) s)"
    show "runs U (\<lambda>w. ?f (os_chunk (w_os w) (w_tick w)) w) (\<lambda>written. runs U
        (if written = 0 then raise OSError else write_all i (length b + written) (drop written ?v)) Q) s"
    proof (rule runs_any [where m = ?f and g = os_chunk])
      fix v t assume "sane_os v"
      then have "0 < os_chunk v t" by (simp add: sane_os_def)
      then show "runs U (?f (os_chunk v t)) (\<lambda>written. runs U
        (if written = 0 then raise OSError else write_all i (length b + written) (drop written ?v)) Q) s"
        by (intro runs_sys_torn [OF refl] r) simp_all
    qed
  qed
qed

lemma runs_sync_directory [runs_intros]:
  assumes "dir_at s d" "Q () s"
  shows "runs U (sync_directory d) Q s"
proof -
  obtain j where "entry s d = Some j" using assms(1) by (auto simp: dir_at_def node_at_entry)
  then have "fs_stat d s = Inr (stat_ino s j)" using dir_at_locate [OF assms(1)] by (simp add: fs_stat_def)
  with assms(2) show ?thesis
    unfolding sync_directory_def os_failed_def
    by (intro runs_intros) (auto simp del: io_simps intro!: runs_intros)
qed

lemma runs_object_key:
  assumes "dir_at s d" "c \<noteq> dotdot" "entry s (d @ [c]) = Some i" "fs_nodes s i = Reg b" "Q (fs_dev s i, i) s"
  shows "runs U (regular_object_key (d @ [c])) Q s"
proof -
  have "fs_lstat (d @ [c]) s = Inr (stat_ino s i)"
    using file_at_locate [OF assms(1,2)] assms(3) by (simp add: fs_lstat_def)
  with assms(4,5) show ?thesis
    unfolding regular_object_key_def
    by (intro runs_intros) (auto simp: stat_ino_def is_lnk_def is_reg_def simp del: io_simps intro!: runs_intros)
qed

lemma runs_normalized_run_path:
  assumes "dir_at s d" "Q (d @ [n]) s"
  shows "runs U (normalized_run_path (d @ [n])) Q s"
  using assms by (auto simp: normalized_run_path_def simp del: io_simps intro!: runs_intros)

lemma runs_writer_lock_path:
  assumes "dir_at s d" "Q (d @ [lock_name n]) s"
  shows "runs U (writer_lock_path (d @ [n])) Q s"
  unfolding writer_lock_path_def
  by (rule runs_iob, rule runs_normalized_run_path [OF assms(1)]) (use assms(2) in \<open>simp add: runs_ret del: io_simps\<close>)

text \<open>What acquisition leaves: one new file, with the canonical bytes of the owner record.\<close>

definition acquired :: "pylib \<Rightarrow> fs \<Rightarrow> path \<Rightarrow> path \<Rightarrow> writer_lock \<Rightarrow> fs \<Rightarrow> bool" where
  "acquired L s0 run p l s \<longleftrightarrow>
     (\<exists>process token nonce payload.
        wl_record l = owner_record_of run process token nonce
        \<and> canonical_json_bytes L (PDict (wl_record l)) = Inr payload
        \<and> wl_path l = p \<and> wl_identity l = identity_of L payload
        \<and> wl_object_key l = (fs_dev s (fs_next s0), fs_next s0)
        \<and> wl_guard l = Some \<lparr>kg_value = fs_next s0, kg_object_key = wl_object_key l\<rparr> \<and> \<not> wl_released l
        \<and> published s0 p payload s \<and> entry s p = Some (fs_next s0) \<and> fs_nodes s (fs_next s0) = Reg payload)"

lemma owner_record_bytes:
  assumes "encodable (path_text run)" "ascii nonce" "\<And>x. token = Some x \<Longrightarrow> ascii x"
  obtains b where "canonical_json_bytes L (PDict (owner_record_of run process token nonce)) = Inr b"
proof -
  have "encodable_val (token_val token)"
    using assms(3) by (cases token) (auto simp: token_val_def ascii_encodable)
  moreover have "ascii (lit k)" if "list_all (\<lambda>c. of_char c < (128 :: nat)) k" for k
    using that by (auto simp: ascii_def lit_def list_all_iff)
  then have "encodable (lit k)" if "list_all (\<lambda>c. of_char c < (128 :: nat)) k" for k
    using that ascii_encodable by blast
  ultimately have "encodable_val (PDict (owner_record_of run process token nonce))"
    using assms(1) ascii_encodable [OF assms(2)] by (simp add: owner_record_of_def)
  with that show thesis using encodable_writable by blast
qed

lemma published_dir:
  "published s0 p b s \<Longrightarrow> dir_at s0 d \<Longrightarrow> d \<noteq> p \<Longrightarrow> dir_at s d"
  by (simp add: published_def dir_at_def)

lemma runs_create_lock_file:
  assumes "home p s0" "entry s0 p = None"
    and Q: "\<And>s1. (\<forall>q. entry s1 q = (if q = p then Some (fs_next s0) else entry s0 q)) \<Longrightarrow> published s0 p [] s1 \<Longrightarrow>
      fs_locks s1 = fs_locks s0 \<Longrightarrow> fs_nodes s1 (fs_next s0) = Reg [] \<Longrightarrow>
      Q (fs_next s0, fs_dev s1 (fs_next s0), fs_next s0) s1"
  shows "runs U (create_lock_file p) Q s0"
  unfolding create_lock_file_def
proof (rule runs_iob, rule runs_getpid)
  fix me
  obtain s1 where s1: "fs_create_by me p s0 = (Inr (fs_next s0), s1)"
    "\<forall>q. entry s1 q = (if q = p then Some (fs_next s0) else entry s0 q)"
    "published s0 p [] s1" "fs_locks s1 = fs_locks s0" "fs_nodes s1 (fs_next s0) = Reg []"
    using create_by_absent [OF assms(1,2), of me] by blast
  show "runs U (iob (os_to_evidence (sys (fs_create_by me p))) (\<lambda>descriptor.
     iob (on_exception (os_to_evidence (look (\<lambda>s. Inr (stat_ino s descriptor)))) (unflock descriptor)) (\<lambda>opened.
     ret (descriptor, st_dev opened, st_ino opened)))) Q s0"
    unfolding os_to_evidence_def on_exception_def
    by (rule runs_iob, rule runs_reraise, rule runs_sys, rule s1(1), rule runs_iob, rule runs_handle,
        rule runs_reraise, rule runs_look, rule refl, rule runs_ret)
      (use Q [OF s1(2-)] in \<open>simp add: stat_ino_def\<close>)
qed

lemma runs_lock_created:
  assumes "fs_locks s i = None" "\<And>me. Q () (s\<lparr>fs_locks := (fs_locks s)(i := Some me)\<rparr>)"
  shows "runs U (lock_created p i k) Q s"
  unfolding lock_created_def on_exception_def try_posix_flock_def
proof (intro runs_handle, intro runs_iob runs_getpid runs_handle)
  fix me
  show "runs U (sys (fs_flock me i)) (\<lambda>got. runs U (if got then ret () else raise EvidenceError) Q) s"
    by (rule runs_sys) (use assms in \<open>auto simp: fs_flock_def simp del: io_simps intro!: runs_intros\<close>)
qed

lemma locate_simps [simp]: "locate (s\<lparr>fs_locks := l\<rparr>) f q = locate s f q"
proof -
  have "walk (s\<lparr>fs_locks := l\<rparr>) n f a q = walk s n f a q" for n f a q
    by (induction s n f a q rule: walk.induct) (auto split: option.splits node.splits nat.splits)
  then show ?thesis by (simp add: locate_def)
qed

lemma runs_acquire:
  assumes d: "dir_at s0 d" and free: "entry s0 (lock_path (d @ [n]) d) = None" "fs_locks s0 (fs_next s0) = None"
    and enc: "encodable (path_text (d @ [n]))" and U: "\<And>u. u \<in> U \<Longrightarrow> ascii u"
    and Q: "\<And>l s. acquired L s0 (d @ [n]) (lock_path (d @ [n]) d) l s \<Longrightarrow> Q l s"
  shows "runs U (acquire L (d @ [n])) Q s0"
proof -
  let ?run = "d @ [n]" and ?c = "lock_name n" and ?i = "fs_next s0"
  let ?p = "d @ [?c]"
  have p: "lock_path ?run d = ?p" by (simp add: lock_path_def)
  have h: "home ?p s0" using d lock_name_not_dotdot by (simp add: home_def dir_at_def)
  have publish: "runs U (publish_lock L ?p ?i (fs_dev s1 ?i, ?i) rcd payload) Q (s1\<lparr>fs_locks := lk\<rparr>)"
    if rcd: "rcd = owner_record_of ?run process token nonce" "canonical_json_bytes L (PDict rcd) = Inr payload"
      and s1: "\<forall>q. entry s1 q = (if q = ?p then Some ?i else entry s0 q)" "published s0 ?p [] s1" "fs_nodes s1 ?i = Reg []"
    for rcd payload process token nonce s1 lk
  proof -
    let ?s = "fs_set ?i payload (s1\<lparr>fs_locks := lk\<rparr>)"
    have "entry s0 q \<noteq> Some ?i" for q using d entry_below [of s0 q ?i] by (auto simp: dir_at_def)
    then have n: "node_at ?s q = (if q = ?p then Some (Reg payload) else node_at s0 q)" for q
      unfolding node_at_set_reg using s1 by (auto simp: published_def)
    moreover have "wf_fs ?s"
      using s1(2,3) wf_fs_set_reg [of "s1\<lparr>fs_locks := lk\<rparr>" ?i payload]
      by (auto simp: published_def regular_ino_def is_reg_def)
    ultimately have pub: "published s0 ?p payload ?s" by (simp add: published_def)
    have e: "entry ?s ?p = Some ?i" "fs_dev ?s = fs_dev s1" using s1(1) by (simp_all add: fs_set_def entry_def)
    have fin: "Q \<lparr>wl_path = ?p, wl_record = rcd, wl_identity = identity_of L payload, wl_object_key = (fs_dev s1 ?i, ?i),
        wl_guard = Some \<lparr>kg_value = ?i, kg_object_key = (fs_dev s1 ?i, ?i)\<rparr>, wl_released = False\<rparr> ?s"
      by (rule Q, unfold acquired_def p, rule exI [of _ process], rule exI [of _ token], rule exI [of _ nonce],
          rule exI [of _ payload]) (use rcd pub e in simp)
    have dir: "dir_at ?s d" using published_dir [OF pub d] by simp
    have "runs U (file_identity L ?p) (\<lambda>identity. runs U (if \<not> identities_match identity (identity_of L payload)
        then raise EvidenceError else ret \<lparr>wl_path = ?p, wl_record = rcd, wl_identity = identity,
          wl_object_key = (fs_dev s1 ?i, ?i),
          wl_guard = Some \<lparr>kg_value = ?i, kg_object_key = (fs_dev s1 ?i, ?i)\<rparr>, wl_released = False\<rparr>) Q) ?s"
      using n fin by (intro runs_file_identity [OF dir lock_name_not_dotdot]) (auto simp del: io_simps intro!: runs_ret)
    then show ?thesis
      unfolding publish_lock_def butlast_snoc
      by (intro runs_iob runs_write_all [where b = "[]", simplified] runs_look runs_sync_directory [OF dir]
          runs_object_key [OF dir lock_name_not_dotdot e(1) fs_nodes_set])
        (auto simp: s1(3) e(2) simp del: io_simps cong: if_cong intro!: runs_iob)
  qed
  have "runs U (iob (create_lock_file ?p) (\<lambda>(i, k). iob (lock_created ?p i k) (\<lambda>_.
      on_exception (publish_lock L ?p i k rcd payload)
        (iob (unlink_created ?p k) (\<lambda>_. release_posix_flock i))))) Q s0"
    if rcd: "rcd = owner_record_of ?run process token nonce" "canonical_json_bytes L (PDict rcd) = Inr payload"
    for rcd payload process token nonce
    unfolding on_exception_def
    by (intro runs_iob runs_create_lock_file [OF h free(1) [unfolded p]], unfold prod.case,
        intro runs_iob runs_lock_created runs_handle publish [OF rcd])
      (use free(2) in auto)
  note create = this
  have "runs U (iob (from_result (canonical_json_bytes L (PDict (owner_record_of ?run process token nonce)))) (\<lambda>payload.
      iob (create_lock_file ?p) (\<lambda>(i, k). iob (lock_created ?p i k) (\<lambda>_.
      on_exception (publish_lock L ?p i k (owner_record_of ?run process token nonce) payload)
        (iob (unlink_created ?p k) (\<lambda>_. release_posix_flock i)))))) Q s0"
    if "ascii nonce" "\<And>x. token = Some x \<Longrightarrow> ascii x" for process token nonce
  proof (rule owner_record_bytes [OF enc that])
    fix b assume b: "canonical_json_bytes L (PDict (owner_record_of ?run process token nonce)) = Inr b"
    show ?thesis by (rule runs_iob, rule runs_from_result [OF b], rule create [OF refl b])
  qed
  note main = this
  show ?thesis
    unfolding acquire_def owner_record_def
    by (rule runs_iob, rule runs_normalized_run_path [OF d], rule runs_iob, rule runs_writer_lock_path [OF d],
        rule runs_iob, rule runs_iob, rule runs_getpid, rule runs_iob, rule runs_start_token,
        rule runs_iob, rule runs_uuid4, rule runs_ret, rule main)
      (use U in auto)
qed

section \<open>Release\<close>

lemma runs_unlink_lock:
  assumes "dir_at s d" "c \<noteq> dotdot" "node_at s (d @ [c]) = Some (Reg b)"
    and "Q () (s\<lparr>fs_names := AList.delete (d @ [c]) (fs_names s)\<rparr>)"
  shows "runs U (unlink_lock (d @ [c])) Q s"
proof -
  let ?s = "s\<lparr>fs_names := AList.delete (d @ [c]) (fs_names s)\<rparr>"
  have u: "fs_unlink (d @ [c]) s = (Inr (), ?s)"
    using file_at_locate [OF assms(1,2)] assms(3) by (simp add: fs_unlink_def)
  have "wf_fs ?s" using assms(1,3) by (intro wf_fs_unlink) (auto simp: dir_at_def)
  then have "dir_at ?s d" using assms(1) by (simp add: dir_at_def node_at_unlink)
  note dd = this
  show ?thesis
    unfolding unlink_lock_def os_to_evidence_def butlast_snoc
    by (rule runs_reraise, rule runs_iob, rule runs_sys, rule u,
        rule runs_sync_directory [where Q = Q, OF dd assms(4)])
qed

lemma runs_unflock: "Q () s \<Longrightarrow> (\<And>l. Q () (s\<lparr>fs_locks := l\<rparr>)) \<Longrightarrow> runs U (unflock i) Q s"
  unfolding unflock_def
  by (rule runs_iob, rule runs_getpid, rule runs_sys, rule refl) (auto simp: fs_unflock_def)

lemma runs_release_flock:
  assumes "Q () s" "\<And>l. Q () (s\<lparr>fs_locks := l\<rparr>)"
  shows "runs U (release_posix_flock i) Q s"
  unfolding release_posix_flock_def os_failed_def
  by (intro runs_iob runs_handle runs_unflock runs_ret) (auto simp: assms simp del: io_simps intro!: runs_ret)

lemma runs_release:
  assumes a: "acquired L s0 (d @ [n]) (d @ [lock_name n]) l s" and d: "dir_at s0 d"
    and Q: "\<And>s'. (\<forall>q. node_at s' q = (if q = d @ [lock_name n] then None else node_at s q)) \<Longrightarrow> Q () s'"
  shows "runs U (release_body L l) (\<lambda>_. runs U (release_posix_flock i) Q) s"
proof -
  let ?c = "lock_name n"
  obtain b where b: "wl_path l = d @ [?c]" "wl_identity l = identity_of L b" "wl_object_key l = (fs_dev s (fs_next s0), fs_next s0)"
    "published s0 (d @ [?c]) b s" "entry s (d @ [?c]) = Some (fs_next s0)" "fs_nodes s (fs_next s0) = Reg b"
    using a by (auto simp: acquired_def)
  have dir: "dir_at s d" using published_dir [OF b(4) d] by simp
  have nd: "node_at s (d @ [?c]) = Some (Reg b)" using b(4) by (simp add: published_def)
  have "runs U (unlink_lock (d @ [?c])) (\<lambda>_. runs U (release_posix_flock i) Q) s"
    by (rule runs_unlink_lock [OF dir lock_name_not_dotdot nd], rule runs_release_flock; rule Q)
      (simp_all add: node_at_unlink)
  then show ?thesis
    unfolding release_body_def b(1)
    by (intro runs_iob runs_object_key [OF dir lock_name_not_dotdot b(5,6)] runs_if
        runs_file_identity [OF dir lock_name_not_dotdot nd]) (auto simp: b(2,3))
qed

text \<open>C20: When nothing fails and nobody holds the lock, acquisition succeeds: it adds exactly one
  file, the lock file, with the canonical bytes of the owner record. Releasing the lock then
  succeeds and puts every name back to what it was.\<close>

theorem acquire_release_completes:
  assumes "quiet U w" "dir_at (w_fs w) d" "entry (w_fs w) (lock_path (d @ [n]) d) = None"
    and "fs_locks (w_fs w) (fs_next (w_fs w)) = None" "encodable (path_text (d @ [n]))" "\<forall>u \<in> U. ascii u"
  shows "\<exists>l w1. acquire L (d @ [n]) w = (Ret l, w1)
    \<and> acquired L (w_fs w) (d @ [n]) (lock_path (d @ [n]) d) l (w_fs w1)
    \<and> (\<exists>w2. release L l w1 = ((Ret (), w2), l\<lparr>wl_guard := None, wl_released := True\<rparr>)
        \<and> (\<forall>q. node_at (w_fs w2) q = node_at (w_fs w) q))"
proof -
  let ?p = "lock_path (d @ [n]) d"
  have "runs U (acquire L (d @ [n])) (acquired L (w_fs w) (d @ [n]) ?p) (w_fs w)"
    by (rule runs_acquire) (use assms in auto)
  from runsE [OF this assms(1)] obtain l w1 where a: "acquire L (d @ [n]) w = (Ret l, w1)" "quiet U w1"
    "acquired L (w_fs w) (d @ [n]) ?p l (w_fs w1)" .
  from a(3) obtain b where g: "\<not> wl_released l" "wl_guard l = Some \<lparr>kg_value = fs_next (w_fs w), kg_object_key = wl_object_key l\<rparr>"
    and pub: "published (w_fs w) ?p b (w_fs w1)" by (auto simp: acquired_def)
  have "runs U (release_body L l) (\<lambda>_. runs U (release_posix_flock (fs_next (w_fs w)))
      (\<lambda>_ s. \<forall>q. node_at s q = node_at (w_fs w) q)) (w_fs w1)"
    by (rule runs_release [OF a(3) [unfolded lock_path_def last_snoc] assms(2)])
      (use pub assms(3) in \<open>auto simp: published_def lock_path_def node_at_def\<close>)
  from runsE [OF this a(2)] obtain x w3 where r: "release_body L l w1 = (Ret x, w3)" "quiet U w3"
    "runs U (release_posix_flock (fs_next (w_fs w))) (\<lambda>_ s. \<forall>q. node_at s q = node_at (w_fs w) q) (w_fs w3)" .
  from runsE [OF r(3,2)] obtain y w2 where "release_posix_flock (fs_next (w_fs w)) w3 = (Ret y, w2)"
    "\<forall>q. node_at (w_fs w2) q = node_at (w_fs w) q" by metis
  then have "release L l w1 = ((Ret (), w2), l\<lparr>wl_guard := None, wl_released := True\<rparr>)"
    using g r(1) by (simp add: release_def finally_do_def)
  with a(1,3) \<open>\<forall>q. node_at (w_fs w2) q = node_at (w_fs w) q\<close> show ?thesis by blast
qed

theorem acquire_release_completes_witness:
  "\<exists>l w1 w2. acquire sample_lib [lit ''r'', lit ''run''] (sample_world (\<lambda>_. Run)) = (Ret l, w1)
    \<and> wl_path l = [lit ''r'', lock_name (lit ''run'')]
    \<and> release sample_lib l w1 = ((Ret (), w2), l\<lparr>wl_guard := None, wl_released := True\<rparr>)"
proof -
  let ?w = "sample_world (\<lambda>_. Run)" and ?d = "[lit ''r'']" and ?n = "lit ''run''"
  have "quiet {lit ''u''} ?w" "w_fs ?w = sample_fs" by (simp_all add: sample_world_simps)
  moreover have "dir_at sample_fs ?d" using sample_fs_wf by (simp add: dir_at_def) (simp add: sample_fs_def node_at_def entry_def)
  moreover have "entry sample_fs (lock_path (?d @ [?n]) ?d) = None"
    by (simp add: sample_fs_def entry_def lock_path_def lock_name_def WRITER_LOCK_SUFFIX_def lit_def)
  moreover have "encodable (path_text (?d @ [?n]))" "\<forall>u \<in> {lit ''u''}. ascii u"
    by (auto simp: encodable_def path_text_def lit_def ascii_def)
  moreover have "fs_locks sample_fs (fs_next sample_fs) = None" by (simp add: sample_fs_def)
  ultimately show ?thesis
    using acquire_release_completes [of "{lit ''u''}" ?w ?d ?n sample_lib]
    by (auto simp: acquired_def lock_path_def)
qed

section \<open>Mutual exclusion\<close>

lemma owner_lasts:
  assumes "(others me p)\<^sup>*\<^sup>* s s'" "lock_owner me p l s"
  shows "lock_owner me p l s'"
  using assms
proof (induction rule: rtranclp_induct)
  case (step s1 s2)
  then obtain b where "lock_held me p (snd (wl_object_key l)) b s1" by (auto simp: lock_owner_def)
  from steadyD [OF steady_held this step.hyps(2)] step show ?case by (auto simp: lock_owner_def)
qed

lemma owner_unique:
  "lock_owner me p l s \<Longrightarrow> lock_owner other p l' s \<Longrightarrow> other = me \<and> snd (wl_object_key l') = snd (wl_object_key l)"
  by (auto simp: lock_owner_def lock_held_def)

text \<open>C13: Mutual exclusion, beside any number of processes that keep to the protocol, with faults at
  any call. When a process has acquired the writer lock, it is the owner of the lock then and
  after whatever the others do, and no other process is an owner at the same time.\<close>

theorem writer_lock_exclusive:
  assumes "anchored run d (w_fs w)" "obeys (others (w_pid w) (lock_path run d)) w"
    and "acquire L run w = (Ret l, w')" "(others (w_pid w) (lock_path run d))\<^sup>*\<^sup>* (w_fs w') s"
  shows "lock_owner (w_pid w) (lock_path run d) l s
    \<and> (\<forall>other l'. lock_owner other (lock_path run d) l' s \<longrightarrow> other = w_pid w)"
proof -
  have "protocol (w_pid w) (lock_path run d) (acquire L run) (lock_owner (w_pid w) (lock_path run d)) (\<lambda>_ _. True) (w_fs w)"
    using assms(1) by (rule protocol_acquire)
  from rgE(2) [OF this [unfolded protocol_def] refl assms(2)] assms(3)
  have "lock_owner (w_pid w) (lock_path run d) l (w_fs w')" by simp
  from owner_lasts [OF assms(4) this] owner_unique show ?thesis by blast
qed

lemma sample_anchored: "anchored [lit ''r'', lit ''run''] [lit ''r''] sample_fs"
proof -
  have "dir_at sample_fs [lit ''r'']"
    using sample_fs_wf by (simp add: dir_at_def) (simp add: sample_fs_def node_at_def entry_def)
  with dir_at_locate [OF this, of True] show ?thesis by (simp add: anchored_def dir_at_def)
qed

lemma sample_acquire:
  "\<exists>l w1. acquire sample_lib [lit ''r'', lit ''run''] (sample_world (\<lambda>_. Run)) = (Ret l, w1) \<and> calm w1
    \<and> acquired sample_lib sample_fs [lit ''r'', lit ''run''] [lit ''r'', lock_name (lit ''run'')] l (w_fs w1)"
proof -
  let ?d = "[lit ''r'']" and ?n = "lit ''run''"
  have "runs {lit ''u''} (acquire sample_lib (?d @ [?n])) (acquired sample_lib sample_fs (?d @ [?n]) (lock_path (?d @ [?n]) ?d)) sample_fs"
    by (rule runs_acquire)
      (use sample_anchored in \<open>auto simp: anchored_def dir_at_def encodable_def path_text_def ascii_def entry_def
        lock_path_def lock_name_def WRITER_LOCK_SUFFIX_def lit_def sample_fs_def\<close>)
  then have "runs {lit ''u''} (acquire sample_lib (?d @ [?n]))
      (acquired sample_lib sample_fs (?d @ [?n]) (lock_path (?d @ [?n]) ?d)) (w_fs (sample_world (\<lambda>_. Run)))" by simp
  from runsE [OF this sample_world_simps(3)] obtain l w1 where
    "acquire sample_lib (?d @ [?n]) (sample_world (\<lambda>_. Run)) = (Ret l, w1)" "quiet {lit ''u''} w1"
    "acquired sample_lib sample_fs (?d @ [?n]) (lock_path (?d @ [?n]) ?d) l (w_fs w1)" .
  then show ?thesis by (auto simp: lock_path_def quiet_def)
qed

lemma sample_obeys: "obeys (others me p) (sample_world f)"
  by (simp add: obeys_def sample_world_def)

theorem writer_lock_exclusive_witness:
  "\<exists>l w'. acquire sample_lib [lit ''r'', lit ''run''] (sample_world (\<lambda>_. Run)) = (Ret l, w')
    \<and> lock_owner 1 [lit ''r'', lock_name (lit ''run'')] l (w_fs w')
    \<and> (\<forall>other l'. lock_owner other [lit ''r'', lock_name (lit ''run'')] l' (w_fs w') \<longrightarrow> other = 1)"
proof -
  let ?w = "sample_world (\<lambda>_. Run)"
  obtain l w' where a: "acquire sample_lib [lit ''r'', lit ''run''] ?w = (Ret l, w')" using sample_acquire by blast
  have s: "anchored [lit ''r'', lit ''run''] [lit ''r''] (w_fs ?w)" "w_pid ?w = 1"
    using sample_anchored by (simp_all add: sample_world_def)
  from writer_lock_exclusive [OF s(1) sample_obeys a rtranclp.rtrancl_refl] a s(2)
  show ?thesis by (auto simp: lock_path_def)
qed

text \<open>C14: Each operation on the writer lock keeps to the protocol: acquisition, recovery, and the
  release of a lock that is held make, whichever calls fail and wherever the process is
  killed, only calls that every other process relies on.\<close>

theorem writer_lock_keeps_protocol:
  assumes "anchored run d (w_fs w)" "obeys (others (w_pid w) (lock_path run d)) w"
  shows "guarded (fair (w_pid w) (lock_path run d)) w (snd (acquire L run w))
    \<and> guarded (fair (w_pid w) (lock_path run d)) w (snd (recover_writer_lock L run expected w))
    \<and> (\<forall>l. lock_owner (w_pid w) (lock_path run d) l (w_fs w) \<longrightarrow>
          guarded (fair (w_pid w) (lock_path run d)) w (snd (fst (release L l w))))"
proof (intro conjI allI impI)
  note g = rgE(1) [OF _ refl assms(2)]
  show "guarded (fair (w_pid w) (lock_path run d)) w (snd (acquire L run w))"
    using protocol_acquire [OF assms(1), unfolded protocol_def] by (rule g)
  show "guarded (fair (w_pid w) (lock_path run d)) w (snd (recover_writer_lock L run expected w))"
    using protocol_recover [OF assms(1), unfolded protocol_def] by (rule g)
  fix l assume l: "lock_owner (w_pid w) (lock_path run d) l (w_fs w)"
  then obtain k where k: "wl_guard l = Some k" "\<not> wl_released l" by (auto simp: lock_owner_def)
  from protocol_release [OF l k(1), unfolded protocol_def] g
  have "guarded (fair (w_pid w) (lock_path run d)) w
      (snd (finally_do (release_body L l) (release_posix_flock (kg_value k)) w))" by blast
  with k show "guarded (fair (w_pid w) (lock_path run d)) w (snd (fst (release L l w)))"
    by (simp add: release_def)
qed

theorem writer_lock_keeps_protocol_witness:
  "\<exists>l w'. acquire sample_lib [lit ''r'', lit ''run''] (sample_world (\<lambda>_. Run)) = (Ret l, w')
    \<and> guarded (fair 1 [lit ''r'', lock_name (lit ''run'')]) (sample_world (\<lambda>_. Run)) w'"
proof -
  let ?w = "sample_world (\<lambda>_. Run)"
  obtain l w' where a: "acquire sample_lib [lit ''r'', lit ''run''] ?w = (Ret l, w')" using sample_acquire by blast
  have s: "anchored [lit ''r'', lit ''run''] [lit ''r''] (w_fs ?w)" "w_pid ?w = 1"
    using sample_anchored by (simp_all add: sample_world_def)
  from writer_lock_keeps_protocol [OF s(1) sample_obeys, of sample_lib "[]"] a s(2) show ?thesis
    by (auto simp: lock_path_def)
qed

section \<open>Recovery keeps the record\<close>

lemma still_liveness [still_intros]:
  "still a \<Longrightarrow> still b \<Longrightarrow> still c \<Longrightarrow> still (case l of Alive \<Rightarrow> a | Dead \<Rightarrow> b | Unknown \<Rightarrow> c)"
  by (cases l) simp_all

lemma still_storage [still_intros]: "still (path_lexists p)" "still (checked_directory p)"
  unfolding path_lexists_def checked_directory_def by (intro still_intros)+

lemma still_lock [still_intros]:
  "still (sync_directory p)" "still (regular_object_key p)" "still (build_recovery_decision L r p rcd v)"
  unfolding sync_directory_def os_failed_def regular_object_key_def build_recovery_decision_def
    owner_observation_def process_liveness_def process_start_token_def linux_process_start_token_def
    linux_process_liveness_def proc_mounted_def read_proc_def
  by (intro still_intros)+

lemma wp_object_key:
  assumes "home p s" "\<And>i. entry s p = Some i \<Longrightarrow> is_reg (fs_nodes s i) \<Longrightarrow> Q (fs_dev s i, i) s" "\<And>e. X e s" "K s"
  shows "wp (regular_object_key p) Q X K s"
  unfolding regular_object_key_def
  by (intro wp_intros assms(3,4)) (use assms(1,2) in \<open>auto simp: fs_lstat_def home_locate stat_ino_def split: option.splits\<close>)

text \<open>The lock file before recovery: below the physical directory \<open>d\<close>, with inode \<open>i\<close> and content \<open>b\<close>.\<close>

definition orphan :: "path \<Rightarrow> path \<Rightarrow> ino \<Rightarrow> bytes \<Rightarrow> fs \<Rightarrow> bool" where
  "orphan run d i b s \<longleftrightarrow> anchored run d s \<and> entry s (lock_path run d) = Some i \<and> fs_nodes s i = Reg b"

lemma wp_run_path:
  assumes "anchored run d s" "Q (d @ [last run]) s" "\<And>e. X e s" "K s"
  shows "wp (normalized_run_path run) Q X K s"
  unfolding normalized_run_path_def
  by (intro wp_intros) (use assms in \<open>auto simp: anchored_def\<close>)

lemma wp_lock_path:
  assumes "anchored run d s" "Q (lock_path run d) s" "\<And>e. X e s" "K s"
  shows "wp (writer_lock_path (d @ [last run])) Q X K s"
proof -
  have "locate s True d = Inr d" using assms(1) dir_at_locate [of s d] by (simp add: anchored_def dir_at_def)
  then show ?thesis
    unfolding writer_lock_path_def normalized_run_path_def
    by (intro wp_intros) (use assms(2-) in \<open>auto simp: lock_path_def simp del: io_simps intro: wp_ret\<close>)
qed

lemma wp_snapshot:
  assumes "orphan run d i b s" "\<And>e. X e s" "K s"
    and "\<And>rcd. decode_writer_lock_record L b (d @ [last run]) = Inr rcd \<Longrightarrow>
      Q (lock_path run d, rcd, identity_of L b, b, (fs_dev s i, i)) s"
  shows "wp (read_writer_lock_snapshot L (d @ [last run])) Q X K s"
proof -
  let ?p = "lock_path run d"
  have a: "anchored run d s" and h: "home ?p s" and e: "entry s ?p = Some i" "fs_nodes s i = Reg b"
    using assms(1) anchored_home by (auto simp: orphan_def)
  have via: "node_via s ?p = Some (Reg c) \<longleftrightarrow> c = b" for c
    using h e by (auto simp: node_via_def home_locate node_at_def)
  show ?thesis
    unfolding read_writer_lock_snapshot_def Let_def
    by (rule wp_iob, rule wp_lock_path [OF a], rule wp_iob, rule wp_object_key [OF h], rule wp_iob,
        rule wp_read_regular_bytes, rule wp_iob, rule wp_from_result, rule assms(2), rule wp_iob, rule wp_file_identity,
        rule wp_if, rule wp_raise, rule assms(2), rule wp_iob, rule wp_object_key [OF h], rule wp_if, rule wp_raise,
        rule assms(2), rule wp_ret)
      (use assms(2-) e via in auto)
qed

text \<open>The files are those of \<open>s0\<close>, the names are \<open>names\<close>.\<close>

definition renamed :: "fs \<Rightarrow> (path \<Rightarrow> ino option) \<Rightarrow> fs \<Rightarrow> bool" where
  "renamed s0 names s \<longleftrightarrow> wf_fs s \<and> fs_nodes s = fs_nodes s0 \<and> fs_dev s = fs_dev s0 \<and> entry s = names"

text \<open>The lock file has its one name, both names, or only the name of the tombstone.\<close>

definition stages :: "fs \<Rightarrow> path \<Rightarrow> path \<Rightarrow> ino \<Rightarrow> fs \<Rightarrow> bool" where
  "stages s0 p t i s \<longleftrightarrow> renamed s0 (entry s0) s \<or> renamed s0 ((entry s0)(t \<mapsto> i)) s
     \<or> renamed s0 ((entry s0)(t \<mapsto> i, p := None)) s"

lemma renamed_node: "renamed s0 names s \<Longrightarrow> node_at s q = map_option (fs_nodes s0) (names q)"
  by (auto simp: renamed_def node_at_def)

lemma renamed_home:
  assumes "renamed s0 names s" "p \<noteq> []" "last p \<noteq> dotdot" "names (butlast p) = Some j" "fs_nodes s0 j = Dir"
  shows "home p s"
  using assms renamed_node [OF assms(1), of "butlast p"] by (simp add: home_def renamed_def)

definition tomb :: "pylib \<Rightarrow> path \<Rightarrow> path \<Rightarrow> bytes \<Rightarrow> path" where
  "tomb L run d b = recovery_tombstone_path (lock_path run d) (identity_of L b)"

lemma tomb_paths:
  "butlast (tomb L run d b) = d" "tomb L run d b \<noteq> []" "tomb L run d b \<noteq> lock_path run d" "tomb L run d b \<noteq> d"
  "last (tomb L run d b) \<noteq> dotdot"
  "butlast (lock_path run d) = d" "lock_path run d \<noteq> []" "lock_path run d \<noteq> d" "last (lock_path run d) \<noteq> dotdot"
proof -
  show t: "butlast (tomb L run d b) = d" "tomb L run d b \<noteq> []"
    by (simp_all add: tomb_def recovery_tombstone_path_def lock_path_def)
  show "tomb L run d b \<noteq> lock_path run d" using tombstone_elsewhere by (simp add: tomb_def)
  show "tomb L run d b \<noteq> d" using t by (metis append_butlast_last_id append_self_conv not_Cons_self2)
  show "last (tomb L run d b) \<noteq> dotdot"
    by (simp add: tomb_def recovery_tombstone_path_def RECOVERED_WRITER_LOCK_SUFFIX_def dotdot_def lit_def)
qed (simp_all add: lock_path_def lock_name_not_dotdot)

lemma orphan_homes:
  assumes "orphan run d i b s0" "renamed s0 names s" "names d = entry s0 d"
  shows "home (lock_path run d) s" "home (tomb L run d b) s"
proof -
  obtain j where "entry s0 d = Some j" "fs_nodes s0 j = Dir"
    using assms(1) by (auto simp: orphan_def anchored_def node_at_entry)
  with assms(2,3) tomb_paths(1-5) [of L run d b] tomb_paths(6-9) [of run d] show "home (lock_path run d) s" "home (tomb L run d b) s"
    by (auto intro!: renamed_home [OF assms(2)])
qed

text \<open>Before the lock file loses its name.\<close>

definition linked :: "fs \<Rightarrow> path \<Rightarrow> ino \<Rightarrow> fs \<Rightarrow> bool" where
  "linked s0 t i s \<longleftrightarrow> renamed s0 (entry s0) s \<or> renamed s0 ((entry s0)(t \<mapsto> i)) s"

lemma linked_stages: "linked s0 t i s \<Longrightarrow> stages s0 p t i s"
  by (auto simp: linked_def stages_def)

lemma linked_facts:
  assumes "orphan run d i b s0" "linked s0 (tomb L run d b) i s"
  shows "home (lock_path run d) s" "home (tomb L run d b) s" "entry s (lock_path run d) = Some i" "fs_nodes s i = Reg b"
    "fs_dev s = fs_dev s0"
proof -
  obtain names where n: "renamed s0 names s" "names = entry s0 \<or> names = (entry s0)(tomb L run d b \<mapsto> i)"
    using assms(2) by (auto simp: linked_def)
  then have "names d = entry s0 d" "names (lock_path run d) = entry s0 (lock_path run d)"
    using tomb_paths(1-5) [of L run d b] tomb_paths(6-9) [of run d] by auto
  then show "home (lock_path run d) s" "home (tomb L run d b) s" "entry s (lock_path run d) = Some i"
    "fs_nodes s i = Reg b" "fs_dev s = fs_dev s0"
    using orphan_homes [OF assms(1) n(1)] n(1) assms(1) by (auto simp: renamed_def orphan_def)
qed

lemma wp_link_tombstone:
  assumes o: "orphan run d i b s0" and r: "renamed s0 (entry s0) s"
    and t_def: "t = tomb L run d b"
  shows "wp (link_tombstone (lock_path run d) t m) (\<lambda>_. linked s0 t i) (\<lambda>_. stages s0 (lock_path run d) t i)
    (stages s0 (lock_path run d) t i) s"
proof -
  let ?p = "lock_path run d"
  have k: "linked s0 t i s" using r by (simp add: linked_def)
  note f = linked_facts [OF o k [unfolded t_def], folded t_def]
  have e: "entry s = entry s0" using r by (simp add: renamed_def)
  have "renamed s0 ((entry s0)(t \<mapsto> i)) (s\<lparr>fs_names := fs_names s @ [(t, i)]\<rparr>)" if "entry s t = None"
  proof -
    have "wf_fs (s\<lparr>fs_names := fs_names s @ [(t, i)]\<rparr>)"
      using f that home_no_dotdot [OF f(2)] by (intro wf_fs_link [of s t ?p i]) (auto simp: home_def)
    then show ?thesis using that e r by (auto simp: renamed_def fun_eq_iff entry_link)
  qed
  then have l: "linked s0 t i s'" if "fs_link ?p t s = (x, s')" for x s'
    using that k f(3,4) by (auto simp: fs_link_def home_locate [OF f(1)] home_locate [OF f(2)] linked_def split: if_splits)
  with k linked_stages show ?thesis
    unfolding link_tombstone_def
    by (intro wp_if wp_raise wp_handle wp_sys) (auto simp del: io_simps intro!: wp_intros)
qed

lemma wp_confirm_tombstone:
  assumes o: "orphan run d i b s0" and l: "linked s0 (tomb L run d b) i s"
    and t_def: "t = tomb L run d b"
  shows "wp (confirm_tombstone L (lock_path run d) t (fs_dev s0 i, i) c v) (\<lambda>_. renamed s0 ((entry s0)(t \<mapsto> i)))
    (\<lambda>_. stages s0 (lock_path run d) t i) (stages s0 (lock_path run d) t i) s"
proof -
  note f = linked_facts [OF o l, folded t_def]
  note k = linked_stages [OF l, folded t_def]
  have "renamed s0 ((entry s0)(t \<mapsto> i)) s" if "entry s t = Some i"
    using l that unfolding linked_def t_def by (auto simp: renamed_def fun_upd_idem)
  then show ?thesis
    unfolding confirm_tombstone_def
    by (intro wp_iob wp_object_key [OF f(1)] wp_object_key [OF f(2)] wp_if wp_raise wp_look wp_read_regular_bytes
        wp_file_identity wp_ret) (use k in auto)
qed

lemma wp_unlink_orphan:
  assumes o: "orphan run d i b s0" and r: "renamed s0 ((entry s0)(tomb L run d b \<mapsto> i)) s"
    and t_def: "t = tomb L run d b"
  shows "wp (unlink_lock (lock_path run d)) (\<lambda>_. renamed s0 ((entry s0)(t \<mapsto> i, lock_path run d := None)))
    (\<lambda>_. stages s0 (lock_path run d) t i) (stages s0 (lock_path run d) t i) s"
proof -
  let ?p = "lock_path run d"
  have l: "linked s0 t i s" using r by (simp add: linked_def t_def)
  note f = linked_facts [OF o l [unfolded t_def], folded t_def]
  have nd: "node_at s ?p = Some (Reg b)" using f(3,4) by (simp add: node_at_def)
  let ?s = "s\<lparr>fs_names := AList.delete ?p (fs_names s)\<rparr>"
  have "wf_fs ?s" using r nd by (intro wf_fs_unlink) (auto simp: renamed_def)
  then have u: "renamed s0 ((entry s0)(t \<mapsto> i, ?p := None)) ?s"
    using r by (auto simp: renamed_def fun_eq_iff entry_delete t_def)
  moreover have "fs_unlink ?p s = (Inr (), ?s)" using nd by (simp add: fs_unlink_def home_locate [OF f(1)])
  ultimately show ?thesis
    unfolding unlink_lock_def os_to_evidence_def
    by (intro wp_reraise wp_iob wp_sys stillD [OF still_lock(1)])
      (use linked_stages [OF l] in \<open>auto simp: stages_def\<close>)
qed

lemma walk_cong: "node_at s = node_at s' \<Longrightarrow> walk s n f a p = walk s' n f a p"
  by (induction s n f a p rule: walk.induct) (auto split: option.splits node.splits nat.splits)

lemma renamed_orphan:
  assumes "orphan run d i b s0" "renamed s0 (entry s0) s"
  shows "orphan run d i b s"
proof -
  have "entry s = entry s0" "fs_nodes s = fs_nodes s0" "wf_fs s"
    using assms(2) by (simp_all add: renamed_def)
  moreover from this have "node_at s = node_at s0" by (intro ext) (simp add: node_at_def)
  ultimately show ?thesis using assms(1) walk_cong [of s s0] by (auto simp: orphan_def anchored_def locate_def)
qed

lemma renamed_locks [simp]: "renamed s0 names (s\<lparr>fs_locks := l\<rparr>) \<longleftrightarrow> renamed s0 names s"
  by (simp add: renamed_def)

lemma stages_unflock [simp]: "stages s0 p t i (fs_unflock me j s) \<longleftrightarrow> stages s0 p t i s"
  by (simp add: stages_def fs_unflock_def)

lemma renamed_unflock [simp]: "renamed s0 names (fs_unflock me j s) \<longleftrightarrow> renamed s0 names s"
  by (simp add: fs_unflock_def)

lemma still_checks [still_intros]:
  "still (samefile a c)" "still (check_tombstone a c k m)" "still (file_identity L a)" "still (read_regular_bytes a n)"
proof -
  show s: "still (samefile a c)" for a c unfolding samefile_def by (intro still_intros)
  then show "still (check_tombstone a c k m)"
    unfolding check_tombstone_def os_to_evidence_def by (intro still_intros s)
  have "still (open_regular_readonly a)" unfolding open_regular_readonly_def by (intro still_intros)
  then show "still (file_identity L a)" "still (read_regular_bytes a n)"
    unfolding file_identity_def read_regular_bytes_def by (intro still_intros | assumption)+
qed

lemma still_confirm_recovered [still_intros]: "still (confirm_recovered L p t k v)"
  unfolding confirm_recovered_def by (intro still_intros)

lemma still_snapshot [still_intros]: "still (read_writer_lock_snapshot L r)" "still (normalized_run_path r)" "still (writer_lock_path r)"
  unfolding read_writer_lock_snapshot_def writer_lock_path_def normalized_run_path_def by (intro still_intros)+

lemma still_prod [still_intros]: "(\<And>a b. still (f a b)) \<Longrightarrow> still (case x of (a, b) \<Rightarrow> f a b)"
  by (cases x) simp

lemma still_inspect [still_intros]: "still (inspect_writer_lock L run)"
  unfolding inspect_writer_lock_def by (intro still_intros)

text \<open>What recovery can leave behind.\<close>

definition recovered :: "pylib \<Rightarrow> path \<Rightarrow> path \<Rightarrow> ino \<Rightarrow> bytes \<Rightarrow> fs \<Rightarrow> fs \<Rightarrow> bool" where
  "recovered L run d i b s0 s \<longleftrightarrow>
     renamed s0 ((entry s0)(tomb L run d b \<mapsto> i, lock_path run d := None)) s"

lemma wp_recover_guarded:
  assumes o: "orphan run d i b s0" and r: "renamed s0 (entry s0) s"
  shows "wp (recover_guarded L (d @ [last run]) g expected) (\<lambda>_. recovered L run d i b s0)
    (\<lambda>_. stages s0 (lock_path run d) (tomb L run d b) i) (stages s0 (lock_path run d) (tomb L run d b) i) s"
proof -
  let ?p = "lock_path run d" and ?t = "tomb L run d b"
  have l: "linked s0 ?t i s" and k: "stages s0 ?p ?t i s" using r by (auto simp: linked_def stages_def)
  have tail: "wp (iob (confirm_tombstone L ?p ?t (fs_dev s0 i, i) b v) (\<lambda>_. iob (unlink_lock ?p) (\<lambda>_.
      iob (confirm_recovered L ?p ?t k v) (\<lambda>f. ret (h f))))) (\<lambda>_. recovered L run d i b s0)
      (\<lambda>_. stages s0 ?p ?t i) (stages s0 ?p ?t i) s" if "linked s0 ?t i s" for k v h s
    by (rule wp_iob, rule wp_mono [OF wp_confirm_tombstone [OF o that refl]],
        rule wp_iob, rule wp_mono [OF wp_unlink_orphan [OF o _ refl]], assumption,
        rule wp_iob, rule stillD [OF still_confirm_recovered])
      (auto simp: recovered_def stages_def simp del: io_simps intro!: wp_ret)
  have link: "wp (if found then check_tombstone ?p ?t k m else link_tombstone ?p ?t m) (\<lambda>_. linked s0 ?t i)
      (\<lambda>_. stages s0 ?p ?t i) (stages s0 ?p ?t i) s" for found k m
    using l k by (intro wp_if wp_link_tombstone [OF o r refl] stillD [OF still_checks(2)]) auto
  have "wp (iob (build_recovery_decision L (d @ [last run]) ?p rcd (identity_of L b)) (\<lambda>current_decision.
     if ld_sha256 current_decision \<noteq> expected then raise EvidenceError
     else if ld_action current_decision \<noteq> Recover_Orphan then raise EvidenceError
     else iob (look (fs_lstat ?p)) (\<lambda>source_metadata.
     if (st_dev source_metadata, st_ino source_metadata) \<noteq> (fs_dev s0 i, i) then raise EvidenceError
     else iob (path_lexists ?t) (\<lambda>found.
     iob (if found then check_tombstone ?p ?t (fs_dev s0 i, i) source_metadata
          else link_tombstone ?p ?t source_metadata) (\<lambda>_.
     iob (confirm_tombstone L ?p ?t (fs_dev s0 i, i) b (identity_of L b)) (\<lambda>_.
     iob (unlink_lock ?p) (\<lambda>_.
     iob (confirm_recovered L ?p ?t (fs_dev s0 i, i) (identity_of L b)) (\<lambda>final_identity.
     ret (recovery_result (d @ [last run]) expected (ld_reason current_decision) (identity_of L b) ?t final_identity)))))))))
     (\<lambda>_. recovered L run d i b s0) (\<lambda>_. stages s0 ?p ?t i) (stages s0 ?p ?t i) s" for rcd
    by (rule wp_iob, rule stillD [OF still_lock(3)], rule wp_if, rule wp_raise, rule k, rule wp_if, rule wp_raise,
        rule k, rule wp_iob, rule wp_look, rule wp_if, rule wp_raise, rule k, rule wp_iob, rule wp_path_lexists,
        rule wp_iob, rule wp_mono [OF link], rule tail, assumption+, (rule k)+)
  note main = this [unfolded tomb_def]
  have dev: "fs_dev s = fs_dev s0" using r by (simp add: renamed_def)
  show ?thesis
    unfolding recover_guarded_def tomb_def Let_def
    by (rule wp_iob, rule wp_snapshot [OF renamed_orphan [OF o r]], rule k [unfolded tomb_def],
        rule k [unfolded tomb_def], unfold prod.case dev, rule wp_if, rule wp_raise,
        rule k [unfolded tomb_def], rule main)
qed

lemma wp_unflock:
  "(\<And>me. Q () (fs_unflock me j s)) \<Longrightarrow> (\<And>e. X e s) \<Longrightarrow> K s \<Longrightarrow> wp (unflock j) Q X K s"
  unfolding unflock_def by (rule wp_iob, rule wp_getpid, rule wp_sys) auto

lemma wp_release_flock:
  assumes "I s" "\<And>me s. I s \<Longrightarrow> I (fs_unflock me j s)" "\<And>s. I s \<Longrightarrow> Q () s" "\<And>e s. I s \<Longrightarrow> X e s" "\<And>s. I s \<Longrightarrow> K s"
  shows "wp (release_posix_flock j) Q X K s"
proof -
  have "wp (os_failed (unflock j)) (\<lambda>_. I) (\<lambda>_. I) I s" if "I s" for s
    unfolding os_failed_def
    by (rule wp_handle, rule wp_iob, rule wp_unflock) (use that assms(2) in \<open>auto simp del: io_simps intro!: wp_intros\<close>)
  note u = wp_mono [OF this]
  show ?thesis
    unfolding release_posix_flock_def
    by (rule wp_iob, rule u [OF assms(1)], rule wp_iob, erule u) (auto simp del: io_simps intro!: wp_intros assms(3-))
qed

lemma wp_recovery_guard:
  assumes "I s" "\<And>l s. I s \<Longrightarrow> I (s\<lparr>fs_locks := l\<rparr>)" "\<And>g s. I s \<Longrightarrow> Q g s" "\<And>e s. I s \<Longrightarrow> X e s" "\<And>s. I s \<Longrightarrow> K s"
  shows "wp (acquire_recovery_guard p) Q X K s"
proof -
  have u: "I (fs_unflock me j s)" if "I s" for me j s using that assms(2) by (simp add: fs_unflock_def)
  have "wp (open_writer_lock_readwrite p) (\<lambda>_. I) (\<lambda>_. I) I s"
    unfolding open_writer_lock_readwrite_def
    by (intro wp_iob stillD [OF still_lock(2)] wp_reraise wp_look wp_if wp_raise wp_ret wp_unflock) (auto simp: assms(1) u)
  note o = wp_mono [OF this]
  have "wp (try_posix_flock j) (\<lambda>_. I) (\<lambda>_. I) I s" if "I s" for j s
    unfolding try_posix_flock_def
    by (rule wp_iob, rule wp_getpid, rule wp_handle, rule wp_sys)
      (use that assms(2) in \<open>auto simp: fs_flock_def simp del: io_simps intro!: wp_intros split: if_splits\<close>)
  note f = wp_mono [OF this]
  show ?thesis
    unfolding acquire_recovery_guard_def
  proof (rule wp_iob, rule o)
    fix x s assume "I s"
    then show "wp (case x of (descriptor, key) \<Rightarrow> iob (try_posix_flock descriptor) (\<lambda>got.
        if \<not> got then iob (unflock descriptor) (\<lambda>_. ret None)
        else ret (Some \<lparr>kg_value = descriptor, kg_object_key = key\<rparr>))) Q X K s"
      by (cases x) (auto simp del: io_simps intro!: wp_iob [OF f] wp_if wp_iob [OF wp_unflock] wp_ret assms(3-) u)
  qed (auto intro: assms(4,5))
qed

lemma wp_recover:
  assumes o: "orphan run d i b s0"
  shows "wp (recover_writer_lock L run expected) (\<lambda>_. recovered L run d i b s0)
    (\<lambda>_. stages s0 (lock_path run d) (tomb L run d b) i) (stages s0 (lock_path run d) (tomb L run d b) i) s0"
proof -
  let ?p = "lock_path run d" and ?t = "tomb L run d b"
  have a: "anchored run d s0" using o by (simp add: orphan_def)
  have k: "stages s0 ?p ?t i s" if "renamed s0 (entry s0) s" for s using that by (simp add: stages_def)
  have r: "renamed s0 (entry s0) s0" using a by (simp add: renamed_def anchored_def)
  note x = k [OF r]
  have guarded: "wp (case g of None \<Rightarrow> raise EvidenceError
      | Some g \<Rightarrow> finally_do (recover_guarded L (d @ [last run]) g expected) (release_posix_flock (kg_value g)))
      (\<lambda>_. recovered L run d i b s0) (\<lambda>_. stages s0 ?p ?t i) (stages s0 ?p ?t i) s"
    if "renamed s0 (entry s0) s" for g s
  proof (rule wp_option)
    show "wp (raise EvidenceError) (\<lambda>_. recovered L run d i b s0) (\<lambda>_. stages s0 ?p ?t i) (stages s0 ?p ?t i) s"
      using k [OF that] by (rule wp_raise)
    fix g' show "wp (finally_do (recover_guarded L (d @ [last run]) g' expected) (release_posix_flock (kg_value g')))
        (\<lambda>_. recovered L run d i b s0) (\<lambda>_. stages s0 ?p ?t i) (stages s0 ?p ?t i) s"
    proof (rule wp_finally, rule wp_mono [OF wp_recover_guarded [OF o that]])
      fix s assume "recovered L run d i b s0 s"
      then show "wp (release_posix_flock (kg_value g')) (\<lambda>_. recovered L run d i b s0) (\<lambda>_. stages s0 ?p ?t i) (stages s0 ?p ?t i) s"
        by (rule wp_release_flock) (auto simp: recovered_def stages_def)
    next
      fix s assume "stages s0 ?p ?t i s"
      then show "wp (release_posix_flock (kg_value g')) (\<lambda>_. stages s0 ?p ?t i) (\<lambda>_. stages s0 ?p ?t i) (stages s0 ?p ?t i) s"
        by (rule wp_release_flock) auto
    qed
  qed
  show ?thesis
    unfolding recover_writer_lock_def
    by (rule wp_if, rule wp_raise, rule x, rule wp_iob, rule wp_run_path [OF a], rule wp_iob,
        rule stillD [OF still_inspect], rule wp_if, rule wp_raise, rule x, rule wp_if, rule wp_raise, rule x,
        rule wp_iob, rule wp_lock_path [OF a], rule wp_iob, rule wp_recovery_guard [where I = "renamed s0 (entry s0)"],
        rule r, simp, rule guarded, assumption, (rule k, assumption)+, (rule x)+)
qed

text \<open>C19: However recovery ends, by returning, raising or being killed at any call, the bytes of the
  lock file are still there, under the name of the lock or of its tombstone, and no other name
  has changed. When it returns, the lock is gone and the tombstone holds the bytes.\<close>

theorem recover_keeps_record:
  assumes "calm w" "orphan run d i b (w_fs w)" "recover_writer_lock L run expected w = (out, w')"
  shows "(node_at (w_fs w') (lock_path run d) = Some (Reg b) \<or> node_at (w_fs w') (tomb L run d b) = Some (Reg b))
    \<and> (\<forall>q. q \<noteq> lock_path run d \<longrightarrow> q \<noteq> tomb L run d b \<longrightarrow> node_at (w_fs w') q = node_at (w_fs w) q)
    \<and> (\<forall>v. out = Ret v \<longrightarrow>
          node_at (w_fs w') (lock_path run d) = None \<and> node_at (w_fs w') (tomb L run d b) = Some (Reg b))"
proof -
  let ?p = "lock_path run d" and ?t = "tomb L run d b"
  have m: "meets (\<lambda>_. recovered L run d i b (w_fs w)) (\<lambda>_. stages (w_fs w) ?p ?t i) (stages (w_fs w) ?p ?t i) (out, w')"
    using wpE [OF wp_recover [OF assms(2)] assms(1)] assms(3) by metis
  then have st: "stages (w_fs w) ?p ?t i (w_fs w')" by (cases out) (auto simp: recovered_def stages_def)
  have e: "entry (w_fs w) ?p = Some i" "fs_nodes (w_fs w) i = Reg b" using assms(2) by (auto simp: orphan_def)
  have "node_at (w_fs w') ?p = Some (Reg b) \<or> node_at (w_fs w') ?t = Some (Reg b)"
    using st e tomb_paths(3) [of L run d b] unfolding stages_def by (auto simp: renamed_node)
  moreover have "node_at (w_fs w') q = node_at (w_fs w) q" if "q \<noteq> ?p" "q \<noteq> ?t" for q
    using st that unfolding stages_def by (auto simp: renamed_node) (simp_all add: node_at_def)
  moreover have "node_at (w_fs w') ?p = None \<and> node_at (w_fs w') ?t = Some (Reg b)" if "out = Ret v" for v
    using m that e tomb_paths(3) [of L run d b] by (auto simp: recovered_def renamed_node)
  ultimately show ?thesis by blast
qed

theorem recover_keeps_record_witness:
  "\<exists>l w1 b. acquire sample_lib [lit ''r'', lit ''run''] (sample_world (\<lambda>_. Run)) = (Ret l, w1)
    \<and> (let run = [lit ''r'', lit ''run'']; d = [lit ''r''];
           w' = snd (recover_writer_lock sample_lib run (replicate 64 48) w1) in
       node_at (w_fs w') (lock_path run d) = Some (Reg b) \<or> node_at (w_fs w') (tomb sample_lib run d b) = Some (Reg b))"
proof -
  let ?w = "sample_world (\<lambda>_. Run)" and ?d = "[lit ''r'']" and ?run = "[lit ''r'', lit ''run'']"
  obtain l w1 where a: "acquire sample_lib ?run ?w = (Ret l, w1)" "calm w1"
    "acquired sample_lib sample_fs ?run [lit ''r'', lock_name (lit ''run'')] l (w_fs w1)"
    using sample_acquire by blast
  have "dir_at sample_fs ?d" using sample_anchored by (simp add: anchored_def dir_at_def)
  moreover from a(3) obtain c where "published sample_fs [lit ''r'', lock_name (lit ''run'')] c (w_fs w1)"
    unfolding acquired_def by blast
  ultimately have "dir_at (w_fs w1) ?d" using published_dir by fastforce
  with dir_at_locate [OF this, of True] have "anchored ?run ?d (w_fs w1)" by (simp add: anchored_def dir_at_def)
  moreover from a(3) obtain b where "entry (w_fs w1) [lit ''r'', lock_name (lit ''run'')] = Some (fs_next sample_fs)"
    "fs_nodes (w_fs w1) (fs_next sample_fs) = Reg b" unfolding acquired_def by blast
  ultimately have "orphan ?run ?d (fs_next sample_fs) b (w_fs w1)" by (simp add: orphan_def lock_path_def)
  from recover_keeps_record [OF a(2) this surjective_pairing] a(1) show ?thesis unfolding Let_def by blast
qed

end
