(* ===== verification/Suite_Model.thy ===== *)
theory Suite_Model
  imports Records "HOL-Library.Sublist"
begin

text \<open>
  \<^verbatim>\<open>src/src/benchhandoff/model.py\<close>: from the parsed TOML table of a suite file to a validated
  suite. \<open>tomllib.loads\<close> is a parameter; reading the file is in the storage theory. Shown
  here: what every accepted suite satisfies (portable and unaliased paths, no path that is the
  ancestor of another, one producer per output, no task that reads a later task's output) and
  that the running tables of aliases and prefixes decide exactly that on the declared paths.
\<close>

section \<open>Definitions\<close>

definition MAX_SUITE_BYTES :: nat where "MAX_SUITE_BYTES = 256 * 1024"
definition MAX_SUITE_TASKS :: nat where "MAX_SUITE_TASKS = 64"
definition MAX_SUITE_NAME_UTF8_BYTES :: nat where "MAX_SUITE_NAME_UTF8_BYTES = 256"
definition MAX_CONTEXT_MEDIA_TYPE_UTF8_BYTES :: nat where "MAX_CONTEXT_MEDIA_TYPE_UTF8_BYTES = 512"
definition MAX_CONTEXT_SIZE :: int where "MAX_CONTEXT_SIZE = 2 ^ 63 - 1"
definition MAX_SUITE_PATH_REFERENCES :: nat where "MAX_SUITE_PATH_REFERENCES = 512"
definition MAX_TASK_ARGUMENTS :: nat where "MAX_TASK_ARGUMENTS = 128"
definition MAX_TASK_ARGUMENT_UTF8_BYTES :: nat where "MAX_TASK_ARGUMENT_UTF8_BYTES = 4096"
definition MAX_TASK_ARGUMENTS_UTF8_BYTES :: nat where "MAX_TASK_ARGUMENTS_UTF8_BYTES = 64 * 1024"
definition MAX_TASK_INPUTS :: nat where "MAX_TASK_INPUTS = 64"
definition MAX_TASK_OUTPUTS :: nat where "MAX_TASK_OUTPUTS = 64"
definition MAX_WORKSPACE_MANIFEST_BYTES :: nat where "MAX_WORKSPACE_MANIFEST_BYTES = 4 * 1024 * 1024"
definition WORKSPACE_POLICY :: pystr where "WORKSPACE_POLICY = lit ''closed-world-primary-stream-v1''"

record context_descriptor =
  ctx_path :: pystr
  ctx_media_type :: pystr
  ctx_digest :: pystr
  ctx_size :: int

record workspace_descriptor =
  wsd_root :: pystr
  wsd_manifest :: pystr
  wsd_digest :: pystr
  wsd_size :: int
  wsd_policy :: pystr

record task_spec =
  task_id :: pystr
  task_argv :: "pystr list"
  task_inputs :: "pystr list"
  task_outputs :: "pystr list"

record suite_spec =
  suite_path :: path
  suite_root :: path
  suite_name :: pystr
  suite_version :: int
  suite_tasks :: "task_spec list"
  suite_seed_inputs :: "pystr list"
  suite_identity :: pyval
  suite_context :: "context_descriptor option"
  suite_workspace :: "workspace_descriptor option"

definition context_as_dict :: "context_descriptor \<Rightarrow> pyval" where
  "context_as_dict c = PDict
     [(lit ''path'', PStr (ctx_path c)), (lit ''media_type'', PStr (ctx_media_type c)),
      (lit ''digest'', PStr (ctx_digest c)), (lit ''size'', PInt (ctx_size c))]"

definition workspace_as_dict :: "workspace_descriptor \<Rightarrow> pyval" where
  "workspace_as_dict w = PDict
     [(lit ''root'', PStr (wsd_root w)), (lit ''manifest'', PStr (wsd_manifest w)),
      (lit ''digest'', PStr (wsd_digest w)), (lit ''size'', PInt (wsd_size w)),
      (lit ''policy'', PStr (wsd_policy w))]"

definition task_as_dict :: "task_spec \<Rightarrow> pyval" where
  "task_as_dict t = PDict
     [(lit ''id'', PStr (task_id t)), (lit ''argv'', PList (map PStr (task_argv t))),
      (lit ''inputs'', PList (map PStr (task_inputs t))),
      (lit ''outputs'', PList (map PStr (task_outputs t)))]"

definition normalized :: "suite_spec \<Rightarrow> pyval" where
  "normalized s = PDict
     ([(lit ''version'', PInt (suite_version s)), (lit ''name'', PStr (suite_name s)),
       (lit ''tasks'', PList (map task_as_dict (suite_tasks s)))]
      @ (case suite_context s of None \<Rightarrow> [] | Some c \<Rightarrow> [(lit ''context'', context_as_dict c)])
      @ (case suite_workspace s of None \<Rightarrow> [] | Some w \<Rightarrow> [(lit ''workspace'', workspace_as_dict w)]))"

subsection \<open>Helpers\<close>

definition only_keys :: "pydict \<Rightarrow> string list \<Rightarrow> pyexc + unit" where
  "only_keys d allowed =
     (if \<exists>k \<in> set (dkeys d). k \<notin> set (map lit allowed) then Inl ConfigurationError else Inr ())"

text \<open>\<open>except BoundaryError as exc: raise ConfigurationError(str(exc)) from exc\<close>\<close>

definition boundary_to_config :: "pyexc \<Rightarrow> pyexc" where
  "boundary_to_config e = (if e = BoundaryError then ConfigurationError else e)"

text \<open>\<open>str.isspace\<close> on one character, and \<open>str.strip()\<close>.\<close>

definition is_space :: "nat \<Rightarrow> bool" where
  "is_space c \<longleftrightarrow> 9 \<le> c \<and> c \<le> 13 \<or> 28 \<le> c \<and> c \<le> 32 \<or> c = 133 \<or> c = 160 \<or> c = 5760
     \<or> 8192 \<le> c \<and> c \<le> 8202 \<or> c = 8232 \<or> c = 8233 \<or> c = 8239 \<or> c = 8287 \<or> c = 12288"

definition strip :: "pystr \<Rightarrow> pystr" where
  "strip s = rev (dropWhile is_space (rev (dropWhile is_space s)))"

text \<open>\<open>len(s.encode("utf-8"))\<close>\<close>

definition utf8_len :: "pystr \<Rightarrow> pyexc + nat" where
  "utf8_len s = (case utf8 s of None \<Rightarrow> Inl UnicodeEncodeError | Some b \<Rightarrow> Inr (length b))"

text \<open>The patterns \<open>_TASK_ID\<close> and \<open>_DESCRIPTOR_DIGEST\<close> under \<open>fullmatch\<close>.\<close>

definition is_alnum :: "nat \<Rightarrow> bool" where
  "is_alnum c \<longleftrightarrow> is_digit c \<or> 65 \<le> c \<and> c \<le> 90 \<or> 97 \<le> c \<and> c \<le> 122"

definition TASK_ID :: "pystr \<Rightarrow> bool" where
  "TASK_ID s \<longleftrightarrow> s \<noteq> [] \<and> is_alnum (hd s) \<and> length s \<le> 64
     \<and> (\<forall>c \<in> set (tl s). is_alnum c \<or> c = 95 \<or> c = 46 \<or> c = 45)"

definition DESCRIPTOR_DIGEST :: "pystr \<Rightarrow> bool" where
  "DESCRIPTOR_DIGEST s \<longleftrightarrow> starts_with (lit ''sha256:'') s \<and> length s = 71
     \<and> (\<forall>c \<in> set (drop 7 s). is_lower_hex c)"

fun alias_scan :: "pylib \<Rightarrow> pystr list \<Rightarrow> (pystr list \<times> pystr) list \<Rightarrow> pyexc + unit" where
  "alias_scan L [] aliases = Inr ()"
| "alias_scan L (item # items) aliases =
     rbind (windows_path_key L item) (\<lambda>key.
       case map_of aliases key of
         Some previous \<Rightarrow>
           (if previous \<noteq> item then Inl ConfigurationError
            else alias_scan L items (AList.update key item aliases))
       | None \<Rightarrow> alias_scan L items (AList.update key item aliases))"

definition string_list :: "pylib \<Rightarrow> bool \<Rightarrow> pyval \<Rightarrow> pyexc + pystr list" where
  "string_list L paths v =
     (case v of
        PList items \<Rightarrow>
          (if \<exists>x \<in> set items. \<not> is_str x then Inl ConfigurationError
           else rbind (rmap (\<lambda>x. if paths
                                 then rcatch boundary_to_config (normalize_relative_file L x)
                                 else if 0 \<in> set (str_of x) then Inl ConfigurationError
                                 else Inr (str_of x)) items)
             (\<lambda>normalized.
               if paths \<and> \<not> distinct normalized then Inl ConfigurationError
               else if paths then rbind (alias_scan L normalized []) (\<lambda>_. Inr normalized)
               else Inr normalized))
      | _ \<Rightarrow> Inl ConfigurationError)"

subsection \<open>Root table and descriptors\<close>

definition root_keys :: "int \<Rightarrow> string list" where
  "root_keys version =
     (if version = 1 then [''version'', ''name'', ''task'']
      else if version = 2 then [''version'', ''name'', ''context'', ''task'']
      else [''version'', ''name'', ''context'', ''workspace'', ''task''])"

definition suite_header :: "pydict \<Rightarrow> pyexc + int \<times> pystr" where
  "suite_header parsed =
     (let version = fld parsed ''version'' in
      if \<not> non_bool_int version \<or> int_of version \<notin> {1, 2, 3} then Inl ConfigurationError
      else rbind (only_keys parsed (root_keys (int_of version))) (\<lambda>_.
        let name = fld parsed ''name'' in
        if \<not> is_str name \<or> strip (str_of name) = [] then Inl ConfigurationError
        else rbind (utf8_len (str_of name)) (\<lambda>n.
          if n > MAX_SUITE_NAME_UTF8_BYTES then Inl ConfigurationError
          else Inr (int_of version, str_of name))))"

definition parse_context :: "pylib \<Rightarrow> pydict \<Rightarrow> pyexc + context_descriptor" where
  "parse_context L parsed =
     (case fld parsed ''context'' of
        PDict raw \<Rightarrow>
          rbind (only_keys raw [''path'', ''media_type'', ''digest'', ''size'']) (\<lambda>_.
          if \<not> is_str (fld raw ''path'') then Inl ConfigurationError
          else rbind (rcatch boundary_to_config (normalize_relative_file L (fld raw ''path'')))
            (\<lambda>context_path.
          let media_type = fld raw ''media_type'' in
          if \<not> is_str media_type \<or> str_of media_type = [] then Inl ConfigurationError
          else if 0 \<in> set (str_of media_type) then Inl ConfigurationError
          else rbind (utf8_len (str_of media_type)) (\<lambda>n.
          if n > MAX_CONTEXT_MEDIA_TYPE_UTF8_BYTES then Inl ConfigurationError
          else let digest = fld raw ''digest''; size = fld raw ''size'' in
          if \<not> is_str digest \<or> \<not> DESCRIPTOR_DIGEST (str_of digest) then Inl ConfigurationError
          else if \<not> non_bool_int size \<or> int_of size < 0 \<or> int_of size > MAX_CONTEXT_SIZE
          then Inl ConfigurationError
          else Inr \<lparr>ctx_path = context_path, ctx_media_type = str_of media_type,
                    ctx_digest = str_of digest, ctx_size = int_of size\<rparr>)))
      | _ \<Rightarrow> Inl ConfigurationError)"

definition parse_workspace :: "pylib \<Rightarrow> pydict \<Rightarrow> pyexc + workspace_descriptor" where
  "parse_workspace L parsed =
     (case fld parsed ''workspace'' of
        PDict raw \<Rightarrow>
          rbind (only_keys raw [''root'', ''manifest'', ''digest'', ''size'', ''policy'']) (\<lambda>_.
          if \<not> is_str (fld raw ''root'') then Inl ConfigurationError
          else if \<not> is_str (fld raw ''manifest'') then Inl ConfigurationError
          else rbind (rcatch boundary_to_config (normalize_relative_file L (fld raw ''root'')))
            (\<lambda>workspace_root.
          rbind (rcatch boundary_to_config (normalize_relative_file L (fld raw ''manifest'')))
            (\<lambda>manifest_path.
          let digest = fld raw ''digest''; size = fld raw ''size''; policy = fld raw ''policy'' in
          if \<not> is_str digest \<or> \<not> DESCRIPTOR_DIGEST (str_of digest) then Inl ConfigurationError
          else if \<not> non_bool_int size \<or> int_of size < 0
                  \<or> int_of size > int MAX_WORKSPACE_MANIFEST_BYTES then Inl ConfigurationError
          else if \<not> py_eq policy (PStr WORKSPACE_POLICY) then Inl ConfigurationError
          else Inr \<lparr>wsd_root = workspace_root, wsd_manifest = manifest_path,
                    wsd_digest = str_of digest, wsd_size = int_of size,
                    wsd_policy = str_of policy\<rparr>)))
      | _ \<Rightarrow> Inl ConfigurationError)"

subsection \<open>Tasks\<close>

text \<open>The tables the task loop keeps; sets are lists here, dictionaries association lists.\<close>

record suite_acc =
  acc_task_ids :: "pystr list"
  acc_id_aliases :: "(pystr \<times> pystr) list"
  acc_path_aliases :: "(pystr list \<times> pystr) list"
  acc_path_prefixes :: "(pystr list \<times> pystr) list"
  acc_produced :: "(pystr \<times> pystr) list"
  acc_seeds :: "pystr list"
  acc_tasks :: "task_spec list"
  acc_references :: nat

definition empty_acc :: suite_acc where
  "empty_acc = \<lparr>acc_task_ids = [], acc_id_aliases = [], acc_path_aliases = [],
     acc_path_prefixes = [], acc_produced = [], acc_seeds = [], acc_tasks = [],
     acc_references = 0\<rparr>"

definition declare_task_id :: "pylib \<Rightarrow> pyval \<Rightarrow> suite_acc \<Rightarrow> pyexc + suite_acc" where
  "declare_task_id L v acc =
     (if \<not> is_str v \<or> \<not> TASK_ID (str_of v) then Inl ConfigurationError
      else let t = str_of v in
      rbind (rcatch boundary_to_config (windows_component_key L t)) (\<lambda>task_alias.
        if map_of (acc_id_aliases acc) task_alias \<noteq> None then Inl ConfigurationError
        else if t \<in> set (acc_task_ids acc) then Inl ConfigurationError
        else Inr (acc\<lparr>acc_task_ids := t # acc_task_ids acc,
                      acc_id_aliases := AList.update task_alias t (acc_id_aliases acc)\<rparr>)))"

definition parse_argv :: "pylib \<Rightarrow> int \<Rightarrow> pyval \<Rightarrow> pyexc + pystr list" where
  "parse_argv L version v =
     rbind (string_list L False v) (\<lambda>argv.
       if argv = [] \<or> hd argv = [] then Inl ConfigurationError
       else rbind (if version \<ge> 2
                   then rcatch boundary_to_config
                          (rbind (normalize_relative_file L (PStr (hd argv))) (\<lambda>_. Inr ()))
                   else Inr ())
         (\<lambda>_. if length argv > MAX_TASK_ARGUMENTS then Inl ConfigurationError
              else rbind (rmap utf8_len argv) (\<lambda>encoded_arguments.
                if \<exists>n \<in> set encoded_arguments. n > MAX_TASK_ARGUMENT_UTF8_BYTES
                then Inl ConfigurationError
                else if sum_list encoded_arguments > MAX_TASK_ARGUMENTS_UTF8_BYTES
                then Inl ConfigurationError
                else Inr argv)))"

text \<open>\<open>raw_task.get("inputs", [])\<close>: an absent key, unlike a null, is the empty array.\<close>

definition parse_task_paths :: "pylib \<Rightarrow> pydict \<Rightarrow> nat \<Rightarrow> pyexc + pystr list \<times> pystr list \<times> nat" where
  "parse_task_paths L raw_task references =
     rbind (string_list L True (if has_key raw_task ''inputs'' then fld raw_task ''inputs''
                                else PList [])) (\<lambda>inputs.
     rbind (string_list L True (fld raw_task ''outputs'')) (\<lambda>outputs.
       if length inputs > MAX_TASK_INPUTS then Inl ConfigurationError
       else if outputs = [] then Inl ConfigurationError
       else if length outputs > MAX_TASK_OUTPUTS then Inl ConfigurationError
       else if references + (length inputs + length outputs) > MAX_SUITE_PATH_REFERENCES
       then Inl ConfigurationError
       else Inr (inputs, outputs, references + (length inputs + length outputs))))"

text \<open>
  One declared path against the alias and prefix tables. \<open>range(1, len(path_alias))\<close> gives the
  proper nonempty prefixes; \<open>setdefault\<close> keeps the first path recorded for a prefix.
\<close>

definition proper_prefixes :: "'a list \<Rightarrow> 'a list list" where
  "proper_prefixes k = map (\<lambda>depth. take depth k) [1..<length k]"

definition setdefault :: "'k \<Rightarrow> 'v \<Rightarrow> ('k \<times> 'v) list \<Rightarrow> ('k \<times> 'v) list" where
  "setdefault k v d = (if map_of d k = None then d @ [(k, v)] else d)"

definition other_owner :: "('k \<times> 'v) list \<Rightarrow> 'k \<Rightarrow> 'v \<Rightarrow> bool" where
  "other_owner d k v = (case map_of d k of None \<Rightarrow> False | Some w \<Rightarrow> w \<noteq> v)"

definition declare_path :: "pylib \<Rightarrow> pystr \<Rightarrow> suite_acc \<Rightarrow> pyexc + suite_acc" where
  "declare_path L p acc =
     rbind (windows_path_key L p) (\<lambda>path_alias.
       if other_owner (acc_path_aliases acc) path_alias p then Inl ConfigurationError
       else if other_owner (acc_path_prefixes acc) path_alias p then Inl ConfigurationError
       else if \<exists>k \<in> set (proper_prefixes path_alias). other_owner (acc_path_aliases acc) k p
       then Inl ConfigurationError
       else Inr (acc\<lparr>acc_path_aliases := AList.update path_alias p (acc_path_aliases acc),
                     acc_path_prefixes :=
                       foldl (\<lambda>d k. setdefault k p d) (acc_path_prefixes acc)
                         (proper_prefixes path_alias)\<rparr>))"

definition input_output_overlap :: "pylib \<Rightarrow> pystr list \<Rightarrow> pystr list \<Rightarrow> pyexc + unit" where
  "input_output_overlap L inputs outputs =
     rbind (rmap (windows_path_key L) outputs) (\<lambda>output_aliases.
     rbind (rmap (windows_path_key L) inputs) (\<lambda>input_aliases.
       if \<exists>k \<in> set input_aliases. k \<in> set output_aliases then Inl ConfigurationError else Inr ()))"

fun note_seeds :: "pystr list \<Rightarrow> (pystr \<times> pystr) list \<Rightarrow> pystr list \<Rightarrow> pystr list" where
  "note_seeds [] produced seeds = seeds"
| "note_seeds (p # ps) produced seeds =
     note_seeds ps produced
       (if map_of produced p = None \<and> p \<notin> set seeds then seeds @ [p] else seeds)"

fun note_outputs ::
  "pystr list \<Rightarrow> pystr \<Rightarrow> pystr list \<Rightarrow> (pystr \<times> pystr) list \<Rightarrow> pyexc + (pystr \<times> pystr) list" where
  "note_outputs [] t seeds produced = Inr produced"
| "note_outputs (p # ps) t seeds produced =
     (if map_of produced p \<noteq> None then Inl ConfigurationError
      else if p \<in> set seeds then Inl ConfigurationError
      else note_outputs ps t seeds (AList.update p t produced))"

definition parse_task :: "pylib \<Rightarrow> int \<Rightarrow> pyval \<Rightarrow> suite_acc \<Rightarrow> pyexc + suite_acc" where
  "parse_task L version v acc =
     (case v of
        PDict raw_task \<Rightarrow>
          rbind (only_keys raw_task [''id'', ''argv'', ''inputs'', ''outputs'']) (\<lambda>_.
          rbind (declare_task_id L (fld raw_task ''id'') acc) (\<lambda>acc1.
          rbind (parse_argv L version (fld raw_task ''argv'')) (\<lambda>argv.
          rbind (parse_task_paths L raw_task (acc_references acc1)) (\<lambda>(inputs, outputs, refs).
          rbind (rfold (declare_path L) (inputs @ outputs) (acc1\<lparr>acc_references := refs\<rparr>)) (\<lambda>acc2.
          rbind (input_output_overlap L inputs outputs) (\<lambda>_.
          let t = str_of (fld raw_task ''id'');
              seeds = note_seeds inputs (acc_produced acc2) (acc_seeds acc2) in
          rbind (note_outputs outputs t seeds (acc_produced acc2)) (\<lambda>produced.
            Inr (acc2\<lparr>acc_seeds := seeds, acc_produced := produced,
                      acc_tasks := acc_tasks acc2 @
                        [\<lparr>task_id = t, task_argv = argv, task_inputs = inputs,
                          task_outputs = outputs\<rparr>]\<rparr>))))))))
      | _ \<Rightarrow> Inl ConfigurationError)"

definition parse_tasks :: "pylib \<Rightarrow> int \<Rightarrow> pyval \<Rightarrow> pyexc + suite_acc" where
  "parse_tasks L version v =
     (case v of
        PList raw_tasks \<Rightarrow>
          (if raw_tasks = [] then Inl ConfigurationError
           else if length raw_tasks > MAX_SUITE_TASKS then Inl ConfigurationError
           else rfold (parse_task L version) raw_tasks empty_acc)
      | _ \<Rightarrow> Inl ConfigurationError)"

definition check_workspace_placement :: "pylib \<Rightarrow> workspace_descriptor \<Rightarrow> pyexc + unit" where
  "check_workspace_placement L w =
     rbind (windows_path_key L (wsd_root w)) (\<lambda>root_key.
     rbind (windows_path_key L (wsd_manifest w)) (\<lambda>manifest_key.
       if take (length root_key) manifest_key = root_key then Inl ConfigurationError
       else Inr ()))"

text \<open>
  \<open>load_suite\<close> on the bytes it has read: \<open>toml\<close> is \<open>tomllib.loads\<close>, \<open>path\<close> the resolved path.
\<close>

definition suite_of_table :: "pylib \<Rightarrow> path \<Rightarrow> bytes \<Rightarrow> pydict \<Rightarrow> pyexc + suite_spec" where
  "suite_of_table L path raw parsed =
     rbind (suite_header parsed) (\<lambda>(version, name).
     rbind (if version \<ge> 2 then rbind (parse_context L parsed) (\<lambda>c. Inr (Some c)) else Inr None) (\<lambda>ctx.
     rbind (if version = 3 then rbind (parse_workspace L parsed) (\<lambda>w. Inr (Some w)) else Inr None) (\<lambda>ws.
     rbind (parse_tasks L version (fld parsed ''task'')) (\<lambda>acc.
       if version \<ge> 2 \<and> (case ctx of None \<Rightarrow> False | Some c \<Rightarrow> ctx_path c \<notin> set (acc_seeds acc))
       then Inl ConfigurationError
       else if version = 3 \<and> (ctx = None \<or> ws = None) then Inl ConfigurationError
       else rbind (case ws of Some w \<Rightarrow> check_workspace_placement L w | None \<Rightarrow> Inr ()) (\<lambda>_.
         Inr \<lparr>suite_path = path, suite_root = butlast path, suite_name = strip name,
              suite_version = version, suite_tasks = acc_tasks acc,
              suite_seed_inputs = acc_seeds acc, suite_identity = identity_of L raw,
              suite_context = ctx, suite_workspace = ws\<rparr>)))))"

definition parse_suite ::
  "pylib \<Rightarrow> (pystr \<Rightarrow> pyval option) \<Rightarrow> path \<Rightarrow> bytes \<Rightarrow> pyexc + suite_spec" where
  "parse_suite L toml path raw =
     (case Option.bind (utf8_decode raw) toml of
        Some (PDict parsed) \<Rightarrow> suite_of_table L path raw parsed
      | _ \<Rightarrow> Inl ConfigurationError)"

section \<open>The alias and prefix tables\<close>

text \<open>
  The alias key of an accepted path, and the abstract condition on a set of declared paths:
  paths with equal keys are equal and no key is a proper prefix of another.
\<close>

definition path_key :: "pylib \<Rightarrow> pystr \<Rightarrow> pystr list" where
  "path_key L p = map (\<lambda>c. casefold L (nfc L c)) (split_on 47 p)"

definition unaliased :: "pylib \<Rightarrow> pystr set \<Rightarrow> bool" where
  "unaliased L D \<longleftrightarrow>
     (\<forall>p \<in> D. \<forall>q \<in> D. path_key L p = path_key L q \<longrightarrow> p = q)
     \<and> (\<forall>p \<in> D. \<forall>q \<in> D. \<not> strict_prefix (path_key L p) (path_key L q))"

text \<open>The tables represent the set of paths declared so far.\<close>

definition tables_for :: "pylib \<Rightarrow> pystr set \<Rightarrow> suite_acc \<Rightarrow> bool" where
  "tables_for L D acc \<longleftrightarrow>
     (\<forall>p \<in> D. portable_path L p)
     \<and> (\<forall>k p. map_of (acc_path_aliases acc) k = Some p \<longleftrightarrow> p \<in> D \<and> path_key L p = k)
     \<and> (\<forall>k p. map_of (acc_path_prefixes acc) k = Some p \<longrightarrow>
           p \<in> D \<and> k \<in> set (proper_prefixes (path_key L p)))
     \<and> (\<forall>p \<in> D. \<forall>k \<in> set (proper_prefixes (path_key L p)). map_of (acc_path_prefixes acc) k \<noteq> None)"

lemma set_proper_prefixes:
  "set (proper_prefixes k) = {x. strict_prefix x k \<and> x \<noteq> []}"
proof -
  have "x \<in> set (proper_prefixes k) \<longleftrightarrow> (\<exists>n. 0 < n \<and> n < length k \<and> x = take n k)" for x
    unfolding proper_prefixes_def by (auto simp: image_iff Suc_le_eq Bex_def)
  also have "(\<exists>n. 0 < n \<and> n < length k \<and> x = take n k) \<longleftrightarrow> strict_prefix x k \<and> x \<noteq> []" for x
  proof
    assume "\<exists>n. 0 < n \<and> n < length k \<and> x = take n k"
    then show "strict_prefix x k \<and> x \<noteq> []"
      by (auto simp: strict_prefix_def take_is_prefix)
  next
    assume a: "strict_prefix x k \<and> x \<noteq> []"
    then obtain z zs where "k = x @ z # zs" by (auto elim: strict_prefixE')
    with a show "\<exists>n. 0 < n \<and> n < length k \<and> x = take n k"
      by (intro exI [of _ "length x"]) auto
  qed
  finally show ?thesis by blast
qed

lemma path_key_not_Nil [simp]: "path_key L p \<noteq> []"
  by (simp add: path_key_def)

lemma windows_path_key_eq: "windows_path_key L p = Inr k \<longleftrightarrow> portable_path L p \<and> k = path_key L p"
  by (simp add: windows_path_key_iff path_key_def)

lemma map_of_setdefault:
  "map_of (setdefault k v d) = (if map_of d k = None then (map_of d)(k \<mapsto> v) else map_of d)"
  by (auto simp: setdefault_def map_add_def fun_eq_iff split: option.splits)

lemma map_of_foldl_setdefault:
  "map_of (foldl (\<lambda>d k. setdefault k v d) d ks) k =
     (case map_of d k of Some w \<Rightarrow> Some w | None \<Rightarrow> if k \<in> set ks then Some v else None)"
  by (induction ks arbitrary: d) (auto simp: map_of_setdefault split: option.splits)

lemma other_owner_iff: "other_owner d k v \<longleftrightarrow> (\<exists>w. map_of d k = Some w \<and> w \<noteq> v)"
  by (auto simp: other_owner_def split: option.splits)

lemma other_alias:
  "tables_for L D acc \<Longrightarrow>
   other_owner (acc_path_aliases acc) k p \<longleftrightarrow> (\<exists>q \<in> D. path_key L q = k \<and> q \<noteq> p)"
  by (auto simp: other_owner_iff tables_for_def)

lemma other_prefix:
  assumes "tables_for L D acc"
  shows "other_owner (acc_path_prefixes acc) (path_key L p) p \<longleftrightarrow>
    (\<exists>q \<in> D. strict_prefix (path_key L p) (path_key L q))"
proof
  assume "other_owner (acc_path_prefixes acc) (path_key L p) p"
  then obtain q where "map_of (acc_path_prefixes acc) (path_key L p) = Some q"
    by (auto simp: other_owner_iff)
  with assms have "q \<in> D \<and> path_key L p \<in> set (proper_prefixes (path_key L q))"
    by (simp add: tables_for_def)
  then show "\<exists>q \<in> D. strict_prefix (path_key L p) (path_key L q)"
    by (auto simp: set_proper_prefixes)
next
  assume "\<exists>q \<in> D. strict_prefix (path_key L p) (path_key L q)"
  then obtain q where "q \<in> D" "path_key L p \<in> set (proper_prefixes (path_key L q))"
    by (auto simp: set_proper_prefixes)
  with assms have "map_of (acc_path_prefixes acc) (path_key L p) \<noteq> None"
    unfolding tables_for_def by blast
  then obtain r where r: "map_of (acc_path_prefixes acc) (path_key L p) = Some r" by blast
  with assms have "path_key L p \<in> set (proper_prefixes (path_key L r))"
    by (simp add: tables_for_def)
  then have "r \<noteq> p" by (auto simp: set_proper_prefixes)
  with r show "other_owner (acc_path_prefixes acc) (path_key L p) p"
    by (auto simp: other_owner_iff)
qed

lemma unaliased_insert:
  assumes "unaliased L D"
  shows "unaliased L (insert p D) \<longleftrightarrow>
    \<not> (\<exists>q \<in> D. path_key L q = path_key L p \<and> q \<noteq> p)
    \<and> \<not> (\<exists>q \<in> D. strict_prefix (path_key L p) (path_key L q))
    \<and> \<not> (\<exists>q \<in> D. strict_prefix (path_key L q) (path_key L p))"
  using assms unfolding unaliased_def by (auto 0 4)

lemma declare_path_tables:
  assumes "tables_for L D acc" "portable_path L p"
    and "\<not> (\<exists>q \<in> D. path_key L q = path_key L p \<and> q \<noteq> p)"
  shows "tables_for L (insert p D)
    (acc\<lparr>acc_path_aliases := AList.update (path_key L p) p (acc_path_aliases acc),
         acc_path_prefixes := foldl (\<lambda>d k. setdefault k p d) (acc_path_prefixes acc)
           (proper_prefixes (path_key L p))\<rparr>)"
  using assms unfolding tables_for_def
  by (auto simp: update_conv map_of_foldl_setdefault split: option.splits) fastforce

text \<open>One step of the loop refines inserting the path into an unaliased set.\<close>

lemma declare_path_refines:
  assumes "tables_for L D acc" "unaliased L D"
  shows "(\<exists>acc'. declare_path L p acc = Inr acc') \<longleftrightarrow> portable_path L p \<and> unaliased L (insert p D)"
    and "declare_path L p acc = Inr acc' \<Longrightarrow> tables_for L (insert p D) acc'"
proof -
  have key: "(\<exists>k \<in> set (proper_prefixes (path_key L p)). other_owner (acc_path_aliases acc) k p)
      \<longleftrightarrow> (\<exists>q \<in> D. strict_prefix (path_key L q) (path_key L p))"
    using assms(1) by (auto simp: other_alias set_proper_prefixes)
  have "(\<exists>acc'. declare_path L p acc = Inr acc') \<longleftrightarrow> portable_path L p
      \<and> \<not> other_owner (acc_path_aliases acc) (path_key L p) p
      \<and> \<not> other_owner (acc_path_prefixes acc) (path_key L p) p
      \<and> \<not> (\<exists>k \<in> set (proper_prefixes (path_key L p)). other_owner (acc_path_aliases acc) k p)"
    by (auto simp: declare_path_def windows_path_key_eq)
  then show "(\<exists>acc'. declare_path L p acc = Inr acc') \<longleftrightarrow>
      portable_path L p \<and> unaliased L (insert p D)"
    unfolding key unfolding other_alias [OF assms(1)] other_prefix [OF assms(1)]
      unaliased_insert [OF assms(2)] .
  assume "declare_path L p acc = Inr acc'"
  then show "tables_for L (insert p D) acc'"
    using declare_path_tables [OF assms(1), of p] other_alias [OF assms(1)]
    by (auto simp: declare_path_def windows_path_key_eq)
qed

lemma declare_paths_refines:
  assumes "tables_for L D acc" "unaliased L D"
  shows "(\<exists>acc'. rfold (declare_path L) ps acc = Inr acc') \<longleftrightarrow>
      (\<forall>p \<in> set ps. portable_path L p) \<and> unaliased L (set ps \<union> D)"
    and "rfold (declare_path L) ps acc = Inr acc' \<Longrightarrow> tables_for L (set ps \<union> D) acc'"
  using assms
proof (induction ps arbitrary: D acc)
  case Nil
  {
    case 1 then show ?case by simp
  next
    case 2 then show ?case by simp
  }
next
  case (Cons p ps)
  have mono: "unaliased L (set (p # ps) \<union> E) \<Longrightarrow> unaliased L (insert p E)" for E
    by (auto simp: unaliased_def)
  {
    case 1
    note step = declare_path_refines [OF 1, of p]
    show ?case
    proof (cases "declare_path L p acc")
      case (Inl e)
      with step(1) have "\<not> (portable_path L p \<and> unaliased L (insert p D))" by simp
      then have "\<not> ((\<forall>p \<in> set (p # ps). portable_path L p) \<and> unaliased L (set (p # ps) \<union> D))"
        using mono by fastforce
      with Inl show ?thesis by simp
    next
      case (Inr acc1)
      with step have "tables_for L (insert p D) acc1" "unaliased L (insert p D)" "portable_path L p"
        by auto
      with Cons.IH(1) [of "insert p D" acc1] Inr show ?thesis by simp
    qed
  next
    case 2
    note step = declare_path_refines [OF 2(2,3), of p]
    from 2(1) obtain acc1 where a: "declare_path L p acc = Inr acc1"
      "rfold (declare_path L) ps acc1 = Inr acc'" by auto
    with step have "tables_for L (insert p D) acc1" "unaliased L (insert p D)" by auto
    with Cons.IH(2) [of acc1 "insert p D"] a(2) show ?case by simp
  }
qed

section \<open>What an accepted plan satisfies\<close>

definition produced_by :: "task_spec list \<Rightarrow> pystr set" where
  "produced_by ts = (\<Union>t \<in> set ts. set (task_outputs t))"

definition declared :: "task_spec list \<Rightarrow> pystr set" where
  "declared ts = (\<Union>t \<in> set ts. set (task_inputs t) \<union> set (task_outputs t))"

definition id_key :: "pylib \<Rightarrow> task_spec \<Rightarrow> pystr" where
  "id_key L t = casefold L (nfc L (task_id t))"

text \<open>A task reads seed inputs and outputs of earlier tasks only.\<close>

definition reads_earlier :: "pystr list \<Rightarrow> task_spec list \<Rightarrow> bool" where
  "reads_earlier seeds ts \<longleftrightarrow>
     (\<forall>i < length ts. set (task_inputs (ts ! i)) \<subseteq> set seeds \<union> produced_by (take i ts))"

definition argv_ok :: "pylib \<Rightarrow> int \<Rightarrow> pystr list \<Rightarrow> bool" where
  "argv_ok L version argv \<longleftrightarrow>
     argv \<noteq> [] \<and> hd argv \<noteq> [] \<and> length argv \<le> MAX_TASK_ARGUMENTS
     \<and> (version \<ge> 2 \<longrightarrow> portable_path L (hd argv))
     \<and> (\<forall>a \<in> set argv. 0 \<notin> set a \<and>
          (\<exists>b. utf8 a = Some b \<and> length b \<le> MAX_TASK_ARGUMENT_UTF8_BYTES))
     \<and> sum_list (map (\<lambda>a. length (the (utf8 a))) argv) \<le> MAX_TASK_ARGUMENTS_UTF8_BYTES"

definition task_ok :: "pylib \<Rightarrow> int \<Rightarrow> task_spec \<Rightarrow> bool" where
  "task_ok L version t \<longleftrightarrow>
     TASK_ID (task_id t) \<and> portable_component L (task_id t) \<and> argv_ok L version (task_argv t)
     \<and> length (task_inputs t) \<le> MAX_TASK_INPUTS
     \<and> task_outputs t \<noteq> [] \<and> length (task_outputs t) \<le> MAX_TASK_OUTPUTS
     \<and> distinct (task_inputs t @ task_outputs t)"

definition plan_ok :: "pylib \<Rightarrow> int \<Rightarrow> pystr list \<Rightarrow> task_spec list \<Rightarrow> bool" where
  "plan_ok L version seeds ts \<longleftrightarrow>
     (\<forall>t \<in> set ts. task_ok L version t)
     \<and> distinct (map (id_key L) ts)
     \<and> (\<forall>p \<in> declared ts. portable_path L p) \<and> unaliased L (declared ts)
     \<and> distinct (concat (map task_outputs ts))
     \<and> distinct seeds \<and> set seeds \<inter> produced_by ts = {} \<and> set seeds \<subseteq> declared ts
     \<and> reads_earlier seeds ts
     \<and> sum_list (map (\<lambda>t. length (task_inputs t) + length (task_outputs t)) ts)
         \<le> MAX_SUITE_PATH_REFERENCES"

text \<open>The loop invariant: the tables describe the tasks accepted so far.\<close>

definition acc_inv :: "pylib \<Rightarrow> int \<Rightarrow> suite_acc \<Rightarrow> bool" where
  "acc_inv L version acc \<longleftrightarrow>
     plan_ok L version (acc_seeds acc) (acc_tasks acc)
     \<and> tables_for L (declared (acc_tasks acc)) acc
     \<and> (\<forall>p. map_of (acc_produced acc) p \<noteq> None \<longleftrightarrow> p \<in> produced_by (acc_tasks acc))
     \<and> (\<forall>k. map_of (acc_id_aliases acc) k \<noteq> None \<longleftrightarrow> k \<in> set (map (id_key L) (acc_tasks acc)))
     \<and> acc_references acc =
         sum_list (map (\<lambda>t. length (task_inputs t) + length (task_outputs t)) (acc_tasks acc))"

lemma boundary_to_config_error [simp]: "boundary_to_config BoundaryError = ConfigurationError"
  by (simp add: boundary_to_config_def)

lemma rmap_total_Inr: "(\<forall>x \<in> set xs. f x = Inr (g x)) \<Longrightarrow> rmap f xs = Inr (map g xs)"
  by (induction xs) auto

lemma alias_scan_iff:
  "alias_scan L items [] = Inr () \<Longrightarrow> (\<forall>p \<in> set items. portable_path L p)"
proof -
  have "alias_scan L items d = Inr () \<Longrightarrow> (\<forall>p \<in> set items. portable_path L p)" for d
    by (induction items arbitrary: d)
      (auto simp: windows_path_key_eq split: option.splits if_splits)
  then show "alias_scan L items [] = Inr () \<Longrightarrow> (\<forall>p \<in> set items. portable_path L p)" .
qed

lemma rmap_str_of:
  assumes "rmap f items = Inr ys" "\<And>x y. x \<in> set items \<Longrightarrow> f x = Inr y \<Longrightarrow> x = PStr y"
  shows "items = map PStr ys"
  using assms by (simp add: rmap_Inr_iff list_eq_iff_nth_eq list_all2_conv_all_nth)

lemma string_list_paths:
  assumes "string_list L True v = Inr ps"
  shows "v = PList (map PStr ps)" "distinct ps" "\<forall>p \<in> set ps. portable_path L p"
proof -
  from assms obtain items where v: "v = PList items"
    and m: "rmap (\<lambda>x. rcatch boundary_to_config (normalize_relative_file L x)) items = Inr ps"
    and d: "distinct ps" and a: "alias_scan L ps [] = Inr ()"
    by (auto simp: string_list_def split: pyval.splits)
  have "items = map PStr ps"
    by (rule rmap_str_of [OF m]) (simp add: normalize_relative_file_iff)
  with v d alias_scan_iff [OF a]
  show "v = PList (map PStr ps)" "distinct ps" "\<forall>p \<in> set ps. portable_path L p" by auto
qed

lemma string_list_plain:
  "string_list L False v = Inr xs \<longleftrightarrow> v = PList (map PStr xs) \<and> (\<forall>x \<in> set xs. 0 \<notin> set x)"
proof
  assume "string_list L False v = Inr xs"
  then obtain items where v: "v = PList items" and s: "\<forall>x \<in> set items. is_str x"
    and m: "rmap (\<lambda>x. if 0 \<in> set (str_of x) then Inl ConfigurationError else Inr (str_of x)) items
            = Inr xs"
    by (auto simp: string_list_def split: pyval.splits)
  have "items = map PStr xs"
    by (rule rmap_str_of [OF m]) (use s in \<open>auto simp: is_str_iff\<close>)
  moreover from m have "\<forall>x \<in> set xs. 0 \<notin> set x"
    by (induction items arbitrary: xs) auto
  ultimately show "v = PList (map PStr xs) \<and> (\<forall>x \<in> set xs. 0 \<notin> set x)" using v by simp
next
  assume "v = PList (map PStr xs) \<and> (\<forall>x \<in> set xs. 0 \<notin> set x)"
  moreover have "(\<forall>x \<in> set xs. 0 \<notin> set x) \<Longrightarrow>
      rmap (\<lambda>x. if 0 \<in> set (str_of x) then Inl ConfigurationError else Inr (str_of x)) (map PStr xs)
        = Inr xs"
    by (induction xs) auto
  ultimately show "string_list L False v = Inr xs" by (auto simp: string_list_def)
qed

lemma rmap_utf8_len:
  "rmap utf8_len xs = Inr ns \<longleftrightarrow>
     (\<forall>x \<in> set xs. utf8 x \<noteq> None) \<and> ns = map (\<lambda>x. length (the (utf8 x))) xs"
  by (induction xs arbitrary: ns) (auto simp: utf8_len_def split: option.splits)

lemma parse_argv_iff:
  "parse_argv L version v = Inr argv \<longleftrightarrow> v = PList (map PStr argv) \<and> argv_ok L version argv"
  unfolding parse_argv_def argv_ok_def
  by (auto simp: string_list_plain rmap_utf8_len normalize_relative_file_iff not_less
      split: if_splits) force+

lemma parse_task_paths_Inr:
  assumes "parse_task_paths L raw n = Inr (inputs, outputs, m)"
  shows "distinct inputs" "distinct outputs" "outputs \<noteq> []"
    "length inputs \<le> MAX_TASK_INPUTS" "length outputs \<le> MAX_TASK_OUTPUTS"
    "m = n + (length inputs + length outputs)" "m \<le> MAX_SUITE_PATH_REFERENCES"
    "\<forall>p \<in> set (inputs @ outputs). portable_path L p"
  using assms by (auto simp: parse_task_paths_def not_less dest: string_list_paths)

lemma declare_task_id_iff:
  "declare_task_id L v acc = Inr acc' \<longleftrightarrow>
     (\<exists>t. v = PStr t \<and> TASK_ID t \<and> portable_component L t
        \<and> map_of (acc_id_aliases acc) (casefold L (nfc L t)) = None \<and> t \<notin> set (acc_task_ids acc)
        \<and> acc' = acc\<lparr>acc_task_ids := t # acc_task_ids acc,
             acc_id_aliases := AList.update (casefold L (nfc L t)) t (acc_id_aliases acc)\<rparr>)"
  by (auto simp: declare_task_id_def windows_component_key_iff is_str_iff Let_def)

text \<open>Everything of the tables that declaring a path leaves alone.\<close>

definition plan_view :: "suite_acc \<Rightarrow> _" where
  "plan_view acc = (acc_task_ids acc, acc_id_aliases acc, acc_produced acc, acc_seeds acc,
     acc_tasks acc, acc_references acc)"

lemma declare_paths_frame:
  assumes "rfold (declare_path L) ps acc = Inr acc'"
  shows "plan_view acc' = plan_view acc"
  by (rule rfold_invariant [OF assms]) (auto simp: declare_path_def plan_view_def)

lemma note_seeds_eq:
  "set (note_seeds ps produced seeds) = set seeds \<union> {p \<in> set ps. map_of produced p = None}"
  "distinct seeds \<Longrightarrow> distinct (note_seeds ps produced seeds)"
  by (induction ps produced seeds rule: note_seeds.induct) auto

lemma note_outputs_Inr:
  assumes "note_outputs ps t seeds produced = Inr produced'"
  shows "set ps \<inter> set seeds = {}" "distinct ps" "\<forall>p \<in> set ps. map_of produced p = None"
    "map_of produced' p \<noteq> None \<longleftrightarrow> p \<in> set ps \<or> map_of produced p \<noteq> None"
  using assms
  by (induction ps t seeds produced rule: note_outputs.induct)
    (auto simp: update_conv split: if_splits)

lemma input_output_overlap_Inr:
  assumes "input_output_overlap L inputs outputs = Inr ()"
  shows "set inputs \<inter> set outputs = {}"
proof -
  from assms obtain ks js where "rmap (windows_path_key L) outputs = Inr ks"
      "rmap (windows_path_key L) inputs = Inr js" "set js \<inter> set ks = {}"
    by (auto simp: input_output_overlap_def)
  moreover have "rmap (windows_path_key L) ps = Inr ls \<Longrightarrow> ls = map (path_key L) ps" for ps ls
    by (induction ps arbitrary: ls) (auto simp: windows_path_key_eq)
  ultimately have "set (map (path_key L) inputs) \<inter> set (map (path_key L) outputs) = {}" by metis
  then show ?thesis by auto
qed

lemma declared_simps [simp]:
  "declared [] = {}"
  "declared (ts @ [t]) = set (task_inputs t @ task_outputs t) \<union> declared ts"
  "produced_by [] = {}" "produced_by (ts @ [t]) = set (task_outputs t) \<union> produced_by ts"
  by (auto simp: declared_def produced_by_def)

lemma tables_for_cong:
  assumes "tables_for L D acc" "acc_path_aliases acc' = acc_path_aliases acc"
    "acc_path_prefixes acc' = acc_path_prefixes acc"
  shows "tables_for L D acc'"
  using assms by (simp add: tables_for_def)

lemma reads_earlier_snoc:
  assumes "reads_earlier seeds ts" "set seeds \<subseteq> set seeds'"
    "set (task_inputs t) \<subseteq> set seeds' \<union> produced_by ts"
  shows "reads_earlier seeds' (ts @ [t])"
  using assms unfolding reads_earlier_def
  by (auto simp: nth_append less_Suc_eq subset_iff)

lemma empty_acc_inv: "acc_inv L version empty_acc"
  by (simp add: acc_inv_def plan_ok_def tables_for_def empty_acc_def unaliased_def reads_earlier_def)

lemma plan_ok_snoc:
  assumes "plan_ok L version seeds ts" "task_ok L version t" "id_key L t \<notin> set (map (id_key L) ts)"
    and "\<forall>p \<in> set (task_inputs t @ task_outputs t). portable_path L p"
    and "unaliased L (set (task_inputs t @ task_outputs t) \<union> declared ts)"
    and "set (task_outputs t) \<inter> produced_by ts = {}"
    and "set seeds' = set seeds \<union> {p \<in> set (task_inputs t). p \<notin> produced_by ts}" "distinct seeds'"
    and "set (task_outputs t) \<inter> set seeds' = {}"
    and "sum_list (map (\<lambda>t. length (task_inputs t) + length (task_outputs t)) (ts @ [t]))
         \<le> MAX_SUITE_PATH_REFERENCES"
  shows "plan_ok L version seeds' (ts @ [t])"
proof -
  have "reads_earlier seeds' (ts @ [t])"
    using assms(1,7) by (intro reads_earlier_snoc [of seeds]) (auto simp: plan_ok_def)
  moreover have "distinct (concat (map task_outputs (ts @ [t])))"
    using assms(1,2,6) by (auto simp: plan_ok_def task_ok_def produced_by_def)
  moreover have "set seeds' \<inter> produced_by (ts @ [t]) = {}"
    using assms(1,7,9) by (auto simp: plan_ok_def)
  moreover have "set seeds' \<subseteq> declared (ts @ [t])"
    using assms(1,7) by (auto simp: plan_ok_def)
  ultimately show ?thesis
    using assms(1-5,8,10) by (auto simp: plan_ok_def)
qed

lemma parse_task_inv:
  assumes inv: "acc_inv L version acc" and step: "parse_task L version v acc = Inr acc'"
  shows "acc_inv L version acc'"
proof -
  from step obtain raw acc1 argv inputs outputs refs acc2 produced where v: "v = PDict raw"
    and id: "declare_task_id L (fld raw ''id'') acc = Inr acc1"
    and argv: "parse_argv L version (fld raw ''argv'') = Inr argv"
    and paths: "parse_task_paths L raw (acc_references acc1) = Inr (inputs, outputs, refs)"
    and decl: "rfold (declare_path L) (inputs @ outputs) (acc1\<lparr>acc_references := refs\<rparr>) = Inr acc2"
    and overlap: "input_output_overlap L inputs outputs = Inr ()"
    and outs: "note_outputs outputs (str_of (fld raw ''id''))
        (note_seeds inputs (acc_produced acc2) (acc_seeds acc2)) (acc_produced acc2) = Inr produced"
    and acc': "acc' = acc2\<lparr>acc_seeds := note_seeds inputs (acc_produced acc2) (acc_seeds acc2),
        acc_produced := produced, acc_tasks := acc_tasks acc2 @
          [\<lparr>task_id = str_of (fld raw ''id''), task_argv = argv, task_inputs = inputs,
            task_outputs = outputs\<rparr>]\<rparr>"
    by (auto simp: parse_task_def Let_def split: pyval.splits)
  from id obtain t where t: "fld raw ''id'' = PStr t" "TASK_ID t" "portable_component L t"
    "map_of (acc_id_aliases acc) (casefold L (nfc L t)) = None"
    and acc1: "acc1 = acc\<lparr>acc_task_ids := t # acc_task_ids acc,
      acc_id_aliases := AList.update (casefold L (nfc L t)) t (acc_id_aliases acc)\<rparr>"
    by (auto simp: declare_task_id_iff)
  note fr = declare_paths_frame [OF decl, unfolded plan_view_def acc1, simplified]
  note ps = parse_task_paths_Inr [OF paths] and os = note_outputs_Inr [OF outs]
  define task where "task = \<lparr>task_id = t, task_argv = argv, task_inputs = inputs,
    task_outputs = outputs\<rparr>"
  let ?ts = "acc_tasks acc" and ?seeds = "note_seeds inputs (acc_produced acc) (acc_seeds acc)"
  have produced: "map_of (acc_produced acc) p = None \<longleftrightarrow> p \<notin> produced_by ?ts" for p
    using inv unfolding acc_inv_def by blast
  have tab: "tables_for L (declared ?ts) (acc1\<lparr>acc_references := refs\<rparr>)" "unaliased L (declared ?ts)"
    using inv by (auto simp: acc_inv_def plan_ok_def acc1 elim: tables_for_cong)
  note tab2 = declare_paths_refines [OF tab, of "inputs @ outputs"]
  have un: "unaliased L (set (inputs @ outputs) \<union> declared ?ts)" using tab2(1) decl by blast
  have refs: "refs = sum_list (map (\<lambda>t. length (task_inputs t) + length (task_outputs t)) (?ts @ [task]))"
    using inv ps(6) by (simp add: acc_inv_def acc1 task_def)
  have ok: "task_ok L version task"
    using t(2,3) ps(1-5) argv input_output_overlap_Inr [OF overlap]
    by (simp add: task_ok_def task_def parse_argv_iff)
  have key: "id_key L task \<notin> set (map (id_key L) ?ts)"
    using inv t(4) by (force simp: acc_inv_def id_key_def task_def)
  have "plan_ok L version ?seeds (?ts @ [task])"
  proof (rule plan_ok_snoc [of L version "acc_seeds acc"])
    show "plan_ok L version (acc_seeds acc) ?ts" using inv by (simp add: acc_inv_def)
    show "distinct ?seeds"
      using inv by (intro note_seeds_eq(2)) (simp add: acc_inv_def plan_ok_def)
  qed (use ok key ps(7,8) un os(1,3) refs fr in
      \<open>auto simp: task_def note_seeds_eq produced\<close>)
  moreover have "tables_for L (declared (?ts @ [task])) acc'"
    using tab2(2) [OF decl] by (intro tables_for_cong [of L _ acc2 acc']) (simp_all add: acc' task_def)
  ultimately show ?thesis
    using fr refs os(4) t(1) inv
    by (auto simp: acc_inv_def acc' task_def id_key_def update_conv produced)
qed

lemma parse_tasks_inv:
  assumes "parse_tasks L version v = Inr acc"
  shows "acc_inv L version acc"
proof -
  from assms obtain raw where "rfold (parse_task L version) raw empty_acc = Inr acc"
    by (auto simp: parse_tasks_def split: pyval.splits)
  then show ?thesis
    by (rule rfold_invariant) (auto intro: empty_acc_inv parse_task_inv)
qed

text \<open>How many tasks the loop has accepted.\<close>

lemma parse_task_length:
  "parse_task L version v acc = Inr acc' \<Longrightarrow> length (acc_tasks acc') = Suc (length (acc_tasks acc))"
  by (auto simp: parse_task_def Let_def declare_task_id_iff plan_view_def split: pyval.splits
      dest!: declare_paths_frame)

lemma parse_tasks_length:
  assumes "parse_tasks L version (PList raw) = Inr acc"
  shows "length (acc_tasks acc) = length raw"
proof -
  have "rfold (parse_task L version) raw a = Inr acc \<Longrightarrow>
      length (acc_tasks acc) = length (acc_tasks a) + length raw" for a
    by (induction raw arbitrary: a) (auto dest: parse_task_length)
  with assms show ?thesis by (auto simp: parse_tasks_def empty_acc_def)
qed

lemma parse_tasks_bounds:
  assumes "parse_tasks L version v = Inr acc"
  shows "acc_tasks acc \<noteq> []" "length (acc_tasks acc) \<le> MAX_SUITE_TASKS"
proof -
  from assms obtain ts where ts: "v = PList ts" "ts \<noteq> []" "length ts \<le> MAX_SUITE_TASKS"
    by (auto simp: parse_tasks_def not_less split: pyval.splits)
  with assms have "length (acc_tasks acc) = length ts" by (metis parse_tasks_length)
  with ts show "acc_tasks acc \<noteq> []" "length (acc_tasks acc) \<le> MAX_SUITE_TASKS" by auto
qed

section \<open>Reading a normalized plan again\<close>

text \<open>
  The dictionaries a suite records in its evidence are themselves accepted, with the same
  tables: each accepted raw task can be replaced by \<open>as_dict\<close> of the task it produced.
\<close>

lemma string_list_canonical:
  "string_list L b v = Inr xs \<Longrightarrow> string_list L b (PList (map PStr xs)) = Inr xs"
  by (cases b) (auto simp: string_list_plain dest: string_list_paths(1))

lemma parse_task_canonical:
  assumes "parse_task L version v acc = Inr acc'"
  shows "parse_task L version (task_as_dict (last (acc_tasks acc'))) acc = Inr acc'"
proof -
  from assms obtain raw acc1 argv inputs outputs refs acc2 produced where v: "v = PDict raw"
    and id: "declare_task_id L (fld raw ''id'') acc = Inr acc1"
    and argv: "parse_argv L version (fld raw ''argv'') = Inr argv"
    and paths: "parse_task_paths L raw (acc_references acc1) = Inr (inputs, outputs, refs)"
    and rest: "rfold (declare_path L) (inputs @ outputs) (acc1\<lparr>acc_references := refs\<rparr>) = Inr acc2"
      "input_output_overlap L inputs outputs = Inr ()"
      "note_outputs outputs (str_of (fld raw ''id''))
        (note_seeds inputs (acc_produced acc2) (acc_seeds acc2)) (acc_produced acc2) = Inr produced"
    and acc': "acc' = acc2\<lparr>acc_seeds := note_seeds inputs (acc_produced acc2) (acc_seeds acc2),
        acc_produced := produced, acc_tasks := acc_tasks acc2 @
          [\<lparr>task_id = str_of (fld raw ''id''), task_argv = argv, task_inputs = inputs,
            task_outputs = outputs\<rparr>]\<rparr>"
    by (auto simp: parse_task_def Let_def split: pyval.splits)
  from id obtain t where t: "fld raw ''id'' = PStr t" by (auto simp: declare_task_id_iff)
  have a: "parse_argv L version (PList (map PStr argv)) = Inr argv"
    using argv by (simp add: parse_argv_iff)
  have "string_list L True (PList (map PStr inputs)) = Inr inputs"
    "string_list L True (PList (map PStr outputs)) = Inr outputs"
    using paths by (auto simp: parse_task_paths_def dest: string_list_canonical split: if_splits)
  then have p: "parse_task_paths L (dict_of (task_as_dict (last (acc_tasks acc')))) (acc_references acc1)
      = Inr (inputs, outputs, refs)"
    using paths by (auto simp: parse_task_paths_def task_as_dict_def acc')
  show ?thesis
    using id a p rest t
    by (simp add: parse_task_def task_as_dict_def acc' only_keys_def dkeys_def Let_def)
qed

lemma rfold_canonical:
  assumes "rfold (parse_task L version) raw acc = Inr acc'"
  shows "rfold (parse_task L version)
    (map task_as_dict (drop (length (acc_tasks acc)) (acc_tasks acc'))) acc = Inr acc'
    \<and> take (length (acc_tasks acc)) (acc_tasks acc') = acc_tasks acc"
  using assms
proof (induction raw arbitrary: acc)
  case Nil
  then show ?case by simp
next
  case (Cons v raw)
  then obtain acc1 where a: "parse_task L version v acc = Inr acc1"
    and r: "rfold (parse_task L version) raw acc1 = Inr acc'" by auto
  from a obtain t where t: "acc_tasks acc1 = acc_tasks acc @ [t]"
    by (auto simp: parse_task_def Let_def declare_task_id_iff plan_view_def split: pyval.splits
      dest!: declare_paths_frame)
  note ih = Cons.IH [OF r]
  from ih t have "take (Suc (length (acc_tasks acc))) (acc_tasks acc') = acc_tasks acc @ [t]"
    by (metis length_append_singleton)
  then have "acc_tasks acc' = acc_tasks acc @ t # drop (Suc (length (acc_tasks acc))) (acc_tasks acc')"
    by (metis append.assoc append_Cons append_Nil append_take_drop_id)
  then have s: "drop (length (acc_tasks acc)) (acc_tasks acc')
      = t # drop (length (acc_tasks acc1)) (acc_tasks acc')"
      "take (length (acc_tasks acc)) (acc_tasks acc') = acc_tasks acc"
    using t by (metis append_eq_conv_conj length_append_singleton)+
  show ?case
    using parse_task_canonical [OF a] ih by (simp add: s t)
qed

lemma parse_tasks_canonical:
  assumes "parse_tasks L version v = Inr acc"
  shows "parse_tasks L version (PList (map task_as_dict (acc_tasks acc))) = Inr acc"
proof -
  from assms obtain raw where r: "v = PList raw" "raw \<noteq> []" "length raw \<le> MAX_SUITE_TASKS"
    "rfold (parse_task L version) raw empty_acc = Inr acc"
    by (auto simp: parse_tasks_def not_less split: pyval.splits)
  with parse_tasks_length assms have "length (acc_tasks acc) = length raw" by blast
  with r rfold_canonical [OF r(4)] show ?thesis
    by (auto simp: parse_tasks_def empty_acc_def)
qed

section \<open>Accepted suites\<close>

lemma check_workspace_placement_iff:
  "check_workspace_placement L w = Inr () \<longleftrightarrow>
     portable_path L (wsd_root w) \<and> portable_path L (wsd_manifest w)
     \<and> \<not> prefix (path_key L (wsd_root w)) (path_key L (wsd_manifest w))"
proof -
  have "take (length k) m = k \<longleftrightarrow> prefix k m" for k m :: "pystr list"
    by (metis append_eq_conv_conj prefix_def)
  then show ?thesis by (auto simp: check_workspace_placement_def windows_path_key_eq)
qed

lemma parse_context_Inr:
  assumes "parse_context L parsed = Inr c"
  shows "portable_path L (ctx_path c)" "DESCRIPTOR_DIGEST (ctx_digest c)"
    "0 \<le> ctx_size c" "ctx_size c \<le> MAX_CONTEXT_SIZE" "ctx_media_type c \<noteq> []"
  using assms
  by (auto simp: parse_context_def Let_def normalize_relative_file_iff split: pyval.splits)

lemma parse_workspace_Inr:
  assumes "parse_workspace L parsed = Inr w"
  shows "portable_path L (wsd_root w)" "portable_path L (wsd_manifest w)"
    "DESCRIPTOR_DIGEST (wsd_digest w)" "0 \<le> wsd_size w"
    "wsd_size w \<le> int MAX_WORKSPACE_MANIFEST_BYTES" "wsd_policy w = WORKSPACE_POLICY"
  using assms
  by (auto simp: parse_workspace_def Let_def normalize_relative_file_iff split: pyval.splits)

lemma parse_suite_parts:
  assumes "parse_suite L toml path raw = Inr s"
  obtains parsed name acc where
    "suite_header parsed = Inr (suite_version s, name)" "suite_name s = strip name"
    "suite_version s \<in> {1, 2, 3}"
    "suite_version s \<ge> 2 \<Longrightarrow> \<exists>c. suite_context s = Some c \<and> parse_context L parsed = Inr c
       \<and> ctx_path c \<in> set (acc_seeds acc)"
    "suite_version s = 1 \<Longrightarrow> suite_context s = None"
    "suite_version s = 3 \<Longrightarrow> \<exists>w. suite_workspace s = Some w \<and> parse_workspace L parsed = Inr w
       \<and> check_workspace_placement L w = Inr ()"
    "suite_version s \<noteq> 3 \<Longrightarrow> suite_workspace s = None"
    "parse_tasks L (suite_version s) (fld parsed ''task'') = Inr acc"
    "suite_tasks s = acc_tasks acc" "suite_seed_inputs s = acc_seeds acc"
    "suite_identity s = identity_of L raw" "suite_root s = butlast path"
proof -
  from assms obtain parsed where "suite_of_table L path raw parsed = Inr s"
    by (auto simp: parse_suite_def split: option.splits pyval.splits)
  then obtain version name ctx ws acc where
    h: "suite_header parsed = Inr (version, name)"
    and c: "(if version \<ge> 2 then rbind (parse_context L parsed) (\<lambda>c. Inr (Some c)) else Inr None) = Inr ctx"
    and w: "(if version = 3 then rbind (parse_workspace L parsed) (\<lambda>w. Inr (Some w)) else Inr None) = Inr ws"
    and a: "parse_tasks L version (fld parsed ''task'') = Inr acc"
    and f: "\<not> (version \<ge> 2 \<and> (case ctx of None \<Rightarrow> False | Some c \<Rightarrow> ctx_path c \<notin> set (acc_seeds acc)))"
    and k: "(case ws of Some w \<Rightarrow> check_workspace_placement L w | None \<Rightarrow> Inr ()) = Inr ()"
    and s: "s = \<lparr>suite_path = path, suite_root = butlast path, suite_name = strip name,
                    suite_version = version, suite_tasks = acc_tasks acc,
                    suite_seed_inputs = acc_seeds acc, suite_identity = identity_of L raw,
                    suite_context = ctx, suite_workspace = ws\<rparr>"
    unfolding suite_of_table_def rbind_Inr_iff if_raise_Inr split_paired_Ex prod.case
      sum.inject
    by (elim exE conjE) (rule that, assumption+, simp, erule sym)
  have v: "version \<in> {1, 2, 3}" using h by (auto simp: suite_header_def Let_def)
  have c2: "version \<ge> 2 \<Longrightarrow> \<exists>c. ctx = Some c \<and> parse_context L parsed = Inr c
       \<and> ctx_path c \<in> set (acc_seeds acc)"
    using c f by auto
  have c1: "version = 1 \<Longrightarrow> ctx = None" using c by simp
  have w3: "version = 3 \<Longrightarrow> \<exists>w. ws = Some w \<and> parse_workspace L parsed = Inr w
       \<and> check_workspace_placement L w = Inr ()"
    using w k by auto
  have w0: "version \<noteq> 3 \<Longrightarrow> ws = None" using w by simp
  show ?thesis
  proof (rule that [of parsed name acc])
    show "suite_header parsed = Inr (suite_version s, name)" using h by (simp add: s)
    show "suite_version s \<in> {1, 2, 3}" using v by (simp add: s)
    show "parse_tasks L (suite_version s) (fld parsed ''task'') = Inr acc" using a by (simp add: s)
  qed (simp_all add: s c2 c1 w3 w0)
qed

text \<open>A small suite for concrete instances.\<close>

definition sample_toml :: "pystr \<Rightarrow> pyval option" where
  "sample_toml t = Some (PDict
     [(lit ''version'', PInt 1), (lit ''name'', PLit ''n''),
      (lit ''task'', PList
        [PDict [(lit ''id'', PLit ''a''), (lit ''argv'', PList [PLit ''x'']),
                (lit ''inputs'', PList [PLit ''s'']), (lit ''outputs'', PList [PLit ''d/o''])],
         PDict [(lit ''id'', PLit ''b''), (lit ''argv'', PList [PLit ''x'']),
                (lit ''inputs'', PList [PLit ''d/o'']), (lit ''outputs'', PList [PLit ''d/p''])]])])"

lemmas suite_eval = parse_suite_def suite_of_table_def suite_header_def only_keys_def root_keys_def
  strip_def is_space_def utf8_len_def MAX_SUITE_NAME_UTF8_BYTES_def parse_tasks_def
  MAX_SUITE_TASKS_def parse_task_def empty_acc_def declare_task_id_def TASK_ID_def is_alnum_def
  is_digit_def parse_argv_def string_list_def MAX_TASK_ARGUMENTS_def
  MAX_TASK_ARGUMENT_UTF8_BYTES_def MAX_TASK_ARGUMENTS_UTF8_BYTES_def parse_task_paths_def
  MAX_TASK_INPUTS_def MAX_TASK_OUTPUTS_def MAX_SUITE_PATH_REFERENCES_def declare_path_def
  other_owner_def proper_prefixes_def setdefault_def input_output_overlap_def sample_toml_def

definition sample_suite :: suite_spec where
  "sample_suite = \<lparr>suite_path = [lit ''suite.toml''], suite_root = [], suite_name = lit ''n'',
     suite_version = 1,
     suite_tasks = [\<lparr>task_id = lit ''a'', task_argv = [lit ''x''], task_inputs = [lit ''s''],
                     task_outputs = [lit ''d/o'']\<rparr>,
                    \<lparr>task_id = lit ''b'', task_argv = [lit ''x''], task_inputs = [lit ''d/o''],
                     task_outputs = [lit ''d/p'']\<rparr>],
     suite_seed_inputs = [lit ''s''], suite_identity = identity_of sample_lib ''x'',
     suite_context = None, suite_workspace = None\<rparr>"

lemma parse_sample_suite:
  "parse_suite sample_lib sample_toml [lit ''suite.toml''] ''x'' = Inr sample_suite"
  unfolding sample_suite_def
  by (simp add: pyval_eval paths_eval suite_eval del: decompose_simps cong: rbind_weak_cong)

definition sample_digest :: pystr where
  "sample_digest = lit ''sha256:'' @ replicate 64 48"

definition sample_toml3 :: "pystr \<Rightarrow> pyval option" where
  "sample_toml3 t = Some (PDict
     [(lit ''version'', PInt 3), (lit ''name'', PLit ''n''),
      (lit ''context'', PDict [(lit ''path'', PLit ''s''), (lit ''media_type'', PLit ''m''),
         (lit ''digest'', PStr sample_digest), (lit ''size'', PInt 0)]),
      (lit ''workspace'', PDict [(lit ''root'', PLit ''w''), (lit ''manifest'', PLit ''m''),
         (lit ''digest'', PStr sample_digest), (lit ''size'', PInt 7),
         (lit ''policy'', PStr WORKSPACE_POLICY)]),
      (lit ''task'', PList
        [PDict [(lit ''id'', PLit ''a''), (lit ''argv'', PList [PLit ''x'']),
                (lit ''inputs'', PList [PLit ''s'']), (lit ''outputs'', PList [PLit ''o''])]])])"

definition sample_suite3 :: suite_spec where
  "sample_suite3 = \<lparr>suite_path = [lit ''suite.toml''], suite_root = [], suite_name = lit ''n'',
     suite_version = 3,
     suite_tasks = [\<lparr>task_id = lit ''a'', task_argv = [lit ''x''], task_inputs = [lit ''s''],
                     task_outputs = [lit ''o'']\<rparr>],
     suite_seed_inputs = [lit ''s''], suite_identity = identity_of sample_lib ''x'',
     suite_context = Some \<lparr>ctx_path = lit ''s'', ctx_media_type = lit ''m'',
       ctx_digest = sample_digest, ctx_size = 0\<rparr>,
     suite_workspace = Some \<lparr>wsd_root = lit ''w'', wsd_manifest = lit ''m'',
       wsd_digest = sample_digest, wsd_size = 7, wsd_policy = WORKSPACE_POLICY\<rparr>\<rparr>"

lemmas descriptor_eval = parse_context_def parse_workspace_def DESCRIPTOR_DIGEST_def
  sample_digest_def MAX_CONTEXT_MEDIA_TYPE_UTF8_BYTES_def MAX_CONTEXT_SIZE_def
  MAX_WORKSPACE_MANIFEST_BYTES_def check_workspace_placement_def is_lower_hex_def

lemma parse_sample_suite3:
  "parse_suite sample_lib sample_toml3 [lit ''suite.toml''] ''x'' = Inr sample_suite3"
  unfolding sample_suite3_def
  by (simp add: sample_toml3_def pyval_eval paths_eval suite_eval descriptor_eval
      del: decompose_simps cong: rbind_weak_cong)

text \<open>
  C18: Every suite that \<open>load_suite\<close> accepts is a well-formed plan: one to 64 tasks, whose ids
  differ under the case-insensitive alias key; portable declared paths of which no two alias
  and none is an ancestor of another; one producer per output; no output that is also a seed
  input; and every task reads only seed inputs and outputs of earlier tasks.
\<close>

theorem load_suite_plan_ok:
  assumes "parse_suite L toml path raw = Inr s"
  shows "plan_ok L (suite_version s) (suite_seed_inputs s) (suite_tasks s)
    \<and> suite_tasks s \<noteq> [] \<and> length (suite_tasks s) \<le> MAX_SUITE_TASKS"
  using assms
proof (rule parse_suite_parts)
  fix parsed name acc
  assume a: "parse_tasks L (suite_version s) (fld parsed ''task'') = Inr acc"
    and s: "suite_tasks s = acc_tasks acc" "suite_seed_inputs s = acc_seeds acc"
  from parse_tasks_inv [OF a] parse_tasks_bounds [OF a] s show ?thesis by (simp add: acc_inv_def)
qed

theorem load_suite_plan_ok_witness:
  "plan_ok sample_lib 1 [lit ''s''] (suite_tasks sample_suite) \<and> length (suite_tasks sample_suite) = 2"
  using load_suite_plan_ok [OF parse_sample_suite] by (simp add: sample_suite_def)



text \<open>
  A suite of version 2 or 3 binds a context descriptor whose path is one of the seed
  inputs, and one of version 3 binds a workspace whose manifest lies outside the workspace
  root, also under case folding.
\<close>

theorem load_suite_descriptors:
  assumes "parse_suite L toml path raw = Inr s"
  shows "(suite_version s \<ge> 2 \<longrightarrow>
      (\<exists>c. suite_context s = Some c \<and> ctx_path c \<in> set (suite_seed_inputs s)
         \<and> DESCRIPTOR_DIGEST (ctx_digest c) \<and> 0 \<le> ctx_size c \<and> ctx_size c \<le> MAX_CONTEXT_SIZE))
    \<and> (suite_version s = 3 \<longrightarrow>
      (\<exists>w. suite_workspace s = Some w \<and> wsd_policy w = WORKSPACE_POLICY
         \<and> DESCRIPTOR_DIGEST (wsd_digest w) \<and> wsd_size w \<le> int MAX_WORKSPACE_MANIFEST_BYTES
         \<and> \<not> prefix (path_key L (wsd_root w)) (path_key L (wsd_manifest w))))"
  using assms
  by (rule parse_suite_parts)
    (metis check_workspace_placement_iff parse_context_Inr(2-4) parse_workspace_Inr(3,5,6))

theorem load_suite_descriptors_witness:
  "\<exists>c w. suite_context sample_suite3 = Some c \<and> ctx_path c \<in> set (suite_seed_inputs sample_suite3)
     \<and> suite_workspace sample_suite3 = Some w
     \<and> \<not> prefix (path_key sample_lib (wsd_root w)) (path_key sample_lib (wsd_manifest w))"
  using load_suite_descriptors [OF parse_sample_suite3]
  by (auto simp: sample_suite3_def)

text \<open>
  Reading back the task dictionaries that a plan records gives the same tasks and the
  same seed inputs.
\<close>

theorem parse_tasks_as_dict:
  assumes "parse_suite L toml path raw = Inr s"
  shows "\<exists>acc. parse_tasks L (suite_version s) (PList (map task_as_dict (suite_tasks s))) = Inr acc
    \<and> acc_tasks acc = suite_tasks s \<and> acc_seeds acc = suite_seed_inputs s"
  using assms
proof (rule parse_suite_parts)
  fix parsed acc
  assume a: "parse_tasks L (suite_version s) (fld parsed ''task'') = Inr acc"
    and s: "suite_tasks s = acc_tasks acc" "suite_seed_inputs s = acc_seeds acc"
  from parse_tasks_canonical [OF a] s show ?thesis by auto
qed

theorem parse_tasks_as_dict_witness:
  "\<exists>acc. parse_tasks sample_lib 1 (PList (map task_as_dict (suite_tasks sample_suite))) = Inr acc
     \<and> acc_tasks acc = suite_tasks sample_suite \<and> acc_seeds acc = [lit ''s'']"
  using parse_tasks_as_dict [OF parse_sample_suite] by (simp add: sample_suite_def)

end
