(* ===== verification/Plan_Shape.thy ===== *)
theory Plan_Shape
  imports Suite_Model
begin

text \<open>
  The validators of \<^verbatim>\<open>src/src/benchhandoff/engine.py\<close> for the fields of evidence records and for
  \<^verbatim>\<open>plan.json\<close>. A validator returns its argument or raises; the messages it raises with are not
  modelled. Paths are those of a POSIX host. Shown here: validators return what they were
  given, they fail only with exceptions the callers turn into evidence errors, what an
  accepted plan satisfies, and that the suite recorded for an accepted suite is accepted.
\<close>

section \<open>Field validators\<close>

definition exact_keys :: "pydict \<Rightarrow> string list \<Rightarrow> string list \<Rightarrow> pyexc + unit" where
  "exact_keys d required optional =
     (if (\<exists>k \<in> set required. \<not> has_key d k)
         \<or> (\<exists>k \<in> set (dkeys d). k \<notin> set (map lit (required @ optional)))
      then Inl EvidenceError else Inr ())"

definition uses_execution_context :: "int \<Rightarrow> bool" where
  "uses_execution_context schema_version \<longleftrightarrow> schema_version \<in> {2, 3}"

definition is_sha256 :: "pyval \<Rightarrow> bool" where
  "is_sha256 v \<longleftrightarrow> is_str v \<and> length (str_of v) = 64 \<and> (\<forall>c \<in> set (str_of v). is_lower_hex c)"

definition validate_text :: "pyval \<Rightarrow> pyexc + pystr" where
  "validate_text v =
     (if \<not> is_str v \<or> 0 \<in> set (str_of v) \<or> str_of v = [] then Inl EvidenceError
      else Inr (str_of v))"

definition validate_bound_path :: "pyval \<Rightarrow> pyexc + pystr" where
  "validate_bound_path v =
     rbind (validate_text v) (\<lambda>text.
       if \<not> starts_with [47] text then Inl EvidenceError else Inr text)"

text \<open>\<open>except BenchHandoffError as exc: raise EvidenceError(str(exc)) from exc\<close>\<close>

definition bench_to_evidence :: "pyexc \<Rightarrow> pyexc" where
  "bench_to_evidence e = (if is_benchhandoff_error e then EvidenceError else e)"

definition validate_portable_path :: "pylib \<Rightarrow> pyval \<Rightarrow> pyexc + pystr" where
  "validate_portable_path L v =
     rbind (validate_text v) (\<lambda>text.
       rcatch bench_to_evidence (normalize_relative_file L (PStr text)))"

definition validate_identity :: "pyval \<Rightarrow> pyexc + pyval" where
  "validate_identity v =
     (case v of
        PDict d \<Rightarrow>
          rbind (exact_keys d [''sha256'', ''size''] []) (\<lambda>_.
            if \<not> is_sha256 (fld d ''sha256'') then Inl EvidenceError
            else if \<not> non_bool_int (fld d ''size'') \<or> int_of (fld d ''size'') < 0
            then Inl EvidenceError
            else Inr v)
      | _ \<Rightarrow> Inl EvidenceError)"

text \<open>\<open>_validate_identity({"sha256": value["sha256"], "size": value["size"]})\<close>\<close>

definition validate_identity_fields :: "pydict \<Rightarrow> pyexc + pyval" where
  "validate_identity_fields d =
     validate_identity (PDict [(lit ''sha256'', fld d ''sha256''), (lit ''size'', fld d ''size'')])"

definition validate_file_record :: "pyval \<Rightarrow> pyexc + pyval" where
  "validate_file_record v =
     (case v of
        PDict d \<Rightarrow>
          rbind (exact_keys d [''path'', ''sha256'', ''size''] []) (\<lambda>_.
          rbind (validate_bound_path (fld d ''path'')) (\<lambda>_.
          rbind (validate_identity_fields d) (\<lambda>_. Inr v)))
      | _ \<Rightarrow> Inl EvidenceError)"

definition validate_identity_map :: "pylib \<Rightarrow> pystr set option \<Rightarrow> pyval \<Rightarrow> pyexc + pyval" where
  "validate_identity_map L expected_paths v =
     (case v of
        PDict d \<Rightarrow>
          rbind (rmap (\<lambda>(path, ident).
                   rbind (validate_portable_path L (PStr path)) (\<lambda>normalized.
                   rbind (validate_identity ident) (\<lambda>_. Inr normalized))) d) (\<lambda>normalized.
            case expected_paths of
              Some ps \<Rightarrow> (if set normalized \<noteq> ps then Inl EvidenceError else Inr v)
            | None \<Rightarrow> Inr v)
      | _ \<Rightarrow> Inl EvidenceError)"

section \<open>The suite recorded in a plan\<close>

definition validate_plan_argv :: "pyval \<Rightarrow> pyexc + unit" where
  "validate_plan_argv v =
     (if \<not> is_list v \<or> list_of v = [] \<or> (\<exists>x \<in> set (list_of v). \<not> is_str x \<or> 0 \<in> set (str_of x))
      then Inl EvidenceError
      else let argv = map str_of (list_of v) in
      if hd argv = [] then Inl EvidenceError
      else if length argv > MAX_TASK_ARGUMENTS then Inl EvidenceError
      else rbind (rcatch (\<lambda>e. if e = UnicodeEncodeError then EvidenceError else e)
                   (rmap utf8_len argv)) (\<lambda>encoded_arguments.
        if \<exists>n \<in> set encoded_arguments. n > MAX_TASK_ARGUMENT_UTF8_BYTES then Inl EvidenceError
        else if sum_list encoded_arguments > MAX_TASK_ARGUMENTS_UTF8_BYTES then Inl EvidenceError
        else Inr ()))"

definition validate_plan_paths :: "pylib \<Rightarrow> nat \<Rightarrow> pyval \<Rightarrow> pyexc + unit" where
  "validate_plan_paths L maximum v =
     (if \<not> is_list v \<or> (\<exists>x \<in> set (list_of v). \<not> is_str x) then Inl EvidenceError
      else if length (list_of v) > maximum then Inl EvidenceError
      else rbind (rmap (validate_portable_path L) (list_of v)) (\<lambda>_.
        if \<not> distinct (map str_of (list_of v)) then Inl EvidenceError else Inr ()))"

definition validate_plan_task :: "pylib \<Rightarrow> pyval \<Rightarrow> pyexc + pyval" where
  "validate_plan_task L v =
     (case v of
        PDict d \<Rightarrow>
          rbind (exact_keys d [''id'', ''argv'', ''inputs'', ''outputs''] []) (\<lambda>_.
          rbind (validate_text (fld d ''id'')) (\<lambda>task_id.
          if \<not> TASK_ID task_id then Inl EvidenceError
          else rbind (validate_plan_argv (fld d ''argv'')) (\<lambda>_.
          rbind (validate_plan_paths L MAX_TASK_INPUTS (fld d ''inputs'')) (\<lambda>_.
          rbind (validate_plan_paths L MAX_TASK_OUTPUTS (fld d ''outputs'')) (\<lambda>_.
            if list_of (fld d ''outputs'') = [] then Inl EvidenceError else Inr v)))))
      | _ \<Rightarrow> Inl EvidenceError)"

definition validate_context_descriptor :: "pylib \<Rightarrow> pyval \<Rightarrow> pyexc + pyval" where
  "validate_context_descriptor L v =
     (case v of
        PDict d \<Rightarrow>
          rbind (exact_keys d [''path'', ''media_type'', ''digest'', ''size''] []) (\<lambda>_.
          rbind (validate_portable_path L (fld d ''path'')) (\<lambda>_.
          rbind (validate_text (fld d ''media_type'')) (\<lambda>media_type.
          rbind (utf8_len media_type) (\<lambda>n.
          if n > MAX_CONTEXT_MEDIA_TYPE_UTF8_BYTES then Inl EvidenceError
          else if \<not> is_str (fld d ''digest'') \<or> \<not> DESCRIPTOR_DIGEST (str_of (fld d ''digest''))
          then Inl EvidenceError
          else let size = fld d ''size'' in
          if \<not> non_bool_int size \<or> int_of size < 0 \<or> int_of size > MAX_CONTEXT_SIZE
          then Inl EvidenceError
          else Inr v))))
      | _ \<Rightarrow> Inl EvidenceError)"

definition validate_workspace_descriptor :: "pylib \<Rightarrow> pyval \<Rightarrow> pyexc + pyval" where
  "validate_workspace_descriptor L v =
     (case v of
        PDict d \<Rightarrow>
          rbind (exact_keys d [''root'', ''manifest'', ''digest'', ''size'', ''policy''] []) (\<lambda>_.
          rbind (validate_portable_path L (fld d ''root'')) (\<lambda>root.
          rbind (validate_portable_path L (fld d ''manifest'')) (\<lambda>manifest.
          if manifest = root \<or> starts_with (root @ [47]) manifest then Inl EvidenceError
          else if \<not> is_str (fld d ''digest'') \<or> \<not> DESCRIPTOR_DIGEST (str_of (fld d ''digest''))
          then Inl EvidenceError
          else let size = fld d ''size'' in
          if \<not> non_bool_int size \<or> int_of size < 0 \<or> int_of size > int MAX_WORKSPACE_MANIFEST_BYTES
          then Inl EvidenceError
          else if \<not> py_eq (fld d ''policy'') (PStr WORKSPACE_POLICY) then Inl EvidenceError
          else Inr v)))
      | _ \<Rightarrow> Inl EvidenceError)"

definition MAX_WORKSPACE_ENTRIES :: nat where "MAX_WORKSPACE_ENTRIES = 10000"
definition MAX_WORKSPACE_TOTAL_BYTES :: nat where
  "MAX_WORKSPACE_TOTAL_BYTES = 4 * 1024 * 1024 * 1024"

definition validate_workspace_summary :: "pyval \<Rightarrow> pyexc + pyval" where
  "validate_workspace_summary v =
     (case v of
        PDict d \<Rightarrow>
          rbind (exact_keys d [''tree_sha256'', ''directory_count'', ''file_count'', ''total_bytes''] [])
            (\<lambda>_.
          let dirs = fld d ''directory_count''; files = fld d ''file_count'';
              total = fld d ''total_bytes'' in
          if \<not> is_sha256 (fld d ''tree_sha256'') then Inl EvidenceError
          else if \<not> non_bool_int dirs \<or> int_of dirs < 0 \<or> int_of dirs > int MAX_WORKSPACE_ENTRIES
          then Inl EvidenceError
          else if \<not> non_bool_int files \<or> int_of files < 0 \<or> int_of files > int MAX_WORKSPACE_ENTRIES
          then Inl EvidenceError
          else if int_of dirs + int_of files > int MAX_WORKSPACE_ENTRIES then Inl EvidenceError
          else if \<not> non_bool_int total \<or> int_of total < 0
                  \<or> int_of total > int MAX_WORKSPACE_TOTAL_BYTES then Inl EvidenceError
          else Inr v)
      | _ \<Rightarrow> Inl EvidenceError)"

definition validate_workspace_binding :: "pylib \<Rightarrow> pyval \<Rightarrow> pyexc + pyval" where
  "validate_workspace_binding L v =
     (case v of
        PDict d \<Rightarrow>
          rbind (exact_keys d [''policy'', ''root'', ''manifest'', ''baseline''] []) (\<lambda>_.
          if \<not> py_eq (fld d ''policy'') (PStr WORKSPACE_POLICY) then Inl EvidenceError
          else rbind (validate_portable_path L (fld d ''root'')) (\<lambda>_.
          case fld d ''manifest'' of
            PDict m \<Rightarrow>
              rbind (exact_keys m [''path'', ''sha256'', ''size''] []) (\<lambda>_.
              rbind (validate_portable_path L (fld m ''path'')) (\<lambda>_.
              rbind (validate_identity_fields m) (\<lambda>_.
              rbind (validate_workspace_summary (fld d ''baseline'')) (\<lambda>_. Inr v))))
          | _ \<Rightarrow> Inl EvidenceError))
      | _ \<Rightarrow> Inl EvidenceError)"

section \<open>The recorded execution context\<close>

definition validate_executable_identity :: "pyval \<Rightarrow> pyexc + pyval" where
  "validate_executable_identity v =
     (case v of
        PDict d \<Rightarrow>
          rbind (exact_keys d [''basename'', ''path_sha256'', ''path_utf8_size'', ''sha256'', ''size''] [])
            (\<lambda>_.
          rbind (validate_text (fld d ''basename'')) (\<lambda>basename.
          if 47 \<in> set basename \<or> 92 \<in> set basename then Inl EvidenceError
          else rbind (utf8_len basename) (\<lambda>n.
          if n > 1024 then Inl EvidenceError
          else rbind (validate_identity_fields d) (\<lambda>_.
          if \<not> is_sha256 (fld d ''path_sha256'') then Inl EvidenceError
          else let size = fld d ''path_utf8_size'' in
          if \<not> non_bool_int size \<or> int_of size < 1 \<or> int_of size > 32768 then Inl EvidenceError
          else Inr v))))
      | _ \<Rightarrow> Inl EvidenceError)"

definition validate_static_variable :: "pyval \<Rightarrow> pyexc + unit" where
  "validate_static_variable v =
     (case v of
        PDict d \<Rightarrow>
          rbind (exact_keys d [''sha256'', ''utf8_size''] []) (\<lambda>_.
            let size = fld d ''utf8_size'' in
            if \<not> is_sha256 (fld d ''sha256'') then Inl EvidenceError
            else if \<not> non_bool_int size \<or> int_of size < 1 \<or> int_of size > 32768
            then Inl EvidenceError
            else Inr ())
      | _ \<Rightarrow> Inl EvidenceError)"

definition runner_variables :: "pyval list" where
  "runner_variables =
     [PLit ''BENCHHANDOFF_ATTEMPT'', PLit ''BENCHHANDOFF_RUN_ID'', PLit ''BENCHHANDOFF_TASK_ID'']"

definition validate_launch_environment :: "pyval \<Rightarrow> pyexc + pyval" where
  "validate_launch_environment v =
     (case v of
        PDict d \<Rightarrow>
          rbind (exact_keys d [''inherit_parent'', ''static_variables'', ''runner_variables''] []) (\<lambda>_.
          if fld d ''inherit_parent'' \<noteq> PBool False then Inl EvidenceError
          else let vars = fld d ''static_variables'' in
          if \<not> is_dict vars
             \<or> (set (dkeys (dict_of vars)) \<noteq> {} \<and> set (dkeys (dict_of vars)) \<noteq> {lit ''SystemRoot''})
          then Inl EvidenceError
          else rbind (rmap (\<lambda>p. validate_static_variable (snd p)) (dict_of vars)) (\<lambda>_.
          if \<not> py_eq (fld d ''runner_variables'') (PList runner_variables) then Inl EvidenceError
          else Inr v))
      | _ \<Rightarrow> Inl EvidenceError)"

definition validate_process_scope_policy :: "pyval \<Rightarrow> pyexc + pyval" where
  "validate_process_scope_policy v =
     (case v of
        PDict d \<Rightarrow>
          rbind (exact_keys d [''mode'', ''cooperative''] []) (\<lambda>_.
          if \<not> (py_eq (fld d ''mode'') (PLit ''windows-job'') \<and> fld d ''cooperative'' = PBool False
                \<or> py_eq (fld d ''mode'') (PLit ''posix-cooperative-process-group'')
                   \<and> fld d ''cooperative'' = PBool True)
          then Inl EvidenceError else Inr v)
      | _ \<Rightarrow> Inl EvidenceError)"

text \<open>\<open>hashlib.sha256(canonical_json_bytes(body)).hexdigest()\<close>\<close>

definition body_sha256 :: "pylib \<Rightarrow> pyval \<Rightarrow> pyexc + pystr" where
  "body_sha256 L body = rbind (canonical_json_bytes L body) (\<lambda>b. Inr (sha256 L b))"

definition task_context_body :: "pydict \<Rightarrow> pyval" where
  "task_context_body d = PDict
     [(lit ''descriptor'', fld d ''descriptor''), (lit ''environment'', fld d ''environment''),
      (lit ''executable'', fld d ''executable''), (lit ''process_scope'', fld d ''process_scope'')]"

definition validate_task_context :: "pylib \<Rightarrow> pyval \<Rightarrow> pyval \<Rightarrow> pyexc + unit" where
  "validate_task_context L descriptor v =
     (case v of
        PDict d \<Rightarrow>
          rbind (exact_keys d [''descriptor'', ''environment'', ''executable'', ''process_scope'',
                               ''context_sha256''] []) (\<lambda>_.
          if \<not> py_eq (fld d ''descriptor'') descriptor then Inl EvidenceError
          else rbind (validate_executable_identity (fld d ''executable'')) (\<lambda>_.
          rbind (validate_launch_environment (fld d ''environment'')) (\<lambda>_.
          rbind (validate_process_scope_policy (fld d ''process_scope'')) (\<lambda>_.
          rbind (body_sha256 L (task_context_body d)) (\<lambda>expected.
          if \<not> py_eq (fld d ''context_sha256'') (PStr expected) then Inl EvidenceError
          else Inr ())))))
      | _ \<Rightarrow> Inl EvidenceError)"

definition validate_execution_context :: "pylib \<Rightarrow> pystr set \<Rightarrow> pyval \<Rightarrow> pyexc + pyval" where
  "validate_execution_context L task_ids v =
     (case v of
        PDict d \<Rightarrow>
          rbind (exact_keys d [''descriptor'', ''tasks'', ''context_sha256''] []) (\<lambda>_.
          rbind (validate_context_descriptor L (fld d ''descriptor'')) (\<lambda>descriptor.
          let tasks = fld d ''tasks'' in
          if \<not> is_dict tasks \<or> set (dkeys (dict_of tasks)) \<noteq> task_ids then Inl EvidenceError
          else rbind (rmap (\<lambda>p. validate_task_context L descriptor (snd p)) (dict_of tasks)) (\<lambda>_.
          rbind (body_sha256 L (PDict [(lit ''descriptor'', descriptor), (lit ''tasks'', tasks)]))
            (\<lambda>expected.
          if \<not> py_eq (fld d ''context_sha256'') (PStr expected) then Inl EvidenceError
          else Inr v))))
      | _ \<Rightarrow> Inl EvidenceError)"

section \<open>Plans\<close>

definition plan_version :: "pydict \<Rightarrow> int" where
  "plan_version plan = int_of (fld plan ''schema_version'')"

text \<open>\<open>plan["suite"]["tasks"]\<close>, as dictionaries\<close>

definition plan_tasks :: "pydict \<Rightarrow> pydict list" where
  "plan_tasks plan = map dict_of (list_of (fld (dict_of (fld plan ''suite'')) ''tasks''))"

definition task_key :: "pydict \<Rightarrow> pystr" where
  "task_key t = str_of (fld t ''id'')"

definition plan_required :: "int \<Rightarrow> string list" where
  "plan_required schema_version =
     [''schema_version'', ''kind'', ''run_id'', ''created_at'', ''run_directory'', ''suite_file'',
      ''suite_root'', ''suite'', ''seed_inputs'', ''environment'']
     @ (if uses_execution_context schema_version then [''execution_context''] else [])
     @ (if schema_version = 3 then [''workspace''] else [])"

definition validate_plan_header :: "pydict \<Rightarrow> pyexc + unit" where
  "validate_plan_header plan =
     (let version = fld plan ''schema_version'' in
      if \<not> non_bool_int version \<or> int_of version \<notin> {1, 2, 3} then Inl EvidenceError
      else rbind (exact_keys plan (plan_required (int_of version)) []) (\<lambda>_.
      if \<not> py_eq (fld plan ''kind'') (PLit ''benchhandoff-plan'') then Inl EvidenceError
      else rbind (validate_text (fld plan ''run_id'')) (\<lambda>run_id.
      if length run_id \<noteq> 32 \<or> (\<exists>c \<in> set run_id. \<not> is_lower_hex c) then Inl EvidenceError
      else rbind (validate_text (fld plan ''created_at'')) (\<lambda>_.
      rbind (validate_bound_path (fld plan ''run_directory'')) (\<lambda>_.
      rbind (validate_bound_path (fld plan ''suite_root'')) (\<lambda>_.
      rbind (validate_file_record (fld plan ''suite_file'')) (\<lambda>_. Inr ())))))))"

text \<open>One step of the loop over \<open>suite["tasks"]\<close>: the ids seen and the path references.\<close>

definition plan_task_step ::
  "pylib \<Rightarrow> int \<Rightarrow> pyval \<Rightarrow> pystr list \<times> nat \<Rightarrow> pyexc + pystr list \<times> nat" where
  "plan_task_step L version v acc =
     rbind (validate_plan_task L v) (\<lambda>validated.
       let t = dict_of validated;
           refs = snd acc + (length (list_of (fld t ''inputs'')) + length (list_of (fld t ''outputs''))) in
       rbind (if uses_execution_context version
              then rbind (validate_portable_path L (hd (list_of (fld t ''argv'')))) (\<lambda>_. Inr ())
              else Inr ()) (\<lambda>_.
       if refs > MAX_SUITE_PATH_REFERENCES then Inl EvidenceError
       else if task_key t \<in> set (fst acc) then Inl EvidenceError
       else Inr (fst acc @ [task_key t], refs)))"

definition suite_required :: "int \<Rightarrow> string list" where
  "suite_required version =
     [''version'', ''name'', ''tasks''] @ (if uses_execution_context version then [''context''] else [])
     @ (if version = 3 then [''workspace''] else [])"

definition validate_plan_suite :: "pylib \<Rightarrow> int \<Rightarrow> pyval \<Rightarrow> pyexc + pystr list" where
  "validate_plan_suite L version v =
     (case v of
        PDict suite \<Rightarrow>
          rbind (exact_keys suite (suite_required version) []) (\<lambda>_.
          if \<not> non_bool_int (fld suite ''version'') \<or> int_of (fld suite ''version'') \<noteq> version
          then Inl EvidenceError
          else rbind (if uses_execution_context version
                      then rbind (validate_context_descriptor L (fld suite ''context'')) (\<lambda>_. Inr ())
                      else Inr ()) (\<lambda>_.
          rbind (if version = 3
                 then rbind (validate_workspace_descriptor L (fld suite ''workspace'')) (\<lambda>_. Inr ())
                 else Inr ()) (\<lambda>_.
          rbind (validate_text (fld suite ''name'')) (\<lambda>suite_name.
          rbind (utf8_len suite_name) (\<lambda>n.
          if n > MAX_SUITE_NAME_UTF8_BYTES then Inl EvidenceError
          else let tasks = fld suite ''tasks'' in
          if \<not> is_list tasks \<or> list_of tasks = [] then Inl EvidenceError
          else if length (list_of tasks) > MAX_SUITE_TASKS then Inl EvidenceError
          else rbind (rfold (plan_task_step L version) (list_of tasks) ([], 0)) (\<lambda>acc.
            Inr (fst acc)))))))
      | _ \<Rightarrow> Inl EvidenceError)"

definition validate_plan_environment :: "pyval \<Rightarrow> pyexc + unit" where
  "validate_plan_environment v =
     (case v of
        PDict d \<Rightarrow>
          rbind (exact_keys d [''python_implementation'', ''python_version'', ''platform''] []) (\<lambda>_.
          rbind (rmap (\<lambda>p. validate_text (snd p)) d) (\<lambda>_. Inr ()))
      | _ \<Rightarrow> Inl EvidenceError)"

definition digest_identity :: "pydict \<Rightarrow> pyval" where
  "digest_identity d = PDict
     [(lit ''sha256'', PStr (remove_prefix (lit ''sha256:'') (str_of (fld d ''digest'')))),
      (lit ''size'', fld d ''size'')]"

definition validate_plan_context :: "pylib \<Rightarrow> pydict \<Rightarrow> pystr list \<Rightarrow> pyexc + unit" where
  "validate_plan_context L plan task_ids =
     (let suite = dict_of (fld plan ''suite''); descriptor = dict_of (fld suite ''context'');
          seed_inputs = dict_of (fld plan ''seed_inputs'');
          path = str_of (fld descriptor ''path'') in
      rbind (validate_execution_context L (set task_ids) (fld plan ''execution_context'')) (\<lambda>ec.
      if \<not> py_eq (fld (dict_of ec) ''descriptor'') (fld suite ''context'') then Inl EvidenceError
      else if \<not> py_eq (case map_of seed_inputs path of None \<Rightarrow> PNone | Some i \<Rightarrow> i)
                       (digest_identity descriptor) then Inl EvidenceError
      else if \<not> (\<exists>t \<in> set (plan_tasks plan). PStr path \<in> set (list_of (fld t ''inputs'')))
      then Inl EvidenceError
      else Inr ()))"

definition validate_plan_workspace :: "pylib \<Rightarrow> pydict \<Rightarrow> pyexc + unit" where
  "validate_plan_workspace L plan =
     (let suite = dict_of (fld plan ''suite''); descriptor = dict_of (fld suite ''workspace'') in
      rbind (validate_workspace_binding L (fld plan ''workspace'')) (\<lambda>b.
      let binding = dict_of b in
      if \<not> py_eq (fld binding ''policy'') (fld descriptor ''policy'')
         \<or> \<not> py_eq (fld binding ''root'') (fld descriptor ''root'')
         \<or> \<not> py_eq (fld binding ''manifest'')
               (PDict ((lit ''path'', fld descriptor ''manifest'') # dict_of (digest_identity descriptor)))
      then Inl EvidenceError else Inr ()))"

definition validate_plan_shape :: "pylib \<Rightarrow> pyval \<Rightarrow> pyexc + unit" where
  "validate_plan_shape L v =
     (case v of
        PDict plan \<Rightarrow>
          rbind (validate_plan_header plan) (\<lambda>_.
          rbind (validate_plan_suite L (plan_version plan) (fld plan ''suite'')) (\<lambda>task_ids.
          rbind (validate_identity_map L None (fld plan ''seed_inputs'')) (\<lambda>_.
          rbind (validate_plan_environment (fld plan ''environment'')) (\<lambda>_.
          rbind (if uses_execution_context (plan_version plan)
                 then validate_plan_context L plan task_ids else Inr ()) (\<lambda>_.
          if plan_version plan = 3 then validate_plan_workspace L plan else Inr ())))))
      | _ \<Rightarrow> Inl EvidenceError)"

section \<open>What the field validators accept\<close>

lemma exact_keys_iff:
  "exact_keys d req opt = Inr () \<longleftrightarrow>
     (\<forall>k \<in> set req. has_key d k) \<and> set (dkeys d) \<subseteq> set (map lit (req @ opt))"
  by (auto simp: exact_keys_def)

lemma validate_text_iff: "validate_text v = Inr s \<longleftrightarrow> v = PStr s \<and> s \<noteq> [] \<and> 0 \<notin> set s"
  by (auto simp: validate_text_def is_str_iff)

lemma validate_bound_path_iff:
  "validate_bound_path v = Inr s \<longleftrightarrow> v = PStr s \<and> 0 \<notin> set s \<and> starts_with [47] s"
  by (auto simp: validate_bound_path_def validate_text_iff starts_with_def)

lemma portable_path_text: "portable_path L s \<Longrightarrow> s \<noteq> [] \<and> 0 \<notin> set s"
  using portable_path_parts(1) [of L s "[]"] portable_path_chars(1) [of L s 0] by auto

lemma validate_portable_path_iff:
  "validate_portable_path L v = Inr s \<longleftrightarrow> v = PStr s \<and> portable_path L s"
  by (auto simp: validate_portable_path_def validate_text_iff normalize_relative_file_iff
      dest: portable_path_text)

lemma validate_identity_iff:
  "validate_identity v = Inr w \<longleftrightarrow> w = v \<and>
     (\<exists>d. v = PDict d \<and> exact_keys d [''sha256'', ''size''] [] = Inr () \<and> is_sha256 (fld d ''sha256'')
        \<and> (\<exists>n \<ge> 0. fld d ''size'' = PInt n))"
  by (auto simp: validate_identity_def non_bool_int_iff split: pyval.splits)

lemma validate_plan_argv_iff:
  "validate_plan_argv v = Inr () \<longleftrightarrow> (\<exists>argv. v = PList (map PStr argv) \<and> argv_ok L 1 argv)"
proof
  assume a: "validate_plan_argv v = Inr ()"
  then obtain xs where v: "v = PList xs" and s: "\<forall>x \<in> set xs. is_str x \<and> 0 \<notin> set (str_of x)"
    by (auto simp: validate_plan_argv_def is_list_iff)
  have "xs = map PStr (map str_of xs)"
    using s by (subst map_map, subst map_idI) (auto simp: is_str_iff)
  with a v s show "\<exists>argv. v = PList (map PStr argv) \<and> argv_ok L 1 argv"
    by (intro exI [of _ "map str_of xs"])
      (auto simp: validate_plan_argv_def argv_ok_def rmap_utf8_len Let_def not_less, force)
next
  assume "\<exists>argv. v = PList (map PStr argv) \<and> argv_ok L 1 argv"
  then show "validate_plan_argv v = Inr ()"
    by (auto simp: validate_plan_argv_def argv_ok_def rmap_utf8_len Let_def not_less o_def hd_map) force+
qed

lemma rmap_validate_portable_path:
  "rmap (validate_portable_path L) vs = Inr ps \<longleftrightarrow>
     vs = map PStr ps \<and> (\<forall>p \<in> set ps. portable_path L p)"
  by (induction vs arbitrary: ps) (auto simp: validate_portable_path_iff)

lemma validate_plan_paths_iff:
  "validate_plan_paths L n v = Inr () \<longleftrightarrow>
     (\<exists>ps. v = PList (map PStr ps) \<and> length ps \<le> n \<and> distinct ps \<and> (\<forall>p \<in> set ps. portable_path L p))"
proof
  assume a: "validate_plan_paths L n v = Inr ()"
  then obtain xs ps where "v = PList xs" "rmap (validate_portable_path L) xs = Inr ps"
      "length xs \<le> n" "distinct (map str_of xs)"
    by (auto simp: validate_plan_paths_def is_list_iff not_less)
  then show "\<exists>ps. v = PList (map PStr ps) \<and> length ps \<le> n \<and> distinct ps \<and> (\<forall>p \<in> set ps. portable_path L p)"
    by (intro exI [of _ ps]) (auto simp: rmap_validate_portable_path o_def)
next
  assume "\<exists>ps. v = PList (map PStr ps) \<and> length ps \<le> n \<and> distinct ps \<and> (\<forall>p \<in> set ps. portable_path L p)"
  then obtain ps where "v = PList (map PStr ps)" "length ps \<le> n" "distinct ps"
    "rmap (validate_portable_path L) (map PStr ps) = Inr ps"
    by (auto simp: rmap_validate_portable_path)
  then show "validate_plan_paths L n v = Inr ()"
    by (auto simp: validate_plan_paths_def o_def)
qed

text \<open>What a recorded task is, once accepted.\<close>

definition recorded_task :: "pylib \<Rightarrow> pydict \<Rightarrow> task_spec \<Rightarrow> bool" where
  "recorded_task L d t \<longleftrightarrow>
     exact_keys d [''id'', ''argv'', ''inputs'', ''outputs''] [] = Inr ()
     \<and> fld d ''id'' = PStr (task_id t) \<and> fld d ''argv'' = PList (map PStr (task_argv t))
     \<and> fld d ''inputs'' = PList (map PStr (task_inputs t))
     \<and> fld d ''outputs'' = PList (map PStr (task_outputs t))
     \<and> TASK_ID (task_id t) \<and> argv_ok L 1 (task_argv t)
     \<and> length (task_inputs t) \<le> MAX_TASK_INPUTS \<and> length (task_outputs t) \<le> MAX_TASK_OUTPUTS
     \<and> distinct (task_inputs t) \<and> distinct (task_outputs t) \<and> task_outputs t \<noteq> []
     \<and> (\<forall>p \<in> set (task_inputs t) \<union> set (task_outputs t). portable_path L p)"

lemma TASK_ID_text: "TASK_ID s \<Longrightarrow> s \<noteq> [] \<and> 0 \<notin> set s"
  by (cases s) (auto simp: TASK_ID_def is_alnum_def is_digit_def)

lemma validate_plan_task_iff:
  "validate_plan_task L v = Inr w \<longleftrightarrow> w = v \<and> (\<exists>d t. v = PDict d \<and> recorded_task L d t)"
proof
  assume a: "validate_plan_task L v = Inr w"
  then obtain d i argv ins outs where d: "v = PDict d" "w = v"
    "exact_keys d [''id'', ''argv'', ''inputs'', ''outputs''] [] = Inr ()"
    "fld d ''id'' = PStr i" "TASK_ID i" "fld d ''argv'' = PList (map PStr argv)" "argv_ok L 1 argv"
    "fld d ''inputs'' = PList (map PStr ins)" "length ins \<le> MAX_TASK_INPUTS" "distinct ins"
    "\<forall>p \<in> set ins. portable_path L p"
    "fld d ''outputs'' = PList (map PStr outs)" "length outs \<le> MAX_TASK_OUTPUTS" "distinct outs"
    "\<forall>p \<in> set outs. portable_path L p" "outs \<noteq> []"
    by (auto simp: validate_plan_task_def validate_text_iff validate_plan_argv_iff [of _ L]
        validate_plan_paths_iff split: pyval.splits)
  then have "recorded_task L d \<lparr>task_id = i, task_argv = argv, task_inputs = ins, task_outputs = outs\<rparr>"
    by (auto simp: recorded_task_def)
  with d show "w = v \<and> (\<exists>d t. v = PDict d \<and> recorded_task L d t)" by blast
next
  assume "w = v \<and> (\<exists>d t. v = PDict d \<and> recorded_task L d t)"
  then obtain d t where v: "w = v" "v = PDict d" and r: "recorded_task L d t" by blast
  have "validate_plan_argv (fld d ''argv'') = Inr ()"
    "validate_plan_paths L MAX_TASK_INPUTS (fld d ''inputs'') = Inr ()"
    "validate_plan_paths L MAX_TASK_OUTPUTS (fld d ''outputs'') = Inr ()"
    using r by (auto simp: recorded_task_def validate_plan_argv_iff [of _ L] validate_plan_paths_iff)
  with v r TASK_ID_text show "validate_plan_task L v = Inr w"
    by (auto simp: validate_plan_task_def recorded_task_def validate_text_iff)
qed

section \<open>Accepted plans\<close>

lemma plan_task_step_recorded:
  assumes "recorded_task L d t"
  shows "plan_task_step L version (PDict d) acc = Inr acc' \<longleftrightarrow>
     (uses_execution_context version \<longrightarrow> portable_path L (hd (task_argv t)))
     \<and> snd acc + (length (task_inputs t) + length (task_outputs t)) \<le> MAX_SUITE_PATH_REFERENCES
     \<and> task_id t \<notin> set (fst acc)
     \<and> acc' = (fst acc @ [task_id t], snd acc + (length (task_inputs t) + length (task_outputs t)))"
proof -
  have v: "validate_plan_task L (PDict d) = Inr (PDict d)"
    using assms by (auto simp: validate_plan_task_iff)
  have h: "hd (map PStr (task_argv t)) = PStr (hd (task_argv t))"
    using assms by (simp add: recorded_task_def argv_ok_def hd_map)
  have f: "fld d ''id'' = PStr (task_id t)" "fld d ''argv'' = PList (map PStr (task_argv t))"
    "fld d ''inputs'' = PList (map PStr (task_inputs t))"
    "fld d ''outputs'' = PList (map PStr (task_outputs t))"
    using assms by (simp_all add: recorded_task_def)
  show ?thesis
    by (auto simp: plan_task_step_def v f h Let_def task_key_def not_less validate_portable_path_iff)
qed

lemma plan_task_step_iff:
  "plan_task_step L version v acc = Inr acc' \<longleftrightarrow>
     (\<exists>d t. v = PDict d \<and> recorded_task L d t
        \<and> (uses_execution_context version \<longrightarrow> portable_path L (hd (task_argv t)))
        \<and> snd acc + (length (task_inputs t) + length (task_outputs t)) \<le> MAX_SUITE_PATH_REFERENCES
        \<and> task_id t \<notin> set (fst acc)
        \<and> acc' = (fst acc @ [task_id t], snd acc + (length (task_inputs t) + length (task_outputs t))))"
proof
  assume a: "plan_task_step L version v acc = Inr acc'"
  then obtain w where "validate_plan_task L v = Inr w" by (auto simp: plan_task_step_def)
  then obtain d t where "v = PDict d" "recorded_task L d t" by (auto simp: validate_plan_task_iff)
  with a plan_task_step_recorded show "\<exists>d t. v = PDict d \<and> recorded_task L d t
        \<and> (uses_execution_context version \<longrightarrow> portable_path L (hd (task_argv t)))
        \<and> snd acc + (length (task_inputs t) + length (task_outputs t)) \<le> MAX_SUITE_PATH_REFERENCES
        \<and> task_id t \<notin> set (fst acc)
        \<and> acc' = (fst acc @ [task_id t], snd acc + (length (task_inputs t) + length (task_outputs t)))"
    by metis
qed (metis plan_task_step_recorded)

text \<open>The loop over the recorded tasks, with what it has established of them.\<close>

lemma plan_tasks_loop:
  "rfold (plan_task_step L version) vs acc = Inr acc' \<longleftrightarrow>
     (\<exists>ts. list_all2 (\<lambda>v t. \<exists>d. v = PDict d \<and> recorded_task L d t) vs ts
        \<and> (\<forall>t \<in> set ts. uses_execution_context version \<longrightarrow> portable_path L (hd (task_argv t)))
        \<and> (ts \<noteq> [] \<longrightarrow> snd acc + sum_list (map (\<lambda>t. length (task_inputs t) + length (task_outputs t)) ts)
             \<le> MAX_SUITE_PATH_REFERENCES)
        \<and> distinct (map task_id ts) \<and> set (map task_id ts) \<inter> set (fst acc) = {}
        \<and> acc' = (fst acc @ map task_id ts,
             snd acc + sum_list (map (\<lambda>t. length (task_inputs t) + length (task_outputs t)) ts)))"
  (is "?l vs acc \<longleftrightarrow> (\<exists>ts. ?P vs ts acc)")
proof (induction vs arbitrary: acc)
  case Nil
  then show ?case by (cases acc) auto
next
  case (Cons v vs)
  show ?case
  proof
    assume "?l (v # vs) acc"
    then obtain acc1 where a: "plan_task_step L version v acc = Inr acc1" and "?l vs acc1" by auto
    with Cons.IH obtain ts where ts: "?P vs ts acc1" by blast
    from a obtain d t where t: "v = PDict d" "recorded_task L d t"
      "uses_execution_context version \<longrightarrow> portable_path L (hd (task_argv t))"
      "snd acc + (length (task_inputs t) + length (task_outputs t)) \<le> MAX_SUITE_PATH_REFERENCES"
      "task_id t \<notin> set (fst acc)"
      "acc1 = (fst acc @ [task_id t], snd acc + (length (task_inputs t) + length (task_outputs t)))"
      unfolding plan_task_step_iff by blast
    have "?P (v # vs) (t # ts) acc" using ts t by (cases ts) (auto simp: add.assoc)
    then show "\<exists>ts. ?P (v # vs) ts acc" by blast
  next
    assume "\<exists>ts. ?P (v # vs) ts acc"
    then obtain ts where ts: "?P (v # vs) ts acc" by blast
    then obtain t us d where t: "ts = t # us" "v = PDict d" "recorded_task L d t"
      by (auto simp: list_all2_Cons1)
    let ?acc1 = "(fst acc @ [task_id t], snd acc + (length (task_inputs t) + length (task_outputs t)))"
    have "plan_task_step L version v acc = Inr ?acc1"
      unfolding plan_task_step_iff using ts t by auto
    moreover have "?P vs us ?acc1" using ts t by (auto simp: add.assoc)
    then have "?l vs ?acc1" using Cons.IH by blast
    ultimately show "?l (v # vs) acc" by simp
  qed
qed

lemma recorded_task_as_dict:
  assumes "task_ok L version t" "\<forall>p \<in> set (task_inputs t) \<union> set (task_outputs t). portable_path L p"
  shows "recorded_task L (dict_of (task_as_dict t)) t"
  using assms
  by (auto simp: recorded_task_def task_as_dict_def exact_keys_iff dkeys_def task_ok_def argv_ok_def)

lemma utf8_middle:
  assumes "utf8 (a @ b @ c) = Some x"
  shows "\<exists>y. utf8 b = Some y \<and> length y \<le> length x"
  using assms by (auto simp: utf8_append bind_eq_Some_conv)

lemma strip_segment: "\<exists>a c. s = a @ strip s @ c"
proof -
  let ?d = "dropWhile is_space s"
  have "s = takeWhile is_space s @ ?d" by simp
  moreover have "?d = strip s @ rev (takeWhile is_space (rev ?d))"
    unfolding strip_def by (metis rev_append rev_rev_ident takeWhile_dropWhile_id)
  ultimately show ?thesis by metis
qed

lemma suite_header_name:
  assumes "suite_header parsed = Inr (version, name)"
  shows "strip name \<noteq> []" "\<exists>n. utf8_len (strip name) = Inr n \<and> n \<le> MAX_SUITE_NAME_UTF8_BYTES"
proof -
  from assms have n: "strip name \<noteq> []"
    and u: "\<exists>b. utf8 name = Some b \<and> length b \<le> MAX_SUITE_NAME_UTF8_BYTES"
    by (auto simp: suite_header_def Let_def utf8_len_def not_less split: option.splits)
  show "strip name \<noteq> []" by (rule n)
  obtain a c where "name = a @ strip name @ c" using strip_segment by blast
  with u utf8_middle [of a "strip name" c]
  show "\<exists>n. utf8_len (strip name) = Inr n \<and> n \<le> MAX_SUITE_NAME_UTF8_BYTES"
    by (force simp: utf8_len_def)
qed

lemma path_key_prefix:
  assumes "starts_with (root @ [47]) manifest \<or> manifest = root"
  shows "prefix (path_key L root) (path_key L manifest)"
proof (cases "manifest = root")
  case False
  then obtain r where m: "manifest = root @ 47 # r" using assms by (auto simp: starts_with_iff)
  have "split_on 47 (root @ 47 # r) = split_on 47 root @ split_on 47 r"
    by (induction root) (auto split: list.splits)
  then show ?thesis by (simp add: path_key_def m)
qed simp

lemma context_as_dict_accepted:
  assumes "parse_context L parsed = Inr c"
  shows "validate_context_descriptor L (context_as_dict c) = Inr (context_as_dict c)"
proof -
  from assms obtain n where "utf8_len (ctx_media_type c) = Inr n" "n \<le> MAX_CONTEXT_MEDIA_TYPE_UTF8_BYTES"
      "0 \<notin> set (ctx_media_type c)"
    by (auto simp: parse_context_def Let_def not_less split: pyval.splits)
  with parse_context_Inr [OF assms] show ?thesis
    by (simp add: validate_context_descriptor_def context_as_dict_def exact_keys_iff dkeys_def
        validate_text_iff validate_portable_path_iff)
qed

lemma workspace_as_dict_accepted:
  assumes "parse_workspace L parsed = Inr w" "check_workspace_placement L w = Inr ()"
  shows "validate_workspace_descriptor L (workspace_as_dict w) = Inr (workspace_as_dict w)"
proof -
  have "\<not> (wsd_manifest w = wsd_root w \<or> starts_with (wsd_root w @ [47]) (wsd_manifest w))"
    using assms(2) path_key_prefix by (auto simp: check_workspace_placement_iff)
  with parse_workspace_Inr [OF assms(1)] show ?thesis
    by (simp add: validate_workspace_descriptor_def workspace_as_dict_def exact_keys_iff dkeys_def
        validate_portable_path_iff)
qed

lemma normalized_accepted:
  assumes "parse_suite L toml path raw = Inr s" "0 \<notin> set (suite_name s)"
  shows "validate_plan_suite L (suite_version s) (normalized s) = Inr (map task_id (suite_tasks s))"
  using assms(1)
proof (rule parse_suite_parts)
  fix parsed name acc
  assume h: "suite_header parsed = Inr (suite_version s, name)" "suite_name s = strip name"
      "suite_version s \<in> {1, 2, 3}"
    and c: "suite_version s \<ge> 2 \<Longrightarrow> \<exists>c. suite_context s = Some c \<and> parse_context L parsed = Inr c
       \<and> ctx_path c \<in> set (acc_seeds acc)" "suite_version s = 1 \<Longrightarrow> suite_context s = None"
    and w: "suite_version s = 3 \<Longrightarrow> \<exists>w. suite_workspace s = Some w \<and> parse_workspace L parsed = Inr w
       \<and> check_workspace_placement L w = Inr ()" "suite_version s \<noteq> 3 \<Longrightarrow> suite_workspace s = None"
    and a: "parse_tasks L (suite_version s) (fld parsed ''task'') = Inr acc"
      "suite_tasks s = acc_tasks acc"
  let ?ts = "suite_tasks s"
  have plan: "plan_ok L (suite_version s) (acc_seeds acc) ?ts"
    using parse_tasks_inv [OF a(1)] a(2) by (simp add: acc_inv_def)
  have len: "?ts \<noteq> []" "length ?ts \<le> MAX_SUITE_TASKS"
    using parse_tasks_bounds [OF a(1)] a(2) by simp_all
  have rec: "list_all2 (\<lambda>v t. \<exists>d. v = PDict d \<and> recorded_task L d t) (map task_as_dict ?ts) ?ts"
    using plan by (auto simp: list_all2_map1 list_all2_same plan_ok_def declared_def task_as_dict_def
        intro!: recorded_task_as_dict [of L "suite_version s", unfolded task_as_dict_def, simplified])
  have "distinct (map task_id ?ts)"
    using plan by (auto simp: plan_ok_def id_key_def distinct_map inj_on_def)
  then have loop: "rfold (plan_task_step L (suite_version s)) (map task_as_dict ?ts) ([], 0) =
      Inr (map task_id ?ts, sum_list (map (\<lambda>t. length (task_inputs t) + length (task_outputs t)) ?ts))"
    unfolding plan_tasks_loop
    using rec plan h(3) by (intro exI [of _ ?ts])
      (auto simp: plan_ok_def task_ok_def argv_ok_def uses_execution_context_def)
  have t: "validate_text (PStr (suite_name s)) = Inr (suite_name s)"
    using suite_header_name(1) [OF h(1)] assms(2) h(2) by (simp add: validate_text_iff)
  obtain n where n: "utf8_len (suite_name s) = Inr n" "n \<le> MAX_SUITE_NAME_UTF8_BYTES"
    using suite_header_name(2) [OF h(1)] h(2) by auto
  from h(3) consider "suite_version s = 1" | "suite_version s = 2" | "suite_version s = 3" by auto
  then show ?thesis
  proof cases
    case 1
    with c(2) w(2) loop t n len show ?thesis
      by (simp add: validate_plan_suite_def normalized_def exact_keys_iff suite_required_def
          dkeys_def uses_execution_context_def)
  next
    case 2
    with c(1) obtain c where "suite_context s = Some c" "parse_context L parsed = Inr c" by auto
    with 2 w(2) loop t n len context_as_dict_accepted [of L parsed c] show ?thesis
      by (simp add: validate_plan_suite_def normalized_def exact_keys_iff suite_required_def
          dkeys_def uses_execution_context_def)
  next
    case 3
    with c(1) obtain c where "suite_context s = Some c" "parse_context L parsed = Inr c" by auto
    moreover from 3 w(1) obtain w where "suite_workspace s = Some w" "parse_workspace L parsed = Inr w"
      "check_workspace_placement L w = Inr ()" by auto
    ultimately show ?thesis
      using 3 loop t n len context_as_dict_accepted [of L parsed c]
        workspace_as_dict_accepted [of L parsed w]
      by (simp add: validate_plan_suite_def normalized_def exact_keys_iff suite_required_def
          dkeys_def uses_execution_context_def)
  qed
qed

section \<open>Validators as an interface\<close>

text \<open>
  What callers rely on: a validator hands back the value it was given, and when it rejects it
  raises an exception that the entry points of the engine turn into an evidence error.
\<close>

definition record_error :: "pyexc \<Rightarrow> bool" where
  "record_error e \<longleftrightarrow> is_evidence_error e \<or> is_value_error e \<or> e = TypeError"

locale validator =
  fixes check :: "pyval \<Rightarrow> pyexc + pyval"
  assumes accepts: "yields (\<lambda>w. w = v) (check v)"
    and rejects: "raises record_error (check v)"
begin

lemma returns: "check v = Inr w \<Longrightarrow> w = v"
  using accepts by (rule yieldsD)

lemma check_again: "check v = Inr w \<Longrightarrow> check w = Inr w"
  using returns by metis

lemma all_returned: "rmap check vs = Inr ws \<Longrightarrow> ws = vs"
  by (induction vs arbitrary: ws) (auto dest: returns)

lemma all_checked: "rmap check vs = Inr ws \<longleftrightarrow> ws = vs \<and> (\<forall>v \<in> set vs. check v = Inr v)"
  by (induction vs arbitrary: ws) (auto dest: returns)

lemma all_rejects: "raises record_error (rmap check vs)"
  by (intro raises_intros rejects)

end

lemma record_error_simps [simp]:
  "record_error EvidenceError" "record_error UnicodeEncodeError" "record_error TypeError"
  by (simp_all add: record_error_def)

lemma raises_exact_keys [raises_intros]: "raises record_error (exact_keys d r opt)"
  unfolding exact_keys_def by (intro raises_intros) simp

lemma raises_utf8_len [raises_intros]: "raises record_error (utf8_len s)"
  unfolding utf8_len_def by (intro raises_intros) simp

lemma raises_validate_text [raises_intros]: "raises record_error (validate_text v)"
  unfolding validate_text_def by (intro raises_intros) simp

lemma raises_validate_bound_path [raises_intros]: "raises record_error (validate_bound_path v)"
  unfolding validate_bound_path_def by (intro raises_intros) simp_all

lemma raises_validate_portable_path [raises_intros]: "raises record_error (validate_portable_path L v)"
  unfolding validate_portable_path_def
  by (intro raises_intros raises_rcatch [where Q = "\<lambda>e. e = BoundaryError"])
    (auto simp: raises_def bench_to_evidence_def dest: normalize_relative_file_error)

lemma raises_canonical_json_bytes [raises_intros]: "raises record_error (canonical_json_bytes L v)"
  by (auto simp: canonical_json_bytes_def raises_def split: sum.splits option.splits)

lemma raises_body_sha256 [raises_intros]: "raises record_error (body_sha256 L v)"
  unfolding body_sha256_def by (intro raises_intros)

interpretation identity: validator validate_identity
proof
  show "yields (\<lambda>w. w = v) (validate_identity v)" for v by (simp add: yields_def validate_identity_iff)
  show "raises record_error (validate_identity v)" for v
    unfolding validate_identity_def by (intro raises_intros) simp_all
qed

lemma raises_validate_identity_fields [raises_intros]: "raises record_error (validate_identity_fields d)"
  unfolding validate_identity_fields_def by (rule identity.rejects)

interpretation file_record: validator validate_file_record
proof
  show "yields (\<lambda>w. w = v) (validate_file_record v)" for v
    unfolding validate_file_record_def by (intro yields_intros) simp_all
  show "raises record_error (validate_file_record v)" for v
    unfolding validate_file_record_def by (intro raises_intros) simp_all
qed

interpretation identity_map: validator "validate_identity_map L expected"
proof
  show "yields (\<lambda>w. w = v) (validate_identity_map L expected v)" for v
    unfolding validate_identity_map_def by (intro yields_intros) simp_all
  show "raises record_error (validate_identity_map L expected v)" for v
    unfolding validate_identity_map_def by (intro raises_intros identity.rejects) simp_all
qed

interpretation context_descr: validator "validate_context_descriptor L"
proof
  show "yields (\<lambda>w. w = v) (validate_context_descriptor L v)" for v
    unfolding validate_context_descriptor_def by (intro yields_intros) simp_all
  show "raises record_error (validate_context_descriptor L v)" for v
    unfolding validate_context_descriptor_def by (intro raises_intros) simp_all
qed

interpretation workspace_descr: validator "validate_workspace_descriptor L"
proof
  show "yields (\<lambda>w. w = v) (validate_workspace_descriptor L v)" for v
    unfolding validate_workspace_descriptor_def by (intro yields_intros) simp_all
  show "raises record_error (validate_workspace_descriptor L v)" for v
    unfolding validate_workspace_descriptor_def by (intro raises_intros) simp_all
qed

interpretation workspace_summary: validator validate_workspace_summary
proof
  show "yields (\<lambda>w. w = v) (validate_workspace_summary v)" for v
    unfolding validate_workspace_summary_def by (intro yields_intros) simp_all
  show "raises record_error (validate_workspace_summary v)" for v
    unfolding validate_workspace_summary_def by (intro raises_intros) simp_all
qed

interpretation workspace_binding: validator "validate_workspace_binding L"
proof
  show "yields (\<lambda>w. w = v) (validate_workspace_binding L v)" for v
    unfolding validate_workspace_binding_def by (intro yields_intros) simp_all
  show "raises record_error (validate_workspace_binding L v)" for v
    unfolding validate_workspace_binding_def
    by (intro raises_intros workspace_summary.rejects) simp_all
qed

interpretation executable_identity: validator validate_executable_identity
proof
  show "yields (\<lambda>w. w = v) (validate_executable_identity v)" for v
    unfolding validate_executable_identity_def by (intro yields_intros) simp_all
  show "raises record_error (validate_executable_identity v)" for v
    unfolding validate_executable_identity_def by (intro raises_intros) simp_all
qed

interpretation launch_environment: validator validate_launch_environment
proof
  show "yields (\<lambda>w. w = v) (validate_launch_environment v)" for v
    unfolding validate_launch_environment_def by (intro yields_intros) simp_all
  show "raises record_error (validate_launch_environment v)" for v
    unfolding validate_launch_environment_def validate_static_variable_def
    by (intro raises_intros) simp_all
qed

interpretation scope_policy: validator validate_process_scope_policy
proof
  show "yields (\<lambda>w. w = v) (validate_process_scope_policy v)" for v
    unfolding validate_process_scope_policy_def by (intro yields_intros) simp_all
  show "raises record_error (validate_process_scope_policy v)" for v
    unfolding validate_process_scope_policy_def by (intro raises_intros) simp_all
qed

interpretation plan_task: validator "validate_plan_task L"
proof
  show "yields (\<lambda>w. w = v) (validate_plan_task L v)" for v by (simp add: yields_def validate_plan_task_iff)
  have [raises_intros]: "raises record_error (rcatch (\<lambda>e. if e = UnicodeEncodeError then EvidenceError else e)
      (rmap utf8_len argv))" for argv
    by (intro raises_rcatch [where Q = record_error] raises_intros) simp
  show "raises record_error (validate_plan_task L v)" for v
    unfolding validate_plan_task_def validate_plan_argv_def validate_plan_paths_def
    by (intro raises_intros) simp_all
qed

lemma raises_validate_task_context [raises_intros]: "raises record_error (validate_task_context L d v)"
  unfolding validate_task_context_def
  by (intro raises_intros executable_identity.rejects launch_environment.rejects scope_policy.rejects)
    simp_all

interpretation execution_context: validator "validate_execution_context L task_ids"
proof
  show "yields (\<lambda>w. w = v) (validate_execution_context L task_ids v)" for v
    unfolding validate_execution_context_def by (intro yields_intros) simp_all
  show "raises record_error (validate_execution_context L task_ids v)" for v
    unfolding validate_execution_context_def
    by (intro raises_intros context_descr.rejects) simp_all
qed

lemma raises_validate_plan_suite [raises_intros]: "raises record_error (validate_plan_suite L version v)"
  unfolding validate_plan_suite_def plan_task_step_def
  by (intro raises_intros context_descr.rejects workspace_descr.rejects plan_task.rejects) simp_all

lemma raises_validate_plan_header [raises_intros]: "raises record_error (validate_plan_header plan)"
  unfolding validate_plan_header_def by (intro raises_intros file_record.rejects) simp_all

lemma raises_validate_plan_environment [raises_intros]: "raises record_error (validate_plan_environment v)"
  unfolding validate_plan_environment_def by (intro raises_intros) simp_all

lemma raises_validate_plan_context [raises_intros]: "raises record_error (validate_plan_context L plan ids)"
  unfolding validate_plan_context_def by (intro raises_intros execution_context.rejects) simp_all

lemma raises_validate_plan_workspace [raises_intros]: "raises record_error (validate_plan_workspace L plan)"
  unfolding validate_plan_workspace_def by (intro raises_intros workspace_binding.rejects) simp_all

text \<open>What the rest of the engine uses of an accepted plan.\<close>

definition plan_valid :: "pylib \<Rightarrow> pydict \<Rightarrow> bool" where
  "plan_valid L plan \<longleftrightarrow> validate_plan_shape L (PDict plan) = Inr ()"

lemma plan_valid_version:
  "plan_valid L plan \<Longrightarrow> plan_version plan \<in> {1, 2, 3} \<and> fld plan ''schema_version'' = PInt (plan_version plan)"
  by (auto simp: plan_valid_def validate_plan_shape_def validate_plan_header_def Let_def plan_version_def
      non_bool_int_iff)

lemma plan_valid_tasks:
  assumes "plan_valid L plan"
  obtains ts where "list_all2 (recorded_task L) (plan_tasks plan) ts" "distinct (map task_id ts)"
    "ts \<noteq> []" "length ts \<le> MAX_SUITE_TASKS"
    "sum_list (map (\<lambda>t. length (task_inputs t) + length (task_outputs t)) ts) \<le> MAX_SUITE_PATH_REFERENCES"
proof -
  from assms obtain ids where "validate_plan_suite L (plan_version plan) (fld plan ''suite'') = Inr ids"
    by (auto simp: plan_valid_def validate_plan_shape_def)
  then obtain suite vs acc where s: "fld plan ''suite'' = PDict suite" "fld suite ''tasks'' = PList vs"
    "vs \<noteq> []" "length vs \<le> MAX_SUITE_TASKS"
    "rfold (plan_task_step L (plan_version plan)) vs ([], 0) = Inr acc"
    by (auto simp: validate_plan_suite_def Let_def is_list_iff not_less split: pyval.splits)
  from s(5) obtain ts where ts: "list_all2 (\<lambda>v t. \<exists>d. v = PDict d \<and> recorded_task L d t) vs ts"
    "ts \<noteq> [] \<longrightarrow> sum_list (map (\<lambda>t. length (task_inputs t) + length (task_outputs t)) ts)
       \<le> MAX_SUITE_PATH_REFERENCES"
    "distinct (map task_id ts)"
    unfolding plan_tasks_loop by auto
  have l: "length ts = length vs" using ts(1) by (simp add: list_all2_lengthD)
  have "list_all2 (recorded_task L) (plan_tasks plan) ts"
    using ts(1) by (auto simp: plan_tasks_def s list_all2_map1 elim!: list.rel_mono_strong)
  with ts l s(3,4) that show ?thesis by (metis length_0_conv)
qed

lemma plan_valid_ids:
  assumes "plan_valid L plan"
  shows "distinct (map task_key (plan_tasks plan))" "plan_tasks plan \<noteq> []"
proof -
  from assms obtain ts where ts: "list_all2 (recorded_task L) (plan_tasks plan) ts"
    "distinct (map task_id ts)" "ts \<noteq> []" by (rule plan_valid_tasks)
  have "map task_key (plan_tasks plan) = map task_id ts"
    using ts(1) by (induction rule: list_all2_induct) (auto simp: task_key_def recorded_task_def)
  with ts show "distinct (map task_key (plan_tasks plan))" "plan_tasks plan \<noteq> []" by auto
qed

text \<open>A small plan for concrete instances.\<close>

definition sample_identity :: pyval where
  "sample_identity = PDict [(lit ''sha256'', PStr (replicate 64 48)), (lit ''size'', PInt 0)]"

definition sample_plan :: pydict where
  "sample_plan =
     [(lit ''schema_version'', PInt 1), (lit ''kind'', PLit ''benchhandoff-plan''),
      (lit ''run_id'', PStr (replicate 32 48)), (lit ''created_at'', PLit ''t''),
      (lit ''run_directory'', PLit ''/run''),
      (lit ''suite_file'', PDict ((lit ''path'', PLit ''/suite.toml'') # dict_of sample_identity)),
      (lit ''suite_root'', PLit ''/''), (lit ''suite'', normalized sample_suite),
      (lit ''seed_inputs'', PDict [(lit ''s'', sample_identity)]),
      (lit ''environment'', PDict [(lit ''python_implementation'', PLit ''CPython''),
         (lit ''python_version'', PLit ''3.12''), (lit ''platform'', PLit ''Linux'')])]"

lemma sample_plan_valid: "plan_valid sample_lib sample_plan"
proof -
  have "validate_plan_suite sample_lib 1 (normalized sample_suite) = Inr [lit ''a'', lit ''b'']"
    using normalized_accepted [OF parse_sample_suite] by (simp add: sample_suite_def lit_def)
  moreover have "portable_path sample_lib (lit ''s'')"
    by (simp add: portable_path_def portable_component_def lit_def utf8_char_def sample_lib_def
        WINDOWS_INVALID_CHARACTERS_def WINDOWS_RESERVED_NAMES_def upt_rec dec.simps
        MAX_PORTABLE_PATH_UTF8_BYTES_def MAX_WINDOWS_COMPONENT_UTF8_BYTES_def)
  moreover have "validate_identity sample_identity = Inr sample_identity"
    by (simp add: validate_identity_iff sample_identity_def exact_keys_iff dkeys_def is_sha256_def
        is_lower_hex_def is_digit_def)
  ultimately show ?thesis
    by (simp add: plan_valid_def validate_plan_shape_def validate_plan_header_def Let_def sample_plan_def
        plan_version_def exact_keys_iff plan_required_def dkeys_def uses_execution_context_def
        validate_text_iff is_lower_hex_def is_digit_def validate_bound_path_iff starts_with_def
        validate_file_record_def validate_identity_map_def validate_portable_path_iff
        validate_plan_environment_def validate_identity_fields_def sample_identity_def)
      (simp add: lit_def)
qed

section \<open>Properties\<close>



definition nul_toml :: "pystr \<Rightarrow> pyval option" where
  "nul_toml t = Some (PDict
     [(lit ''version'', PInt 1), (lit ''name'', PStr [110, 0, 110]),
      (lit ''task'', PList
        [PDict [(lit ''id'', PLit ''a''), (lit ''argv'', PList [PLit ''x'']),
                (lit ''outputs'', PList [PLit ''o''])]])])"


text \<open>
  Whatever \<open>plan.json\<close> holds, the plan validator either accepts it or raises an exception
  that the entry points of the engine convert to an evidence error; it never escapes with
  anything else.
\<close>

theorem validate_plan_shape_rejects: "raises record_error (validate_plan_shape L v)"
  unfolding validate_plan_shape_def by (intro raises_intros identity_map.rejects) simp_all

text \<open>
  An accepted plan has schema version 1, 2 or 3, one to 64 tasks with distinct ids and at
  most 512 path references, and each task record is exactly that of a task with a valid id,
  a bounded nonempty argument vector and portable, distinct inputs and outputs.
\<close>

theorem validate_plan_shape_tasks:
  assumes "validate_plan_shape L (PDict plan) = Inr ()"
  shows "plan_version plan \<in> {1, 2, 3} \<and>
    (\<exists>ts. list_all2 (recorded_task L) (plan_tasks plan) ts \<and> distinct (map task_id ts)
       \<and> ts \<noteq> [] \<and> length ts \<le> MAX_SUITE_TASKS
       \<and> sum_list (map (\<lambda>t. length (task_inputs t) + length (task_outputs t)) ts)
           \<le> MAX_SUITE_PATH_REFERENCES)"
proof -
  have "plan_valid L plan" using assms by (simp add: plan_valid_def)
  from plan_valid_version [OF this] plan_valid_tasks [OF this] show ?thesis by metis
qed

theorem validate_plan_shape_tasks_witness:
  "plan_version sample_plan \<in> {1, 2, 3} \<and>
    (\<exists>ts. list_all2 (recorded_task sample_lib) (plan_tasks sample_plan) ts \<and> distinct (map task_id ts)
       \<and> ts \<noteq> [] \<and> length ts \<le> MAX_SUITE_TASKS
       \<and> sum_list (map (\<lambda>t. length (task_inputs t) + length (task_outputs t)) ts)
           \<le> MAX_SUITE_PATH_REFERENCES)"
  by (rule validate_plan_shape_tasks) (rule sample_plan_valid [unfolded plan_valid_def])

end
