(* ===== verification/State_Shape.thy ===== *)
theory State_Shape
  imports Plan_Shape
begin

text \<open>
  The validators of \<^verbatim>\<open>src/src/benchhandoff/engine.py\<close> for event records, attempts and
  \<^verbatim>\<open>state.json\<close>. Shown here: what an accepted state satisfies (an ordered completed prefix, one
  task in progress, untouched tasks after it, the attempt budget, terminal attempts before a
  successor, verified outputs of completed tasks), that the initial state of a run is accepted
  and that rejection always surfaces as an evidence error.
\<close>

section \<open>Event records\<close>

definition MAX_EVENT_BYTES :: nat where "MAX_EVENT_BYTES = 256 * 1024"
definition MAX_EVENT_COUNT :: nat where "MAX_EVENT_COUNT = 100000"
definition MAX_EVENT_LOG_BYTES :: nat where "MAX_EVENT_LOG_BYTES = 64 * 1024 * 1024"
definition MAX_ATTEMPTS_PER_TASK :: nat where "MAX_ATTEMPTS_PER_TASK = 4"
definition MAX_TOTAL_ATTEMPTS :: nat where "MAX_TOTAL_ATTEMPTS = 256"

datatype detail_type = DStr | DInt | DIntOrNone

definition EVENT_DETAIL_FIELDS :: "(pystr \<times> (string \<times> detail_type) list) list" where
  "EVENT_DETAIL_FIELDS =
     [(lit ''run_started'', [(''suite'', DStr), (''tasks'', DInt)]),
      (lit ''run_resumed'', [(''previous_status'', DStr)]),
      (lit ''run_completed'', [(''operation'', DStr), (''tasks'', DInt)]),
      (lit ''task_started'', [(''attempt'', DInt)]),
      (lit ''task_failed'', [(''attempt'', DInt), (''return_code'', DIntOrNone), (''reason'', DStr)]),
      (lit ''task_recovery_prepared'',
        [(''previous_status'', DStr), (''attempt'', DInt), (''quarantined_outputs'', DInt)]),
      (lit ''task_completed'', [(''attempt'', DInt), (''outputs'', DInt)])]"

definition TASK_EVENT_TYPES :: "pystr list" where
  "TASK_EVENT_TYPES =
     map lit [''task_started'', ''task_failed'', ''task_recovery_prepared'', ''task_completed'']"

text \<open>Membership of a value in a set of strings; hashing a list or dictionary is a type error.\<close>

definition in_str_set :: "pyval \<Rightarrow> pystr set \<Rightarrow> pyexc + bool" where
  "in_str_set v S =
     (case v of PList _ \<Rightarrow> Inl TypeError | PDict _ \<Rightarrow> Inl TypeError
      | PStr s \<Rightarrow> Inr (s \<in> S) | _ \<Rightarrow> Inr False)"

definition validate_event_detail :: "string \<Rightarrow> detail_type \<Rightarrow> pyval \<Rightarrow> pyexc + unit" where
  "validate_event_detail key ty v =
     rbind (case ty of
              DStr \<Rightarrow> (if \<not> is_str v then Inl EvidenceError else Inr ())
            | DInt \<Rightarrow> (if v = PNone then Inl EvidenceError
                       else if \<not> non_bool_int v then Inl EvidenceError
                       else if key \<noteq> ''return_code'' \<and> int_of v < 0 then Inl EvidenceError
                       else Inr ())
            | DIntOrNone \<Rightarrow> (if v = PNone then Inr ()
                       else if \<not> non_bool_int v then Inl EvidenceError
                       else if key \<noteq> ''return_code'' \<and> int_of v < 0 then Inl EvidenceError
                       else Inr ()))
       (\<lambda>_. if is_str v
            then rbind (validate_text v) (\<lambda>t. if length t > 8192 then Inl EvidenceError else Inr ())
            else Inr ())"

definition validate_event_type :: "pydict \<Rightarrow> pydict \<Rightarrow> pyexc + (string \<times> detail_type) list" where
  "validate_event_type plan event =
     rbind (validate_text (fld event ''type'')) (\<lambda>event_type.
       case map_of EVENT_DETAIL_FIELDS event_type of
         None \<Rightarrow> Inl EvidenceError
       | Some dfields \<Rightarrow>
           if event_type \<in> set TASK_EVENT_TYPES then
             (if \<not> has_key event ''task_id'' then Inl EvidenceError
              else rbind (in_str_set (fld event ''task_id'') (task_key ` set (plan_tasks plan))) (\<lambda>known.
                if \<not> known then Inl EvidenceError else Inr dfields))
           else if has_key event ''task_id'' then Inl EvidenceError
           else Inr dfields)"

definition validate_event_record ::
  "pylib \<Rightarrow> pydict \<Rightarrow> nat \<Rightarrow> pyval \<Rightarrow> pyval \<Rightarrow> pyexc + pyval" where
  "validate_event_record L plan record_number previous_sha256 v =
     (case v of
        PDict event \<Rightarrow>
          rbind (exact_keys event [''schema_version'', ''time'', ''type'', ''run_id'', ''sequence'',
                                   ''previous_sha256'', ''details''] [''task_id'']) (\<lambda>_.
          if \<not> non_bool_int (fld event ''schema_version'')
             \<or> \<not> py_eq (fld event ''schema_version'') (fld plan ''schema_version'')
          then Inl EvidenceError
          else if \<not> py_eq (fld event ''run_id'') (fld plan ''run_id'') then Inl EvidenceError
          else if \<not> non_bool_int (fld event ''sequence'')
                  \<or> int_of (fld event ''sequence'') \<noteq> int record_number then Inl EvidenceError
          else if \<not> py_eq (fld event ''previous_sha256'') previous_sha256 then Inl EvidenceError
          else rbind (validate_text (fld event ''time'')) (\<lambda>_.
          rbind (validate_event_type plan event) (\<lambda>dfields.
          case fld event ''details'' of
            PDict details \<Rightarrow>
              rbind (exact_keys details (map fst dfields) []) (\<lambda>_.
              rbind (rmap (\<lambda>(key, ty). validate_event_detail key ty (fld details key)) dfields) (\<lambda>_.
              rbind (rcatch (\<lambda>_. EvidenceError) (canonical_json_bytes L v)) (\<lambda>payload.
              if length payload > MAX_EVENT_BYTES then Inl EvidenceError else Inr v)))
          | _ \<Rightarrow> Inl EvidenceError)))
      | _ \<Rightarrow> Inl EvidenceError)"

section \<open>Attempts\<close>

definition quarantine_name :: "pylib \<Rightarrow> pystr \<Rightarrow> nat \<Rightarrow> pystr \<Rightarrow> pyexc + pystr" where
  "quarantine_name L tid attempt_number relative =
     (case utf8 (tid @ [0] @ dec attempt_number @ [0] @ relative) of
        None \<Rightarrow> Inl UnicodeEncodeError
      | Some b \<Rightarrow> Inr (lit ''a'' @ dec_pad 8 attempt_number @ lit ''.'' @ sha256 L b @ lit ''.artifact''))"

definition quarantine_artifact :: "pylib \<Rightarrow> pystr \<Rightarrow> nat \<Rightarrow> pystr \<Rightarrow> pyexc + pystr" where
  "quarantine_artifact L tid n relative =
     rbind (quarantine_name L tid n relative) (\<lambda>name. Inr (lit ''quarantine/'' @ name))"

definition log_path :: "pystr \<Rightarrow> nat \<Rightarrow> string \<Rightarrow> pystr" where
  "log_path tid n stream =
     lit ''logs/'' @ tid @ lit ''/attempt-'' @ dec_pad 4 n @ lit ''.'' @ lit stream @ lit ''.log''"

definition quarantine_step ::
  "pylib \<Rightarrow> pydict \<Rightarrow> nat \<Rightarrow> pyval \<Rightarrow> pystr list \<times> pystr list \<Rightarrow> pyexc + pystr list \<times> pystr list" where
  "quarantine_step L task attempt_number v acc =
     (case v of
        PDict r \<Rightarrow>
          rbind (exact_keys r [''source'', ''artifact'', ''sha256'', ''size''] []) (\<lambda>_.
          rbind (validate_portable_path L (fld r ''source'')) (\<lambda>source.
          rbind (validate_portable_path L (fld r ''artifact'')) (\<lambda>artifact.
          if PStr source \<notin> set (list_of (fld task ''outputs'')) then Inl EvidenceError
          else rbind (quarantine_artifact L (task_key task) attempt_number source) (\<lambda>expected.
          if artifact \<noteq> expected then Inl EvidenceError
          else if source \<in> set (fst acc) \<or> artifact \<in> set (snd acc) then Inl EvidenceError
          else rbind (validate_identity_fields r) (\<lambda>_.
            Inr (source # fst acc, artifact # snd acc))))))
      | _ \<Rightarrow> Inl EvidenceError)"

definition validate_quarantine_records :: "pylib \<Rightarrow> pydict \<Rightarrow> nat \<Rightarrow> pyval \<Rightarrow> pyexc + pyval" where
  "validate_quarantine_records L task attempt_number v =
     (case v of
        PList records \<Rightarrow>
          rbind (rfold (quarantine_step L task attempt_number) records ([], [])) (\<lambda>_. Inr v)
      | _ \<Rightarrow> Inl EvidenceError)"

definition lits :: "string list \<Rightarrow> pyval set" where
  "lits ss = PLit ` set ss"

definition validate_attempt_process_scope ::
  "pyval \<Rightarrow> pystr \<Rightarrow> pyval \<Rightarrow> bool \<Rightarrow> pyval \<Rightarrow> pyexc + pyval" where
  "validate_attempt_process_scope expected_policy status child_pid child_launch_guard v =
     (case v of
        PDict d \<Rightarrow>
          rbind (exact_keys d [''mode'', ''cooperative'', ''scope_id'', ''empty_confirmed'', ''closure''] [])
            (\<lambda>_.
          rbind (validate_process_scope_policy (PDict [(lit ''mode'', fld d ''mode''),
                   (lit ''cooperative'', fld d ''cooperative'')])) (\<lambda>policy.
          let scope_id = fld d ''scope_id''; empty = fld d ''empty_confirmed'';
              closure = fld d ''closure'' in
          if \<not> py_eq policy expected_policy then Inl EvidenceError
          else if scope_id \<noteq> PNone \<and> (\<not> non_bool_int scope_id \<or> int_of scope_id \<le> 0)
          then Inl EvidenceError
          else if \<not> is_bool empty then Inl EvidenceError
          else if closure \<notin> lits [''pending-launch'', ''active'', ''not-created'', ''launch-cleaned'',
                     ''natural-empty'', ''terminated'', ''recovered-empty''] then Inl EvidenceError
          else if child_launch_guard then
            (if scope_id \<noteq> PNone \<or> empty = PBool True \<or> closure \<noteq> PLit ''pending-launch''
             then Inl EvidenceError else Inr v)
          else if child_pid = PNone then
            (if status \<noteq> lit ''failed'' \<or> scope_id \<noteq> PNone \<or> empty \<noteq> PBool True
                \<or> closure \<notin> lits [''not-created'', ''launch-cleaned'']
             then Inl EvidenceError else Inr v)
          else if \<not> py_eq scope_id child_pid then Inl EvidenceError
          else if status = lit ''running'' then
            (if empty = PBool True \<or> closure \<noteq> PLit ''active'' then Inl EvidenceError else Inr v)
          else if empty \<noteq> PBool True
                  \<or> closure \<notin> lits [''natural-empty'', ''terminated'', ''recovered-empty'']
          then Inl EvidenceError
          else Inr v))
      | _ \<Rightarrow> Inl EvidenceError)"

definition attempt_required :: "int \<Rightarrow> string list" where
  "attempt_required version =
     [''number'', ''status'', ''started_at'', ''ended_at'', ''child_pid'', ''child_start_token'',
      ''child_launch_guard'', ''return_code'', ''argv'', ''verified_inputs'', ''stdout'', ''stderr'']
     @ (if version = 3 then [''workspace_before''] else [])
     @ (if uses_execution_context version then [''execution_context_sha256'', ''process_scope''] else [])"

definition attempt_optional :: "int \<Rightarrow> string list" where
  "attempt_optional version =
     [''error'', ''verified_outputs'', ''interruption_reason'', ''quarantined_outputs'',
      ''return_code_unavailable_reason'']
     @ (if version = 3 then [''workspace_after'', ''workspace_recovered''] else [])"

text \<open>\<open>plan["execution_context"]["tasks"][task["id"]]\<close>\<close>

definition plan_task_context :: "pydict \<Rightarrow> pydict \<Rightarrow> pydict" where
  "plan_task_context plan task =
     dict_of (case map_of (dict_of (fld (dict_of (fld plan ''execution_context'')) ''tasks''))
                (task_key task) of None \<Rightarrow> PNone | Some v \<Rightarrow> v)"

definition attempt_workspace :: "pydict \<Rightarrow> pydict \<Rightarrow> pystr \<Rightarrow> pyexc + unit" where
  "attempt_workspace plan d status =
     (if plan_version plan = 3 then
        rbind (validate_workspace_summary (fld d ''workspace_before'')) (\<lambda>_.
        rbind (if has_key d ''workspace_after''
               then rbind (validate_workspace_summary (fld d ''workspace_after'')) (\<lambda>_. Inr ())
               else Inr ()) (\<lambda>_.
        rbind (if has_key d ''workspace_recovered''
               then rbind (validate_workspace_summary (fld d ''workspace_recovered'')) (\<lambda>_. Inr ())
               else Inr ()) (\<lambda>_.
        if status \<in> {lit ''failed'', lit ''interrupted''} \<and> \<not> has_key d ''workspace_after''
        then Inl EvidenceError else Inr ())))
      else Inr ())"

definition attempt_header :: "pydict \<Rightarrow> pydict \<Rightarrow> nat \<Rightarrow> pydict \<Rightarrow> pyexc + pystr" where
  "attempt_header plan task index d =
     rbind (exact_keys d (attempt_required (plan_version plan)) (attempt_optional (plan_version plan)))
       (\<lambda>_.
     if uses_execution_context (plan_version plan)
        \<and> \<not> py_eq (fld d ''execution_context_sha256'') (fld (plan_task_context plan task) ''context_sha256'')
     then Inl EvidenceError
     else if \<not> non_bool_int (fld d ''number'') \<or> int_of (fld d ''number'') \<noteq> int index + 1
     then Inl EvidenceError
     else if fld d ''status'' \<notin> lits [''running'', ''failed'', ''interrupted'', ''completed'']
     then Inl EvidenceError
     else let status = str_of (fld d ''status'') in
     rbind (validate_text (fld d ''started_at'')) (\<lambda>_.
     rbind (attempt_workspace plan d status) (\<lambda>_.
     if status = lit ''running'' then
       (if fld d ''ended_at'' \<noteq> PNone \<or> fld d ''return_code'' \<noteq> PNone then Inl EvidenceError
        else if \<exists>k \<in> set [''error'', ''interruption_reason'', ''verified_outputs'',
                  ''quarantined_outputs'', ''workspace_after'', ''workspace_recovered''].
                  has_key d k then Inl EvidenceError
        else Inr status)
     else rbind (validate_text (fld d ''ended_at'')) (\<lambda>_. Inr status))))"

definition attempt_child :: "pydict \<Rightarrow> pydict \<Rightarrow> pystr \<Rightarrow> pydict \<Rightarrow> pyexc + unit" where
  "attempt_child plan task status d =
     (let child_pid = fld d ''child_pid''; token = fld d ''child_start_token'';
          guard = fld d ''child_launch_guard'' in
      if child_pid \<noteq> PNone \<and> (\<not> non_bool_int child_pid \<or> int_of child_pid \<le> 0) then Inl EvidenceError
      else if child_pid = PNone \<and> token \<noteq> PNone then Inl EvidenceError
      else if child_pid \<noteq> PNone
              \<and> (\<not> is_str token \<or> str_of token = [] \<or> length (str_of token) > 256)
      then Inl EvidenceError
      else if \<not> is_bool guard then Inl EvidenceError
      else if guard = PBool True \<and> (status \<noteq> lit ''running'' \<or> child_pid \<noteq> PNone \<or> token \<noteq> PNone)
      then Inl EvidenceError
      else if guard \<noteq> PBool True \<and> status = lit ''running'' \<and> child_pid = PNone then Inl EvidenceError
      else if uses_execution_context (plan_version plan)
      then rbind (validate_attempt_process_scope (fld (plan_task_context plan task) ''process_scope'')
                    status child_pid (guard = PBool True) (fld d ''process_scope'')) (\<lambda>_. Inr ())
      else Inr ())"

definition attempt_result :: "pylib \<Rightarrow> pydict \<Rightarrow> nat \<Rightarrow> pystr \<Rightarrow> pydict \<Rightarrow> pyexc + unit" where
  "attempt_result L task index status d =
     (let child_pid = fld d ''child_pid''; return_code = fld d ''return_code'' in
      if return_code \<noteq> PNone \<and> \<not> non_bool_int return_code then Inl EvidenceError
      else rbind (if has_key d ''return_code_unavailable_reason''
                  then rbind (validate_text (fld d ''return_code_unavailable_reason'')) (\<lambda>_.
                    if status \<noteq> lit ''interrupted'' \<or> child_pid = PNone \<or> return_code \<noteq> PNone
                    then Inl EvidenceError else Inr ())
                  else Inr ()) (\<lambda>_.
      if status \<in> {lit ''failed'', lit ''interrupted''} \<and> child_pid = PNone \<and> return_code \<noteq> PNone
      then Inl EvidenceError
      else if status \<in> {lit ''failed'', lit ''interrupted''} \<and> child_pid \<noteq> PNone \<and> return_code = PNone
              \<and> \<not> has_key d ''return_code_unavailable_reason'' then Inl EvidenceError
      else if \<not> py_eq (fld d ''argv'') (fld task ''argv'') then Inl EvidenceError
      else rbind (validate_identity_map L (Some (str_of ` set (list_of (fld task ''inputs''))))
                    (fld d ''verified_inputs'')) (\<lambda>_.
      rbind (validate_portable_path L (fld d ''stdout'')) (\<lambda>stdout.
      if stdout \<noteq> log_path (task_key task) (index + 1) ''stdout'' then Inl EvidenceError
      else rbind (validate_portable_path L (fld d ''stderr'')) (\<lambda>stderr.
      if stderr \<noteq> log_path (task_key task) (index + 1) ''stderr'' then Inl EvidenceError
      else Inr ())))))"

definition attempt_outputs :: "pylib \<Rightarrow> pydict \<Rightarrow> pydict \<Rightarrow> pystr \<Rightarrow> pydict \<Rightarrow> pyexc + unit" where
  "attempt_outputs L plan task status d =
     (if status = lit ''completed'' then
        (if fld d ''child_pid'' = PNone \<or> fld d ''child_start_token'' = PNone then Inl EvidenceError
         else if \<not> py_eq (fld d ''return_code'') (PInt 0) then Inl EvidenceError
         else if \<not> has_key d ''verified_outputs'' then Inl EvidenceError
         else rbind (validate_identity_map L (Some (str_of ` set (list_of (fld task ''outputs''))))
                       (fld d ''verified_outputs'')) (\<lambda>_.
           if plan_version plan = 3 \<and> \<not> has_key d ''workspace_after'' then Inl EvidenceError
           else Inr ()))
      else if has_key d ''verified_outputs'' then Inl EvidenceError
      else Inr ())"

definition attempt_text :: "pydict \<Rightarrow> string \<Rightarrow> pyexc + unit" where
  "attempt_text d k =
     (if has_key d k
      then rbind (validate_text (fld d k)) (\<lambda>t. if length t > 8192 then Inl EvidenceError else Inr ())
      else Inr ())"

definition attempt_recovery :: "pylib \<Rightarrow> pydict \<Rightarrow> pydict \<Rightarrow> nat \<Rightarrow> pystr \<Rightarrow> pydict \<Rightarrow> pyexc + unit" where
  "attempt_recovery L plan task index status d =
     (let ended = status \<in> {lit ''failed'', lit ''interrupted''} in
      if ended \<and> \<not> has_key d ''error'' \<and> \<not> has_key d ''interruption_reason'' then Inl EvidenceError
      else rbind (attempt_text d ''error'') (\<lambda>_.
      rbind (attempt_text d ''interruption_reason'') (\<lambda>_.
      rbind (if has_key d ''quarantined_outputs'' then
               (if \<not> ended then Inl EvidenceError
                else rbind (validate_quarantine_records L task (index + 1) (fld d ''quarantined_outputs''))
                       (\<lambda>_. Inr ()))
             else Inr ()) (\<lambda>_.
      if plan_version plan = 3 \<and> has_key d ''quarantined_outputs'' \<and> \<not> has_key d ''workspace_recovered''
      then Inl EvidenceError
      else if has_key d ''workspace_recovered'' \<and> \<not> ended then Inl EvidenceError
      else if has_key d ''workspace_recovered'' \<and> \<not> has_key d ''quarantined_outputs''
      then Inl EvidenceError
      else Inr ()))))"

definition validate_attempt :: "pylib \<Rightarrow> pydict \<Rightarrow> pydict \<Rightarrow> nat \<Rightarrow> pyval \<Rightarrow> pyexc + pyval" where
  "validate_attempt L plan task index v =
     (case v of
        PDict d \<Rightarrow>
          rbind (attempt_header plan task index d) (\<lambda>status.
          rbind (attempt_child plan task status d) (\<lambda>_.
          rbind (attempt_result L task index status d) (\<lambda>_.
          rbind (attempt_outputs L plan task status d) (\<lambda>_.
          rbind (attempt_recovery L plan task index status d) (\<lambda>_. Inr v)))))
      | _ \<Rightarrow> Inl EvidenceError)"

section \<open>Run state\<close>

text \<open>The fields of a validated attempt that the state rules look at.\<close>

definition attempt_status :: "pyval \<Rightarrow> pystr" where
  "attempt_status a = str_of (fld (dict_of a) ''status'')"

definition recovered :: "pyval \<Rightarrow> bool" where
  "recovered a \<longleftrightarrow> has_key (dict_of a) ''quarantined_outputs''"

definition state_header :: "pylib \<Rightarrow> pydict \<Rightarrow> pydict \<Rightarrow> pyexc + unit" where
  "state_header L plan state =
     rbind (exact_keys state [''schema_version'', ''kind'', ''run_id'', ''plan_sha256'', ''status'',
              ''created_at'', ''updated_at'', ''last_error'', ''event_log'', ''pending_event'', ''tasks'']
              []) (\<lambda>_.
     if \<not> non_bool_int (fld state ''schema_version'')
        \<or> \<not> py_eq (fld state ''schema_version'') (fld plan ''schema_version'')
        \<or> \<not> py_eq (fld state ''kind'') (PLit ''benchhandoff-state'') then Inl EvidenceError
     else if \<not> py_eq (fld state ''run_id'') (fld plan ''run_id'') then Inl EvidenceError
     else if \<not> is_sha256 (fld state ''plan_sha256'') then Inl EvidenceError
     else if fld state ''status'' \<notin> lits [''running'', ''failed'', ''completed''] then Inl EvidenceError
     else rbind (validate_text (fld state ''created_at'')) (\<lambda>_.
     rbind (validate_text (fld state ''updated_at'')) (\<lambda>_.
     rbind (if fld state ''last_error'' \<noteq> PNone
            then rbind (validate_text (fld state ''last_error'')) (\<lambda>_. Inr ()) else Inr ()) (\<lambda>_. Inr ()))))"

definition state_event_log :: "pylib \<Rightarrow> pydict \<Rightarrow> pydict \<Rightarrow> pyexc + unit" where
  "state_event_log L plan state =
     (case fld state ''event_log'' of
        PDict log \<Rightarrow>
          rbind (exact_keys log [''sha256'', ''size'', ''count''] []) (\<lambda>_.
          rbind (validate_identity_fields log) (\<lambda>_.
          let count = fld log ''count'' in
          if \<not> non_bool_int count \<or> int_of count < 0 then Inl EvidenceError
          else if int_of count > int MAX_EVENT_COUNT then Inl EvidenceError
          else if fld state ''pending_event'' \<noteq> PNone then
            (if int_of count \<ge> int MAX_EVENT_COUNT then Inl EvidenceError
             else rbind (validate_event_record L plan (nat (int_of count) + 1) (fld log ''sha256'')
                           (fld state ''pending_event'')) (\<lambda>_. Inr ()))
          else Inr ()))
      | _ \<Rightarrow> Inl EvidenceError)"

definition state_attempts :: "pylib \<Rightarrow> pydict \<Rightarrow> pydict \<Rightarrow> pyval list \<Rightarrow> pyexc + unit" where
  "state_attempts L plan task attempts =
     rbind (rmap (\<lambda>(index, a). validate_attempt L plan task index a) (enumerate 0 attempts))
       (\<lambda>validated.
         rbind (rmap (\<lambda>previous.
             if attempt_status previous \<notin> {lit ''failed'', lit ''interrupted''} then Inl EvidenceError
             else if \<not> recovered previous then Inl EvidenceError
             else if plan_version plan = 3 \<and> \<not> has_key (dict_of previous) ''workspace_recovered''
             then Inl EvidenceError
             else Inr ()) (butlast validated)) (\<lambda>_. Inr ()))"

definition state_task_consistent :: "pystr \<Rightarrow> pydict \<Rightarrow> pyval list \<Rightarrow> pyexc + unit" where
  "state_task_consistent status ts attempts =
     (if status = lit ''pending'' then
        (if attempts \<noteq> [] \<and> (attempt_status (last attempts) \<notin> {lit ''failed'', lit ''interrupted''}
             \<or> \<not> recovered (last attempts)) then Inl EvidenceError else Inr ())
      else if attempts = [] then Inl EvidenceError
      else if status = lit ''running'' then
        (if attempt_status (last attempts) \<noteq> lit ''running'' \<or> recovered (last attempts)
         then Inl EvidenceError else Inr ())
      else if status = lit ''failed'' then
        (if attempt_status (last attempts) \<notin> {lit ''failed'', lit ''interrupted''}
            \<or> recovered (last attempts) then Inl EvidenceError else Inr ())
      else if attempt_status (last attempts) \<noteq> lit ''completed'' then Inl EvidenceError
      else if \<not> py_eq (fld ts ''verified_inputs'') (fld (dict_of (last attempts)) ''verified_inputs'')
      then Inl EvidenceError
      else if \<not> py_eq (fld ts ''verified_outputs'') (fld (dict_of (last attempts)) ''verified_outputs'')
      then Inl EvidenceError
      else Inr ())"

text \<open>\<open>state["tasks"][task["id"]]\<close>\<close>

definition task_state :: "pydict \<Rightarrow> pydict \<Rightarrow> pyval" where
  "task_state tasks task = (case map_of tasks (task_key task) of None \<Rightarrow> PNone | Some v \<Rightarrow> v)"

definition state_task_step :: "pylib \<Rightarrow> pydict \<Rightarrow> pydict \<Rightarrow> pydict \<Rightarrow> nat \<Rightarrow> pyexc + nat" where
  "state_task_step L plan tasks task seen =
     (case task_state tasks task of
        PDict ts \<Rightarrow>
          rbind (exact_keys ts [''status'', ''attempts'', ''verified_inputs'', ''verified_outputs''] [])
            (\<lambda>_.
          if fld ts ''status'' \<notin> lits [''pending'', ''running'', ''failed'', ''completed'']
          then Inl EvidenceError
          else if \<not> is_list (fld ts ''attempts'') then Inl EvidenceError
          else let status = str_of (fld ts ''status''); attempts = list_of (fld ts ''attempts'');
                   declared = (\<lambda>k. if status = lit ''completed''
                                   then str_of ` set (list_of (fld task k)) else {}) in
          if length attempts > MAX_ATTEMPTS_PER_TASK then Inl EvidenceError
          else if seen + length attempts > MAX_TOTAL_ATTEMPTS then Inl EvidenceError
          else rbind (state_attempts L plan task attempts) (\<lambda>_.
          rbind (validate_identity_map L (Some (declared ''inputs'')) (fld ts ''verified_inputs'')) (\<lambda>_.
          rbind (validate_identity_map L (Some (declared ''outputs'')) (fld ts ''verified_outputs'')) (\<lambda>_.
          rbind (state_task_consistent status ts attempts) (\<lambda>_.
            Inr (seen + length attempts))))))
      | _ \<Rightarrow> Inl EvidenceError)"

definition task_status :: "pydict \<Rightarrow> pydict \<Rightarrow> pystr" where
  "task_status tasks task = str_of (fld (dict_of (task_state tasks task)) ''status'')"

definition task_attempts :: "pydict \<Rightarrow> pydict \<Rightarrow> pyval list" where
  "task_attempts tasks task = list_of (fld (dict_of (task_state tasks task)) ''attempts'')"

fun prefix_scan :: "pydict \<Rightarrow> bool \<Rightarrow> pydict list \<Rightarrow> pyexc + unit" where
  "prefix_scan tasks saw [] = Inr ()"
| "prefix_scan tasks saw (task # rest) =
     (if task_status tasks task = lit ''completed'' then
        (if saw then Inl EvidenceError else prefix_scan tasks saw rest)
      else if \<not> saw then prefix_scan tasks True rest
      else if task_status tasks task \<noteq> lit ''pending'' \<or> task_attempts tasks task \<noteq> []
      then Inl EvidenceError
      else prefix_scan tasks saw rest)"

definition state_run_status :: "pydict \<Rightarrow> pydict \<Rightarrow> pydict \<Rightarrow> pyexc + unit" where
  "state_run_status plan state tasks =
     (let status = fld state ''status'' in
      if status = PLit ''completed''
         \<and> \<not> list_all (\<lambda>task. task_status tasks task = lit ''completed'') (plan_tasks plan)
      then Inl EvidenceError
      else if status = PLit ''completed'' \<and> fld state ''last_error'' \<noteq> PNone then Inl EvidenceError
      else if status = PLit ''failed'' \<and> \<not> is_str (fld state ''last_error'') then Inl EvidenceError
      else Inr ())"

definition validate_state_shape :: "pylib \<Rightarrow> pydict \<Rightarrow> pyval \<Rightarrow> pyexc + unit" where
  "validate_state_shape L plan v =
     (case v of
        PDict state \<Rightarrow>
          rbind (state_header L plan state) (\<lambda>_.
          rbind (state_event_log L plan state) (\<lambda>_.
          case fld state ''tasks'' of
            PDict tasks \<Rightarrow>
              if set (dkeys tasks) \<noteq> task_key ` set (plan_tasks plan) then Inl EvidenceError
              else rbind (rfold (state_task_step L plan tasks) (plan_tasks plan) 0) (\<lambda>_.
                rbind (prefix_scan tasks False (plan_tasks plan)) (\<lambda>_.
                  state_run_status plan state tasks))
          | _ \<Rightarrow> Inl EvidenceError))
      | _ \<Rightarrow> Inl EvidenceError)"

section \<open>The initial state\<close>

definition initial_task_state :: pyval where
  "initial_task_state = PDict
     [(lit ''status'', PLit ''pending''), (lit ''attempts'', PList []),
      (lit ''verified_inputs'', PDict []), (lit ''verified_outputs'', PDict [])]"

definition initial_state :: "pystr \<Rightarrow> pydict \<Rightarrow> pydict \<Rightarrow> pydict \<Rightarrow> pydict" where
  "initial_state now plan plan_identity event_log_identity =
     [(lit ''schema_version'', fld plan ''schema_version''), (lit ''kind'', PLit ''benchhandoff-state''),
      (lit ''run_id'', fld plan ''run_id''), (lit ''plan_sha256'', fld plan_identity ''sha256''),
      (lit ''status'', PLit ''running''), (lit ''created_at'', PStr now), (lit ''updated_at'', PStr now),
      (lit ''last_error'', PNone),
      (lit ''event_log'', PDict (dset ''count'' (PInt 0) event_log_identity)),
      (lit ''pending_event'', PNone),
      (lit ''tasks'', PDict (map (\<lambda>t. (task_key t, initial_task_state)) (plan_tasks plan)))]"

section \<open>Rejection\<close>

lemma raises_detail_case [raises_intros]:
  "raises P a \<Longrightarrow> raises P b \<Longrightarrow> raises P c \<Longrightarrow>
   raises P (case ty of DStr \<Rightarrow> a | DInt \<Rightarrow> b | DIntOrNone \<Rightarrow> c)"
  by (cases ty) simp_all

lemma raises_in_str_set [raises_intros]: "raises record_error (in_str_set v S)"
  unfolding in_str_set_def by (intro raises_intros) simp_all

lemma raises_validate_event_detail [raises_intros]:
  "raises record_error (validate_event_detail key ty v)"
  unfolding validate_event_detail_def by (intro raises_intros) simp_all

lemma raises_validate_event_type [raises_intros]: "raises record_error (validate_event_type plan event)"
  unfolding validate_event_type_def by (intro raises_intros) simp_all

interpretation event_record: validator "validate_event_record L plan n prev"
proof
  show "yields (\<lambda>w. w = v) (validate_event_record L plan n prev v)" for v
    unfolding validate_event_record_def by (intro yields_intros) simp_all
  show "raises record_error (validate_event_record L plan n prev v)" for v
    unfolding validate_event_record_def
    by (intro raises_intros raises_rcatch [where Q = record_error]) simp_all
qed

lemma raises_quarantine_artifact [raises_intros]: "raises record_error (quarantine_artifact L t n r)"
  unfolding quarantine_artifact_def quarantine_name_def by (intro raises_intros) simp

interpretation quarantine_records: validator "validate_quarantine_records L task n"
proof
  show "yields (\<lambda>w. w = v) (validate_quarantine_records L task n v)" for v
    unfolding validate_quarantine_records_def by (intro yields_intros) simp_all
  show "raises record_error (validate_quarantine_records L task n v)" for v
    unfolding validate_quarantine_records_def quarantine_step_def by (intro raises_intros) simp_all
qed

interpretation attempt_scope: validator "validate_attempt_process_scope policy status pid guard"
proof
  show "yields (\<lambda>w. w = v) (validate_attempt_process_scope policy status pid guard v)" for v
    unfolding validate_attempt_process_scope_def by (intro yields_intros) simp_all
  show "raises record_error (validate_attempt_process_scope policy status pid guard v)" for v
    unfolding validate_attempt_process_scope_def
    by (intro raises_intros scope_policy.rejects) simp_all
qed

lemma raises_attempt_parts [raises_intros]:
  "raises record_error (attempt_header plan task i d)"
  "raises record_error (attempt_child plan task status d)"
  "raises record_error (attempt_result L task i status d)"
  "raises record_error (attempt_outputs L plan task status d)"
  "raises record_error (attempt_recovery L plan task i status d)"
  unfolding attempt_header_def attempt_workspace_def attempt_child_def attempt_result_def
    attempt_outputs_def attempt_recovery_def attempt_text_def
  by (intro raises_intros workspace_summary.rejects attempt_scope.rejects identity_map.rejects
      quarantine_records.rejects; simp)+

interpretation attempt: validator "validate_attempt L plan task i"
proof
  show "yields (\<lambda>w. w = v) (validate_attempt L plan task i v)" for v
    unfolding validate_attempt_def by (intro yields_intros) simp_all
  show "raises record_error (validate_attempt L plan task i v)" for v
    unfolding validate_attempt_def by (intro raises_intros) simp_all
qed

lemma raises_state_parts [raises_intros]:
  "raises record_error (state_header L plan state)"
  "raises record_error (state_event_log L plan state)"
  "raises record_error (state_attempts L plan task attempts)"
  "raises record_error (state_task_consistent status ts attempts)"
  "raises record_error (state_run_status plan state tasks)"
  unfolding state_header_def state_event_log_def state_attempts_def state_task_consistent_def
    state_run_status_def
  by (intro raises_intros event_record.rejects attempt.rejects; simp)+

lemma raises_state_task_step [raises_intros]: "raises record_error (state_task_step L plan tasks task n)"
  unfolding state_task_step_def by (intro raises_intros identity_map.rejects) simp_all

lemma raises_prefix_scan [raises_intros]: "raises record_error (prefix_scan tasks saw ts)"
  by (induction tasks saw ts rule: prefix_scan.induct) (auto intro!: raises_intros)

section \<open>What an accepted state satisfies\<close>

lemma prefix_scan_after:
  "prefix_scan tasks True ts = Inr () \<longleftrightarrow>
     (\<forall>t \<in> set ts. task_status tasks t = lit ''pending'' \<and> task_attempts tasks t = [])"
  by (induction ts) auto

text \<open>The declarative reading of the scan.\<close>

definition ordered_progress :: "pydict \<Rightarrow> pydict list \<Rightarrow> bool" where
  "ordered_progress tasks ts \<longleftrightarrow>
     (\<exists>n \<le> length ts.
        (\<forall>t \<in> set (take n ts). task_status tasks t = lit ''completed'')
        \<and> (n < length ts \<longrightarrow> task_status tasks (ts ! n) \<noteq> lit ''completed'')
        \<and> (\<forall>t \<in> set (drop (Suc n) ts).
             task_status tasks t = lit ''pending'' \<and> task_attempts tasks t = []))"

lemma prefix_scan_iff: "prefix_scan tasks False ts = Inr () \<longleftrightarrow> ordered_progress tasks ts"
proof (induction ts)
  case Nil
  then show ?case by (simp add: ordered_progress_def)
next
  case (Cons t ts)
  show ?case
  proof (cases "task_status tasks t = lit ''completed''")
    case True
    have "ordered_progress tasks (t # ts) \<longleftrightarrow> ordered_progress tasks ts"
    proof
      assume "ordered_progress tasks (t # ts)"
      then obtain n where n: "n \<le> length (t # ts)"
        "\<forall>u \<in> set (take n (t # ts)). task_status tasks u = lit ''completed''"
        "n < length (t # ts) \<longrightarrow> task_status tasks ((t # ts) ! n) \<noteq> lit ''completed''"
        "\<forall>u \<in> set (drop (Suc n) (t # ts)). task_status tasks u = lit ''pending'' \<and> task_attempts tasks u = []"
        unfolding ordered_progress_def by blast
      with True obtain m where "n = Suc m" by (cases n) auto
      with n show "ordered_progress tasks ts" unfolding ordered_progress_def by (intro exI [of _ m]) auto
    next
      assume "ordered_progress tasks ts"
      then obtain n where n: "n \<le> length ts" "\<forall>u \<in> set (take n ts). task_status tasks u = lit ''completed''"
        "n < length ts \<longrightarrow> task_status tasks (ts ! n) \<noteq> lit ''completed''"
        "\<forall>u \<in> set (drop (Suc n) ts). task_status tasks u = lit ''pending'' \<and> task_attempts tasks u = []"
        unfolding ordered_progress_def by blast
      with True show "ordered_progress tasks (t # ts)"
        unfolding ordered_progress_def by (intro exI [of _ "Suc n"]) auto
    qed
    with True Cons show ?thesis by simp
  next
    case False
    have "ordered_progress tasks (t # ts) \<longleftrightarrow> prefix_scan tasks True ts = Inr ()"
    proof
      assume "ordered_progress tasks (t # ts)"
      then obtain n where n: "\<forall>u \<in> set (take n (t # ts)). task_status tasks u = lit ''completed''"
        "\<forall>u \<in> set (drop (Suc n) (t # ts)). task_status tasks u = lit ''pending'' \<and> task_attempts tasks u = []"
        unfolding ordered_progress_def by blast
      with False have "n = 0" by (cases n) auto
      with n show "prefix_scan tasks True ts = Inr ()" by (simp add: prefix_scan_after)
    next
      assume "prefix_scan tasks True ts = Inr ()"
      with False show "ordered_progress tasks (t # ts)"
        unfolding ordered_progress_def prefix_scan_after by (intro exI [of _ 0]) auto
    qed
    with False show ?thesis by simp
  qed
qed

lemma rfold_constant: "(\<And>x. x \<in> set xs \<Longrightarrow> f x s = Inr s) \<Longrightarrow> rfold f xs s = Inr s"
  by (induction xs) auto

lemma rfold_each:
  "rfold f xs s = Inr t \<Longrightarrow> x \<in> set xs \<Longrightarrow> \<exists>a b. f x a = Inr b"
  by (induction xs arbitrary: s) auto

text \<open>What one accepted task state satisfies.\<close>

definition task_state_ok :: "pylib \<Rightarrow> pydict \<Rightarrow> pydict \<Rightarrow> pydict \<Rightarrow> bool" where
  "task_state_ok L plan tasks task \<longleftrightarrow>
     (let attempts = task_attempts tasks task; status = task_status tasks task;
          ts = dict_of (task_state tasks task) in
      status \<in> set (map lit [''pending'', ''running'', ''failed'', ''completed''])
      \<and> length attempts \<le> MAX_ATTEMPTS_PER_TASK
      \<and> (\<forall>i < length attempts. validate_attempt L plan task i (attempts ! i) = Inr (attempts ! i))
      \<and> (\<forall>a \<in> set (butlast attempts).
           attempt_status a \<in> {lit ''failed'', lit ''interrupted''} \<and> recovered a)
      \<and> (status = lit ''pending'' \<and> attempts \<noteq> [] \<longrightarrow>
           attempt_status (last attempts) \<in> {lit ''failed'', lit ''interrupted''} \<and> recovered (last attempts))
      \<and> (status \<noteq> lit ''pending'' \<longrightarrow> attempts \<noteq> [])
      \<and> (status = lit ''running'' \<longrightarrow> attempt_status (last attempts) = lit ''running'')
      \<and> (status = lit ''failed'' \<longrightarrow>
           attempt_status (last attempts) \<in> {lit ''failed'', lit ''interrupted''}
           \<and> \<not> recovered (last attempts))
      \<and> (status = lit ''completed'' \<longrightarrow> attempt_status (last attempts) = lit ''completed''
           \<and> validate_identity_map L (Some (str_of ` set (list_of (fld task ''outputs''))))
               (fld ts ''verified_outputs'') = Inr (fld ts ''verified_outputs'')
           \<and> py_eq (fld ts ''verified_outputs'') (fld (dict_of (last attempts)) ''verified_outputs'')))"

lemma rmap_enumerate:
  assumes "rmap (\<lambda>(i, a). f i a) (enumerate k xs) = Inr ys" "\<And>i a b. f i a = Inr b \<Longrightarrow> b = a"
  shows "ys = xs \<and> (\<forall>i < length xs. f (k + i) (xs ! i) = Inr (xs ! i))"
  using assms
proof (induction xs arbitrary: k ys)
  case Nil
  then show ?case by simp
next
  case (Cons x xs)
  then obtain y zs where y: "f k x = Inr y" "rmap (\<lambda>(i, a). f i a) (enumerate (Suc k) xs) = Inr zs"
    "ys = y # zs" by auto
  with Cons.IH [of "Suc k" zs] Cons.prems(2) have "zs = xs"
    and ih: "\<forall>i < length xs. f (Suc k + i) (xs ! i) = Inr (xs ! i)" by auto
  moreover have "y = x" using Cons.prems(2) y(1) by blast
  ultimately show ?case using y by (auto simp: less_Suc_eq_0_disj)
qed

lemma rmap_unit_all:
  "rmap f xs = Inr (ys :: unit list) \<Longrightarrow> \<forall>x \<in> set xs. f x = Inr ()"
  by (induction xs arbitrary: ys) auto

lemma state_attempts_Inr:
  assumes "state_attempts L plan task attempts = Inr ()"
  shows "\<forall>i < length attempts. validate_attempt L plan task i (attempts ! i) = Inr (attempts ! i)"
    and "\<forall>a \<in> set (butlast attempts).
      attempt_status a \<in> {lit ''failed'', lit ''interrupted''} \<and> recovered a"
proof -
  from assms obtain validated us where
    v: "rmap (\<lambda>(i, a). validate_attempt L plan task i a) (enumerate 0 attempts) = Inr validated"
    and u: "rmap (\<lambda>previous. if attempt_status previous \<notin> {lit ''failed'', lit ''interrupted''}
        then Inl EvidenceError else if \<not> recovered previous then Inl EvidenceError
        else if plan_version plan = 3 \<and> \<not> has_key (dict_of previous) ''workspace_recovered''
        then Inl EvidenceError else Inr ()) (butlast validated) = Inr us"
    by (auto simp: state_attempts_def)
  from rmap_enumerate [OF v] attempt.returns
  have *: "validated = attempts" "\<forall>i < length attempts. validate_attempt L plan task i (attempts ! i) = Inr (attempts ! i)"
    by auto
  show "\<forall>i < length attempts. validate_attempt L plan task i (attempts ! i) = Inr (attempts ! i)"
    by (rule *(2))
  from rmap_unit_all [OF u] show "\<forall>a \<in> set (butlast attempts).
      attempt_status a \<in> {lit ''failed'', lit ''interrupted''} \<and> recovered a"
    by (simp add: *(1))
qed

lemma state_task_step_Inr:
  assumes "state_task_step L plan tasks task n = Inr m"
  shows "task_state_ok L plan tasks task" "m = n + length (task_attempts tasks task)"
    "m \<le> MAX_TOTAL_ATTEMPTS"
proof -
  from assms obtain ts where ts: "task_state tasks task = PDict ts"
    by (auto simp: state_task_step_def split: pyval.splits)
  let ?st = "str_of (fld ts ''status'')" and ?as = "list_of (fld ts ''attempts'')"
  from assms have s: "fld ts ''status'' \<in> lits [''pending'', ''running'', ''failed'', ''completed'']"
    "length ?as \<le> MAX_ATTEMPTS_PER_TASK" "n + length ?as \<le> MAX_TOTAL_ATTEMPTS"
    "state_attempts L plan task ?as = Inr ()"
    "\<exists>w. validate_identity_map L (Some (if ?st = lit ''completed''
       then str_of ` set (list_of (fld task ''outputs'')) else {})) (fld ts ''verified_outputs'') = Inr w"
    "state_task_consistent ?st ts ?as = Inr ()" "m = n + length ?as"
    by (auto simp: state_task_step_def ts Let_def not_less)
  have o: "validate_identity_map L (Some (if ?st = lit ''completed''
       then str_of ` set (list_of (fld task ''outputs'')) else {})) (fld ts ''verified_outputs'')
     = Inr (fld ts ''verified_outputs'')"
    using s(5) identity_map.returns by metis
  from s(1) have st: "?st \<in> set (map lit [''pending'', ''running'', ''failed'', ''completed''])"
    by (auto simp: lits_def)
  show "m = n + length (task_attempts tasks task)" "m \<le> MAX_TOTAL_ATTEMPTS"
    using s(3,7) by (simp_all add: task_attempts_def ts)
  show "task_state_ok L plan tasks task"
    using st s(2,6) o state_attempts_Inr [OF s(4)]
    unfolding task_state_ok_def Let_def
    by (auto simp: task_attempts_def task_status_def ts state_task_consistent_def split: if_splits)
qed

definition state_valid :: "pylib \<Rightarrow> pydict \<Rightarrow> pydict \<Rightarrow> bool" where
  "state_valid L plan state \<longleftrightarrow> validate_state_shape L plan (PDict state) = Inr ()"

text \<open>\<open>state["tasks"]\<close>\<close>

definition state_tasks :: "pydict \<Rightarrow> pydict" where
  "state_tasks state = dict_of (fld state ''tasks'')"

lemma state_valid_parts:
  assumes "state_valid L plan state"
  shows "\<forall>task \<in> set (plan_tasks plan). task_state_ok L plan (state_tasks state) task"
    "sum_list (map (\<lambda>t. length (task_attempts (state_tasks state) t)) (plan_tasks plan)) \<le> MAX_TOTAL_ATTEMPTS"
    "ordered_progress (state_tasks state) (plan_tasks plan)"
    "state_run_status plan state (state_tasks state) = Inr ()"
    "state_header L plan state = Inr ()" "state_event_log L plan state = Inr ()"
    "set (dkeys (state_tasks state)) = task_key ` set (plan_tasks plan)"
proof -
  from assms obtain tasks m where t: "fld state ''tasks'' = PDict tasks"
    and f: "rfold (state_task_step L plan tasks) (plan_tasks plan) 0 = Inr m"
    and r: "prefix_scan tasks False (plan_tasks plan) = Inr ()" "state_run_status plan state tasks = Inr ()"
      "state_header L plan state = Inr ()" "state_event_log L plan state = Inr ()"
      "set (dkeys tasks) = task_key ` set (plan_tasks plan)"
    by (auto simp: state_valid_def validate_state_shape_def split: pyval.splits)
  have st: "state_tasks state = tasks" by (simp add: state_tasks_def t)
  show "\<forall>task \<in> set (plan_tasks plan). task_state_ok L plan (state_tasks state) task"
    using rfold_each [OF f] state_task_step_Inr(1) by (metis st)
  have "rfold (state_task_step L plan tasks) ts k = Inr m \<Longrightarrow> k \<le> MAX_TOTAL_ATTEMPTS \<Longrightarrow>
      m = k + sum_list (map (\<lambda>t. length (task_attempts tasks t)) ts) \<and> m \<le> MAX_TOTAL_ATTEMPTS" for ts k
  proof (induction ts arbitrary: k)
    case (Cons t ts)
    then obtain x where "state_task_step L plan tasks t k = Inr x"
      "rfold (state_task_step L plan tasks) ts x = Inr m" by auto
    with Cons.IH [of x] state_task_step_Inr(2,3) [of L plan tasks t k x] show ?case by simp
  qed simp
  from this [OF f] show "sum_list (map (\<lambda>t. length (task_attempts (state_tasks state) t)) (plan_tasks plan))
      \<le> MAX_TOTAL_ATTEMPTS"
    by (simp add: st)
  show "ordered_progress (state_tasks state) (plan_tasks plan)" using r(1) by (simp add: prefix_scan_iff st)
  show "state_run_status plan state (state_tasks state) = Inr ()" "state_header L plan state = Inr ()"
    "state_event_log L plan state = Inr ()"
    "set (dkeys (state_tasks state)) = task_key ` set (plan_tasks plan)"
    using r by (simp_all add: st)
qed

lemma attempt_completed_Inr:
  assumes "validate_attempt L plan task i a = Inr b" "attempt_status a = lit ''completed''"
  shows "fld (dict_of a) ''return_code'' = PInt 0" "fld (dict_of a) ''child_pid'' \<noteq> PNone"
    "validate_identity_map L (Some (str_of ` set (list_of (fld task ''outputs''))))
       (fld (dict_of a) ''verified_outputs'') = Inr (fld (dict_of a) ''verified_outputs'')"
proof -
  from assms(1) obtain d status where d: "a = PDict d" "attempt_header plan task i d = Inr status"
    "attempt_result L task i status d = Inr ()" "attempt_outputs L plan task status d = Inr ()"
    by (auto simp: validate_attempt_def split: pyval.splits)
  have st: "status = lit ''completed''"
    using d(2) assms(2) by (auto simp: attempt_header_def Let_def attempt_status_def d(1) split: if_splits)
  from d(3) have "fld d ''return_code'' = PNone \<or> non_bool_int (fld d ''return_code'')"
    by (auto simp: attempt_result_def Let_def)
  with d(4) show "fld (dict_of a) ''return_code'' = PInt 0" "fld (dict_of a) ''child_pid'' \<noteq> PNone"
    by (auto simp: attempt_outputs_def st d(1) non_bool_int_iff)
  show "validate_identity_map L (Some (str_of ` set (list_of (fld task ''outputs''))))
       (fld (dict_of a) ''verified_outputs'') = Inr (fld (dict_of a) ''verified_outputs'')"
    using d(4) identity_map.returns by (fastforce simp: attempt_outputs_def st d(1))
qed

section \<open>The initial state is accepted\<close>

lemma initial_task_step:
  assumes "map_of tasks (task_key task) = Some initial_task_state"
  shows "state_task_step L plan tasks task n = (if n > MAX_TOTAL_ATTEMPTS then Inl EvidenceError else Inr n)"
  using assms
  by (simp add: state_task_step_def task_state_def initial_task_state_def exact_keys_def dkeys_def
      lits_def Let_def state_attempts_def validate_identity_map_def state_task_consistent_def)

lemma initial_tasks_lookup:
  assumes "distinct (map task_key ts)" "t \<in> set ts"
  shows "map_of (map (\<lambda>t. (task_key t, initial_task_state)) ts) (task_key t) = Some initial_task_state"
  using assms by (induction ts) (auto simp: image_iff)

lemma initial_state_valid:
  assumes plan: "plan_valid L plan" and now: "validate_text (PStr now) = Inr now"
    and pid: "validate_identity (PDict pi) = Inr (PDict pi)"
    and eid: "validate_identity (PDict ei) = Inr (PDict ei)"
  shows "state_valid L plan (initial_state now plan pi ei)"
proof -
  define tasks where "tasks = map (\<lambda>t. (task_key t, initial_task_state)) (plan_tasks plan)"
  note lookup = initial_tasks_lookup [OF plan_valid_ids(1) [OF plan]]
  have "rfold (state_task_step L plan tasks) (plan_tasks plan) 0 = Inr 0"
    using lookup by (intro rfold_constant) (simp add: tasks_def initial_task_step)
  moreover have pending: "task_status tasks t = lit ''pending'' \<and> task_attempts tasks t = []"
    if "t \<in> set (plan_tasks plan)" for t
    using lookup [OF that]
    by (simp add: task_status_def task_attempts_def task_state_def tasks_def initial_task_state_def)
  moreover have "prefix_scan tasks False (plan_tasks plan) = Inr ()"
    unfolding prefix_scan_iff ordered_progress_def
    by (intro exI [of _ 0]) (auto simp: pending dest: in_set_dropD)
  moreover have "set (dkeys tasks) = task_key ` set (plan_tasks plan)"
    by (auto simp: tasks_def dkeys_def)
  moreover obtain r where r: "fld plan ''run_id'' = PStr r"
    using plan by (auto simp: plan_valid_def validate_plan_shape_def validate_plan_header_def Let_def
        validate_text_iff)
  moreover have "state_header L plan (initial_state now plan pi ei) = Inr ()"
    using now pid plan_valid_version [OF plan] r
    by (auto simp: state_header_def initial_state_def exact_keys_iff dkeys_def lits_def
        validate_identity_iff)
  moreover have "state_event_log L plan (initial_state now plan pi ei) = Inr ()"
    using eid
    by (auto simp: state_event_log_def initial_state_def exact_keys_iff validate_identity_iff
        validate_identity_fields_def Let_def dkeys_simps)
  ultimately show ?thesis
    by (simp add: state_valid_def validate_state_shape_def initial_state_def tasks_def [symmetric]
        state_run_status_def Let_def)
qed

section \<open>A concrete state\<close>

text \<open>
  The first task of the sample plan failed once, was recovered without any partial output and
  then completed; the second task completed at its first attempt.
\<close>

definition sample_attempt :: "string \<Rightarrow> nat \<Rightarrow> string \<Rightarrow> pydict \<Rightarrow> pydict" where
  "sample_attempt tid n input rest =
     [(lit ''number'', PInt (int n)), (lit ''started_at'', PLit ''t''), (lit ''ended_at'', PLit ''t''),
      (lit ''child_pid'', PInt 7), (lit ''child_start_token'', PLit ''k''),
      (lit ''child_launch_guard'', PBool False), (lit ''argv'', PList [PLit ''x'']),
      (lit ''verified_inputs'', PDict [(lit input, sample_identity)]),
      (lit ''stdout'', PStr (log_path (lit tid) n ''stdout'')),
      (lit ''stderr'', PStr (log_path (lit tid) n ''stderr''))] @ rest"

definition failed_attempt :: pyval where
  "failed_attempt = PDict (sample_attempt ''a'' 1 ''s''
     [(lit ''status'', PLit ''failed''), (lit ''return_code'', PInt 1), (lit ''error'', PLit ''e''),
      (lit ''quarantined_outputs'', PList [])])"

definition completed_attempt :: "string \<Rightarrow> nat \<Rightarrow> string \<Rightarrow> string \<Rightarrow> pyval" where
  "completed_attempt tid n input out = PDict (sample_attempt tid n input
     [(lit ''status'', PLit ''completed''), (lit ''return_code'', PInt 0),
      (lit ''verified_outputs'', PDict [(lit out, sample_identity)])])"

definition completed_task :: "string \<Rightarrow> string \<Rightarrow> pyval list \<Rightarrow> pyval" where
  "completed_task input out attempts = PDict
     [(lit ''status'', PLit ''completed''), (lit ''attempts'', PList attempts),
      (lit ''verified_inputs'', PDict [(lit input, sample_identity)]),
      (lit ''verified_outputs'', PDict [(lit out, sample_identity)])]"

definition sample_state :: pydict where
  "sample_state =
     [(lit ''schema_version'', PInt 1), (lit ''kind'', PLit ''benchhandoff-state''),
      (lit ''run_id'', PStr (replicate 32 48)), (lit ''plan_sha256'', PStr (replicate 64 48)),
      (lit ''status'', PLit ''completed''), (lit ''created_at'', PLit ''t''), (lit ''updated_at'', PLit ''t''),
      (lit ''last_error'', PNone),
      (lit ''event_log'', PDict ((lit ''count'', PInt 9) # dict_of sample_identity)),
      (lit ''pending_event'', PNone),
      (lit ''tasks'', PDict
        [(lit ''a'', completed_task ''s'' ''d/o'' [failed_attempt, completed_attempt ''a'' 2 ''s'' ''d/o'']),
         (lit ''b'', completed_task ''d/o'' ''d/p'' [completed_attempt ''b'' 1 ''d/o'' ''d/p''])])]"

text \<open>A library with a constant digest, for examples with contents.\<close>

definition fixed_lib :: pylib where
  "fixed_lib = sample_lib\<lparr>sha256 := (\<lambda>_. replicate 64 48)\<rparr>"

lemma fixed_sha: "is_sha256 (PStr (sha256 fixed_lib b))"
  by (simp add: is_sha256_def fixed_lib_def is_lower_hex_def is_digit_def)

lemmas portable_eval = portable_path_def portable_component_def lit_def utf8_char_def sample_lib_def
  WINDOWS_INVALID_CHARACTERS_def WINDOWS_RESERVED_NAMES_def upt_rec dec.simps
  MAX_PORTABLE_PATH_UTF8_BYTES_def MAX_WINDOWS_COMPONENT_UTF8_BYTES_def

lemma dec_pad_small: "dec_pad 4 (Suc 0) = [48, 48, 48, 49]" "dec_pad 4 2 = [48, 48, 48, 50]"
  by (simp_all add: dec_pad_def dec.simps numeral_eq_Suc)

lemma sample_paths:
  "portable_path sample_lib (lit ''s'')" "portable_path sample_lib (lit ''d/o'')"
  "portable_path sample_lib (lit ''d/p'')"
  by (simp_all add: portable_eval)

lemma sample_logs:
  "portable_path sample_lib (log_path (lit ''a'') 1 ''stdout'')"
  "portable_path sample_lib (log_path (lit ''a'') 1 ''stderr'')"
  "portable_path sample_lib (log_path (lit ''a'') 2 ''stdout'')"
  "portable_path sample_lib (log_path (lit ''a'') 2 ''stderr'')"
  "portable_path sample_lib (log_path (lit ''b'') 1 ''stdout'')"
  "portable_path sample_lib (log_path (lit ''b'') 1 ''stderr'')"
  by (simp_all add: log_path_def dec_pad_small portable_eval)

lemma sample_identity_ok: "validate_identity sample_identity = Inr sample_identity"
  by (simp add: validate_identity_iff sample_identity_def exact_keys_iff dkeys_def is_sha256_def
      is_lower_hex_def is_digit_def)

lemma sample_identity_refl: "py_eq sample_identity sample_identity"
  by (simp add: sample_identity_def)

lemma sample_identity_map:
  "portable_path sample_lib (lit p) \<Longrightarrow>
   validate_identity_map sample_lib (Some {lit p}) (PDict [(lit p, sample_identity)]) =
     Inr (PDict [(lit p, sample_identity)])"
  by (simp add: validate_identity_map_def sample_identity_ok
      validate_portable_path_iff [THEN iffD2] del: rbind_Inr_iff)

definition sample_task_a :: pydict where
  "sample_task_a = dict_of (task_as_dict (hd (suite_tasks sample_suite)))"

definition sample_task_b :: pydict where
  "sample_task_b = dict_of (task_as_dict (last (suite_tasks sample_suite)))"

lemma plan_tasks_sample: "plan_tasks sample_plan = [sample_task_a, sample_task_b]"
  by (simp add: plan_tasks_def sample_plan_def normalized_def sample_suite_def sample_task_a_def
      sample_task_b_def)

lemma plan_version_sample: "plan_version sample_plan = 1"
  by (simp add: plan_version_def sample_plan_def)

lemmas attempt_eval = validate_attempt_def attempt_header_def attempt_child_def attempt_result_def
  attempt_outputs_def attempt_recovery_def attempt_workspace_def attempt_text_def exact_keys_def
  attempt_required_def attempt_optional_def uses_execution_context_def lits_def Let_def
  dkeys_def validate_text_def sample_attempt_def plan_version_sample task_key_def
  validate_quarantine_records_def

lemma sample_attempts_ok:
  "validate_attempt sample_lib sample_plan sample_task_a 0
     failed_attempt = Inr failed_attempt"
  "validate_attempt sample_lib sample_plan sample_task_a 1
     (completed_attempt ''a'' 2 ''s'' ''d/o'') = Inr (completed_attempt ''a'' 2 ''s'' ''d/o'')"
  "validate_attempt sample_lib sample_plan sample_task_b 0
     (completed_attempt ''b'' 1 ''d/o'' ''d/p'') = Inr (completed_attempt ''b'' 1 ''d/o'' ''d/p'')"
  using sample_logs sample_identity_map [OF sample_paths(1)] sample_identity_map [OF sample_paths(2)]
    sample_identity_map [OF sample_paths(3)]
  by (simp_all add: attempt_eval failed_attempt_def completed_attempt_def sample_suite_def
      task_as_dict_def sample_task_a_def sample_task_b_def validate_portable_path_iff [THEN iffD2] set_lit numeral_2_eq_2 cong: rbind_weak_cong)

lemma sample_fields:
  "attempt_status failed_attempt = lit ''failed''" "recovered failed_attempt"
  "attempt_status (completed_attempt tid n i p) = lit ''completed''"
  "fld (dict_of (completed_attempt tid n i p)) ''verified_inputs'' = PDict [(lit i, sample_identity)]"
  "fld (dict_of (completed_attempt tid n i p)) ''verified_outputs'' = PDict [(lit p, sample_identity)]"
  by (simp_all add: attempt_status_def recovered_def failed_attempt_def completed_attempt_def
      sample_attempt_def)

lemma sample_task_fields:
  "fld sample_task_a ''inputs'' = PList [PLit ''s'']" "fld sample_task_a ''outputs'' = PList [PLit ''d/o'']"
  "fld sample_task_b ''inputs'' = PList [PLit ''d/o'']" "fld sample_task_b ''outputs'' = PList [PLit ''d/p'']"
  "task_key sample_task_a = lit ''a''" "task_key sample_task_b = lit ''b''"
  by (simp_all add: sample_task_a_def sample_task_b_def sample_suite_def task_as_dict_def task_key_def)

lemma sample_state_valid: "state_valid sample_lib sample_plan sample_state"
proof -
  define tasks where "tasks = dict_of (fld sample_state ''tasks'')"
  let ?a = "sample_task_a"
  let ?b = "sample_task_b"
  have lookup: "task_state tasks ?a =
      completed_task ''s'' ''d/o'' [failed_attempt, completed_attempt ''a'' 2 ''s'' ''d/o'']"
    "task_state tasks ?b = completed_task ''d/o'' ''d/p'' [completed_attempt ''b'' 1 ''d/o'' ''d/p'']"
    by (simp_all add: task_state_def sample_task_fields tasks_def sample_state_def)
  note maps = sample_identity_map [OF sample_paths(1)] sample_identity_map [OF sample_paths(2)]
    sample_identity_map [OF sample_paths(3)]
  note step = state_task_step_def lookup completed_task_def exact_keys_def dkeys_def lits_def Let_def
    MAX_ATTEMPTS_PER_TASK_def MAX_TOTAL_ATTEMPTS_def state_attempts_def state_task_consistent_def
    plan_version_sample sample_fields sample_task_fields
  have "state_task_step sample_lib sample_plan tasks ?a 0 = Inr 2"
    "state_task_step sample_lib sample_plan tasks ?b 2 = Inr 3"
    using sample_attempts_ok maps sample_identity_refl by (simp_all add: step)
  moreover have "task_status tasks ?a = lit ''completed''" "task_status tasks ?b = lit ''completed''"
    by (simp_all add: task_status_def lookup completed_task_def)
  moreover have "state_header sample_lib sample_plan sample_state = Inr ()"
    by (simp add: state_header_def sample_state_def exact_keys_iff dkeys_def lits_def validate_text_def
        sample_plan_def is_sha256_def is_lower_hex_def is_digit_def set_lit)
  moreover have "state_event_log sample_lib sample_plan sample_state = Inr ()"
    using sample_identity_ok
    by (simp add: state_event_log_def sample_state_def exact_keys_iff dkeys_def sample_identity_def
        validate_identity_fields_def Let_def MAX_EVENT_COUNT_def)
  moreover have "fld sample_state ''tasks'' = PDict tasks" "set (dkeys tasks) = {lit ''a'', lit ''b''}"
    "fld sample_state ''last_error'' = PNone" "fld sample_state ''status'' = PLit ''completed''"
    by (auto simp: tasks_def sample_state_def dkeys_def)
  ultimately show ?thesis
    by (simp add: state_valid_def validate_state_shape_def plan_tasks_sample sample_task_fields
        state_run_status_def Let_def insert_commute)
qed

section \<open>Properties\<close>

text \<open>
  C2: In every accepted \<open>state.json\<close> the completed tasks form a prefix of the plan, the task
  after them is the only one that has been touched, and every later task is pending without
  attempts. No task has more than four attempts and the run has at most 256.
\<close>

theorem accepted_state_progress:
  assumes "validate_state_shape L plan (PDict state) = Inr ()"
  shows "ordered_progress (state_tasks state) (plan_tasks plan)
    \<and> (\<forall>t \<in> set (plan_tasks plan). length (task_attempts (state_tasks state) t) \<le> MAX_ATTEMPTS_PER_TASK)
    \<and> sum_list (map (\<lambda>t. length (task_attempts (state_tasks state) t)) (plan_tasks plan))
        \<le> MAX_TOTAL_ATTEMPTS"
proof -
  have v: "state_valid L plan state" using assms by (simp add: state_valid_def)
  from state_valid_parts(1) [OF v] have "\<forall>t \<in> set (plan_tasks plan).
      length (task_attempts (state_tasks state) t) \<le> MAX_ATTEMPTS_PER_TASK"
    by (simp add: task_state_ok_def Let_def)
  with state_valid_parts(2,3) [OF v] show ?thesis by blast
qed

theorem accepted_state_progress_witness:
  "ordered_progress (state_tasks sample_state) (plan_tasks sample_plan)
   \<and> length (task_attempts (state_tasks sample_state) sample_task_a) \<le> MAX_ATTEMPTS_PER_TASK"
  using accepted_state_progress [OF sample_state_valid [unfolded state_valid_def]]
  by (simp add: plan_tasks_sample)

text \<open>
  A state that says the run completed vouches for every task of the plan: the task is
  completed, its last attempt ended with return code zero, and it records verified
  identities for exactly the declared outputs; there is no error message.
\<close>

theorem completed_state_outputs:
  assumes "validate_state_shape L plan (PDict state) = Inr ()" "fld state ''status'' = PLit ''completed''"
    and "task \<in> set (plan_tasks plan)"
  shows "task_status (state_tasks state) task = lit ''completed''
    \<and> task_attempts (state_tasks state) task \<noteq> []
    \<and> fld (dict_of (last (task_attempts (state_tasks state) task))) ''return_code'' = PInt 0
    \<and> validate_identity_map L (Some (str_of ` set (list_of (fld task ''outputs''))))
        (fld (dict_of (task_state (state_tasks state) task)) ''verified_outputs'')
      = Inr (fld (dict_of (task_state (state_tasks state) task)) ''verified_outputs'')
    \<and> fld state ''last_error'' = PNone"
proof -
  have v: "state_valid L plan state" using assms(1) by (simp add: state_valid_def)
  let ?as = "task_attempts (state_tasks state) task"
  from state_valid_parts(4) [OF v] assms(2,3) have c: "task_status (state_tasks state) task = lit ''completed''"
    "fld state ''last_error'' = PNone"
    by (auto simp: state_run_status_def Let_def list_all_iff)
  from state_valid_parts(1) [OF v] assms(3) have ok: "task_state_ok L plan (state_tasks state) task" by blast
  with c(1) have l: "?as \<noteq> []" "attempt_status (last ?as) = lit ''completed''"
    by (auto simp: task_state_ok_def Let_def)
  have "validate_attempt L plan task (length ?as - 1) (last ?as) = Inr (last ?as)"
    using ok l(1) by (simp add: task_state_ok_def Let_def last_conv_nth)
  with attempt_completed_Inr(1) l(2) have "fld (dict_of (last ?as)) ''return_code'' = PInt 0" by blast
  with ok c l show ?thesis by (simp add: task_state_ok_def Let_def)
qed

theorem completed_state_outputs_witness:
  "fld (dict_of (last (task_attempts (state_tasks sample_state) sample_task_a))) ''return_code'' = PInt 0"
  using completed_state_outputs [OF sample_state_valid [unfolded state_valid_def], of sample_task_a]
  by (simp add: plan_tasks_sample sample_state_def)

text \<open>
  Before a task is attempted again its earlier attempts have all ended (failed or
  interrupted) and their partial outputs are recorded as quarantined.
\<close>

theorem retried_attempts_recovered:
  assumes "validate_state_shape L plan (PDict state) = Inr ()" "task \<in> set (plan_tasks plan)"
    and "a \<in> set (butlast (task_attempts (state_tasks state) task))"
  shows "attempt_status a \<in> {lit ''failed'', lit ''interrupted''}
    \<and> has_key (dict_of a) ''quarantined_outputs''"
proof -
  have v: "state_valid L plan state" using assms(1) by (simp add: state_valid_def)
  with state_valid_parts(1) assms(2) have "task_state_ok L plan (state_tasks state) task" by blast
  with assms(3) show ?thesis unfolding task_state_ok_def Let_def recovered_def by blast
qed

theorem retried_attempts_recovered_witness:
  "attempt_status failed_attempt \<in> {lit ''failed'', lit ''interrupted''}
   \<and> has_key (dict_of failed_attempt) ''quarantined_outputs''"
  by (rule retried_attempts_recovered [OF sample_state_valid [unfolded state_valid_def], of sample_task_a])
    (simp_all add: plan_tasks_sample task_attempts_def task_state_def state_tasks_def sample_state_def
      sample_task_fields completed_task_def)

text \<open>
  C29: The state a new run starts from, before its first event, is accepted for every accepted
  plan: no task has been attempted.
\<close>

theorem initial_state_accepted:
  assumes "plan_valid L plan" "validate_text (PStr now) = Inr now"
    and "validate_identity (PDict pi) = Inr (PDict pi)" "validate_identity (PDict ei) = Inr (PDict ei)"
  shows "validate_state_shape L plan (PDict (initial_state now plan pi ei)) = Inr ()"
  using initial_state_valid [OF assms] by (simp add: state_valid_def)

theorem initial_state_accepted_witness:
  "validate_state_shape sample_lib sample_plan
     (PDict (initial_state (lit ''t'') sample_plan (dict_of sample_identity) (dict_of sample_identity)))
   = Inr ()"
proof (rule initial_state_accepted)
  show "plan_valid sample_lib sample_plan" by (rule sample_plan_valid)
  show "validate_text (PStr (lit ''t'')) = Inr (lit ''t'')" by (simp add: validate_text_iff lit_def)
  show "validate_identity (PDict (dict_of sample_identity)) = Inr (PDict (dict_of sample_identity))"
    "validate_identity (PDict (dict_of sample_identity)) = Inr (PDict (dict_of sample_identity))"
    by (simp_all add: validate_identity_iff sample_identity_def exact_keys_iff dkeys_def is_sha256_def
        is_lower_hex_def is_digit_def)
qed

text \<open>
  Whatever \<open>state.json\<close> holds, the state validator either accepts it or raises an exception
  that the entry points of the engine convert to an evidence error.
\<close>

theorem validate_state_shape_rejects: "raises record_error (validate_state_shape L plan v)"
  unfolding validate_state_shape_def by (intro raises_intros) simp_all

end
