(* ===== verification/Event_Log.thy ===== *)
theory Event_Log
  imports State_Shape Storage Canonical
begin

text \<open>
  The event log and the state file of a run, and the transition protocol between them
  (\<^verbatim>\<open>_event_log_observation\<close>, \<^verbatim>\<open>_event_transition_status\<close>, \<^verbatim>\<open>_commit_transition\<close> and
  \<^verbatim>\<open>_reconcile_pending_event\<close> of \<^verbatim>\<open>src/src/benchhandoff/engine.py\<close>). A transition is three
  atomic replacements: the new state with the event pending, the extended log, the state with
  the event acknowledged. Shown here: an accepted log is a hash chain of canonical records; a
  commit cut off anywhere leaves one of four combinations of state and log; and from the two
  that hold a pending event the reconciliation reaches exactly the files a complete commit
  leaves.
\<close>

section \<open>Definitions\<close>

definition PLAN_FILE :: pystr where "PLAN_FILE = lit ''plan.json''"
definition STATE_FILE :: pystr where "STATE_FILE = lit ''state.json''"
definition BUNDLE_FILE :: pystr where "BUNDLE_FILE = lit ''bundle.json''"
definition EVENTS_FILE :: pystr where "EVENTS_FILE = lit ''events.jsonl''"
definition LOGS_DIRECTORY :: pystr where "LOGS_DIRECTORY = lit ''logs''"
definition QUARANTINE_DIRECTORY :: pystr where "QUARANTINE_DIRECTORY = lit ''quarantine''"

text \<open>
  The run context. The plan and the state are dictionaries; the code holds the state as a
  mutable object, here it is passed on. After an exception no caller looks at it again, so the
  reset of \<open>pending_event\<close> in the exception handler of the commit has no effect to model.
\<close>

record run_context =
  rc_suite :: suite_spec
  rc_root :: path
  rc_plan :: pydict
  rc_state :: pydict

definition utc_now :: "pystr io" where
  "utc_now w = (Ret (w_now w (w_tick w)), w)"

definition event_path :: "path \<Rightarrow> path" where
  "event_path run_root = run_root @ [EVENTS_FILE]"

definition persist_state :: "pylib \<Rightarrow> bool \<Rightarrow> run_context \<Rightarrow> run_context io" where
  "persist_state L touch ctx =
     iob (if touch then iob utc_now (\<lambda>now. ret (dset ''updated_at'' (PStr now) (rc_state ctx)))
          else ret (rc_state ctx)) (\<lambda>state.
     iob (from_result (validate_state_shape L (rc_plan ctx) (PDict state))) (\<lambda>_.
     iob (atomic_write_json L (rc_root ctx @ [STATE_FILE]) (PDict state)) (\<lambda>_.
     ret (ctx\<lparr>rc_state := state\<rparr>))))"

definition write_state :: "pylib \<Rightarrow> run_context \<Rightarrow> run_context io" where
  "write_state L ctx = persist_state L True ctx"

subsection \<open>Reading the log\<close>

definition event_object :: "pydict \<Rightarrow> pyexc + pyval" where
  "event_object pairs = rbind (unique_pairs pairs []) (\<lambda>d. Inr (PDict d))"

definition decode_event :: "pylib \<Rightarrow> bytes \<Rightarrow> pyexc + pyval" where
  "decode_event L line =
     (case utf8_decode line of None \<Rightarrow> Inl EvidenceError
      | Some t \<Rightarrow> rcatch (\<lambda>_. EvidenceError) (loads L event_object reject_nonfinite_json t))"

abbreviation LF :: char where
  "LF \<equiv> CHR 0x0A"

definition first_line :: "bytes \<Rightarrow> bytes" where
  "first_line raw = takeWhile (\<lambda>c. c \<noteq> LF) raw @ [LF]"

text \<open>
  One record: its line, the digest of everything before it and its number. The value is the
  decoded event.
\<close>

definition read_event :: "pylib \<Rightarrow> pydict \<Rightarrow> bytes \<Rightarrow> nat \<Rightarrow> bytes \<Rightarrow> pyexc + pyval" where
  "read_event L plan seen count line =
     (if line = [LF] then Inl EvidenceError
      else if length line > MAX_EVENT_BYTES then Inl EvidenceError
      else rbind (decode_event L line) (\<lambda>event.
        rbind (validate_event_record L plan (count + 1) (PStr (sha256 L seen)) event) (\<lambda>_.
        rbind (rcatch (\<lambda>_. EvidenceError) (canonical_json_bytes L event)) (\<lambda>b.
          if b \<noteq> line then Inl EvidenceError else Inr event))))"

text \<open>
  The loop over the lines: \<open>seen\<close> is the part before the offset, \<open>rest\<close> the part from it on,
  and the incremental digest is that of \<open>seen\<close>.
\<close>

function scan_events :: "pylib \<Rightarrow> pydict \<Rightarrow> bytes \<Rightarrow> bytes \<Rightarrow> nat \<Rightarrow> pyexc + nat" where
  "scan_events L plan seen rest count =
     (if rest = [] then Inr count
      else if count \<ge> MAX_EVENT_COUNT then Inl EvidenceError
      else if LF \<notin> set rest then Inl EvidenceError
      else rbind (read_event L plan seen count (first_line rest)) (\<lambda>_.
        scan_events L plan (seen @ first_line rest) (drop (length (first_line rest)) rest) (count + 1)))"
  by pat_completeness auto
termination
  by (relation "measure (\<lambda>(_, _, _, rest, _). length rest)") (auto simp: first_line_def)

declare scan_events.simps [simp del]

definition log_observation :: "pylib \<Rightarrow> bytes \<Rightarrow> nat \<Rightarrow> pyval" where
  "log_observation L raw count =
     PDict [(lit ''sha256'', PStr (sha256 L raw)), (lit ''size'', PInt (int (length raw))),
            (lit ''count'', PInt (int count))]"

definition observe_log :: "pylib \<Rightarrow> pydict \<Rightarrow> pyval option \<Rightarrow> bytes \<Rightarrow> pyexc + pyval" where
  "observe_log L plan expected raw =
     rbind (scan_events L plan [] raw 0) (\<lambda>count.
     let observation = log_observation L raw count in
     case expected of
       None \<Rightarrow> Inr observation
     | Some e \<Rightarrow>
         (case e of
            PDict d \<Rightarrow>
              if \<not> identities_match observation e \<or> \<not> py_eq (fld d ''count'') (PInt (int count))
              then Inl EvidenceError else Inr observation
          | _ \<Rightarrow> Inl EvidenceError))"

definition event_log_observation :: "pylib \<Rightarrow> path \<Rightarrow> pydict \<Rightarrow> pyval option \<Rightarrow> pyval io" where
  "event_log_observation L run_root plan expected =
     iob (read_regular_bytes (event_path run_root) (Some MAX_EVENT_LOG_BYTES)) (\<lambda>raw.
     from_result (observe_log L plan expected raw))"

subsection \<open>Transitions\<close>

datatype transition_status = Stable | Pending_before_log | Pending_after_log

text \<open>
  The decision of \<^verbatim>\<open>_event_transition_status\<close>. The acknowledged binding is that of a validated
  state: its size and count are non-negative integers.
\<close>

definition transition_status :: "pylib \<Rightarrow> bytes \<Rightarrow> pyval \<Rightarrow> pyval \<Rightarrow> pyval \<Rightarrow> pyexc + transition_status" where
  "transition_status L raw actual acknowledged pending =
     (let same = (identities_match actual acknowledged
            \<and> py_eq (fld (dict_of actual) ''count'') (fld (dict_of acknowledged) ''count'')) in
      if pending = PNone then (if \<not> same then Inl EvidenceError else Inr Stable)
      else rbind (canonical_json_bytes L pending) (\<lambda>pending_bytes.
        if same then Inr Pending_before_log
        else let size = nat (int_of (fld (dict_of acknowledged) ''size'')) in
          if size \<le> length raw \<and> length raw = size + length pending_bytes
             \<and> drop size raw = pending_bytes
             \<and> py_eq (PStr (sha256 L (take size raw))) (fld (dict_of acknowledged) ''sha256'')
             \<and> py_eq (fld (dict_of actual) ''count'')
                 (PInt (int_of (fld (dict_of acknowledged) ''count'') + 1))
          then Inr Pending_after_log
          else Inl EvidenceError))"

definition event_transition_status :: "pylib \<Rightarrow> path \<Rightarrow> pydict \<Rightarrow> pydict \<Rightarrow> transition_status io" where
  "event_transition_status L run_root plan state =
     iob (read_regular_bytes (event_path run_root) (Some MAX_EVENT_LOG_BYTES)) (\<lambda>raw.
     iob (event_log_observation L run_root plan None) (\<lambda>actual.
     from_result (transition_status L raw actual (fld state ''event_log'') (fld state ''pending_event''))))"

definition new_event :: "pydict \<Rightarrow> pydict \<Rightarrow> pystr \<Rightarrow> pystr \<Rightarrow> pystr option \<Rightarrow> pydict \<Rightarrow> pydict" where
  "new_event plan state now event_type tid details =
     (let current = dict_of (fld state ''event_log'');
          event = [(lit ''schema_version'', fld plan ''schema_version''), (lit ''time'', PStr now),
                   (lit ''type'', PStr event_type), (lit ''run_id'', fld plan ''run_id''),
                   (lit ''sequence'', PInt (int_of (fld current ''count'') + 1)),
                   (lit ''previous_sha256'', fld current ''sha256''), (lit ''details'', PDict details)] in
      case tid of None \<Rightarrow> event | Some t \<Rightarrow> dset ''task_id'' (PStr t) event)"

text \<open>The second half of a commit, shared with the reconciliation.\<close>

definition settle_event :: "pylib \<Rightarrow> run_context \<Rightarrow> run_context io" where
  "settle_event L ctx =
     iob (event_log_observation L (rc_root ctx) (rc_plan ctx) None) (\<lambda>observation.
     persist_state L False
       (ctx\<lparr>rc_state := dset ''pending_event'' PNone (dset ''event_log'' observation (rc_state ctx))\<rparr>))"

definition commit_transition ::
  "pylib \<Rightarrow> run_context \<Rightarrow> pystr \<Rightarrow> pystr option \<Rightarrow> pydict \<Rightarrow> run_context io" where
  "commit_transition L ctx event_type tid details =
     (if fld (rc_state ctx) ''pending_event'' \<noteq> PNone then raise EvidenceError
      else iob (event_transition_status L (rc_root ctx) (rc_plan ctx) (rc_state ctx)) (\<lambda>status.
      if status \<noteq> Stable then raise EvidenceError
      else let current = dict_of (fld (rc_state ctx) ''event_log''); count = int_of (fld current ''count'') in
      if count \<ge> int MAX_EVENT_COUNT then raise EvidenceError
      else iob utc_now (\<lambda>now.
      let event = new_event (rc_plan ctx) (rc_state ctx) now event_type tid details in
      iob (from_result (validate_event_record L (rc_plan ctx) (nat count + 1) (fld current ''sha256'')
            (PDict event))) (\<lambda>_.
      iob (from_result (canonical_json_bytes L (PDict event))) (\<lambda>payload.
      iob (read_regular_bytes (event_path (rc_root ctx)) (Some MAX_EVENT_LOG_BYTES)) (\<lambda>prior_log.
      if length prior_log + length payload > MAX_EVENT_LOG_BYTES then raise EvidenceError
      else iob (persist_state L True
                 (ctx\<lparr>rc_state := dset ''pending_event'' (PDict event) (rc_state ctx)\<rparr>)) (\<lambda>ctx1.
      iob (atomic_write_bytes L (event_path (rc_root ctx)) (prior_log @ payload)) (\<lambda>_.
      settle_event L ctx1))))))))"

definition reconcile_pending_event :: "pylib \<Rightarrow> run_context \<Rightarrow> run_context io" where
  "reconcile_pending_event L ctx =
     iob (event_transition_status L (rc_root ctx) (rc_plan ctx) (rc_state ctx)) (\<lambda>status.
     if status = Stable then ret ctx
     else let pending = fld (rc_state ctx) ''pending_event'' in
     if pending = PNone then raise EvidenceError
     else iob (if status = Pending_before_log then
                 iob (read_regular_bytes (event_path (rc_root ctx)) (Some MAX_EVENT_LOG_BYTES)) (\<lambda>prior_log.
                 iob (from_result (canonical_json_bytes L pending)) (\<lambda>pending_bytes.
                 if length prior_log + length pending_bytes > MAX_EVENT_LOG_BYTES then raise EvidenceError
                 else atomic_write_bytes L (event_path (rc_root ctx)) (prior_log @ pending_bytes)))
               else ret ()) (\<lambda>_.
     settle_event L ctx))"

section \<open>The log as a chain\<close>

lemma first_line_append:
  assumes "LF \<notin> set l"
  shows "first_line (l @ LF # r) = l @ [LF]" "drop (length (first_line (l @ LF # r))) (l @ LF # r) = r"
proof -
  have "takeWhile (\<lambda>c. c \<noteq> LF) (l @ LF # r) = l"
    using assms by (subst takeWhile_append2) auto
  then show "first_line (l @ LF # r) = l @ [LF]" "drop (length (first_line (l @ LF # r))) (l @ LF # r) = r"
    by (simp_all add: first_line_def)
qed

lemma first_line_split:
  assumes "LF \<in> set r"
  obtains l t where "r = l @ LF # t" "LF \<notin> set l"
  using assms split_list_first by metis

lemma scan_events_Nil [simp]: "scan_events L plan seen [] n = Inr n"
  by (subst scan_events.simps) simp

lemma scan_events_line:
  assumes "LF \<notin> set l"
  shows "scan_events L plan seen (l @ LF # r) n =
    (if n \<ge> MAX_EVENT_COUNT then Inl EvidenceError
     else rbind (read_event L plan seen n (l @ [LF])) (\<lambda>_. scan_events L plan (seen @ l @ [LF]) r (n + 1)))"
  by (subst scan_events.simps) (simp add: first_line_append [OF assms])

text \<open>The lines of a log are scanned one after the other.\<close>

lemma scan_events_append:
  "scan_events L plan seen a n = Inr m \<Longrightarrow>
   scan_events L plan seen (a @ b) n = scan_events L plan (seen @ a) b m"
proof (induction L plan seen a n rule: scan_events.induct)
  case (1 L plan seen a n)
  show ?case
  proof (cases "a = []")
    case True
    then show ?thesis using 1(2) by simp
  next
    case False
    from 1(2) have n: "\<not> n \<ge> MAX_EVENT_COUNT" and lf: "LF \<in> set a"
      using False by (auto simp: scan_events.simps [of L plan seen a n] split: if_splits)
    obtain l t where a: "a = l @ LF # t" and l: "LF \<notin> set l" using lf by (rule first_line_split)
    from 1(2) obtain e where e: "read_event L plan seen n (l @ [LF]) = Inr e"
      and t: "scan_events L plan (seen @ l @ [LF]) t (n + 1) = Inr m"
      unfolding a scan_events_line [OF l] using n by (auto split: if_splits)
    have "scan_events L plan (seen @ l @ [LF]) (t @ b) (n + 1) = scan_events L plan ((seen @ l @ [LF]) @ t) b m"
      using 1(1) [OF False] n lf e t by (simp add: a first_line_append [OF l])
    with e n show ?thesis by (simp add: a scan_events_line [OF l])
  qed
qed

text \<open>What an accepted log is: a chain of records, each bound to the bytes before it.\<close>

inductive log_chain :: "pylib \<Rightarrow> pydict \<Rightarrow> bytes \<Rightarrow> pyval list \<Rightarrow> bool" for L plan where
  chain_Nil: "log_chain L plan [] []"
| chain_snoc: "log_chain L plan raw es \<Longrightarrow> length es < MAX_EVENT_COUNT \<Longrightarrow>
    canonical_json_bytes L e = Inr line \<Longrightarrow> line \<noteq> [LF] \<Longrightarrow> length line \<le> MAX_EVENT_BYTES \<Longrightarrow>
    validate_event_record L plan (length es + 1) (PStr (sha256 L raw)) e = Inr e \<Longrightarrow>
    log_chain L plan (raw @ line) (es @ [e])"

inductive_cases log_chain_snocE: "log_chain L plan raw (es @ [e])"

lemma read_event_Inr:
  "read_event L plan seen n line = Inr e \<Longrightarrow>
   line \<noteq> [LF] \<and> length line \<le> MAX_EVENT_BYTES \<and> decode_event L line = Inr e
   \<and> validate_event_record L plan (n + 1) (PStr (sha256 L seen)) e = Inr e
   \<and> canonical_json_bytes L e = Inr line"
  using yieldsD [OF event_record.accepts]
  by (fastforce simp: read_event_def split: if_splits)

lemma scan_events_chain:
  "scan_events L plan seen rest n = Inr m \<Longrightarrow> log_chain L plan seen es \<Longrightarrow> length es = n \<Longrightarrow>
   \<exists>es'. log_chain L plan (seen @ rest) (es @ es') \<and> length (es @ es') = m"
proof (induction L plan seen rest n arbitrary: es rule: scan_events.induct)
  case (1 L plan seen rest n)
  show ?case
  proof (cases "rest = []")
    case True
    then show ?thesis using 1 by (intro exI [of _ "[]"]) simp
  next
    case False
    from 1(2) have n: "\<not> n \<ge> MAX_EVENT_COUNT" and lf: "LF \<in> set rest"
      using False by (auto simp: scan_events.simps [of L plan seen rest n] split: if_splits)
    obtain l t where r: "rest = l @ LF # t" and l: "LF \<notin> set l" using lf by (rule first_line_split)
    from 1(2) obtain e where e: "read_event L plan seen n (l @ [LF]) = Inr e"
      and t: "scan_events L plan (seen @ l @ [LF]) t (n + 1) = Inr m"
      unfolding r scan_events_line [OF l] using n by (auto split: if_splits)
    have "log_chain L plan (seen @ l @ [LF]) (es @ [e])"
      using chain_snoc [OF 1(3), of e "l @ [LF]"] 1(4) n read_event_Inr [OF e] by simp
    then obtain es' where "log_chain L plan ((seen @ l @ [LF]) @ t) ((es @ [e]) @ es')"
      "length ((es @ [e]) @ es') = m"
      using 1(1) [OF False n, of "es @ [e]"] lf e t 1(4) by (auto simp: r first_line_append [OF l])
    then show ?thesis unfolding r by (intro exI [of _ "e # es'"]) simp
  qed
qed

lemma scan_is_chain:
  "scan_events L plan [] raw 0 = Inr n \<Longrightarrow> \<exists>es. log_chain L plan raw es \<and> length es = n"
  using scan_events_chain [of L plan "[]" raw 0 n "[]"] chain_Nil by auto

section \<open>What a commit leaves\<close>

lemma file_names [simp]:
  "STATE_FILE \<noteq> dotdot" "EVENTS_FILE \<noteq> dotdot" "STATE_FILE \<noteq> EVENTS_FILE" "EVENTS_FILE \<noteq> STATE_FILE"
  by (simp_all add: STATE_FILE_def EVENTS_FILE_def)

text \<open>The two files of a run in directory \<open>r\<close>.\<close>

definition run_files :: "path \<Rightarrow> path set" where
  "run_files r = {r @ [STATE_FILE], r @ [EVENTS_FILE]}"

definition on_disk :: "path \<Rightarrow> bytes \<Rightarrow> bytes \<Rightarrow> fs \<Rightarrow> bool" where
  "on_disk r b l s \<longleftrightarrow> dir_at s r \<and> node_at s (r @ [STATE_FILE]) = Some (Reg b)
     \<and> node_at s (r @ [EVENTS_FILE]) = Some (Reg l)"

lemma run_files_dir: "kept s0 s (run_files r) \<Longrightarrow> dir_at s0 r \<Longrightarrow> dir_at s r"
  by (erule kept_dir) (auto simp: run_files_def)

lemma on_disk_via:
  "on_disk r b l s \<Longrightarrow> node_via s (event_path r) = Some (Reg l)"
  by (simp add: on_disk_def event_path_def file_at_via)

lemma put_state_stage:
  assumes "put_outcome (json_content L) s0 (r @ [STATE_FILE]) v s" "on_disk r b l s0"
  shows "kept s0 s (run_files r) \<and> (on_disk r b l s \<or> (\<exists>b'. json_content L v = Some b' \<and> on_disk r b' l s))"
proof -
  have k: "kept s0 s {r @ [STATE_FILE]}" using assms(1) by (simp add: put_outcome_def)
  then have "dir_at s r" using assms(2) by (auto simp: on_disk_def elim!: kept_dir)
  moreover have "node_at s (r @ [EVENTS_FILE]) = Some (Reg l)"
    using k assms(2) by (auto simp: kept_def on_disk_def)
  moreover have "kept s0 s (run_files r)" using k by (rule kept_mono) (simp add: run_files_def)
  ultimately show ?thesis using assms by (auto simp: put_outcome_def holds_def on_disk_def)
qed

lemma put_log_stage:
  assumes "put_outcome Some s0 (r @ [EVENTS_FILE]) l' s" "on_disk r b l s0"
  shows "kept s0 s (run_files r) \<and> (on_disk r b l s \<or> on_disk r b l' s)"
proof -
  have k: "kept s0 s {r @ [EVENTS_FILE]}" using assms(1) by (simp add: put_outcome_def)
  then have "dir_at s r" using assms(2) by (auto simp: on_disk_def elim!: kept_dir)
  moreover have "node_at s (r @ [STATE_FILE]) = Some (Reg b)"
    using k assms(2) by (auto simp: kept_def on_disk_def)
  moreover have "kept s0 s (run_files r)" using k by (rule kept_mono) (simp add: run_files_def)
  ultimately show ?thesis using assms by (auto simp: put_outcome_def holds_def on_disk_def)
qed

lemma wp_utc_now [wp_intros]: "(\<And>t. Q t s) \<Longrightarrow> wp utc_now Q X K s"
  by (simp add: wp_def utc_now_def)

text \<open>The state while the event is pending, and once it is acknowledged.\<close>

definition pending_state :: "pydict \<Rightarrow> pydict \<Rightarrow> pystr \<Rightarrow> pydict" where
  "pending_state state event now = dset ''updated_at'' (PStr now) (dset ''pending_event'' (PDict event) state)"

definition settled :: "pylib \<Rightarrow> bytes \<Rightarrow> nat \<Rightarrow> pydict \<Rightarrow> pydict" where
  "settled L raw count state =
     dset ''pending_event'' PNone (dset ''event_log'' (log_observation L raw count) state)"

lemma wp_persist_state:
  assumes "on_disk (rc_root ctx) b l s0"
    and "\<And>s b' state. kept s0 s (run_files (rc_root ctx)) \<Longrightarrow> on_disk (rc_root ctx) b' l s \<Longrightarrow>
        json_content L (PDict state) = Some b' \<Longrightarrow>
        validate_state_shape L (rc_plan ctx) (PDict state) = Inr () \<Longrightarrow>
        (touch \<Longrightarrow> \<exists>now. state = dset ''updated_at'' (PStr now) (rc_state ctx)) \<Longrightarrow>
        (\<not> touch \<Longrightarrow> state = rc_state ctx) \<Longrightarrow> Q (ctx\<lparr>rc_state := state\<rparr>) s \<and> (\<forall>e. X e s) \<and> K s"
    and "\<And>s. kept s0 s (run_files (rc_root ctx)) \<Longrightarrow> on_disk (rc_root ctx) b l s \<Longrightarrow> (\<forall>e. X e s) \<and> K s"
  shows "wp (persist_state L touch ctx) Q X K s0"
proof -
  let ?r = "rc_root ctx" and ?p = "rc_root ctx @ [STATE_FILE]"
  have d: "dir_at s0 ?r" and wf: "wf_fs s0" using assms(1) by (auto simp: on_disk_def dir_at_def)
  have here: "(\<forall>e. X e s0) \<and> K s0" using assms(1) wf by (intro assms(3)) (auto simp: kept_refl)
  have store: "wp (iob (atomic_write_json L ?p (PDict state)) (\<lambda>_. ret (ctx\<lparr>rc_state := state\<rparr>))) Q X K s0"
    if v: "validate_state_shape L (rc_plan ctx) (PDict state) = Inr ()"
      and st: "touch \<Longrightarrow> \<exists>now. state = dset ''updated_at'' (PStr now) (rc_state ctx)"
        "\<not> touch \<Longrightarrow> state = rc_state ctx" for state
  proof (rule wp_iob, rule json_cell.put_rule [OF d file_names(1)])
    fix s b' assume a: "kept s0 s {?p}" "json_content L (PDict state) = Some b'" "node_at s ?p = Some (Reg b')"
    then have oc: "put_outcome (json_content L) s0 ?p (PDict state) s"
      by (simp add: put_outcome_def holds_def)
    have "kept s0 s (run_files ?r)" "on_disk ?r b' l s"
      using put_state_stage [OF oc assms(1)] a by (auto simp: on_disk_def)
    then show "wp (ret (ctx\<lparr>rc_state := state\<rparr>)) Q X K s"
      using assms(2) a v st by (intro wp_ret) blast
  next
    fix s assume "put_outcome (json_content L) s0 ?p (PDict state) s"
    from put_state_stage [OF this assms(1)] have "(\<forall>e. X e s) \<and> K s"
      using assms(2) [of s _ state] assms(3) v st by blast
    then show "X e s" "K s" for e by auto
  qed
  show ?thesis
    unfolding persist_state_def
    by (intro wp_iob wp_if wp_utc_now wp_ret wp_from_result store) (use here in auto)
qed

lemma observe_log_None:
  "observe_log L plan None raw = Inr v \<longleftrightarrow>
   (\<exists>n. scan_events L plan [] raw 0 = Inr n \<and> v = log_observation L raw n)"
  by (auto simp: observe_log_def Let_def)

lemma wp_event_log_observation [wp_intros]:
  assumes "on_disk r b l s"
    and "\<And>n. scan_events L plan [] l 0 = Inr n \<Longrightarrow> Q (log_observation L l n) s" "\<And>e. X e s" "K s"
  shows "wp (event_log_observation L r plan None) Q X K s"
  unfolding event_log_observation_def
  by (intro wp_iob wp_read_regular_bytes wp_from_result)
    (use assms on_disk_via [OF assms(1)] in \<open>auto simp: observe_log_None\<close>)

lemma wp_event_transition_status [wp_intros]:
  assumes "on_disk r b l s"
    and "\<And>n st. scan_events L plan [] l 0 = Inr n \<Longrightarrow>
       transition_status L l (log_observation L l n) (fld state ''event_log'') (fld state ''pending_event'') = Inr st
       \<Longrightarrow> Q st s" "\<And>e. X e s" "K s"
  shows "wp (event_transition_status L r plan state) Q X K s"
  unfolding event_transition_status_def
  by (intro wp_iob wp_read_regular_bytes wp_event_log_observation [OF assms(1)] wp_from_result)
    (use assms on_disk_via [OF assms(1)] in auto)

text \<open>
  The combinations of state and log a commit can leave once it has begun to write: the event
  pending, with or without its line in the log, or acknowledged.
\<close>

definition commit_pair :: "pylib \<Rightarrow> pydict \<Rightarrow> pydict \<Rightarrow> pydict \<Rightarrow> pystr \<Rightarrow> bytes \<Rightarrow> bytes \<Rightarrow> bytes \<Rightarrow> bytes \<Rightarrow> bool" where
  "commit_pair L plan state event now l0 p b l \<longleftrightarrow>
     canonical_json_bytes L (PDict event) = Inr p
     \<and> ((json_content L (PDict (pending_state state event now)) = Some b \<and> (l = l0 \<or> l = l0 @ p))
        \<or> (\<exists>n. scan_events L plan [] (l0 @ p) 0 = Inr n
             \<and> json_content L (PDict (settled L (l0 @ p) n (pending_state state event now))) = Some b
             \<and> l = l0 @ p))"

definition commit_complete :: "pylib \<Rightarrow> pydict \<Rightarrow> pydict \<Rightarrow> pydict \<Rightarrow> pystr \<Rightarrow> bytes \<Rightarrow> bytes \<Rightarrow> pydict \<Rightarrow> bytes \<Rightarrow> bool" where
  "commit_complete L plan state event now l0 p state' b \<longleftrightarrow>
     canonical_json_bytes L (PDict event) = Inr p
     \<and> (\<exists>n. scan_events L plan [] (l0 @ p) 0 = Inr n
          \<and> state' = settled L (l0 @ p) n (pending_state state event now))
     \<and> json_content L (PDict state') = Some b"

lemma wp_settle_event:
  assumes "on_disk (rc_root ctx) b l s0"
    and "\<And>s n b'. kept s0 s (run_files (rc_root ctx)) \<Longrightarrow> on_disk (rc_root ctx) b' l s \<Longrightarrow>
        scan_events L (rc_plan ctx) [] l 0 = Inr n \<Longrightarrow>
        json_content L (PDict (settled L l n (rc_state ctx))) = Some b' \<Longrightarrow>
        Q (ctx\<lparr>rc_state := settled L l n (rc_state ctx)\<rparr>) s \<and> (\<forall>e. X e s) \<and> K s"
    and "\<And>s. kept s0 s (run_files (rc_root ctx)) \<Longrightarrow> on_disk (rc_root ctx) b l s \<Longrightarrow> (\<forall>e. X e s) \<and> K s"
  shows "wp (settle_event L ctx) Q X K s0"
proof -
  have "wf_fs s0" using assms(1) by (simp add: on_disk_def dir_at_def)
  then have here: "(\<forall>e. X e s0) \<and> K s0" using assms(1,3) kept_refl by blast
  show ?thesis
    unfolding settle_event_def
    by (intro wp_iob wp_event_log_observation [OF assms(1)] wp_persist_state [where b = b and l = l])
      (use assms here in \<open>auto simp: settled_def\<close>)
qed

lemma wp_commit_transition:
  assumes d0: "on_disk (rc_root ctx) b0 l0 s0"
  shows "wp (commit_transition L ctx ty tid details)
     (\<lambda>ctx' s. kept s0 s (run_files (rc_root ctx)) \<and>
        (\<exists>now now' p b. commit_complete L (rc_plan ctx) (rc_state ctx)
             (new_event (rc_plan ctx) (rc_state ctx) now ty tid details) now' l0 p (rc_state ctx') b
           \<and> ctx' = ctx\<lparr>rc_state := rc_state ctx'\<rparr> \<and> on_disk (rc_root ctx) b (l0 @ p) s))
     (\<lambda>_ s. kept s0 s (run_files (rc_root ctx)) \<and> (on_disk (rc_root ctx) b0 l0 s
        \<or> (\<exists>now now' p b l. commit_pair L (rc_plan ctx) (rc_state ctx)
             (new_event (rc_plan ctx) (rc_state ctx) now ty tid details) now' l0 p b l
           \<and> on_disk (rc_root ctx) b l s)))
     (\<lambda>s. kept s0 s (run_files (rc_root ctx)) \<and> (on_disk (rc_root ctx) b0 l0 s
        \<or> (\<exists>now now' p b l. commit_pair L (rc_plan ctx) (rc_state ctx)
             (new_event (rc_plan ctx) (rc_state ctx) now ty tid details) now' l0 p b l
           \<and> on_disk (rc_root ctx) b l s))) s0"
    (is "wp _ ?Q ?X ?K s0")
proof -
  let ?r = "rc_root ctx" and ?ev = "\<lambda>now. new_event (rc_plan ctx) (rc_state ctx) now ty tid details"
  let ?S = "\<lambda>now. pending_state (rc_state ctx) (?ev now)"
  have wf: "wf_fs s0" using d0 by (simp add: on_disk_def dir_at_def)
  have here: "?K s0" using d0 wf kept_refl by blast
  have settle: "wp (settle_event L (ctx\<lparr>rc_state := ?S now now'\<rparr>)) ?Q ?X ?K s"
    if p: "canonical_json_bytes L (PDict (?ev now)) = Inr p"
      and k: "kept s0 s (run_files ?r)" and d: "on_disk ?r b (l0 @ p) s"
      and b: "json_content L (PDict (?S now now')) = Some b" for now now' p s b
  proof (rule wp_settle_event)
    show "on_disk (rc_root (ctx\<lparr>rc_state := ?S now now'\<rparr>)) b (l0 @ p) s" using d by simp
  next
    fix s' n b'
    assume a: "kept s s' (run_files (rc_root (ctx\<lparr>rc_state := ?S now now'\<rparr>)))"
      "on_disk (rc_root (ctx\<lparr>rc_state := ?S now now'\<rparr>)) b' (l0 @ p) s'"
      "scan_events L (rc_plan (ctx\<lparr>rc_state := ?S now now'\<rparr>)) [] (l0 @ p) 0 = Inr n"
      "json_content L (PDict (settled L (l0 @ p) n (rc_state (ctx\<lparr>rc_state := ?S now now'\<rparr>)))) = Some b'"
    have k': "kept s0 s' (run_files ?r)" using k a(1) by (auto intro: kept_trans)
    have "commit_pair L (rc_plan ctx) (rc_state ctx) (?ev now) now' l0 p b' (l0 @ p)"
      "commit_complete L (rc_plan ctx) (rc_state ctx) (?ev now) now' l0 p (settled L (l0 @ p) n (?S now now')) b'"
      using p a(3,4) by (auto simp: commit_pair_def commit_complete_def)
    with k' a(2) show "?Q (ctx\<lparr>rc_state := ?S now now', rc_state := settled L (l0 @ p) n (rc_state (ctx\<lparr>rc_state := ?S now now'\<rparr>))\<rparr>) s'
        \<and> (\<forall>e. ?X e s') \<and> ?K s'"
      by simp blast
  next
    fix s'
    assume a: "kept s s' (run_files (rc_root (ctx\<lparr>rc_state := ?S now now'\<rparr>)))"
      "on_disk (rc_root (ctx\<lparr>rc_state := ?S now now'\<rparr>)) b (l0 @ p) s'"
    have "kept s0 s' (run_files ?r)" using k a(1) by (auto intro: kept_trans)
    moreover have "commit_pair L (rc_plan ctx) (rc_state ctx) (?ev now) now' l0 p b (l0 @ p)"
      using p b by (auto simp: commit_pair_def)
    ultimately show "(\<forall>e. ?X e s') \<and> ?K s'" using a(2) by simp blast
  qed
  have append: "wp (iob (atomic_write_bytes L (?r @ [EVENTS_FILE]) (l0 @ p))
      (\<lambda>_. settle_event L (ctx\<lparr>rc_state := ?S now now'\<rparr>))) ?Q ?X ?K s"
    if p: "canonical_json_bytes L (PDict (?ev now)) = Inr p"
      and k: "kept s0 s (run_files ?r)" and d: "on_disk ?r b l0 s"
      and b: "json_content L (PDict (?S now now')) = Some b" for now now' p s b
  proof -
    have stage: "kept s0 s' (run_files ?r) \<and> (on_disk ?r b l0 s' \<or> on_disk ?r b (l0 @ p) s')"
      if "put_outcome Some s (?r @ [EVENTS_FILE]) (l0 @ p) s'" for s'
      using put_log_stage [OF that d] k kept_trans by blast
    have pair: "commit_pair L (rc_plan ctx) (rc_state ctx) (?ev now) now' l0 p b l" if "l = l0 \<or> l = l0 @ p" for l
      using p b that by (auto simp: commit_pair_def)
    show ?thesis
    proof (rule wp_iob, rule bytes_cell.put_rule)
      fix s' c assume a: "kept s s' {?r @ [EVENTS_FILE]}" "Some (l0 @ p) = Some c" "node_at s' (?r @ [EVENTS_FILE]) = Some (Reg c)"
      then have st: "kept s0 s' (run_files ?r)" "on_disk ?r b l0 s' \<or> on_disk ?r b (l0 @ p) s'"
        using stage [of s'] by (auto simp: put_outcome_def holds_def)
      then have "on_disk ?r b (l0 @ p) s'" using a by (auto simp: on_disk_def)
      then show "wp (settle_event L (ctx\<lparr>rc_state := ?S now now'\<rparr>)) ?Q ?X ?K s'"
        by (intro settle [OF p st(1) _ b])
    next
      fix s' assume "put_outcome Some s (?r @ [EVENTS_FILE]) (l0 @ p) s'"
      from stage [OF this] pair show "?X e s'" "?K s'" for e by blast+
    qed (use d in \<open>simp_all add: on_disk_def\<close>)
  qed
  have persist: "wp (iob (persist_state L True (ctx\<lparr>rc_state := dset ''pending_event'' (PDict (?ev now)) (rc_state ctx)\<rparr>))
      (\<lambda>ctx1. iob (atomic_write_bytes L (?r @ [EVENTS_FILE]) (prior @ p)) (\<lambda>_. settle_event L ctx1))) ?Q ?X ?K s0"
    (is "wp (iob (persist_state L True ?c) _) _ _ _ _")
    if p: "canonical_json_bytes L (PDict (?ev now)) = Inr p"
      and prior: "node_via s0 (?r @ [EVENTS_FILE]) = Some (Reg prior)" for now p prior
  proof (rule wp_iob, rule wp_persist_state [where b = b0 and l = l0])
    have eq: "prior = l0" using prior on_disk_via [OF d0] by (simp add: event_path_def)
    fix s b' state
    assume a: "kept s0 s (run_files (rc_root ?c))" "on_disk (rc_root ?c) b' l0 s"
      "json_content L (PDict state) = Some b'"
      "True \<Longrightarrow> \<exists>now'. state = dset ''updated_at'' (PStr now') (rc_state ?c)"
    then obtain now' where st: "state = ?S now now'" by (auto simp: pending_state_def)
    have "commit_pair L (rc_plan ctx) (rc_state ctx) (?ev now) now' l0 p b' l0"
      using p a(3) by (simp add: commit_pair_def st)
    moreover have "wp (iob (atomic_write_bytes L (?r @ [EVENTS_FILE]) (l0 @ p))
        (\<lambda>_. settle_event L (ctx\<lparr>rc_state := ?S now now'\<rparr>))) ?Q ?X ?K s"
      using a by (intro append [OF p]) (simp_all add: st)
    ultimately show "wp (iob (atomic_write_bytes L (?r @ [EVENTS_FILE]) (prior @ p))
        (\<lambda>_. settle_event L (?c\<lparr>rc_state := state\<rparr>))) ?Q ?X ?K s \<and> (\<forall>e. ?X e s) \<and> ?K s"
      using a(1,2) by (simp add: eq st) blast
  qed (use d0 here in auto)
  show ?thesis
    unfolding commit_transition_def event_path_def Let_def
    by (intro wp_if wp_raise wp_iob [where m = "event_transition_status _ _ _ _"] wp_event_transition_status [OF d0]
        wp_iob [where m = utc_now] wp_utc_now wp_iob [where m = "from_result _"] wp_from_result
        wp_iob [where m = "read_regular_bytes _ _"] wp_read_regular_bytes persist)
      (use here in auto)
qed

section \<open>Reconciliation\<close>

text \<open>A record written to the log is read back from it.\<close>

lemma event_object_eq: "event_object = unique_json_object"
  by (simp add: fun_eq_iff event_object_def unique_json_object_def)

lemma decode_event_canonical:
  assumes "wf_val e" "float_free e" "canonical_json_bytes L e = Inr p"
  shows "decode_event L p = Inr (canon e)"
proof -
  from assms(3) obtain t where t: "dumps L e = Inr t" "utf8 (t @ [10]) = Some p"
    by (auto simp: canonical_json_bytes_def split: sum.splits option.splits)
  have "loads L event_object reject_nonfinite_json (t @ [10]) = Inr (canon e)"
    unfolding event_object_eq using keeps_pairs_unique assms(1,2) t(1) by (rule loads_dumps)
  then show ?thesis by (simp add: decode_event_def utf8_decode_utf8 [OF t(2)])
qed

lemma validated_length:
  assumes "validate_event_record L plan n prev e = Inr v" "canonical_json_bytes L e = Inr p"
  shows "length p \<le> MAX_EVENT_BYTES"
proof (cases e)
  case (PDict d)
  with assms show ?thesis
    by (cases "fld d ''details''") (auto simp: validate_event_record_def not_less split: if_splits)
qed (use assms in \<open>simp_all add: validate_event_record_def\<close>)

lemma scan_events_extend:
  assumes "scan_events L plan [] l0 0 = Inr n" "n < MAX_EVENT_COUNT"
    and "wf_val e" "float_free e" "canonical_json_bytes L e = Inr p"
    and "validate_event_record L plan (n + 1) (PStr (sha256 L l0)) (canon e) = Inr v"
  shows "scan_events L plan [] (l0 @ p) 0 = Inr (n + 1)" "p \<noteq> []"
proof -
  obtain l where l: "p = l @ [LF]" "LF \<notin> set l" "l \<noteq> []" using canonical_line [OF assms(4,5)] by blast
  have c: "canonical_json_bytes L (canon e) = Inr p" using assms(5) by (simp add: canonical_json_bytes_canon)
  have "read_event L plan l0 n p = Inr (canon e)"
    using decode_event_canonical [OF assms(3-5)] assms(6) c validated_length [OF assms(6) c] l
    by (simp add: read_event_def)
  then have "scan_events L plan l0 p n = Inr (n + 1)"
    using assms(2) by (simp add: l scan_events_line)
  with scan_events_append [OF assms(1)] show "scan_events L plan [] (l0 @ p) 0 = Inr (n + 1)" by simp
  show "p \<noteq> []" using l by simp
qed

text \<open>The acknowledged binding of a state names the bytes and the number of records.\<close>

definition acknowledges :: "pylib \<Rightarrow> bytes \<Rightarrow> nat \<Rightarrow> pyval \<Rightarrow> bool" where
  "acknowledges L l n v \<longleftrightarrow> is_dict v \<and> fld (dict_of v) ''sha256'' = PStr (sha256 L l)
     \<and> fld (dict_of v) ''size'' = PInt (int (length l)) \<and> fld (dict_of v) ''count'' = PInt (int n)"

lemma acknowledges_observation: "acknowledges L l n (log_observation L l n)"
  by (simp add: acknowledges_def log_observation_def)

lemma acknowledges_canon: "wf_val v \<Longrightarrow> acknowledges L l n v \<Longrightarrow> acknowledges L l n (canon v)"
  using fld_reread by (cases v) (auto simp: acknowledges_def is_dict_def reread_def simp del: canon.simps(2),
      auto simp: canon.simps)

lemma observation_fields [simp]:
  "fld (dict_of (log_observation L l n)) ''sha256'' = PStr (sha256 L l)"
  "fld (dict_of (log_observation L l n)) ''size'' = PInt (int (length l))"
  "fld (dict_of (log_observation L l n)) ''count'' = PInt (int n)"
  by (simp_all add: log_observation_def)

lemma identities_match_acknowledges:
  "acknowledges L l0 n0 v \<Longrightarrow> identities_match (log_observation L l n) v \<longleftrightarrow>
   sha256 L l = sha256 L l0 \<and> length l = length l0"
  by (cases v) (auto simp: acknowledges_def identities_match_def log_observation_def is_dict_def)

lemma transition_status_pending:
  assumes "acknowledges L l0 n ack" "canonical_json_bytes L e = Inr p" "e \<noteq> PNone" "p \<noteq> []"
  shows "transition_status L l0 (log_observation L l0 n) ack e = Inr Pending_before_log"
    and "transition_status L (l0 @ p) (log_observation L (l0 @ p) (n + 1)) ack e = Inr Pending_after_log"
proof -
  have ack: "fld (dict_of ack) ''count'' = PInt (int n)" "fld (dict_of ack) ''size'' = PInt (int (length l0))"
    "fld (dict_of ack) ''sha256'' = PStr (sha256 L l0)" using assms(1) by (simp_all add: acknowledges_def)
  show "transition_status L l0 (log_observation L l0 n) ack e = Inr Pending_before_log"
    using assms(2,3) ack by (simp add: transition_status_def identities_match_acknowledges [OF assms(1)])
  show "transition_status L (l0 @ p) (log_observation L (l0 @ p) (n + 1)) ack e = Inr Pending_after_log"
    using assms(2-) ack by (simp add: transition_status_def identities_match_acknowledges [OF assms(1)])
qed

text \<open>A run whose state file holds a pending event: what a reader of that file works with.\<close>

definition pending_run :: "pylib \<Rightarrow> pydict \<Rightarrow> pydict \<Rightarrow> bytes \<Rightarrow> nat \<Rightarrow> bytes \<Rightarrow> bool" where
  "pending_run L plan S l0 n p \<longleftrightarrow>
     wf_val (PDict S) \<and> float_free (PDict S)
     \<and> validate_state_shape L plan (PDict (reread S)) = Inr ()
     \<and> fld S ''pending_event'' \<noteq> PNone \<and> canonical_json_bytes L (fld S ''pending_event'') = Inr p
     \<and> scan_events L plan [] l0 0 = Inr n \<and> acknowledges L l0 n (fld S ''event_log'')"

lemma wf_val_fld: "wf_val (PDict d) \<Longrightarrow> wf_val (fld d k)"
  by (cases "map_of d (lit k)") (auto simp: fld_def list_all_iff dest!: map_of_SomeD)

lemma float_free_fld: "float_free (PDict d) \<Longrightarrow> float_free (fld d k)"
  by (cases "map_of d (lit k)") (auto simp: fld_def list_all_iff dest!: map_of_SomeD)

lemma pending_runD:
  assumes "pending_run L plan S l0 n p"
  shows "fld (reread S) ''pending_event'' = canon (fld S ''pending_event'')"
    "fld (reread S) ''pending_event'' \<noteq> PNone"
    "canonical_json_bytes L (fld (reread S) ''pending_event'') = Inr p"
    "acknowledges L l0 n (fld (reread S) ''event_log'')"
    "n < MAX_EVENT_COUNT" "scan_events L plan [] (l0 @ p) 0 = Inr (n + 1)" "p \<noteq> []"
proof -
  have S: "wf_val (PDict S)" "float_free (PDict S)"
    and e: "fld S ''pending_event'' \<noteq> PNone" "canonical_json_bytes L (fld S ''pending_event'') = Inr p"
    and l: "scan_events L plan [] l0 0 = Inr n" "acknowledges L l0 n (fld S ''event_log'')"
    and v: "validate_state_shape L plan (PDict (reread S)) = Inr ()"
    using assms by (auto simp: pending_run_def)
  have d: "distinct (map fst S)" using S(1) by simp
  note r = fld_reread [OF d]
  show "fld (reread S) ''pending_event'' = canon (fld S ''pending_event'')" by (rule r)
  show ne: "fld (reread S) ''pending_event'' \<noteq> PNone" using e(1) unfolding r
    by (cases "fld S ''pending_event''") auto
  show "canonical_json_bytes L (fld (reread S) ''pending_event'') = Inr p"
    using e(2) unfolding r by (simp add: canonical_json_bytes_canon)
  show a: "acknowledges L l0 n (fld (reread S) ''event_log'')"
    unfolding r using acknowledges_canon wf_val_fld [OF S(1)] l(2) by blast
  have "state_event_log L plan (reread S) = Inr ()"
    using v by (auto simp: validate_state_shape_def)
  then obtain x where n: "n < MAX_EVENT_COUNT"
    and x: "validate_event_record L plan (n + 1) (PStr (sha256 L l0)) (fld (reread S) ''pending_event'') = Inr x"
    using a ne
    by (cases "fld (reread S) ''event_log''")
      (auto simp: state_event_log_def acknowledges_def Let_def not_le split: if_splits)
  show "n < MAX_EVENT_COUNT" by (rule n)
  from scan_events_extend [OF l(1) n wf_val_fld [OF S(1)] float_free_fld [OF S(2)] e(2) x [unfolded r]]
  show "scan_events L plan [] (l0 @ p) 0 = Inr (n + 1)" "p \<noteq> []" by simp_all
qed

text \<open>The acknowledged state is as valid as the pending one.\<close>

lemma settled_fld: "k \<noteq> ''pending_event'' \<Longrightarrow> k \<noteq> ''event_log'' \<Longrightarrow> fld (settled L l n S) k = fld S k"
  by (simp add: settled_def)

lemma settled_valid:
  assumes "validate_state_shape L plan (PDict S) = Inr ()" "n \<le> MAX_EVENT_COUNT"
    and "is_sha256 (PStr (sha256 L l))"
  shows "validate_state_shape L plan (PDict (settled L l n S)) = Inr ()"
proof -
  let ?T = "settled L l n S"
  have h: "state_header L plan S = Inr ()" using assms(1) by (auto simp: validate_state_shape_def)
  have "exact_keys S [''schema_version'', ''kind'', ''run_id'', ''plan_sha256'', ''status'',
      ''created_at'', ''updated_at'', ''last_error'', ''event_log'', ''pending_event'', ''tasks''] [] = Inr ()"
    using h by (auto simp: state_header_def)
  then have "exact_keys ?T [''schema_version'', ''kind'', ''run_id'', ''plan_sha256'', ''status'',
      ''created_at'', ''updated_at'', ''last_error'', ''event_log'', ''pending_event'', ''tasks''] [] = Inr ()"
    by (simp add: exact_keys_def settled_def split: if_splits)
  then have "state_header L plan ?T = Inr ()"
    using h unfolding state_header_def by (simp add: settled_fld) (auto split: if_splits)
  moreover have "state_event_log L plan ?T = Inr ()"
    using assms(2,3)
    by (simp add: state_event_log_def settled_def log_observation_def exact_keys_def Let_def dkeys_simps
        validate_identity_fields_def validate_identity_def)
  moreover have "state_run_status plan ?T tasks = state_run_status plan S tasks" for tasks
    by (simp add: state_run_status_def settled_fld Let_def)
  ultimately show ?thesis
    using assms(1) by (simp add: validate_state_shape_def settled_fld cong: pyval.case_cong) (auto split: pyval.splits)
qed

lemma reread_settled:
  assumes "wf_val (PDict S)"
  shows "canon (PDict (settled L l n (reread S))) = canon (PDict (settled L l n S))"
proof (rule canon_dict_eqI)
  have d: "distinct (map fst S)" using assms by simp
  show "distinct (map fst (settled L l n (reread S)))" "distinct (map fst (settled L l n S))"
    using d reread_distinct [OF d] by (simp_all add: settled_def distinct_dset)
  show "map_option canon (map_of (settled L l n (reread S)) k) = map_option canon (map_of (settled L l n S) k)" for k
    by (simp add: settled_def dset_def update_conv map_of_reread [OF d] canon_idem option.map_comp o_def)
qed

section \<open>Runs of the protocol without faults\<close>

lemma runs_event_log_observation:
  assumes "on_disk r b l s" "length l \<le> MAX_EVENT_LOG_BYTES" "scan_events L plan [] l 0 = Inr n"
    and "Q (log_observation L l n) s"
  shows "runs U (event_log_observation L r plan None) Q s"
  unfolding event_log_observation_def event_path_def
  by (intro runs_iob runs_read_regular_bytes [where b = l] runs_from_result)
    (use assms in \<open>auto simp: on_disk_def observe_log_None\<close>)

lemma runs_event_transition_status:
  assumes "on_disk r b l s" "length l \<le> MAX_EVENT_LOG_BYTES" "scan_events L plan [] l 0 = Inr n"
    and "transition_status L l (log_observation L l n) (fld state ''event_log'') (fld state ''pending_event'') = Inr st"
    and "Q st s"
  shows "runs U (event_transition_status L r plan state) Q s"
  unfolding event_transition_status_def event_path_def
  by (intro runs_iob runs_read_regular_bytes [where b = l] runs_event_log_observation [OF assms(1-3)]
      runs_from_result [OF assms(4)])
    (use assms in \<open>auto simp: on_disk_def\<close>)

definition temp_free :: "pystr set \<Rightarrow> path \<Rightarrow> fs \<Rightarrow> bool" where
  "temp_free U r s \<longleftrightarrow> (\<forall>u \<in> U. \<forall>c \<in> {STATE_FILE, EVENTS_FILE}. node_at s (r @ [temp_name c u]) = None)"

lemma temp_name_lit: "hd (temp_name c u) = 46"
  by (simp add: temp_name_def lit_def)

lemma temp_name_distinct:
  "temp_name c u \<noteq> STATE_FILE" "temp_name c u \<noteq> EVENTS_FILE"
  using temp_name_lit [of c u] by (auto simp: STATE_FILE_def EVENTS_FILE_def lit_def)

definition replaced :: "fs \<Rightarrow> path \<Rightarrow> bytes \<Rightarrow> fs \<Rightarrow> bool" where
  "replaced s0 p b s \<longleftrightarrow> wf_fs s \<and> (\<forall>x. node_at s x = (if x = p then Some (Reg b) else node_at s0 x))"

lemma runs_settle_event:
  assumes d: "on_disk (rc_root ctx) b l s0" and l: "length l \<le> MAX_EVENT_LOG_BYTES"
    "scan_events L (rc_plan ctx) [] l 0 = Inr n"
    and v: "validate_state_shape L (rc_plan ctx) (PDict (settled L l n (rc_state ctx))) = Inr ()"
    and b: "json_content L (PDict (settled L l n (rc_state ctx))) = Some b'"
    and f: "temp_free U (rc_root ctx) s0"
  shows "runs U (settle_event L ctx) (\<lambda>_. replaced s0 (rc_root ctx @ [STATE_FILE]) b') s0"
proof -
  have put: "runs U (atomic_write_json L (rc_root ctx @ [STATE_FILE]) (PDict (settled L l n (rc_state ctx))))
      (\<lambda>_. replaced s0 (rc_root ctx @ [STATE_FILE]) b') s0"
    using json_cell.put_runs [OF _ file_names(1) _ _ b] d f
    by (auto simp: on_disk_def temp_free_def replaced_def [abs_def])
  show ?thesis
    unfolding settle_event_def persist_state_def
    by (intro runs_iob runs_event_log_observation [OF d l])
      (simp add: settled_def [symmetric] v runs_iob runs_mono [OF put] runs_ret)
qed

lemma runs_reconcile:
  assumes p: "pending_run L (rc_plan ctx) S l0 n p" and st: "rc_state ctx = reread S"
    and sha: "is_sha256 (PStr (sha256 L (l0 @ p)))" and len: "length (l0 @ p) \<le> MAX_EVENT_LOG_BYTES"
    and b2: "json_output_bytes L (PDict (settled L (l0 @ p) (n + 1) S)) = Inr b2"
    and d: "on_disk (rc_root ctx) b l s0" "l = l0 \<or> l = l0 @ p" and f: "temp_free U (rc_root ctx) s0"
  shows "runs U (reconcile_pending_event L ctx) (\<lambda>_ s. \<forall>x. node_at s x =
      (if x = rc_root ctx @ [STATE_FILE] then Some (Reg b2)
       else if x = rc_root ctx @ [EVENTS_FILE] then Some (Reg (l0 @ p)) else node_at s0 x)) s0"
    (is "runs U _ ?Q s0")
proof -
  let ?r = "rc_root ctx"
  note pr = pending_runD [OF p]
  have "validate_state_shape L (rc_plan ctx) (PDict (settled L (l0 @ p) (n + 1) (rc_state ctx))) = Inr ()"
    using p pr(5) sha by (intro settled_valid) (auto simp: pending_run_def st)
  moreover have "json_output_bytes L (PDict (settled L (l0 @ p) (n + 1) (rc_state ctx))) = Inr b2"
    using b2 reread_settled [of S L "l0 @ p" "n + 1"] p unfolding st
    by (metis json_output_bytes_canon pending_run_def)
  then have "json_content L (PDict (settled L (l0 @ p) (n + 1) (rc_state ctx))) = Some b2"
    by (simp add: json_content_def)
  ultimately have settle: "runs U (settle_event L ctx) (\<lambda>_. replaced s (?r @ [STATE_FILE]) b2) s"
    if "on_disk ?r b (l0 @ p) s" "temp_free U ?r s" for s
    using runs_settle_event [OF that(1) len] that(2) pr(6) by blast
  have scan: "scan_events L (rc_plan ctx) [] l0 0 = Inr n" using p by (simp add: pending_run_def)
  note ts = transition_status_pending [OF pr(4,3,2,7), folded st]
  show ?thesis
  proof (cases "l = l0")
    case True
    let ?m = "atomic_write_bytes L (?r @ [EVENTS_FILE]) (l0 @ p)"
    have put: "runs U ?m (\<lambda>_. replaced s0 (?r @ [EVENTS_FILE]) (l0 @ p)) s0"
      using bytes_cell.put_runs [OF _ file_names(2)] d(1) f
      by (auto simp: on_disk_def temp_free_def replaced_def [abs_def])
    have "runs U (iob ?m (\<lambda>_. settle_event L ctx)) ?Q s0"
    proof (rule runs_iob, rule runs_mono [OF put])
      fix s assume s: "replaced s0 (?r @ [EVENTS_FILE]) (l0 @ p) s"
      then have "on_disk ?r b (l0 @ p) s" "temp_free U ?r s"
        using d(1) f temp_name_distinct by (auto simp: on_disk_def dir_at_def replaced_def temp_free_def)
      from runs_mono [OF settle [OF this]] s show "runs U (settle_event L ctx) ?Q s"
        by (simp add: replaced_def)
    qed
    moreover have "fld (rc_state ctx) ''pending_event'' \<noteq> PNone" using pr(2) by (simp add: st)
    ultimately have append: "runs U (iob (iob (read_regular_bytes (?r @ [EVENTS_FILE]) (Some MAX_EVENT_LOG_BYTES))
        (\<lambda>prior_log. iob (from_result (canonical_json_bytes L (fld (rc_state ctx) ''pending_event''))) (\<lambda>pending_bytes.
          if length prior_log + length pending_bytes > MAX_EVENT_LOG_BYTES then raise EvidenceError
          else atomic_write_bytes L (?r @ [EVENTS_FILE]) (prior_log @ pending_bytes))))
        (\<lambda>_. settle_event L ctx)) ?Q s0"
      unfolding iob_assoc
      by (intro runs_iob [where m = "read_regular_bytes _ _"] runs_read_regular_bytes [where b = l0])
        (use d(1) len pr(3) True in \<open>auto simp: on_disk_def st\<close>)
    show ?thesis
      unfolding reconcile_pending_event_def event_path_def
      by (rule runs_iob, rule runs_event_transition_status [where b = b and l = l and n = n and st = Pending_before_log])
        (use d(1) len scan ts(1) True append pr(2) in \<open>auto simp: st\<close>)
  next
    case False
    then have l: "l = l0 @ p" using d(2) by simp
    have "runs U (settle_event L ctx) ?Q s0"
      using runs_mono [OF settle [OF d(1) [unfolded l] f]] d(1) by (auto simp: replaced_def on_disk_def l)
    then show ?thesis
      unfolding reconcile_pending_event_def event_path_def
      by (intro runs_iob runs_event_transition_status [where b = b and l = l and n = "n + 1" and st = Pending_after_log])
        (use d(1) len pr(2,6) ts(2) l in \<open>auto simp: st\<close>)
  qed
qed

text \<open>With faults: a reconciliation cut off leaves the event pending or acknowledged.\<close>

definition reconcile_pair :: "pylib \<Rightarrow> pydict \<Rightarrow> pydict \<Rightarrow> bytes \<Rightarrow> bytes \<Rightarrow> bytes \<Rightarrow> bytes \<Rightarrow> bool" where
  "reconcile_pair L plan state b0 l0 b l \<longleftrightarrow>
     (l = l0 \<or> (\<exists>p. canonical_json_bytes L (fld state ''pending_event'') = Inr p \<and> l = l0 @ p))
     \<and> (b = b0 \<or> (\<exists>n. scan_events L plan [] l 0 = Inr n \<and> json_content L (PDict (settled L l n state)) = Some b))"

lemma wp_reconcile:
  assumes d: "on_disk (rc_root ctx) b0 l0 s0"
  shows "wp (reconcile_pending_event L ctx)
    (\<lambda>_ s. kept s0 s (run_files (rc_root ctx)) \<and>
       (\<exists>b l. on_disk (rc_root ctx) b l s \<and> reconcile_pair L (rc_plan ctx) (rc_state ctx) b0 l0 b l))
    (\<lambda>_ s. kept s0 s (run_files (rc_root ctx)) \<and>
       (\<exists>b l. on_disk (rc_root ctx) b l s \<and> reconcile_pair L (rc_plan ctx) (rc_state ctx) b0 l0 b l))
    (\<lambda>s. kept s0 s (run_files (rc_root ctx)) \<and>
       (\<exists>b l. on_disk (rc_root ctx) b l s \<and> reconcile_pair L (rc_plan ctx) (rc_state ctx) b0 l0 b l)) s0"
    (is "wp _ (\<lambda>_. ?P) _ _ _")
proof -
  let ?r = "rc_root ctx"
  have wf: "wf_fs s0" using d by (simp add: on_disk_def dir_at_def)
  have here: "?P s0" using d wf kept_refl by (auto simp: reconcile_pair_def)
  have settle: "wp (settle_event L ctx) (\<lambda>_. ?P) (\<lambda>_. ?P) ?P s"
    if k: "kept s0 s (run_files ?r)" and o1: "on_disk ?r b0 l s"
      and l: "l = l0 \<or> (\<exists>p. canonical_json_bytes L (fld (rc_state ctx) ''pending_event'') = Inr p \<and> l = l0 @ p)" for s l
    by (rule wp_settle_event [OF o1])
      (use k l kept_trans in \<open>fastforce simp: reconcile_pair_def\<close>)+
  have append: "wp (atomic_write_bytes L (?r @ [EVENTS_FILE]) (prior @ p))
      (\<lambda>_. wp (settle_event L ctx) (\<lambda>_. ?P) (\<lambda>_. ?P) ?P) (\<lambda>_. ?P) ?P s0"
    if p: "canonical_json_bytes L (fld (rc_state ctx) ''pending_event'') = Inr p"
      and prior: "node_via s0 (?r @ [EVENTS_FILE]) = Some (Reg prior)" for p prior
  proof (rule bytes_cell.put_rule)
    have [simp]: "prior = l0" using prior on_disk_via [OF d] by (simp add: event_path_def)
    have pair: "reconcile_pair L (rc_plan ctx) (rc_state ctx) b0 l0 b0 l" if "l = l0 \<or> l = l0 @ p" for l
      using p that by (auto simp: reconcile_pair_def)
    {
      fix s c assume a: "kept s0 s {?r @ [EVENTS_FILE]}" "Some (prior @ p) = Some c" "node_at s (?r @ [EVENTS_FILE]) = Some (Reg c)"
      then have "put_outcome Some s0 (?r @ [EVENTS_FILE]) (l0 @ p) s" by (simp add: put_outcome_def holds_def)
      from put_log_stage [OF this d] a have "kept s0 s (run_files ?r)" "on_disk ?r b0 (l0 @ p) s"
        by (auto simp: on_disk_def)
      then show "wp (settle_event L ctx) (\<lambda>_. ?P) (\<lambda>_. ?P) ?P s" using p by (intro settle) auto
    next
      fix s assume "put_outcome Some s0 (?r @ [EVENTS_FILE]) (prior @ p) s"
      then show "?P s" using put_log_stage [OF _ d, of "l0 @ p" s] pair by auto
      then show "?P s" .
    }
  qed (use d in \<open>simp_all add: on_disk_def\<close>)
  have last: "wp (settle_event L ctx) (\<lambda>_. ?P) (\<lambda>_. ?P) ?P s0"
    using settle [OF kept_refl [OF wf] d] by simp
  show ?thesis
    unfolding reconcile_pending_event_def event_path_def Let_def
    by (intro wp_iob wp_event_transition_status [OF d] wp_if wp_raise wp_ret wp_read_regular_bytes
        wp_from_result append last)
      (use here in auto)
qed

section \<open>A concrete run\<close>

text \<open>A run of two tasks whose first event is pending; the digest of this library is constant.\<close>

definition sample_event :: pydict where
  "sample_event =
     [(lit ''details'', PDict [(lit ''suite'', PLit ''n''), (lit ''tasks'', PInt 2)]),
      (lit ''previous_sha256'', PStr (replicate 64 48)), (lit ''run_id'', PStr (replicate 32 48)),
      (lit ''schema_version'', PInt 1), (lit ''sequence'', PInt 1), (lit ''time'', PLit ''t''),
      (lit ''type'', PLit ''run_started'')]"

definition untouched_task :: pyval where
  "untouched_task = PDict
     [(lit ''attempts'', PList []), (lit ''status'', PLit ''pending''),
      (lit ''verified_inputs'', PDict []), (lit ''verified_outputs'', PDict [])]"

definition started_state :: "pyval \<Rightarrow> pydict" where
  "started_state pending =
     [(lit ''created_at'', PLit ''t''),
      (lit ''event_log'', PDict [(lit ''count'', PInt 0), (lit ''sha256'', PStr (replicate 64 48)), (lit ''size'', PInt 0)]),
      (lit ''kind'', PLit ''benchhandoff-state''), (lit ''last_error'', PNone),
      (lit ''pending_event'', pending), (lit ''plan_sha256'', PStr (replicate 64 48)),
      (lit ''run_id'', PStr (replicate 32 48)), (lit ''schema_version'', PInt 1),
      (lit ''status'', PLit ''running''),
      (lit ''tasks'', PDict [(lit ''a'', untouched_task), (lit ''b'', untouched_task)]),
      (lit ''updated_at'', PLit ''t'')]"

definition run_fs :: "bytes \<Rightarrow> bytes \<Rightarrow> fs" where
  "run_fs b l = \<lparr>fs_names = [([], 0), ([lit ''r''], 1), ([lit ''r'', STATE_FILE], 2), ([lit ''r'', EVENTS_FILE], 3)],
     fs_nodes = (\<lambda>i. if i = 2 then Reg b else if i = 3 then Reg l else Dir), fs_dev = (\<lambda>_. 0), fs_next = 4,
     fs_locks = (\<lambda>_. None), fs_maker = (\<lambda>_. 0)\<rparr>"

definition run_world :: "(nat \<Rightarrow> fate) \<Rightarrow> bytes \<Rightarrow> bytes \<Rightarrow> world" where
  "run_world fates b l = (sample_world fates)\<lparr>w_fs := run_fs b l\<rparr>"

definition sample_ctx :: "pydict \<Rightarrow> run_context" where
  "sample_ctx state = \<lparr>rc_suite = sample_suite, rc_root = [lit ''r''], rc_plan = sample_plan, rc_state = state\<rparr>"

lemma run_world_simps [simp]:
  "calm (run_world fates b l)" "w_fs (run_world fates b l) = run_fs b l"
  "quiet {lit ''u''} (run_world (\<lambda>_. Run) b l)"
  by (simp_all add: run_world_def sample_world_def calm_def quiet_def)

lemma run_fs_disk: "on_disk [lit ''r''] b l (run_fs b l)" "temp_free {lit ''u''} [lit ''r''] (run_fs b l)"
proof -
  have "wf_fs (run_fs b l)"
    by (simp add: wf_fs_def run_fs_def node_at_def entry_def STATE_FILE_def EVENTS_FILE_def)
  then show "on_disk [lit ''r''] b l (run_fs b l)"
    by (simp add: on_disk_def dir_at_def run_fs_def node_at_def entry_def STATE_FILE_def EVENTS_FILE_def)
  show "temp_free {lit ''u''} [lit ''r''] (run_fs b l)"
    using temp_name_distinct by (auto simp: temp_free_def run_fs_def node_at_def entry_def)
qed

lemma sample_event_values:
  "wf_val (PDict sample_event)" "float_free (PDict sample_event)" "ascii_val (PDict sample_event)"
  "canon (PDict sample_event) = PDict sample_event"
proof -
  show "wf_val (PDict sample_event)" "float_free (PDict sample_event)" by (simp_all add: sample_event_def)
  show "ascii_val (PDict sample_event)" by (simp add: sample_event_def ascii_def set_lit)
  have "sorted (map fst sample_event)" "sorted [lit ''suite'', lit ''tasks'']"
    by (simp_all add: sample_event_def lit_def)
  then show "canon (PDict sample_event) = PDict sample_event"
    by (intro canon_fixed) (auto simp: sample_event_def sort_key_id_if_sorted)
qed

lemma untouched_task_values:
  "wf_val untouched_task" "float_free untouched_task" "ascii_val untouched_task" "canon untouched_task = untouched_task"
proof -
  show "wf_val untouched_task" "float_free untouched_task" "ascii_val untouched_task"
    by (simp_all add: untouched_task_def ascii_def set_lit)
  have "sorted [lit ''attempts'', lit ''status'', lit ''verified_inputs'', lit ''verified_outputs'']"
    by (simp add: lit_def)
  then show "canon untouched_task = untouched_task"
    unfolding untouched_task_def by (intro canon_fixed) auto
qed

lemma started_state_values:
  "wf_val v \<Longrightarrow> wf_val (PDict (started_state v))" "float_free v \<Longrightarrow> float_free (PDict (started_state v))"
  "ascii_val v \<Longrightarrow> ascii_val (PDict (started_state v))"
  "canon v = v \<Longrightarrow> canon (PDict (started_state v)) = PDict (started_state v)"
proof -
  show "wf_val v \<Longrightarrow> wf_val (PDict (started_state v))" "float_free v \<Longrightarrow> float_free (PDict (started_state v))"
    "ascii_val v \<Longrightarrow> ascii_val (PDict (started_state v))"
    using untouched_task_values by (simp_all add: started_state_def ascii_def set_lit)
  have s: "sorted (map fst (started_state v))" "sorted [lit ''count'', lit ''sha256'', lit ''size'']"
    "sorted [lit ''a'', lit ''b'']"
    by (simp_all add: started_state_def lit_def)
  show "canon v = v \<Longrightarrow> canon (PDict (started_state v)) = PDict (started_state v)"
    using s(1)
  proof (rule canon_fixed)
    fix p assume v: "canon v = v" and p: "p \<in> set (started_state v)"
    show "canon (snd p) = snd p"
      using p v s(2,3) untouched_task_values(4)
      by (auto simp: started_state_def sort_key_id_if_sorted simp del: sorted_simps)
  qed
qed

lemma started_reread: "canon v = v \<Longrightarrow> reread (started_state v) = started_state v"
  using started_state_values(4) by (simp add: reread_def del: canon.simps)

lemma sample_event_valid:
  "validate_event_record fixed_lib sample_plan 1 (PStr (replicate 64 48)) (PDict sample_event) = Inr (PDict sample_event)"
proof -
  obtain b where b: "canonical_json_bytes fixed_lib (PDict sample_event) = Inr b"
    "length b \<le> text_size (PDict sample_event) + 1"
    using ascii_writable [OF sample_event_values(3)] by blast
  have "text_size (PDict sample_event) < MAX_EVENT_BYTES"
    by (simp add: sample_event_def MAX_EVENT_BYTES_def dump_int_def dec.simps)
  with b have "\<not> length b > MAX_EVENT_BYTES" by simp
  with b(1) show ?thesis
    by (simp add: validate_event_record_def sample_event_def exact_keys_def dkeys_def sample_plan_def
        validate_text_def validate_event_type_def EVENT_DETAIL_FIELDS_def TASK_EVENT_TYPES_def
        validate_event_detail_def set_lit is_str_def)
qed

lemma started_state_valid:
  "validate_state_shape fixed_lib sample_plan (PDict (started_state (PDict sample_event))) = Inr ()"
proof -
  let ?S = "started_state (PDict sample_event)"
  have "state_header fixed_lib sample_plan ?S = Inr ()"
    by (simp add: state_header_def started_state_def exact_keys_def dkeys_def lits_def validate_text_def
        sample_plan_def is_sha256_def is_lower_hex_def is_digit_def set_lit)
  moreover have "state_event_log fixed_lib sample_plan ?S = Inr ()"
    using sample_event_valid
    by (simp add: state_event_log_def started_state_def exact_keys_def dkeys_def Let_def MAX_EVENT_COUNT_def
        validate_identity_fields_def validate_identity_def is_sha256_def is_lower_hex_def is_digit_def)
  moreover have "state_task_step fixed_lib sample_plan [(lit ''a'', untouched_task), (lit ''b'', untouched_task)] t 0 = Inr 0"
    if "task_key t = lit ''a'' \<or> task_key t = lit ''b''" for t
    using that
    by (auto simp: state_task_step_def task_state_def untouched_task_def exact_keys_def dkeys_def lits_def
        Let_def state_attempts_def state_task_consistent_def validate_identity_map_def)
  ultimately show ?thesis
    by (simp add: validate_state_shape_def started_state_def plan_tasks_sample sample_task_fields dkeys_def
        task_status_def task_attempts_def task_state_def untouched_task_def state_run_status_def Let_def)
qed

lemma sample_pending_run:
  "\<exists>p. canonical_json_bytes fixed_lib (PDict sample_event) = Inr p \<and> length p \<le> MAX_EVENT_BYTES
     \<and> pending_run fixed_lib sample_plan (started_state (PDict sample_event)) [] 0 p"
proof -
  obtain p where p: "canonical_json_bytes fixed_lib (PDict sample_event) = Inr p"
    using ascii_writable [OF sample_event_values(3)] by blast
  have "length p \<le> MAX_EVENT_BYTES" using validated_length [OF sample_event_valid p] .
  moreover have "pending_run fixed_lib sample_plan (started_state (PDict sample_event)) [] 0 p"
    unfolding pending_run_def started_reread [OF sample_event_values(4)]
    using p sample_event_values started_state_values started_state_valid
    by (simp add: started_state_def acknowledges_def fixed_lib_def del: wf_val.simps float_free.simps)
  ultimately show ?thesis using p by blast
qed

lemma sample_settled_content:
  "\<exists>b. json_output_bytes fixed_lib (PDict (settled fixed_lib p 1 (started_state (PDict sample_event)))) = Inr b"
  if "length p \<le> MAX_EVENT_BYTES"
proof -
  let ?v = "PDict (settled fixed_lib p 1 (started_state (PDict sample_event)))"
  have v: "?v = PDict (AList.update (lit ''event_log'') (log_observation fixed_lib p 1) (started_state PNone))"
    by (simp add: settled_def started_state_def dset_def)
  have "ascii_val ?v"
    unfolding v using started_state_values(3) [of PNone]
    by (simp add: started_state_def log_observation_def ascii_def set_lit fixed_lib_def)
  then obtain b where b: "canonical_json_bytes fixed_lib ?v = Inr b" "length b \<le> text_size ?v + 1"
    using ascii_writable by blast
  have "length (dump_int (int (length p))) \<le> length p + 1"
  proof -
    have "length (dec n) \<le> n + 1" for n
    proof (induction n rule: dec.induct)
      case (1 n)
      then show ?case by (subst dec.simps) auto
    qed
    then show ?thesis by (simp add: dump_int_def)
  qed
  then have "text_size ?v + 1 \<le> MAX_JSON_BYTES"
    unfolding v using that
    by (simp add: started_state_def log_observation_def untouched_task_def dump_int_def dec.simps
        fixed_lib_def MAX_JSON_BYTES_def MAX_EVENT_BYTES_def)
  moreover have "validate_json_complexity ?v = Inr ()"
    unfolding v
    by (simp add: validate_json_complexity_iff started_state_def log_observation_def untouched_task_def
        MAX_JSON_DEPTH_def MAX_JSON_NODES_def)
  ultimately show ?thesis using b by (auto simp: json_output_bytes_iff)
qed

section \<open>Properties\<close>

text \<open>
  C3: A transition is crash consistent. Whatever system call of a commit fails, is torn or is
  the last before a kill, the state file and the log are afterwards one of four pairs: both as
  before; the new state with the event pending and the old log; the same state and the log with
  exactly the event's line appended; or the acknowledged state and the extended log. If the
  commit returns it is the last. Every other existing name is as before.
\<close>

theorem commit_crash_consistent:
  assumes "calm w" "on_disk (rc_root ctx) b0 l0 (w_fs w)"
    and "commit_transition L ctx ty tid details w = (out, w')"
  shows "\<exists>b l. on_disk (rc_root ctx) b l (w_fs w') \<and> kept (w_fs w) (w_fs w') (run_files (rc_root ctx))
    \<and> (b = b0 \<and> l = l0 \<or> (\<exists>now now' p. commit_pair L (rc_plan ctx) (rc_state ctx)
         (new_event (rc_plan ctx) (rc_state ctx) now ty tid details) now' l0 p b l))
    \<and> (\<forall>ctx'. out = Ret ctx' \<longrightarrow> (\<exists>now now' p. l = l0 @ p \<and> commit_complete L (rc_plan ctx) (rc_state ctx)
         (new_event (rc_plan ctx) (rc_state ctx) now ty tid details) now' l0 p (rc_state ctx') b))"
proof -
  note wp = wpD [OF wp_commit_transition [OF assms(2)] assms(1)]
  have complete: "commit_pair L plan st e now' l0 p b (l0 @ p)" if "commit_complete L plan st e now' l0 p st' b"
    for plan st e now' p st' b using that by (auto simp: commit_pair_def commit_complete_def)
  show ?thesis
  proof (cases out)
    case (Ret ctx')
    show ?thesis using wp(1) [OF assms(3) [unfolded Ret]] complete Ret by blast
  next
    case (Exc e)
    show ?thesis using wp(2) [OF assms(3) [unfolded Exc]] Exc by blast
  next
    case Killed
    show ?thesis using wp(3) [OF assms(3) [unfolded Killed]] Killed by blast
  qed
qed

theorem commit_crash_consistent_witness:
  "\<exists>b l. on_disk [lit ''r''] b l (w_fs (snd (commit_transition fixed_lib (sample_ctx (started_state PNone))
     (lit ''run_started'') None [(lit ''suite'', PLit ''n''), (lit ''tasks'', PInt 2)]
     (run_world (\<lambda>t. if t = 24 then Kill else Run) ''s'' []))))"
  using commit_crash_consistent [of "run_world (\<lambda>t. if t = 24 then Kill else Run) ''s'' []"
      "sample_ctx (started_state PNone)" "''s''" "[]" fixed_lib "lit ''run_started''" None
      "[(lit ''suite'', PLit ''n''), (lit ''tasks'', PInt 2)]", OF _ _ surjective_pairing] run_fs_disk(1)
  by (auto simp: sample_ctx_def)

text \<open>
  C4: Recovery of a transition. When the state file holds a pending event and the log ends
  before or after its line, the reconciliation of the state as it is read back returns if
  nothing fails, and the files are then byte for byte those of the complete transition: the log
  with the line appended once, and the state acknowledging it. Nothing else has changed.
\<close>

theorem reconcile_completes:
  assumes "pending_run L (rc_plan ctx) S l0 n p" "rc_state ctx = reread S"
    and "is_sha256 (PStr (sha256 L (l0 @ p)))" "length (l0 @ p) \<le> MAX_EVENT_LOG_BYTES"
    and "json_output_bytes L (PDict (settled L (l0 @ p) (n + 1) S)) = Inr b2"
    and "quiet U w" "on_disk (rc_root ctx) b l (w_fs w)" "l = l0 \<or> l = l0 @ p"
    and "temp_free U (rc_root ctx) (w_fs w)"
  shows "\<exists>ctx' w'. reconcile_pending_event L ctx w = (Ret ctx', w') \<and>
    (\<forall>x. node_at (w_fs w') x =
      (if x = rc_root ctx @ [STATE_FILE] then Some (Reg b2)
       else if x = rc_root ctx @ [EVENTS_FILE] then Some (Reg (l0 @ p)) else node_at (w_fs w) x))"
  using runsE [OF runs_reconcile [OF assms(1-5,7-9)] assms(6)] by blast

theorem reconcile_completes_witness:
  "\<exists>p ctx' w'. canonical_json_bytes fixed_lib (PDict sample_event) = Inr p
     \<and> reconcile_pending_event fixed_lib (sample_ctx (started_state (PDict sample_event)))
         (run_world (\<lambda>_. Run) ''s'' []) = (Ret ctx', w')
     \<and> node_at (w_fs w') [lit ''r'', EVENTS_FILE] = Some (Reg p)"
proof -
  let ?ctx = "sample_ctx (started_state (PDict sample_event))" and ?w = "run_world (\<lambda>_. Run) ''s'' []"
  obtain p where p: "canonical_json_bytes fixed_lib (PDict sample_event) = Inr p" "length p \<le> MAX_EVENT_BYTES"
    "pending_run fixed_lib sample_plan (started_state (PDict sample_event)) [] 0 p"
    using sample_pending_run by blast
  obtain b where b: "json_output_bytes fixed_lib (PDict (settled fixed_lib p 1 (started_state (PDict sample_event)))) = Inr b"
    using sample_settled_content [OF p(2)] by blast
  have "\<exists>ctx' w'. reconcile_pending_event fixed_lib ?ctx ?w = (Ret ctx', w') \<and>
    (\<forall>x. node_at (w_fs w') x =
      (if x = rc_root ?ctx @ [STATE_FILE] then Some (Reg b)
       else if x = rc_root ?ctx @ [EVENTS_FILE] then Some (Reg ([] @ p)) else node_at (w_fs ?w) x))"
    by (rule reconcile_completes [where U = "{lit ''u''}" and S = "started_state (PDict sample_event)" and n = 0
          and b = "''s''" and l = "[]"])
      (use p b run_fs_disk fixed_sha started_reread [OF sample_event_values(4)] in
        \<open>auto simp: sample_ctx_def MAX_EVENT_BYTES_def MAX_EVENT_LOG_BYTES_def\<close>)
  with p(1) show ?thesis by (auto simp: sample_ctx_def)
qed





end
