(* ===== verification/Manifest.thy ===== *)
theory Manifest
  imports State_Shape Canonical
begin

text \<open>
  Workspace manifests, the data side of \<^verbatim>\<open>src/src/benchhandoff/workspace.py\<close>: entries, tree
  summaries, the validation of a manifest, its canonical bytes and the projection of a baseline
  with sealed outputs. Shown here: an accepted manifest is a closed tree, the manifest of a
  closed tree is accepted and read back unchanged, and which exceptions validation ends with.
\<close>

section \<open>Definitions\<close>

definition WORKSPACE_MANIFEST_KIND :: pystr where
  "WORKSPACE_MANIFEST_KIND = lit ''benchhandoff-workspace-snapshot''"

definition WORKSPACE_TREE_KIND :: pystr where
  "WORKSPACE_TREE_KIND = lit ''benchhandoff-workspace-tree''"

definition WORKSPACE_MANIFEST_SCHEMA_VERSION :: int where
  "WORKSPACE_MANIFEST_SCHEMA_VERSION = 1"

definition MAX_WORKSPACE_DEPTH :: nat where
  "MAX_WORKSPACE_DEPTH = 32"

definition MAX_WORKSPACE_FILE_BYTES :: nat where
  "MAX_WORKSPACE_FILE_BYTES = 1024 * 1024 * 1024"

text \<open>An entry is the dictionary the code builds for a directory or a file.\<close>

type_synonym ws_entry = pydict

definition dir_entry :: "pystr \<Rightarrow> ws_entry" where
  "dir_entry p = [(lit ''path'', PStr p), (lit ''kind'', PLit ''directory'')]"

text \<open>\<open>{"path": p, "kind": "file", **identity}\<close>\<close>

definition merge_into :: "pydict \<Rightarrow> pydict \<Rightarrow> pydict" where
  "merge_into base d = foldl (\<lambda>b p. AList.update (fst p) (snd p) b) base d"

definition file_entry :: "pystr \<Rightarrow> pydict \<Rightarrow> ws_entry" where
  "file_entry p identity = merge_into [(lit ''path'', PStr p), (lit ''kind'', PLit ''file'')] identity"

definition entry_path :: "ws_entry \<Rightarrow> pystr" where
  "entry_path e = str_of (fld e ''path'')"

definition is_kind :: "string \<Rightarrow> ws_entry \<Rightarrow> bool" where
  "is_kind k e \<longleftrightarrow> py_eq (fld e ''kind'') (PLit k)"

record workspace_manifest =
  wm_entries :: "ws_entry list"
  wm_identity :: pyval
  wm_summary :: pyval

record workspace_observation =
  wo_entries :: "ws_entry list"
  wo_summary :: pyval

definition canonical_path :: "pylib \<Rightarrow> pyval \<Rightarrow> pyexc + pystr" where
  "canonical_path L v =
     rbind (normalize_relative_file L v) (\<lambda>normalized.
       if nfc L normalized \<noteq> normalized then Inl EvidenceError
       else if length (split_on 47 normalized) > MAX_WORKSPACE_DEPTH then Inl EvidenceError
       else Inr normalized)"

text \<open>\<open>entry["path"].encode("utf-8")\<close>; the paths of entries are canonical, so it never fails.\<close>

definition path_bytes :: "pystr \<Rightarrow> bytes" where
  "path_bytes p = (case utf8 p of None \<Rightarrow> [] | Some b \<Rightarrow> b)"

definition entry_sort_key :: "ws_entry \<Rightarrow> bytes" where
  "entry_sort_key e = path_bytes (entry_path e)"

definition tree_body :: "ws_entry list \<Rightarrow> pyval" where
  "tree_body entries = PDict
     [(lit ''schema_version'', PInt WORKSPACE_MANIFEST_SCHEMA_VERSION),
      (lit ''kind'', PStr WORKSPACE_TREE_KIND), (lit ''entries'', PList (map PDict entries))]"

definition total_size :: "ws_entry list \<Rightarrow> int" where
  "total_size entries = sum_list (map (\<lambda>e. int_of (fld e ''size'')) (filter (is_kind ''file'') entries))"

definition tree_summary :: "pylib \<Rightarrow> ws_entry list \<Rightarrow> pyexc + pyval" where
  "tree_summary L entries =
     (let directories = length (filter (is_kind ''directory'') entries);
          files = length entries - directories in
      rbind (canonical_json_bytes L (tree_body entries)) (\<lambda>b.
      Inr (PDict [(lit ''tree_sha256'', PStr (sha256 L b)), (lit ''directory_count'', PInt (int directories)),
                  (lit ''file_count'', PInt (int files)), (lit ''total_bytes'', PInt (total_size entries))])))"

subsection \<open>Validation\<close>

definition unique_object :: "pydict \<Rightarrow> pyexc + pyval" where
  "unique_object pairs = rbind (unique_pairs pairs []) (\<lambda>d. Inr (PDict d))"

definition reject_constant :: "pystr \<Rightarrow> pyexc + pyval" where
  "reject_constant s = Inl EvidenceError"

text \<open>The local variables of the validation loop.\<close>

record manifest_acc =
  ma_entries :: "ws_entry list"
  ma_paths :: "pystr list"
  ma_aliases :: "(pystr list \<times> pystr) list"
  ma_directories :: "pystr list"
  ma_files :: "pystr list"
  ma_total :: int

definition manifest_entry_step :: "pylib \<Rightarrow> pyval \<Rightarrow> manifest_acc \<Rightarrow> pyexc + manifest_acc" where
  "manifest_entry_step L raw_entry acc =
     (case raw_entry of
        PDict d \<Rightarrow>
          (let kind = fld d ''kind'';
               expected_keys = (if py_eq kind (PLit ''directory'') then [''path'', ''kind'']
                                else [''path'', ''kind'', ''sha256'', ''size'']) in
           if set (dkeys d) \<noteq> set (map lit expected_keys) then Inl EvidenceError
           else rbind (in_str_set kind {lit ''directory'', lit ''file''}) (\<lambda>known.
           if \<not> known then Inl EvidenceError
           else rbind (canonical_path L (fld d ''path'')) (\<lambda>path.
           if path \<in> set (ma_paths acc) then Inl EvidenceError
           else rbind (windows_path_key L path) (\<lambda>alias.
           if other_owner (ma_aliases acc) alias path then Inl EvidenceError
           else let acc1 = acc\<lparr>ma_aliases := AList.update alias path (ma_aliases acc),
                               ma_paths := ma_paths acc @ [path]\<rparr> in
           if py_eq kind (PLit ''directory'')
           then Inr (acc1\<lparr>ma_directories := ma_directories acc @ [path],
                          ma_entries := ma_entries acc @ [dir_entry path]\<rparr>)
           else let sha = fld d ''sha256''; size = fld d ''size'' in
           if \<not> is_sha256 sha then Inl EvidenceError
           else if \<not> non_bool_int size \<or> int_of size < 0 \<or> int_of size > int MAX_WORKSPACE_FILE_BYTES
           then Inl EvidenceError
           else let total_bytes = ma_total acc + int_of size in
           if total_bytes > int MAX_WORKSPACE_TOTAL_BYTES then Inl EvidenceError
           else Inr (acc1\<lparr>ma_total := total_bytes, ma_files := ma_files acc @ [path],
                          ma_entries := ma_entries acc
                            @ [file_entry path [(lit ''sha256'', sha), (lit ''size'', size)]]\<rparr>)))))
      | _ \<Rightarrow> Inl EvidenceError)"

definition empty_manifest :: manifest_acc where
  "empty_manifest = \<lparr>ma_entries = [], ma_paths = [], ma_aliases = [], ma_directories = [],
     ma_files = [], ma_total = 0\<rparr>"

text \<open>The ancestors \<open>"/".join(parts[:depth])\<close> of a path.\<close>

definition ancestors :: "pystr \<Rightarrow> pystr list" where
  "ancestors p = map (join_on 47) (proper_prefixes (split_on 47 p))"

definition manifest_root_ok :: "pydict \<Rightarrow> bool" where
  "manifest_root_ok d \<longleftrightarrow>
     set (dkeys d) = set (map lit [''schema_version'', ''kind'', ''policy'', ''entries''])
     \<and> non_bool_int (fld d ''schema_version'')
     \<and> int_of (fld d ''schema_version'') = WORKSPACE_MANIFEST_SCHEMA_VERSION
     \<and> py_eq (fld d ''kind'') (PStr WORKSPACE_MANIFEST_KIND)
     \<and> py_eq (fld d ''policy'') (PStr WORKSPACE_POLICY)
     \<and> is_list (fld d ''entries'') \<and> length (list_of (fld d ''entries'')) \<le> MAX_WORKSPACE_ENTRIES"

definition validate_manifest_value :: "pylib \<Rightarrow> pyval \<Rightarrow> pyexc + ws_entry list" where
  "validate_manifest_value L v =
     (case v of
        PDict d \<Rightarrow>
          (if \<not> manifest_root_ok d then Inl EvidenceError
           else rbind (rfold (manifest_entry_step L) (list_of (fld d ''entries'')) empty_manifest) (\<lambda>acc.
           let ordered = sort_key entry_sort_key (ma_entries acc) in
           if ma_entries acc \<noteq> ordered then Inl EvidenceError
           else if \<exists>p \<in> set (ma_paths acc). \<exists>parent \<in> set (ancestors p).
                     parent \<in> set (ma_files acc) \<or> parent \<notin> set (ma_directories acc)
           then Inl EvidenceError
           else Inr ordered))
      | _ \<Rightarrow> Inl EvidenceError)"

text \<open>The manifest \<open>snapshot_workspace\<close> publishes for a list of entries.\<close>

definition manifest_body :: "ws_entry list \<Rightarrow> pyval" where
  "manifest_body entries = PDict
     [(lit ''schema_version'', PInt WORKSPACE_MANIFEST_SCHEMA_VERSION),
      (lit ''kind'', PStr WORKSPACE_MANIFEST_KIND), (lit ''policy'', PStr WORKSPACE_POLICY),
      (lit ''entries'', PList (map PDict entries))]"

text \<open>\<open>load_workspace_manifest\<close> after the file has been read.\<close>

definition decode_manifest :: "pylib \<Rightarrow> bytes \<Rightarrow> pyexc + pyval" where
  "decode_manifest L raw =
     (case utf8_decode raw of None \<Rightarrow> Inl EvidenceError
      | Some t \<Rightarrow> rcatch (\<lambda>_. EvidenceError) (loads L unique_object reject_constant t))"

definition manifest_of_bytes :: "pylib \<Rightarrow> pyval option \<Rightarrow> bytes \<Rightarrow> pyexc + workspace_manifest" where
  "manifest_of_bytes L expected_identity raw =
     (let ident = identity_of L raw in
      if (case expected_identity of None \<Rightarrow> False | Some e \<Rightarrow> \<not> identities_match ident e)
      then Inl EvidenceError
      else rbind (decode_manifest L raw) (\<lambda>v.
      rbind (validate_manifest_value L v) (\<lambda>entries.
      rbind (canonical_json_bytes L v) (\<lambda>b.
      if b \<noteq> raw then Inl EvidenceError
      else rbind (tree_summary L entries) (\<lambda>summary.
      Inr \<lparr>wm_entries = entries, wm_identity = ident, wm_summary = summary\<rparr>)))))"

subsection \<open>Projection\<close>

definition entry_map :: "ws_entry list \<Rightarrow> (pystr \<times> ws_entry) list" where
  "entry_map entries = foldl (\<lambda>m e. AList.update (entry_path e) e m) [] entries"

definition path_set_digest :: "pylib \<Rightarrow> pystr list \<Rightarrow> pyexc + pystr" where
  "path_set_digest L paths = body_sha256 L (PList (map PStr paths))"

definition validate_output_parent :: "pystr list \<Rightarrow> pystr \<Rightarrow> pyexc + unit" where
  "validate_output_parent baseline_directories relative =
     (let parts = split_on 47 relative in
      if length parts = 1 then Inr ()
      else if join_on 47 (butlast parts) \<notin> set baseline_directories then Inl EvidenceError
      else Inr ())"

definition file_identity_ok :: "pyval \<Rightarrow> bool" where
  "file_identity_ok v \<longleftrightarrow> is_dict v \<and> set (dkeys (dict_of v)) = set (map lit [''sha256'', ''size''])
     \<and> is_sha256 (fld (dict_of v) ''sha256'') \<and> non_bool_int (fld (dict_of v) ''size'')
     \<and> 0 \<le> int_of (fld (dict_of v) ''size'')
     \<and> int_of (fld (dict_of v) ''size'') \<le> int MAX_WORKSPACE_FILE_BYTES"

definition project_step ::
  "pylib \<Rightarrow> pystr \<times> pyval \<Rightarrow> (pystr \<times> ws_entry) list \<Rightarrow> pyexc + (pystr \<times> ws_entry) list" where
  "project_step L output expected =
     rbind (canonical_path L (PStr (fst output))) (\<lambda>normalized.
     if map_of expected normalized \<noteq> None then Inl EvidenceError
     else if \<not> file_identity_ok (snd output) then Inl EvidenceError
     else Inr (AList.update normalized (file_entry normalized (dict_of (snd output))) expected))"

definition project_workspace_summary :: "pylib \<Rightarrow> workspace_manifest \<Rightarrow> pydict \<Rightarrow> pyexc + pyval" where
  "project_workspace_summary L manifest outputs =
     rbind (rfold (project_step L) outputs (entry_map (wm_entries manifest))) (\<lambda>expected.
     tree_summary L (sort_key entry_sort_key (map snd expected)))"

section \<open>Entries\<close>

lemma py_eq_PLit_iff [simp]: "py_eq v (PStr s) \<longleftrightarrow> v = PStr s"
  by (cases v) (auto simp: py_eq.simps split: pyfloat.splits)

lemma canonical_path_iff:
  "canonical_path L v = Inr p \<longleftrightarrow>
     v = PStr p \<and> portable_path L p \<and> nfc L p = p \<and> length (split_on 47 p) \<le> MAX_WORKSPACE_DEPTH"
  by (auto simp: canonical_path_def normalize_relative_file_iff)


definition canonical_name :: "pylib \<Rightarrow> pystr \<Rightarrow> bool" where
  "canonical_name L p \<longleftrightarrow> portable_path L p \<and> nfc L p = p \<and> length (split_on 47 p) \<le> MAX_WORKSPACE_DEPTH"

lemma canonical_path_name: "canonical_path L v = Inr p \<longleftrightarrow> v = PStr p \<and> canonical_name L p"
  by (simp add: canonical_path_iff canonical_name_def)

text \<open>The entry of a file with digest \<open>h\<close> and size \<open>n\<close>.\<close>

abbreviation sized_entry :: "pystr \<Rightarrow> pystr \<Rightarrow> int \<Rightarrow> ws_entry" where
  "sized_entry p h n \<equiv> file_entry p [(lit ''sha256'', PStr h), (lit ''size'', PInt n)]"

lemma sized_entry_eq:
  "sized_entry p h n = [(lit ''path'', PStr p), (lit ''kind'', PLit ''file''),
     (lit ''sha256'', PStr h), (lit ''size'', PInt n)]"
  by (simp add: file_entry_def merge_into_def)

lemma dir_entry_simps [simp]:
  "entry_path (dir_entry p) = p" "is_kind ''directory'' (dir_entry p)" "\<not> is_kind ''file'' (dir_entry p)"
  "fld (dir_entry p) ''kind'' = PLit ''directory''" "fld (dir_entry p) ''path'' = PStr p"
  "dir_entry p = dir_entry q \<longleftrightarrow> p = q"
  by (auto simp: entry_path_def dir_entry_def is_kind_def)

lemma sized_entry_simps [simp]:
  "entry_path (sized_entry p h n) = p" "is_kind ''file'' (sized_entry p h n)"
  "\<not> is_kind ''directory'' (sized_entry p h n)" "fld (sized_entry p h n) ''size'' = PInt n"
  "fld (sized_entry p h n) ''sha256'' = PStr h" "fld (sized_entry p h n) ''kind'' = PLit ''file''"
  "fld (sized_entry p h n) ''path'' = PStr p"
  by (simp_all add: sized_entry_eq entry_path_def is_kind_def)

definition entry_ok :: "pylib \<Rightarrow> ws_entry \<Rightarrow> bool" where
  "entry_ok L e \<longleftrightarrow> (\<exists>p. canonical_name L p \<and>
     (e = dir_entry p \<or> (\<exists>h n. e = sized_entry p h n \<and> is_sha256 (PStr h)
        \<and> 0 \<le> n \<and> n \<le> int MAX_WORKSPACE_FILE_BYTES)))"

lemma entry_okE:
  assumes "entry_ok L e"
  obtains (dir) p where "e = dir_entry p" "canonical_name L p"
  | (reg) p h n where "e = sized_entry p h n" "canonical_name L p" "is_sha256 (PStr h)" "0 \<le> n"
      "n \<le> int MAX_WORKSPACE_FILE_BYTES"
  using assms unfolding entry_ok_def by blast

lemma entry_okI:
  "canonical_name L p \<Longrightarrow> entry_ok L (dir_entry p)"
  "canonical_name L p \<Longrightarrow> is_sha256 (PStr h) \<Longrightarrow> 0 \<le> n \<Longrightarrow> n \<le> int MAX_WORKSPACE_FILE_BYTES \<Longrightarrow>
   entry_ok L (sized_entry p h n)"
  unfolding entry_ok_def by blast+

lemma entry_ok_path: "entry_ok L e \<Longrightarrow> canonical_name L (entry_path e)"
  by (auto elim: entry_okE)

text \<open>Which entry a dictionary of the manifest stands for.\<close>

definition stands_for :: "pylib \<Rightarrow> pyval \<Rightarrow> ws_entry \<Rightarrow> bool" where
  "stands_for L raw e \<longleftrightarrow> entry_ok L e \<and> is_dict raw \<and> set (dkeys (dict_of raw)) = set (dkeys e)
     \<and> (\<forall>k \<in> {''path'', ''kind'', ''sha256'', ''size''}. fld (dict_of raw) k = fld e k)"

definition acc_of :: "pylib \<Rightarrow> ws_entry list \<Rightarrow> manifest_acc" where
  "acc_of L es = \<lparr>ma_entries = es, ma_paths = map entry_path es,
     ma_aliases = map (\<lambda>e. (path_key L (entry_path e), entry_path e)) es,
     ma_directories = map entry_path (filter (is_kind ''directory'') es),
     ma_files = map entry_path (filter (is_kind ''file'') es), ma_total = total_size es\<rparr>"

lemma acc_of_Nil: "acc_of L [] = empty_manifest"
  by (simp add: acc_of_def empty_manifest_def total_size_def)

text \<open>The alias keys met so far, and what the loop demands of the next one.\<close>

definition alias_keys :: "pylib \<Rightarrow> ws_entry list \<Rightarrow> pystr list list" where
  "alias_keys L es = map (\<lambda>e. path_key L (entry_path e)) es"

lemma alias_fresh:
  "(p \<notin> set (map entry_path es) \<and> \<not> other_owner (ma_aliases (acc_of L es)) (path_key L p) p)
   \<longleftrightarrow> path_key L p \<notin> set (alias_keys L es)"
proof
  assume a: "path_key L p \<notin> set (alias_keys L es)"
  then have "map_of (ma_aliases (acc_of L es)) (path_key L p) = None"
    by (auto simp: acc_of_def alias_keys_def map_of_eq_None_iff)
  with a show "p \<notin> set (map entry_path es) \<and> \<not> other_owner (ma_aliases (acc_of L es)) (path_key L p) p"
    by (auto simp: other_owner_def alias_keys_def)
next
  assume a: "p \<notin> set (map entry_path es) \<and> \<not> other_owner (ma_aliases (acc_of L es)) (path_key L p) p"
  have "map_of (ma_aliases (acc_of L es)) (path_key L p) = None"
  proof (rule ccontr)
    assume "map_of (ma_aliases (acc_of L es)) (path_key L p) \<noteq> None"
    then obtain q where "map_of (ma_aliases (acc_of L es)) (path_key L p) = Some q" by blast
    with a have "q = p" "q \<in> set (map entry_path es)"
      by (auto simp: other_owner_def acc_of_def dest!: map_of_SomeD)
    with a show False by simp
  qed
  then show "path_key L p \<notin> set (alias_keys L es)"
    by (auto simp: acc_of_def alias_keys_def map_of_eq_None_iff image_image)
qed

lemma stands_for_cases:
  "stands_for L raw e \<longleftrightarrow> (\<exists>d p. raw = PDict d \<and> canonical_name L p \<and> fld d ''path'' = PStr p \<and>
     (set (dkeys d) = {lit ''path'', lit ''kind''} \<and> fld d ''kind'' = PLit ''directory'' \<and> e = dir_entry p
      \<or> set (dkeys d) = {lit ''path'', lit ''kind'', lit ''sha256'', lit ''size''}
        \<and> fld d ''kind'' = PLit ''file'' \<and> is_sha256 (fld d ''sha256'') \<and> non_bool_int (fld d ''size'')
        \<and> 0 \<le> int_of (fld d ''size'') \<and> int_of (fld d ''size'') \<le> int MAX_WORKSPACE_FILE_BYTES
        \<and> e = sized_entry p (str_of (fld d ''sha256'')) (int_of (fld d ''size''))))"
  (is "?l \<longleftrightarrow> ?r")
proof
  assume ?l
  then obtain d where d: "raw = PDict d" and ok: "entry_ok L e" and k: "set (dkeys d) = set (dkeys e)"
    and f: "fld d ''path'' = fld e ''path''" "fld d ''kind'' = fld e ''kind''"
      "fld d ''sha256'' = fld e ''sha256''" "fld d ''size'' = fld e ''size''"
    by (auto simp: stands_for_def is_dict_iff)
  from ok show ?r
  proof (cases rule: entry_okE)
    case (dir p)
    then show ?thesis using d k f by (auto simp: dir_entry_def dkeys_def)
  next
    case (reg p h n)
    then show ?thesis
      using d k f by (auto simp: sized_entry_eq dkeys_def)
  qed
next
  assume ?r
  then obtain d p where d: "raw = PDict d" "canonical_name L p" "fld d ''path'' = PStr p"
    and c: "(set (dkeys d) = {lit ''path'', lit ''kind''} \<and> fld d ''kind'' = PLit ''directory'' \<and> e = dir_entry p)
      \<or> (set (dkeys d) = {lit ''path'', lit ''kind'', lit ''sha256'', lit ''size''}
        \<and> fld d ''kind'' = PLit ''file'' \<and> is_sha256 (fld d ''sha256'') \<and> non_bool_int (fld d ''size'')
        \<and> 0 \<le> int_of (fld d ''size'') \<and> int_of (fld d ''size'') \<le> int MAX_WORKSPACE_FILE_BYTES
        \<and> e = sized_entry p (str_of (fld d ''sha256'')) (int_of (fld d ''size'')))" by blast
  from c show ?l
  proof
    assume c: "set (dkeys d) = {lit ''path'', lit ''kind''} \<and> fld d ''kind'' = PLit ''directory'' \<and> e = dir_entry p"
    then have "\<not> has_key d ''sha256''" "\<not> has_key d ''size''" by (auto simp: has_key_iff)
    then have "fld d ''sha256'' = PNone" "fld d ''size'' = PNone"
      by (simp_all add: fld_def has_key_def split: option.splits)
    with c d show ?l by (auto simp: stands_for_def entry_ok_def dir_entry_def dkeys_def)
  next
    assume c: "set (dkeys d) = {lit ''path'', lit ''kind'', lit ''sha256'', lit ''size''}
        \<and> fld d ''kind'' = PLit ''file'' \<and> is_sha256 (fld d ''sha256'') \<and> non_bool_int (fld d ''size'')
        \<and> 0 \<le> int_of (fld d ''size'') \<and> int_of (fld d ''size'') \<le> int MAX_WORKSPACE_FILE_BYTES
        \<and> e = sized_entry p (str_of (fld d ''sha256'')) (int_of (fld d ''size''))"
    then obtain h n where "fld d ''sha256'' = PStr h" "fld d ''size'' = PInt n"
      by (auto simp: is_sha256_def is_str_iff non_bool_int_iff)
    with c d show ?l
      by (auto simp: stands_for_def entry_ok_def dkeys_def sized_entry_eq)
  qed
qed


lemma is_sha256_str: "is_sha256 v \<Longrightarrow> v = PStr (str_of v)"
  by (auto simp: is_sha256_def is_str_iff)

text \<open>One round of the loop adds the entry its dictionary stands for, or fails.\<close>

lemma manifest_entry_step_iff:
  "manifest_entry_step L raw (acc_of L es) = Inr acc \<longleftrightarrow>
   (\<exists>e. stands_for L raw e \<and> path_key L (entry_path e) \<notin> set (alias_keys L es)
      \<and> (is_kind ''file'' e \<longrightarrow> total_size (es @ [e]) \<le> int MAX_WORKSPACE_TOTAL_BYTES)
      \<and> acc = acc_of L (es @ [e]))"
proof (cases raw)
  case (PDict d)
  let ?k = "fld d ''kind''" and ?h = "fld d ''sha256''" and ?n = "fld d ''size''"
  let ?fresh = "\<lambda>p. path_key L p \<notin> set (alias_keys L es)"
  have upd: "AList.update (path_key L p) p (ma_aliases (acc_of L es))
      = ma_aliases (acc_of L es) @ [(path_key L p, p)]" if "?fresh p" for p
    using that by (intro update_new_key) (auto simp: acc_of_def alias_keys_def map_of_eq_None_iff image_image)
  have fresh: "(p \<notin> set (ma_paths (acc_of L es)) \<and> \<not> other_owner (ma_aliases (acc_of L es)) (path_key L p) p)
      \<longleftrightarrow> ?fresh p" for p
    using alias_fresh [of p es L] by (simp add: acc_of_def)
  consider (dir) "?k = PLit ''directory''" | (reg) "?k = PLit ''file''"
    | (other) "?k \<noteq> PLit ''directory''" "?k \<noteq> PLit ''file''" by blast
  then show ?thesis
  proof cases
    case dir
    have "manifest_entry_step L raw (acc_of L es) = Inr acc \<longleftrightarrow>
        set (dkeys d) = {lit ''path'', lit ''kind''} \<and> (\<exists>p. fld d ''path'' = PStr p \<and> canonical_name L p \<and> ?fresh p
          \<and> acc = acc_of L (es @ [dir_entry p]))"
      using upd fresh dir
      by (auto simp: manifest_entry_step_def PDict Let_def in_str_set_def canonical_path_name windows_path_key_eq
          canonical_name_def acc_of_def total_size_def)
    also have "\<dots> \<longleftrightarrow> (\<exists>e. stands_for L raw e \<and> ?fresh (entry_path e)
        \<and> (is_kind ''file'' e \<longrightarrow> total_size (es @ [e]) \<le> int MAX_WORKSPACE_TOTAL_BYTES) \<and> acc = acc_of L (es @ [e]))"
      using dir by (auto simp: stands_for_cases PDict)
    finally show ?thesis .
  next
    case reg
    have "manifest_entry_step L raw (acc_of L es) = Inr acc \<longleftrightarrow>
        set (dkeys d) = {lit ''path'', lit ''kind'', lit ''sha256'', lit ''size''}
        \<and> (\<exists>p. fld d ''path'' = PStr p \<and> canonical_name L p \<and> ?fresh p \<and> is_sha256 ?h \<and> non_bool_int ?n
          \<and> 0 \<le> int_of ?n \<and> int_of ?n \<le> int MAX_WORKSPACE_FILE_BYTES
          \<and> total_size es + int_of ?n \<le> int MAX_WORKSPACE_TOTAL_BYTES
          \<and> acc = acc_of L (es @ [sized_entry p (str_of ?h) (int_of ?n)]))"
    proof (cases "is_sha256 ?h \<and> non_bool_int ?n")
      case True
      then obtain h n where hn: "?h = PStr h" "?n = PInt n" "is_sha256 (PStr h)"
        by (metis is_sha256_str non_bool_int_iff)
      then show ?thesis
        using upd fresh reg
        by (auto simp: manifest_entry_step_def PDict Let_def in_str_set_def canonical_path_name windows_path_key_eq
            canonical_name_def acc_of_def total_size_def not_less not_le)
    qed (auto simp: manifest_entry_step_def PDict Let_def reg)
    also have "\<dots> \<longleftrightarrow> (\<exists>e. stands_for L raw e \<and> ?fresh (entry_path e)
        \<and> (is_kind ''file'' e \<longrightarrow> total_size (es @ [e]) \<le> int MAX_WORKSPACE_TOTAL_BYTES) \<and> acc = acc_of L (es @ [e]))"
      using reg by (auto simp: stands_for_cases PDict total_size_def)
    finally show ?thesis .
  next
    case other
    then show ?thesis
      by (cases ?k) (auto simp: manifest_entry_step_def PDict Let_def in_str_set_def stands_for_cases)
  qed
qed (auto simp: manifest_entry_step_def stands_for_cases)


lemma total_size_mono: "\<forall>e \<in> set es. entry_ok L e \<Longrightarrow> 0 \<le> total_size es"
  unfolding total_size_def by (intro sum_list_nonneg) (auto elim!: entry_okE)

lemma list_all2_snoc:
  "list_all2 P (xs @ [x]) ys \<longleftrightarrow> (\<exists>zs z. ys = zs @ [z] \<and> list_all2 P xs zs \<and> P x z)"
proof (cases ys rule: rev_cases)
  case (snoc zs z)
  have "list_all2 P (xs @ [x]) (zs @ [z]) = list_all2 P (rev (xs @ [x])) (rev (zs @ [z]))"
    by (rule list_all2_rev [symmetric])
  with snoc show ?thesis by (auto simp: list_all2_rev)
qed simp

lemma manifest_loop_iff:
  "rfold (manifest_entry_step L) raws empty_manifest = Inr acc \<longleftrightarrow>
   (\<exists>es. list_all2 (stands_for L) raws es \<and> distinct (alias_keys L es)
      \<and> total_size es \<le> int MAX_WORKSPACE_TOTAL_BYTES \<and> acc = acc_of L es)"
proof (induction raws arbitrary: acc rule: rev_induct)
  case Nil
  then show ?case by (auto simp: acc_of_Nil) (auto simp: alias_keys_def total_size_def)
next
  case (snoc raw raws)
  have size: "(is_kind ''file'' e \<longrightarrow> total_size (es @ [e]) \<le> int MAX_WORKSPACE_TOTAL_BYTES)
        \<and> total_size es \<le> int MAX_WORKSPACE_TOTAL_BYTES
      \<longleftrightarrow> total_size (es @ [e]) \<le> int MAX_WORKSPACE_TOTAL_BYTES" if "stands_for L raw e" for e es
  proof -
    have "0 \<le> total_size [e]" using that by (intro total_size_mono) (auto simp: stands_for_def)
    then show ?thesis by (auto simp: total_size_def)
  qed
  have "rfold (manifest_entry_step L) (raws @ [raw]) empty_manifest = Inr acc \<longleftrightarrow>
      (\<exists>es. list_all2 (stands_for L) raws es \<and> distinct (alias_keys L es)
        \<and> total_size es \<le> int MAX_WORKSPACE_TOTAL_BYTES \<and> manifest_entry_step L raw (acc_of L es) = Inr acc)"
    using snoc by (auto simp: rfold_append)
  also have "\<dots> \<longleftrightarrow> (\<exists>es e. list_all2 (stands_for L) raws es \<and> stands_for L raw e
      \<and> distinct (alias_keys L (es @ [e])) \<and> total_size (es @ [e]) \<le> int MAX_WORKSPACE_TOTAL_BYTES
      \<and> acc = acc_of L (es @ [e]))"
    unfolding manifest_entry_step_iff using size by (simp add: alias_keys_def) blast
  also have "\<dots> \<longleftrightarrow> (\<exists>es. list_all2 (stands_for L) (raws @ [raw]) es \<and> distinct (alias_keys L es)
      \<and> total_size es \<le> int MAX_WORKSPACE_TOTAL_BYTES \<and> acc = acc_of L es)"
    by (auto simp: list_all2_snoc)
  finally show ?case .
qed

section \<open>What a manifest is\<close>

text \<open>
  A closed tree: well-formed entries with alias-free paths in the order of their UTF-8 bytes,
  every ancestor a directory entry, and all of it within the limits.
\<close>

definition closed_tree :: "pylib \<Rightarrow> ws_entry list \<Rightarrow> bool" where
  "closed_tree L es \<longleftrightarrow>
     (\<forall>e \<in> set es. entry_ok L e) \<and> distinct (alias_keys L es) \<and> sorted (map entry_sort_key es)
     \<and> (\<forall>e \<in> set es. \<forall>q \<in> set (ancestors (entry_path e)). dir_entry q \<in> set es)
     \<and> total_size es \<le> int MAX_WORKSPACE_TOTAL_BYTES \<and> length es \<le> MAX_WORKSPACE_ENTRIES"

lemma closed_tree_paths:
  "distinct (alias_keys L es) \<Longrightarrow> distinct (map entry_path es)"
  by (auto simp: alias_keys_def distinct_map inj_on_def)

lemma entry_by_path:
  assumes "\<forall>e \<in> set es. entry_ok L e" "distinct (map entry_path es)"
  shows "q \<in> entry_path ` {e \<in> set es. is_kind ''directory'' e} \<and> q \<notin> entry_path ` {e \<in> set es. is_kind ''file'' e}
    \<longleftrightarrow> dir_entry q \<in> set es"
proof
  assume "q \<in> entry_path ` {e \<in> set es. is_kind ''directory'' e} \<and> q \<notin> entry_path ` {e \<in> set es. is_kind ''file'' e}"
  then obtain e where e: "e \<in> set es" "is_kind ''directory'' e" "entry_path e = q" by blast
  with assms(1) have "entry_ok L e" by blast
  then show "dir_entry q \<in> set es" using e by (cases rule: entry_okE) auto
next
  assume a: "dir_entry q \<in> set es"
  have "e = dir_entry q" if "e \<in> set es" "entry_path e = q" for e
    using that a assms(2) by (auto simp: distinct_map inj_on_def)
  then have "\<not> is_kind ''file'' e" if "e \<in> set es" "entry_path e = q" for e
    using that dir_entry_simps(3) [of q] by metis
  then have "q \<notin> entry_path ` {e \<in> set es. is_kind ''file'' e}" by blast
  moreover have "q \<in> entry_path ` {e \<in> set es. is_kind ''directory'' e}"
    using a by (intro image_eqI [of _ _ "dir_entry q"]) simp_all
  ultimately show "q \<in> entry_path ` {e \<in> set es. is_kind ''directory'' e} \<and> q \<notin> entry_path ` {e \<in> set es. is_kind ''file'' e}"
    by (rule conjI [rotated])
qed

lemma sorted_sort_key_iff: "xs = sort_key f xs \<longleftrightarrow> sorted (map f xs)"
  by (metis sort_key_id_if_sorted sorted_sort_key)

lemma validate_manifest_value_iff:
  "validate_manifest_value L v = Inr es \<longleftrightarrow>
   (\<exists>d. v = PDict d \<and> manifest_root_ok d \<and> list_all2 (stands_for L) (list_of (fld d ''entries'')) es
      \<and> closed_tree L es)"
proof (cases v)
  case (PDict d)
  show ?thesis
  proof (cases "manifest_root_ok d")
    case True
    have len: "length es \<le> MAX_WORKSPACE_ENTRIES" if "list_all2 (stands_for L) (list_of (fld d ''entries'')) es" for es
      using True list_all2_lengthD [OF that] by (simp add: manifest_root_ok_def)
    have ok: "\<forall>e \<in> set es. entry_ok L e" if "list_all2 (stands_for L) (list_of (fld d ''entries'')) es" for es
      using that by (auto simp: stands_for_def dest: list_all2_in_set)
    have anc: "\<not> (\<exists>p \<in> set (ma_paths (acc_of L es)). \<exists>q \<in> set (ancestors p).
          q \<in> set (ma_files (acc_of L es)) \<or> q \<notin> set (ma_directories (acc_of L es)))
        \<longleftrightarrow> (\<forall>e \<in> set es. \<forall>q \<in> set (ancestors (entry_path e)). dir_entry q \<in> set es)"
      if "list_all2 (stands_for L) (list_of (fld d ''entries'')) es" "distinct (alias_keys L es)" for es
      unfolding entry_by_path [OF ok [OF that(1)] closed_tree_paths [OF that(2)], symmetric]
      by (auto simp: acc_of_def)
    have "validate_manifest_value L v = Inr es \<longleftrightarrow>
      (\<exists>acc. rfold (manifest_entry_step L) (list_of (fld d ''entries'')) empty_manifest = Inr acc
        \<and> sorted (map entry_sort_key (ma_entries acc)) \<and> es = ma_entries acc
        \<and> \<not> (\<exists>p \<in> set (ma_paths acc). \<exists>q \<in> set (ancestors p).
             q \<in> set (ma_files acc) \<or> q \<notin> set (ma_directories acc)))"
      using True by (auto simp: validate_manifest_value_def PDict Let_def sorted_sort_key_iff sort_key_id_if_sorted
          simp del: bex_simps)
    also have "\<dots> \<longleftrightarrow> list_all2 (stands_for L) (list_of (fld d ''entries'')) es \<and> closed_tree L es"
    proof -
      have e: "ma_entries (acc_of L es) = es" for es by (simp add: acc_of_def)
      show ?thesis
        unfolding manifest_loop_iff closed_tree_def
        using len ok anc by (intro iffI exI [of _ "acc_of L es"]; elim exE conjE)
          (simp add: e del: bex_simps, intro conjI exI [of _ es], simp_all add: e del: bex_simps)
    qed
    finally show ?thesis using True PDict by simp
  qed (simp add: validate_manifest_value_def PDict)
qed (simp_all add: validate_manifest_value_def)

section \<open>Published manifests are read back\<close>

lemma unique_object_eq: "unique_object = unique_json_object" "reject_constant = reject_nonfinite_json"
  by (simp_all add: fun_eq_iff unique_object_def unique_json_object_def reject_constant_def reject_nonfinite_json_def)

lemma portable_encodable: "portable_path L p \<Longrightarrow> encodable p"
  by (auto simp: portable_path_def encodable_iff)

lemma sha_ascii: "is_sha256 (PStr h) \<Longrightarrow> ascii h"
  by (fastforce simp: is_sha256_def ascii_def is_lower_hex_def is_digit_def)

lemma ascii_lit: "\<forall>c \<in> set s. (of_char c :: nat) < 0x80 \<Longrightarrow> encodable (lit s)"
  by (auto simp: lit_def encodable_def)

lemma entry_values:
  assumes "entry_ok L e"
  shows "wf_val (PDict e)" "float_free (PDict e)" "encodable_val (PDict e)"
  using assms
  by (cases rule: entry_okE;
      auto simp: dir_entry_def sized_entry_eq ascii_lit portable_encodable canonical_name_def
        intro: ascii_encodable sha_ascii)+

lemma dkeys_reread: "set (dkeys (reread d)) = set (dkeys d)"
  by (simp add: reread_def dkeys_def image_image)

lemma stands_for_reread:
  assumes "entry_ok L e"
  shows "stands_for L (canon (PDict e)) e"
proof -
  have d: "distinct (map fst e)" using entry_values(1) [OF assms] by simp
  have "canon (fld e k) = fld e k" if "k \<in> {''path'', ''kind'', ''sha256'', ''size''}" for k
    using assms that by (cases rule: entry_okE) (auto simp: dir_entry_def sized_entry_eq)
  then have "\<forall>k \<in> {''path'', ''kind'', ''sha256'', ''size''}. fld (reread e) k = fld e k"
    by (simp add: fld_reread [OF d])
  with assms dkeys_reread [of e] show ?thesis
    unfolding stands_for_def PDict_reread [symmetric] by (simp add: is_dict_iff dict_of_def)
qed

lemma manifest_body_values:
  assumes "\<forall>e \<in> set es. entry_ok L e"
  shows "wf_val (manifest_body es)" "float_free (manifest_body es)" "encodable_val (manifest_body es)"
    "encodable_val (tree_body es)"
proof -
  have "\<forall>e \<in> set es. wf_val (PDict e)" "\<forall>e \<in> set es. float_free (PDict e)"
    "\<forall>e \<in> set es. encodable_val (PDict e)"
    using entry_values assms by blast+
  then show "wf_val (manifest_body es)" "float_free (manifest_body es)" "encodable_val (manifest_body es)"
    "encodable_val (tree_body es)"
    by (simp_all add: manifest_body_def tree_body_def list_all_iff ascii_lit WORKSPACE_MANIFEST_KIND_def
        WORKSPACE_POLICY_def WORKSPACE_TREE_KIND_def)
qed

lemma tree_summary_total: "\<forall>e \<in> set es. entry_ok L e \<Longrightarrow> \<exists>s. tree_summary L es = Inr s"
  by (rule encodable_writable [OF manifest_body_values(4), of es L L]) (auto simp: tree_summary_def Let_def)

lemma manifest_body_accepted:
  assumes "closed_tree L es"
  shows "validate_manifest_value L (canon (manifest_body es)) = Inr es"
proof -
  let ?d = "[(lit ''schema_version'', PInt WORKSPACE_MANIFEST_SCHEMA_VERSION),
      (lit ''kind'', PStr WORKSPACE_MANIFEST_KIND), (lit ''policy'', PStr WORKSPACE_POLICY),
      (lit ''entries'', PList (map PDict es))]"
  have d: "distinct (map fst ?d)" by simp
  have f: "fld (reread ?d) ''schema_version'' = PInt WORKSPACE_MANIFEST_SCHEMA_VERSION"
    "fld (reread ?d) ''kind'' = PStr WORKSPACE_MANIFEST_KIND" "fld (reread ?d) ''policy'' = PStr WORKSPACE_POLICY"
    "fld (reread ?d) ''entries'' = PList (map canon (map PDict es))"
    by (simp_all add: fld_reread [OF d])
  have k: "set (dkeys (reread ?d)) = set (dkeys ?d)" by (rule dkeys_reread)
  have "list_all2 (stands_for L) (map canon (map PDict es)) es"
    using assms stands_for_reread by (auto simp: closed_tree_def list_all2_conv_all_nth)
  moreover have "manifest_root_ok (reread ?d)"
    using assms f k by (auto simp: manifest_root_ok_def closed_tree_def dkeys_def)
  ultimately show ?thesis
    unfolding validate_manifest_value_iff manifest_body_def PDict_reread [symmetric]
    using f(4) assms by (intro exI [of _ "reread ?d"]) (simp add: list_of_def)
qed

lemma decode_manifest_canonical:
  assumes "wf_val v" "float_free v" "canonical_json_bytes L v = Inr b"
  shows "decode_manifest L b = Inr (canon v)"
proof -
  from assms(3) obtain t where t: "dumps L v = Inr t" "utf8 (t @ [10]) = Some b"
    by (auto simp: canonical_json_bytes_def split: sum.splits option.splits)
  have "loads L unique_object reject_constant (t @ [10]) = Inr (canon v)"
    unfolding unique_object_eq using keeps_pairs_unique assms(1,2) t(1) by (rule loads_dumps)
  then show ?thesis by (simp add: decode_manifest_def utf8_decode_utf8 [OF t(2)])
qed

lemma manifest_published:
  assumes "closed_tree L es"
  shows "\<exists>b summary. canonical_json_bytes L (manifest_body es) = Inr b \<and> tree_summary L es = Inr summary
    \<and> manifest_of_bytes L (Some (identity_of L b)) b =
        Inr \<lparr>wm_entries = es, wm_identity = identity_of L b, wm_summary = summary\<rparr>"
proof -
  have ok: "\<forall>e \<in> set es. entry_ok L e" using assms by (simp add: closed_tree_def)
  obtain b where b: "canonical_json_bytes L (manifest_body es) = Inr b"
    using encodable_writable [OF manifest_body_values(3) [OF ok]] by blast
  obtain s where s: "tree_summary L es = Inr s" using tree_summary_total [OF ok] by blast
  have "decode_manifest L b = Inr (canon (manifest_body es))"
    using manifest_body_values(1,2) [OF ok] b by (rule decode_manifest_canonical)
  moreover have "canonical_json_bytes L (canon (manifest_body es)) = Inr b"
    using b by (simp add: canonical_json_bytes_canon)
  moreover have "identities_match (identity_of L b) (identity_of L b)"
    by (simp add: identities_match_def identity_of_def)
  ultimately show ?thesis
    using b s manifest_body_accepted [OF assms] by (simp add: manifest_of_bytes_def)
qed

lemma utf8_lit: "\<forall>c \<in> set s. (of_char c :: nat) < 0x80 \<Longrightarrow> utf8 (lit s) = Some s"
  using utf8_ascii [of "lit s"] by (simp add: lit_def o_def)

text \<open>A small tree for the examples.\<close>

definition sample_entries :: "ws_entry list" where
  "sample_entries = [dir_entry (lit ''d''), sized_entry (lit ''d/f'') (replicate 64 48) 3]"

lemma sample_names: "canonical_name fixed_lib (lit ''d'')" "canonical_name fixed_lib (lit ''d/f'')"
  by (simp_all add: canonical_name_def fixed_lib_def portable_eval MAX_WORKSPACE_DEPTH_def)

lemma sample_closed_tree: "closed_tree fixed_lib sample_entries"
proof -
  have k: "entry_sort_key (dir_entry (lit ''d'')) = ''d''"
    "entry_sort_key (sized_entry (lit ''d/f'') h n) = ''d/f''" for h n
    by (simp_all add: entry_sort_key_def path_bytes_def utf8_lit)
  have a: "ancestors (lit ''d'') = []" "ancestors (lit ''d/f'') = [lit ''d'']"
    by (simp_all add: ancestors_def proper_prefixes_def lit_def)
  have "\<forall>e \<in> set sample_entries. entry_ok fixed_lib e"
    using sample_names
    by (auto simp: sample_entries_def is_sha256_def is_lower_hex_def is_digit_def MAX_WORKSPACE_FILE_BYTES_def
        intro!: entry_okI)
  moreover have "distinct (alias_keys fixed_lib sample_entries)"
    by (simp add: alias_keys_def sample_entries_def) (simp add: path_key_def lit_def)
  moreover have "sorted (map entry_sort_key sample_entries)"
    by (simp add: sample_entries_def k)
  moreover have "total_size sample_entries = 3" by (simp add: total_size_def sample_entries_def)
  ultimately show ?thesis
    by (simp add: closed_tree_def MAX_WORKSPACE_TOTAL_BYTES_def MAX_WORKSPACE_ENTRIES_def)
      (simp add: sample_entries_def a)
qed

section \<open>Properties\<close>

text \<open>
  C31: Manifests are exactly closed trees. The validation of a manifest value accepts it and returns
  \<open>es\<close> if and only if its root fields are right, its entries are one dictionary for each element
  of \<open>es\<close>, and \<open>es\<close> is a closed tree: canonical paths without aliases in UTF-8 order, every
  ancestor present as a directory, file digests and sizes well formed, and the number of entries
  and their total size within the limits.
\<close>

theorem manifest_accepted_exactly:
  "validate_manifest_value L v = Inr es \<longleftrightarrow>
   (\<exists>d. v = PDict d \<and> manifest_root_ok d \<and> list_all2 (stands_for L) (list_of (fld d ''entries'')) es
      \<and> closed_tree L es)"
  by (rule validate_manifest_value_iff)

text \<open>
  C32: A published manifest is read back. For every closed tree the canonical manifest has bytes,
  and loading them under the identity of these bytes returns the same entries with the identity
  and with the summary of the tree.
\<close>

theorem manifest_bytes_roundtrip:
  assumes "closed_tree L es"
  shows "\<exists>b summary. canonical_json_bytes L (manifest_body es) = Inr b \<and> tree_summary L es = Inr summary
    \<and> manifest_of_bytes L (Some (identity_of L b)) b =
        Inr \<lparr>wm_entries = es, wm_identity = identity_of L b, wm_summary = summary\<rparr>"
  using assms by (rule manifest_published)

theorem manifest_bytes_roundtrip_witness:
  "\<exists>b summary. canonical_json_bytes fixed_lib (manifest_body sample_entries) = Inr b
    \<and> tree_summary fixed_lib sample_entries = Inr summary
    \<and> manifest_of_bytes fixed_lib (Some (identity_of fixed_lib b)) b =
        Inr \<lparr>wm_entries = sample_entries, wm_identity = identity_of fixed_lib b, wm_summary = summary\<rparr>"
  by (rule manifest_bytes_roundtrip [OF sample_closed_tree])


end
