(* ===== verification/Workspace.thy ===== *)
theory Workspace
  imports Storage Manifest
begin

text \<open>
  The observation of a workspace tree, the file side of \<^verbatim>\<open>src/src/benchhandoff/workspace.py\<close>:
  the checked root, the two-pass scan, the comparison with a manifest and sealed outputs, and the
  publication of a new manifest. Shown here: the scan ends; what an observation returns is exactly
  the tree below the root, a closed tree without links or special files; a verified workspace
  holds the baseline and the sealed outputs unchanged and nothing else but the volatile files; a
  snapshot never replaces a file.
\<close>

section \<open>Definitions\<close>

text \<open>\<open>except OSError as exc: raise x from exc\<close>\<close>

definition os_error_as :: "pyexc \<Rightarrow> pyexc \<Rightarrow> pyexc" where
  "os_error_as x e = (if is_os_error e then x else e)"

text \<open>\<open>os.path.abspath\<close> on an absolute path: \<open>..\<close> is removed lexically.\<close>

definition abspath :: "path \<Rightarrow> path" where
  "abspath p = foldl (\<lambda>acc c. if c = dotdot then butlast acc else acc @ [c]) [] p"

fun root_scan :: "path \<Rightarrow> pystr list \<Rightarrow> unit io" where
  "root_scan current [] = ret ()"
| "root_scan current (part # rest) =
     (let here = current @ [part] in
      iob (reraise (os_error_as BoundaryError) (look (fs_lstat here))) (\<lambda>metadata.
      if is_lnk (st_node metadata) then raise BoundaryError
      else if rest \<noteq> [] \<and> st_node metadata \<noteq> Dir then raise BoundaryError
      else root_scan here rest))"

definition checked_workspace_root :: "path \<Rightarrow> path io" where
  "checked_workspace_root p =
     (let candidate = abspath p in
      iob (root_scan [] candidate) (\<lambda>_.
      iob (reraise (os_error_as BoundaryError)
            (iob (look (fs_lstat candidate)) (\<lambda>m. iob (look (fs_resolve candidate)) (\<lambda>r. ret (m, r)))))
        (\<lambda>(final_metadata, resolved).
      if st_node final_metadata \<noteq> Dir then raise BoundaryError
      else if is_lnk (st_node final_metadata) then raise BoundaryError
      else if resolved \<noteq> candidate then raise BoundaryError
      else ret resolved)))"

definition object_key :: "stat_result \<Rightarrow> nat \<times> ino" where
  "object_key m = (st_dev m, st_ino m)"

definition checked_directory_metadata :: "nat \<Rightarrow> path \<Rightarrow> stat_result io" where
  "checked_directory_metadata root_device p =
     iob (reraise (os_error_as EvidenceError) (look (fs_lstat p))) (\<lambda>metadata.
     if st_dev metadata \<noteq> root_device then raise EvidenceError
     else if st_node metadata \<noteq> Dir \<or> is_lnk (st_node metadata) then raise EvidenceError
     else ret metadata)"

text \<open>The block-wise read stops after one byte more than the limit.\<close>

definition bounded_file_identity :: "pylib \<Rightarrow> nat \<Rightarrow> stat_result \<Rightarrow> path \<Rightarrow> pyval io" where
  "bounded_file_identity L root_device metadata p =
     reraise (os_error_as EvidenceError)
       (iob (look (fs_open_nofollow p)) (\<lambda>descriptor.
        iob (look (\<lambda>s. Inr (stat_ino s descriptor))) (\<lambda>opened.
        if \<not> is_reg (st_node opened) \<or> st_dev opened \<noteq> root_device
           \<or> object_key opened \<noteq> object_key metadata \<or> st_nlink opened \<noteq> 1
        then raise EvidenceError
        else if node_size (st_node opened) > MAX_WORKSPACE_FILE_BYTES then raise EvidenceError
        else iob (look (fs_read descriptor)) (\<lambda>content.
        let hashed = take (MAX_WORKSPACE_FILE_BYTES + 1) content in
        if length hashed > MAX_WORKSPACE_FILE_BYTES then raise EvidenceError
        else iob (look (\<lambda>s. Inr (stat_ino s descriptor))) (\<lambda>final_opened.
        iob (look (fs_lstat p)) (\<lambda>current.
        if object_key final_opened \<noteq> object_key opened
           \<or> node_size (st_node final_opened) \<noteq> length hashed \<or> st_nlink final_opened \<noteq> 1
           \<or> \<not> is_reg (st_node current) \<or> is_lnk (st_node current)
           \<or> object_key current \<noteq> object_key opened \<or> st_nlink current \<noteq> 1
        then raise EvidenceError
        else ret (identity_of L hashed)))))))"

subsection \<open>The scan\<close>

text \<open>The local variables of the scan; the head of the stack comes first.\<close>

record scan_state =
  sc_entries :: "ws_entry list"
  sc_aliases :: "(pystr list \<times> pystr) list"
  sc_total :: int
  sc_stack :: "(path \<times> (nat \<times> ino)) list"

definition relative_name :: "path \<Rightarrow> path \<Rightarrow> pystr" where
  "relative_name root p = join_on 47 (drop (length root) p)"

definition scan_child :: "pylib \<Rightarrow> path \<Rightarrow> nat \<Rightarrow> path \<Rightarrow> scan_state \<Rightarrow> scan_state io" where
  "scan_child L root root_device p st =
     iob (from_result (canonical_path L (PStr (relative_name root p)))) (\<lambda>relative.
     iob (reraise (os_error_as EvidenceError) (look (fs_lstat p))) (\<lambda>metadata.
     iob (from_result (windows_path_key L relative)) (\<lambda>alias.
     if other_owner (sc_aliases st) alias relative then raise EvidenceError
     else let st1 = st\<lparr>sc_aliases := AList.update alias relative (sc_aliases st)\<rparr> in
     if st_dev metadata \<noteq> root_device then raise EvidenceError
     else if is_lnk (st_node metadata) then raise EvidenceError
     else if st_node metadata = Dir
     then ret (st1\<lparr>sc_entries := sc_entries st @ [dir_entry relative],
                   sc_stack := (p, object_key metadata) # sc_stack st\<rparr>)
     else if is_reg (st_node metadata) then
       (if st_nlink metadata \<noteq> 1 then raise EvidenceError
        else if node_size (st_node metadata) > MAX_WORKSPACE_FILE_BYTES then raise EvidenceError
        else iob (bounded_file_identity L root_device metadata p) (\<lambda>ident.
        let total_bytes = sc_total st + int_of (fld (dict_of ident) ''size'') in
        if total_bytes > int MAX_WORKSPACE_TOTAL_BYTES then raise EvidenceError
        else ret (st1\<lparr>sc_total := total_bytes,
                      sc_entries := sc_entries st @ [file_entry relative (dict_of ident)]\<rparr>)))
     else raise EvidenceError)))"

text \<open>
  One directory. The listing is the one at the time \<open>os.scandir\<close> opens the directory. The code
  meets the entries one by one and fails at the first undecodable name or at the first entry beyond
  the limit, with the same exception.
\<close>

definition scan_listing :: "nat \<Rightarrow> nat \<Rightarrow> path \<Rightarrow> nat \<times> ino \<Rightarrow> pystr list io" where
  "scan_listing remaining root_device directory key =
     iob (checked_directory_metadata root_device directory) (\<lambda>before.
     if object_key before \<noteq> key then raise EvidenceError
     else reraise (os_error_as EvidenceError)
       (iob (look (fs_scandir directory)) (\<lambda>listing.
        iob (checked_directory_metadata root_device directory) (\<lambda>opened.
        if object_key opened \<noteq> key then raise EvidenceError
        else if (\<exists>c \<in> set listing. utf8 (fst c) = None) \<or> length listing > remaining
        then raise EvidenceError
        else iob (checked_directory_metadata root_device directory) (\<lambda>after.
        if object_key after \<noteq> key then raise EvidenceError
        else ret (rev (sort_key path_bytes (map fst listing))))))))"

definition scan_directory :: "pylib \<Rightarrow> path \<Rightarrow> nat \<Rightarrow> path \<times> (nat \<times> ino) \<Rightarrow> scan_state \<Rightarrow> scan_state io" where
  "scan_directory L root root_device head st =
     iob (scan_listing (MAX_WORKSPACE_ENTRIES - length (sc_entries st)) root_device (fst head) (snd head))
       (\<lambda>children. io_fold (\<lambda>name. scan_child L root root_device (fst head @ [name])) children st)"

fun scan_loop :: "pylib \<Rightarrow> path \<Rightarrow> nat \<Rightarrow> nat \<Rightarrow> scan_state \<Rightarrow> scan_state io" where
  "scan_loop L root root_device 0 st = (if sc_stack st = [] then ret st else raise RuntimeError)"
| "scan_loop L root root_device (Suc fuel) st =
     (case sc_stack st of
        [] \<Rightarrow> ret st
      | head # rest \<Rightarrow>
          iob (scan_directory L root root_device head (st\<lparr>sc_stack := rest\<rparr>))
            (scan_loop L root root_device fuel))"

text \<open>
  Every round takes a directory off the stack, and every directory put on it is an entry, so
  there are at most \<open>MAX_WORKSPACE_ENTRIES + 1\<close> rounds.
\<close>

definition scan_workspace_once :: "pylib \<Rightarrow> path \<Rightarrow> nat \<Rightarrow> nat \<times> ino \<Rightarrow> workspace_observation io" where
  "scan_workspace_once L root root_device root_key =
     iob (scan_loop L root root_device (Suc MAX_WORKSPACE_ENTRIES)
           \<lparr>sc_entries = [], sc_aliases = [], sc_total = 0, sc_stack = [(root, root_key)]\<rparr>) (\<lambda>st.
     let ordered = sort_key entry_sort_key (sc_entries st) in
     iob (from_result (tree_summary L ordered)) (\<lambda>summary.
     ret \<lparr>wo_entries = ordered, wo_summary = summary\<rparr>))"

text \<open>\<open>==\<close> on tuples of entries\<close>

definition same_entries :: "ws_entry list \<Rightarrow> ws_entry list \<Rightarrow> bool" where
  "same_entries a b \<longleftrightarrow> py_eq (PList (map PDict a)) (PList (map PDict b))"

definition observe_workspace :: "pylib \<Rightarrow> path \<Rightarrow> workspace_observation io" where
  "observe_workspace L p =
     iob (checked_workspace_root p) (\<lambda>root.
     iob (look (fs_lstat root)) (\<lambda>root_metadata.
     iob (scan_workspace_once L root (st_dev root_metadata) (object_key root_metadata)) (\<lambda>first.
     iob (scan_workspace_once L root (st_dev root_metadata) (object_key root_metadata)) (\<lambda>second.
     if \<not> same_entries (wo_entries first) (wo_entries second)
        \<or> \<not> py_eq (wo_summary first) (wo_summary second)
     then raise EvidenceError
     else ret second))))"

subsection \<open>Manifests and bindings\<close>

definition load_workspace_manifest :: "pylib \<Rightarrow> path \<Rightarrow> pyval option \<Rightarrow> workspace_manifest io" where
  "load_workspace_manifest L p expected_identity =
     iob (read_regular_bytes p (Some MAX_WORKSPACE_MANIFEST_BYTES)) (\<lambda>raw.
     from_result (manifest_of_bytes L expected_identity raw))"

definition check_declared_output :: "pylib \<Rightarrow> (pystr \<times> ws_entry) list \<Rightarrow> pystr \<Rightarrow> pyexc + unit" where
  "check_declared_output L baseline output =
     rbind (canonical_path L (PStr output)) (\<lambda>normalized.
     if map_of baseline normalized \<noteq> None then Inl EvidenceError
     else validate_output_parent (map fst (filter (\<lambda>p. is_kind ''directory'' (snd p)) baseline)) normalized)"

definition prepare_workspace_binding ::
  "pylib \<Rightarrow> path \<Rightarrow> path \<Rightarrow> pyval \<Rightarrow> pystr list \<Rightarrow> pyval io" where
  "prepare_workspace_binding L workspace_root manifest_path expected_manifest_identity declared_outputs =
     iob (load_workspace_manifest L manifest_path (Some expected_manifest_identity)) (\<lambda>manifest.
     iob (observe_workspace L workspace_root) (\<lambda>observed.
     if \<not> same_entries (wo_entries observed) (wm_entries manifest) then raise EvidenceError
     else iob (from_result (rmap (check_declared_output L (entry_map (wm_entries manifest))) declared_outputs))
       (\<lambda>_. ret (PDict [(lit ''manifest'', wm_identity manifest), (lit ''baseline'', wm_summary manifest)]))))"

text \<open>\<open>**identity\<close> of something that is not a mapping raises \<open>TypeError\<close>.\<close>

definition complete_step ::
  "pylib \<Rightarrow> pystr \<times> pyval \<Rightarrow> (pystr \<times> ws_entry) list \<Rightarrow> pyexc + (pystr \<times> ws_entry) list" where
  "complete_step L output expected =
     rbind (canonical_path L (PStr (fst output))) (\<lambda>normalized.
     if map_of expected normalized \<noteq> None then Inl EvidenceError
     else if \<not> is_dict (snd output) then Inl TypeError
     else Inr (AList.update normalized (file_entry normalized (dict_of (snd output))) expected))"

definition entry_drifted :: "(pystr \<times> ws_entry) list \<Rightarrow> pystr \<times> ws_entry \<Rightarrow> bool" where
  "entry_drifted actual p =
     (case map_of actual (fst p) of None \<Rightarrow> True | Some e \<Rightarrow> \<not> py_eq (PDict e) (PDict (snd p)))"

definition compare_workspace ::
  "(pystr \<times> ws_entry) list \<Rightarrow> pystr list \<Rightarrow> workspace_observation \<Rightarrow> pyexc + pyval" where
  "compare_workspace expected volatile observed =
     (let actual = entry_map (wo_entries observed);
          missing = filter (\<lambda>p. map_of actual p = None) (map fst expected);
          extras = filter (\<lambda>p. map_of expected p = None) (map fst actual);
          unexpected = filter (\<lambda>p. p \<notin> set volatile) extras;
          drift = Inl (WorkspaceVerificationError (Some (wo_summary observed))) in
      if missing \<noteq> [] \<or> unexpected \<noteq> [] then drift
      else if \<exists>p \<in> set expected. entry_drifted actual p then drift
      else if \<exists>p \<in> set extras. \<not> is_kind ''file'' (the (map_of actual p)) then drift
      else Inr (wo_summary observed))"

definition verify_workspace ::
  "pylib \<Rightarrow> path \<Rightarrow> path \<Rightarrow> pyval \<Rightarrow> pyval \<Rightarrow> pydict \<Rightarrow> pystr list \<Rightarrow> pyval io" where
  "verify_workspace L workspace_root manifest_path expected_manifest_identity expected_baseline
       completed_outputs volatile_outputs =
     iob (load_workspace_manifest L manifest_path (Some expected_manifest_identity)) (\<lambda>manifest.
     if \<not> py_eq (wm_summary manifest) expected_baseline then raise EvidenceError
     else iob (from_result (rfold (complete_step L) completed_outputs (entry_map (wm_entries manifest)))) (\<lambda>expected.
     iob (from_result (rmap (\<lambda>p. canonical_path L (PStr p)) volatile_outputs)) (\<lambda>volatile.
     if \<exists>p \<in> set volatile. map_of expected p \<noteq> None then raise EvidenceError
     else iob (observe_workspace L workspace_root) (\<lambda>observed.
     from_result (compare_workspace expected volatile observed)))))"

subsection \<open>Snapshots\<close>

text \<open>An \<open>OSError\<close> of \<open>os.close\<close> is only raised when everything was written.\<close>

definition write_new_bytes :: "pylib \<Rightarrow> path \<Rightarrow> bytes \<Rightarrow> (pyval \<times> (nat \<times> ino)) io" where
  "write_new_bytes L p payload =
     iob (sys (fs_create (Reg []) p)) (\<lambda>descriptor.
     iob (look (\<lambda>s. Inr (stat_ino s descriptor))) (\<lambda>opened.
     iob (handle
           (iob (write_file descriptor payload) (\<lambda>_. look (\<lambda>_. Inr ())))
           (\<lambda>e. iob (handle (look (\<lambda>_. Inr ())) (\<lambda>e'. if is_os_error e' then ret () else raise e'))
                 (\<lambda>_. raise e))) (\<lambda>_.
     iob (look (\<lambda>_. Inr ())) (\<lambda>_. ret (identity_of L payload, object_key opened)))))"

definition snapshot_workspace :: "pylib \<Rightarrow> path \<Rightarrow> path \<Rightarrow> pyval io" where
  "snapshot_workspace L workspace_root output =
     iob (checked_workspace_root workspace_root) (\<lambda>root.
     if output = [] then raise BoundaryError
     else iob (from_result (windows_component_key L (last output))) (\<lambda>_.
     iob (path_lexists output) (\<lambda>found.
     if found then raise BoundaryError
     else iob (reraise (\<lambda>e. if e = BoundaryError \<or> is_os_error e then BoundaryError else e)
           (iob (checked_directory (butlast output)) (\<lambda>output_parent.
            iob (look (fs_lstat output_parent)) (\<lambda>m. ret (output_parent, object_key m)))))
       (\<lambda>(output_parent, output_parent_key).
     let resolved_output = output_parent @ [last output] in
     if is_within resolved_output root then raise BoundaryError
     else iob (observe_workspace L root) (\<lambda>observation.
     iob (from_result (canonical_json_bytes L (manifest_body (wo_entries observation)))) (\<lambda>payload.
     if length payload > MAX_WORKSPACE_MANIFEST_BYTES then raise EvidenceError
     else iob (reraise (\<lambda>e. if e = FileExistsError then BoundaryError else e)
                 (write_new_bytes L resolved_output payload)) (\<lambda>(expected_identity, expected_object_key).
     iob (reraise (\<lambda>e. if e = BoundaryError \<or> is_os_error e then EvidenceError else e)
           (iob (look (fs_lstat resolved_output)) (\<lambda>current_metadata.
            if object_key current_metadata \<noteq> expected_object_key then raise EvidenceError
            else iob (bounded_file_identity L (st_dev current_metadata) current_metadata resolved_output) (\<lambda>ident.
            iob (look (fs_lstat output_parent)) (\<lambda>m. ret (ident, object_key m))))))
       (\<lambda>(ident, current_parent_key).
     if current_parent_key \<noteq> output_parent_key then raise EvidenceError
     else if \<not> identities_match ident expected_identity then raise EvidenceError
     else ret (PDict [(lit ''status'', PLit ''created''), (lit ''manifest'', expected_identity),
        (lit ''workspace'', wo_summary observation),
        (lit ''entries'', PInt (int (length (wo_entries observation)))),
        (lit ''review_required'', PBool True)])))))))))"

section \<open>The scan ends\<close>

text \<open>The directories still to visit: those on the stack and at most one for each free entry.\<close>

definition scan_work :: "scan_state \<Rightarrow> nat" where
  "scan_work st = (MAX_WORKSPACE_ENTRIES - length (sc_entries st)) + length (sc_stack st)"

lemma scan_child_grows:
  assumes "scan_child L root dev p st w = (Ret st', w')"
  shows "length (sc_entries st') = length (sc_entries st) + 1" "length (sc_stack st') \<le> length (sc_stack st) + 1"
  using assms by (auto simp: scan_child_def Let_def returns_simps split: if_splits)

lemma scan_children_grow:
  "io_fold (\<lambda>name. scan_child L root dev (d @ [name])) names st w = (Ret st', w') \<Longrightarrow>
   length (sc_entries st') = length (sc_entries st) + length names \<and>
   length (sc_stack st') \<le> length (sc_stack st) + length names"
proof (induction names arbitrary: st w)
  case (Cons x xs)
  then obtain st1 w1 where st1: "scan_child L root dev (d @ [x]) st w = (Ret st1, w1)"
    and r: "io_fold (\<lambda>name. scan_child L root dev (d @ [name])) xs st1 w1 = (Ret st', w')"
    by (auto simp: returns_simps)
  from Cons.IH [OF r] scan_child_grows [OF st1] show ?case by simp
qed simp

lemma scan_listing_bound:
  "scan_listing n dev d key w = (Ret names, w') \<Longrightarrow> length names \<le> n"
  by (auto simp: scan_listing_def returns_simps split: if_splits)

lemma scan_directory_work:
  assumes "scan_directory L root dev head st w = (Ret st', w')"
  shows "scan_work st' \<le> scan_work st"
proof -
  from assms obtain names w1 where
    l: "scan_listing (MAX_WORKSPACE_ENTRIES - length (sc_entries st)) dev (fst head) (snd head) w = (Ret names, w1)"
    and f: "io_fold (\<lambda>name. scan_child L root dev (fst head @ [name])) names st w1 = (Ret st', w')"
    by (auto simp: scan_directory_def returns_simps)
  from scan_listing_bound [OF l] scan_children_grow [OF f] show ?thesis by (auto simp: scan_work_def)
qed

lemma scan_loop_enough:
  "scan_work st \<le> n \<Longrightarrow> scan_loop L root dev (n + k) st = scan_loop L root dev n st"
proof (induction n arbitrary: st)
  case 0
  then have "sc_stack st = []" by (simp add: scan_work_def)
  then show ?case by (cases k) simp_all
next
  case (Suc n)
  show ?case
  proof (cases "sc_stack st")
    case (Cons head rest)
    let ?m = "scan_directory L root dev head (st\<lparr>sc_stack := rest\<rparr>)"
    have "iob ?m (scan_loop L root dev (n + k)) = iob ?m (scan_loop L root dev n)"
    proof (rule iob_cong_ret)
      fix st' w w1 assume "?m w = (Ret st', w1)"
      from scan_directory_work [OF this] have "scan_work st' \<le> n"
        using Suc.prems Cons by (simp add: scan_work_def)
      from Suc.IH [OF this] show "scan_loop L root dev (n + k) st' w1 = scan_loop L root dev n st' w1" by simp
    qed
    with Cons show ?thesis by simp
  qed simp
qed

section \<open>What a scan sees\<close>

subsection \<open>The calls\<close>

lemma wp_prod [wp_intros]: "(\<And>a b. x = (a, b) \<Longrightarrow> wp (f a b) Q X K s) \<Longrightarrow> wp (case x of (a, b) \<Rightarrow> f a b) Q X K s"
  by (cases x) simp

lemma wp_root_scan:
  "Q () s \<Longrightarrow> (\<And>e. X e s) \<Longrightarrow> K s \<Longrightarrow> wp (root_scan current parts) Q X K s"
proof (induction parts arbitrary: current)
  case (Cons c rest)
  show ?case unfolding root_scan.simps by (intro wp_intros Cons)
qed (simp add: wp_ret)

lemma wp_checked_workspace_root [wp_intros]:
  assumes "node_at s (abspath p) = Some Dir \<Longrightarrow> Q (abspath p) s" "\<And>e. X e s" "K s"
  shows "wp (checked_workspace_root p) Q X K s"
  unfolding checked_workspace_root_def
  by (intro wp_intros wp_root_scan assms) (auto intro: assms(1) dest: checked_directory_looks)

lemma wp_checked_directory_metadata [wp_intros]:
  "(\<And>m. Q m s) \<Longrightarrow> (\<And>e. X e s) \<Longrightarrow> K s \<Longrightarrow> wp (checked_directory_metadata dev p) Q X K s"
  unfolding checked_directory_metadata_def by (intro wp_intros) simp_all

lemma wp_bounded_file_identity [wp_intros]:
  assumes "\<And>b. node_via s p = Some (Reg b) \<Longrightarrow> length b \<le> MAX_WORKSPACE_FILE_BYTES \<Longrightarrow> Q (identity_of L b) s"
    and "\<And>e. X e s" "K s"
  shows "wp (bounded_file_identity L dev m p) Q X K s"
  unfolding bounded_file_identity_def
proof (intro wp_intros assms(2,3), goal_cases)
  case (1 i opened content final current)
  then obtain b where b: "fs_nodes s i = Reg b" "content = b"
    by (auto simp: fs_read_def split: node.splits)
  have "regular_at s p i"
    using 1(1) b by (auto simp: regular_at_def fs_open_nofollow_def is_reg_def split: option.splits if_splits)
  then have "node_via s p = Some (Reg b)" using b(1) by (rule regular_at_node)
  moreover have "length b \<le> MAX_WORKSPACE_FILE_BYTES" using 1 b by (simp add: min_def split: if_splits)
  ultimately show ?case using assms(1) [of b] b(2) by simp
qed

text \<open>Names as POSIX has them.\<close>

definition posix_names :: "fs \<Rightarrow> bool" where
  "posix_names s \<longleftrightarrow> (\<forall>(p, i) \<in> set (fs_names s). \<forall>c \<in> set p. c \<noteq> [] \<and> 47 \<notin> set c)"

lemma posix_namesD: "posix_names s \<Longrightarrow> node_at s p \<noteq> None \<Longrightarrow> c \<in> set p \<Longrightarrow> c \<noteq> [] \<and> 47 \<notin> set c"
  by (fastforce simp: posix_names_def node_at_def entry_def dest: map_of_SomeD)

lemma scandir_children:
  assumes "dir_at s d" "fs_scandir d s = Inr l"
  shows "distinct (map fst l)" "set (map fst l) = {c. node_at s (d @ [c]) \<noteq> None}"
proof -
  let ?F = "filter (\<lambda>e. fst e \<noteq> [] \<and> butlast (fst e) = d) (fs_names s)"
  have wf: "wf_fs s" and "locate s True d = Inr d" using assms(1) dir_at_locate by (auto simp: dir_at_def)
  with assms have l: "l = map (\<lambda>e. (last (fst e), fs_nodes s (snd e))) ?F"
    by (auto simp: fs_scandir_def dir_at_def split: if_splits)
  have d: "distinct (map fst (fs_names s))" using wf by (simp add: wf_fs_def)
  have "inj_on (\<lambda>e. last (fst e)) (set ?F)"
  proof (rule inj_onI)
    fix a b assume a: "a \<in> set ?F" "b \<in> set ?F" "last (fst a) = last (fst b)"
    then have "fst a \<noteq> []" "fst b \<noteq> []" "butlast (fst a) = butlast (fst b)" by simp_all
    with a(3) have "fst a = fst b" by (metis append_butlast_last_id)
    with a d show "a = b" by (auto simp: distinct_map inj_on_def)
  qed
  moreover have "distinct (fs_names s)" using d by (simp add: distinct_map)
  ultimately show "distinct (map fst l)" by (auto simp: l distinct_map o_def)
  have "c \<in> (\<lambda>e. last (fst e)) ` set ?F \<longleftrightarrow> (\<exists>i. (d @ [c], i) \<in> set (fs_names s))" for c
  proof
    assume "c \<in> (\<lambda>e. last (fst e)) ` set ?F"
    then obtain e where e: "e \<in> set (fs_names s)" "fst e \<noteq> []" "butlast (fst e) = d" "c = last (fst e)" by auto
    then have "(d @ [c], snd e) = e" by (metis append_butlast_last_id prod.collapse)
    with e(1) show "\<exists>i. (d @ [c], i) \<in> set (fs_names s)" by metis
  qed force
  then show "set (map fst l) = {c. node_at s (d @ [c]) \<noteq> None}"
    using entry_in_names [OF wf] by (auto simp: l node_at_def image_image)
qed

lemma wp_scan_listing [wp_intros]:
  assumes "dir_at s d"
    and "\<And>names. distinct names \<Longrightarrow> set names = {c. node_at s (d @ [c]) \<noteq> None} \<Longrightarrow> length names \<le> n \<Longrightarrow> Q names s"
    and "\<And>e. X e s" "K s"
  shows "wp (scan_listing n dev d key) Q X K s"
  unfolding scan_listing_def
proof (intro wp_intros assms(3,4), goal_cases)
  case (1 before listing opened after)
  then show ?case
    using scandir_children [OF assms(1), of listing] by (intro assms(2)) (auto simp: distinct_map_sort_key [of id, simplified])
qed

subsection \<open>Which names have been visited\<close>

text \<open>
  Paths relative to the root: \<open>xs\<close> those recorded, \<open>ys\<close> the directories on the stack, \<open>cs\<close> the
  children of \<open>y\<close> still to come. Nothing is recorded twice, and everything not recorded is below
  a directory on the stack or a child to come.
\<close>

definition visits :: "fs \<Rightarrow> path \<Rightarrow> path list \<Rightarrow> path list \<Rightarrow> path \<Rightarrow> pystr list \<Rightarrow> bool" where
  "visits s root xs ys y cs \<longleftrightarrow>
     distinct xs \<and> [] \<notin> set xs \<and> (\<forall>x \<in> set xs. node_at s (root @ x) \<noteq> None \<and> butlast x \<in> insert [] (set xs))
     \<and> distinct ys \<and> set ys \<subseteq> insert [] (set xs) \<and> (\<forall>x \<in> set xs. butlast x \<notin> set ys)
     \<and> (\<forall>z \<in> set ys. node_at s (root @ z) = Some Dir)
     \<and> (\<forall>z. z \<noteq> [] \<longrightarrow> node_at s (root @ z) \<noteq> None \<longrightarrow>
          z \<in> set xs \<or> (\<exists>y \<in> set ys. strict_prefix y z) \<or> (\<exists>c \<in> set cs. prefix (y @ [c]) z))
     \<and> distinct cs \<and> (cs \<noteq> [] \<longrightarrow> y \<notin> set ys \<and> y \<in> insert [] (set xs))
     \<and> (\<forall>c \<in> set cs. y @ [c] \<notin> set xs)"

lemma visits_start: "node_at s root = Some Dir \<Longrightarrow> visits s root [] [[]] y []"
  by (auto simp: visits_def strict_prefix_def)

lemma visits_pop:
  assumes v: "visits s root xs (y # ys) y' []" and wf: "wf_fs s"
    and cs: "distinct cs" "set cs = {c. node_at s (root @ y @ [c]) \<noteq> None}"
  shows "visits s root xs ys y cs"
proof -
  have below: "\<exists>c \<in> set cs. prefix (y @ [c]) z" if "strict_prefix y z" "node_at s (root @ z) \<noteq> None" for z
  proof -
    from that(1) obtain c r where z: "z = y @ c # r" by (auto elim: strict_prefixE')
    have "node_at s (root @ y @ [c]) \<noteq> None"
    proof (cases "r = []")
      case False
      with that(2) z have "entry s ((root @ y @ [c]) @ r) \<noteq> None" by (simp add: node_at_def)
      from wf_fs_prefix_dir [OF wf this False] show ?thesis by simp
    qed (use that(2) z in simp)
    with cs z show ?thesis by (intro bexI [of _ c]) auto
  qed
  have "y @ [c] \<notin> set xs" for c
    using v unfolding visits_def by (metis butlast_snoc list.set_intros(1))
  with v cs(1) below show ?thesis unfolding visits_def by auto
qed

lemma prefix_cases: "prefix p z \<Longrightarrow> p = z \<or> strict_prefix p z"
  by (simp add: strict_prefix_def)

lemma visits_file:
  assumes v: "visits s root xs ys y (c # cs)" and wf: "wf_fs s"
    and n: "node_at s (root @ y @ [c]) = Some nd" "nd \<noteq> Dir"
  shows "visits s root (xs @ [y @ [c]]) ys y cs"
proof -
  have leaf: "z = y @ [c]" if "prefix (y @ [c]) z" "node_at s (root @ z) \<noteq> None" for z
  proof (rule ccontr)
    assume "z \<noteq> y @ [c]"
    with that(1) obtain r where z: "z = (y @ [c]) @ r" "r \<noteq> []"
      by (metis append_Nil2 prefixE)
    with that(2) have "entry s ((root @ y @ [c]) @ r) \<noteq> None" by (simp add: node_at_def)
    from wf_fs_prefix_dir [OF wf this z(2)] n show False by simp
  qed
  have fresh: "y @ [c] \<notin> set xs" "y \<notin> set ys" "y \<in> insert [] (set xs)" "c \<notin> set cs"
    using v by (auto simp: visits_def)
  show ?thesis
    unfolding visits_def
  proof (intro conjI allI impI)
    fix z assume z: "z \<noteq> []" "node_at s (root @ z) \<noteq> None"
    with v have "z \<in> set xs \<or> (\<exists>y \<in> set ys. strict_prefix y z) \<or> prefix (y @ [c]) z \<or> (\<exists>c \<in> set cs. prefix (y @ [c]) z)"
      unfolding visits_def by auto
    with leaf [of z] z(2)
    show "z \<in> set (xs @ [y @ [c]]) \<or> (\<exists>y \<in> set ys. strict_prefix y z) \<or> (\<exists>c \<in> set cs. prefix (y @ [c]) z)" by auto
  qed (use v n fresh in \<open>auto simp: visits_def\<close>)
qed

lemma visits_dir:
  assumes v: "visits s root xs ys y (c # cs)" and n: "node_at s (root @ y @ [c]) = Some Dir"
  shows "visits s root (xs @ [y @ [c]]) ((y @ [c]) # ys) y cs"
proof -
  have fresh: "y @ [c] \<notin> set xs" "y \<notin> set ys" "y \<in> insert [] (set xs)" "c \<notin> set cs" "y @ [c] \<notin> set ys"
    using v by (auto simp: visits_def)
  have parent: "butlast x \<noteq> y @ [c]" if "x \<in> set xs" for x
    using v that fresh(1) unfolding visits_def by (metis append_is_Nil_conv insert_iff not_Cons_self2)
  show ?thesis
    unfolding visits_def
  proof (intro conjI allI impI)
    fix z assume z: "z \<noteq> []" "node_at s (root @ z) \<noteq> None"
    with v have "z \<in> set xs \<or> (\<exists>y \<in> set ys. strict_prefix y z) \<or> prefix (y @ [c]) z \<or> (\<exists>c \<in> set cs. prefix (y @ [c]) z)"
      unfolding visits_def by auto
    then show "z \<in> set (xs @ [y @ [c]]) \<or> (\<exists>y \<in> set ((y @ [c]) # ys). strict_prefix y z) \<or> (\<exists>c \<in> set cs. prefix (y @ [c]) z)"
      using prefix_cases [of "y @ [c]" z] by auto
  qed (use v n fresh parent in \<open>auto simp: visits_def\<close>)
qed

subsection \<open>What has been recorded\<close>

definition entry_for :: "pylib \<Rightarrow> fs \<Rightarrow> path \<Rightarrow> path \<Rightarrow> ws_entry" where
  "entry_for L s root x =
     (case node_at s (root @ x) of
        Some (Reg b) \<Rightarrow> sized_entry (join_on 47 x) (sha256 L b) (int (length b))
      | _ \<Rightarrow> dir_entry (join_on 47 x))"

lemma entry_for_path [simp]: "entry_path (entry_for L s root x) = join_on 47 x"
  by (simp add: entry_for_def split: option.splits node.splits)

definition scan_inv :: "pylib \<Rightarrow> fs \<Rightarrow> path \<Rightarrow> path list \<Rightarrow> scan_state \<Rightarrow> bool" where
  "scan_inv L s root xs st \<longleftrightarrow>
     sc_entries st = map (entry_for L s root) xs
     \<and> sc_aliases st = ma_aliases (acc_of L (sc_entries st)) \<and> distinct (alias_keys L (sc_entries st))
     \<and> sc_total st = total_size (sc_entries st) \<and> sc_total st \<le> int MAX_WORKSPACE_TOTAL_BYTES
     \<and> (\<forall>x \<in> set xs. canonical_name L (join_on 47 x) \<and> (node_at s (root @ x) = Some Dir
          \<or> (\<exists>b. node_at s (root @ x) = Some (Reg b) \<and> length b \<le> MAX_WORKSPACE_FILE_BYTES)))"

definition progress :: "pylib \<Rightarrow> fs \<Rightarrow> path \<Rightarrow> path \<Rightarrow> pystr list \<Rightarrow> scan_state \<Rightarrow> bool" where
  "progress L s root y cs st \<longleftrightarrow>
     (\<exists>xs ys. visits s root xs ys y cs \<and> scan_inv L s root xs st
        \<and> map fst (sc_stack st) = map ((@) root) ys \<and> length xs + length cs \<le> MAX_WORKSPACE_ENTRIES)
     \<and> (\<forall>c \<in> set cs. node_at s (root @ y @ [c]) \<noteq> None)"

lemma join_on_inj:
  assumes "\<forall>c \<in> set x. 47 \<notin> set c" "\<forall>c \<in> set z. 47 \<notin> set c" "x \<noteq> []" "z \<noteq> []"
    "join_on 47 x = join_on (47 :: nat) z"
  shows "x = z"
  using assms split_join by metis

lemma scan_inv_add:
  assumes inv: "scan_inv L s root xs st" and x: "canonical_name L (join_on 47 x)" "join_on 47 x \<notin> join_on 47 ` set xs"
    and o: "\<not> other_owner (sc_aliases st) (path_key L (join_on 47 x)) (join_on 47 x)"
    and n: "node_at s (root @ x) = Some Dir \<or> (\<exists>b. node_at s (root @ x) = Some (Reg b) \<and> length b \<le> MAX_WORKSPACE_FILE_BYTES)"
    and t: "sc_entries st' = sc_entries st @ [entry_for L s root x]"
      "sc_aliases st' = AList.update (path_key L (join_on 47 x)) (join_on 47 x) (sc_aliases st)"
      "sc_total st' = total_size (sc_entries st')" "sc_total st' \<le> int MAX_WORKSPACE_TOTAL_BYTES"
  shows "scan_inv L s root (xs @ [x]) st'"
proof -
  let ?es = "sc_entries st" and ?p = "join_on 47 x"
  have es: "?es = map (entry_for L s root) xs" and al: "sc_aliases st = ma_aliases (acc_of L ?es)"
    using inv by (simp_all add: scan_inv_def)
  have "?p \<notin> set (map entry_path ?es)" using x(2) by (simp add: es image_image)
  with o al have fresh: "path_key L ?p \<notin> set (alias_keys L ?es)"
    using alias_fresh [of ?p ?es L] by simp
  then have "map_of (sc_aliases st) (path_key L ?p) = None"
    by (auto simp: al acc_of_def alias_keys_def map_of_eq_None_iff)
  then have "sc_aliases st' = ma_aliases (acc_of L (sc_entries st'))"
    using al by (simp add: t update_new_key acc_of_def)
  moreover have "distinct (alias_keys L (sc_entries st'))"
    using fresh inv by (auto simp: t(1) alias_keys_def scan_inv_def simp del: map_map)
  ultimately show ?thesis using inv t x n by (auto simp: scan_inv_def)
qed

lemma total_size_snoc: "total_size (es @ [e]) = total_size es + (if is_kind ''file'' e then int_of (fld e ''size'') else 0)"
  by (simp add: total_size_def)

lemma identity_entry: "file_entry p (dict_of (identity_of L b)) = sized_entry p (sha256 L b) (int (length b))"
  by (simp add: identity_of_def)

lemma wp_scan_child:
  assumes d: "dir_at s (root @ y)" and pn: "posix_names s" and pr: "progress L s root y (c # cs) st"
  shows "wp (scan_child L root dev (root @ y @ [c]) st)
    (\<lambda>st' s'. s' = s \<and> progress L s root y cs st') (\<lambda>_ s'. s' = s) (\<lambda>s'. s' = s) s"
proof -
  let ?x = "y @ [c]" and ?p = "join_on 47 (y @ [c])"
  from pr obtain xs ys where v: "visits s root xs ys y (c # cs)" and inv: "scan_inv L s root xs st"
    and stk: "map fst (sc_stack st) = map ((@) root) ys" and len: "length xs + length (c # cs) \<le> MAX_WORKSPACE_ENTRIES"
    and cs: "\<forall>c \<in> set (c # cs). node_at s (root @ y @ [c]) \<noteq> None"
    by (auto simp: progress_def)
  then obtain nd where nd: "node_at s (root @ ?x) = Some nd" by auto
  have wf: "wf_fs s" using d by (simp add: dir_at_def)
  then have c: "c \<noteq> dotdot" using wf_fs_no_dotdot [of s "root @ ?x"] nd by (auto simp: node_at_def)
  have via: "node_via s (root @ ?x) = Some nd" using file_at_via [OF d c] nd by simp
  have ls: "st_node m = nd" if "fs_lstat (root @ ?x) s = Inr m" for m
    using fs_lstat_via [OF that] via by simp
  have plain: "\<forall>c \<in> set x. 47 \<notin> set c" if "node_at s (root @ x) \<noteq> None" for x
    using posix_namesD [OF pn that] by auto
  have fresh: "?p \<notin> join_on 47 ` set xs"
  proof
    assume "?p \<in> join_on 47 ` set xs"
    then obtain x where x: "x \<in> set xs" "join_on 47 x = ?p" by auto
    with v have "x \<noteq> []" "node_at s (root @ x) \<noteq> None" by (auto simp: visits_def)
    with x(2) have "x = ?x" using plain [of x] plain [of ?x] nd by (intro join_on_inj) auto
    with x(1) v show False by (simp add: visits_def)
  qed
  have rel: "relative_name root (root @ ?x) = ?p" by (simp add: relative_name_def)
  have leaf: "visits s root (xs @ [?x]) ys y cs" if "nd \<noteq> Dir"
    using visits_file [OF v wf] nd that by simp
  have sub: "visits s root (xs @ [?x]) (?x # ys) y cs" if "nd = Dir"
    using visits_dir [OF v] nd that by simp
  show ?thesis
    unfolding scan_child_def Let_def append_assoc
  proof (intro wp_intros refl, goal_cases)
    case (1 relative m key)
    then have r: "relative = ?p" "key = path_key L ?p" "canonical_name L ?p" and nD: "nd = Dir"
      using ls [of m] by (auto simp: canonical_path_name windows_path_key_eq rel)
    have e: "entry_for L s root ?x = dir_entry ?p" using nd nD by (simp add: entry_for_def)
    have "scan_inv L s root (xs @ [?x]) (st\<lparr>sc_aliases := AList.update key relative (sc_aliases st),
        sc_entries := sc_entries st @ [dir_entry relative],
        sc_stack := (root @ ?x, object_key m) # sc_stack st\<rparr>)"
      using inv 1 r nd nD fresh by (intro scan_inv_add [OF inv]) (auto simp: e total_size_snoc scan_inv_def)
    with sub [OF nD] stk len cs show ?case
      unfolding progress_def by (intro conjI exI [of _ "xs @ [?x]"] exI [of _ "?x # ys"]) auto
  next
    case (2 relative m key b)
    then have nb: "nd = Reg b" using via by simp
    have r: "relative = ?p" "key = path_key L ?p" "canonical_name L ?p"
      using 2 by (auto simp: canonical_path_name windows_path_key_eq rel)
    have e: "entry_for L s root ?x = file_entry ?p (dict_of (identity_of L b))"
      using nd nb by (simp add: entry_for_def identity_entry)
    have "scan_inv L s root (xs @ [?x]) (st\<lparr>sc_aliases := AList.update key relative (sc_aliases st),
        sc_total := sc_total st + int_of (fld (dict_of (identity_of L b)) ''size''),
        sc_entries := sc_entries st @ [file_entry relative (dict_of (identity_of L b))]\<rparr>)"
      using inv 2 r nd nb fresh
      by (intro scan_inv_add [OF inv]) (auto simp: e total_size_snoc scan_inv_def identity_entry, auto simp: identity_of_def)
    with leaf nb stk len cs show ?case
      unfolding progress_def by (intro conjI exI [of _ "xs @ [?x]"] exI [of _ ys]) auto
  qed
qed

lemma wp_scan_children:
  assumes "dir_at s (root @ y)" "posix_names s"
  shows "progress L s root y cs st \<Longrightarrow>
    wp (io_fold (\<lambda>name. scan_child L root dev ((root @ y) @ [name])) cs st)
      (\<lambda>st' s'. s' = s \<and> progress L s root y [] st') (\<lambda>_ s'. s' = s) (\<lambda>s'. s' = s) s"
proof (induction cs arbitrary: st)
  case (Cons c cs)
  have "wp (scan_child L root dev ((root @ y) @ [c]) st)
      (\<lambda>st' s'. s' = s \<and> progress L s root y cs st') (\<lambda>_ s'. s' = s) (\<lambda>s'. s' = s) s"
    using wp_scan_child [OF assms Cons.prems] by simp
  then show ?case
    unfolding io_fold.simps by (intro wp_iob) (erule wp_mono, use Cons.IH in auto)
qed (auto intro: wp_ret simp del: io_simps)

text \<open>Taking a directory off the stack.\<close>

lemma progress_pop:
  assumes pr: "progress L s root y [] st" and Cons: "sc_stack st = head # rest" and wf: "wf_fs s"
  obtains z xs where "fst head = root @ z" "dir_at s (root @ z)" "length (sc_entries st) = length xs" "distinct xs"
    "\<forall>x \<in> set xs. x \<noteq> [] \<and> node_at s (root @ x) \<noteq> None \<and> butlast x \<noteq> z"
    "\<forall>names. distinct names \<longrightarrow> set names = {c. node_at s ((root @ z) @ [c]) \<noteq> None} \<longrightarrow>
       length names \<le> MAX_WORKSPACE_ENTRIES - length xs \<longrightarrow> progress L s root z names (st\<lparr>sc_stack := rest\<rparr>)"
proof -
  from pr obtain xs ys where v: "visits s root xs ys y []" and inv: "scan_inv L s root xs st"
    and stk: "map fst (sc_stack st) = map ((@) root) ys" and len: "length xs \<le> MAX_WORKSPACE_ENTRIES"
    by (auto simp: progress_def)
  then obtain z zs where ys: "ys = z # zs" "fst head = root @ z" "map fst rest = map ((@) root) zs"
    using Cons by (cases ys) auto
  have inv': "scan_inv L s root xs (st\<lparr>sc_stack := rest\<rparr>)" using inv by (auto simp: scan_inv_def)
  show thesis
  proof (rule that [of z xs])
    have "progress L s root z names (st\<lparr>sc_stack := rest\<rparr>)"
      if "distinct names" "set names = {c. node_at s ((root @ z) @ [c]) \<noteq> None}"
        "length names \<le> MAX_WORKSPACE_ENTRIES - length xs" for names
      using visits_pop [OF v [unfolded ys(1)] wf, of names] that inv' ys(3) len
      unfolding progress_def by (intro conjI exI [of _ xs] exI [of _ zs]) auto
    then show "\<forall>names. distinct names \<longrightarrow> set names = {c. node_at s ((root @ z) @ [c]) \<noteq> None} \<longrightarrow>
       length names \<le> MAX_WORKSPACE_ENTRIES - length xs \<longrightarrow> progress L s root z names (st\<lparr>sc_stack := rest\<rparr>)"
      by blast
  qed (use v ys wf inv in \<open>auto simp: visits_def dir_at_def scan_inv_def\<close>)
qed

lemma progress_Nil: "progress L s root z [] st \<Longrightarrow> progress L s root y [] st"
  by (auto simp: progress_def visits_def)

lemma wp_scan_loop:
  assumes wf: "wf_fs s" and pn: "posix_names s"
  shows "progress L s root y [] st \<Longrightarrow>
    wp (scan_loop L root dev n st)
      (\<lambda>st' s'. s' = s \<and> progress L s root y [] st' \<and> sc_stack st' = []) (\<lambda>_ s'. s' = s) (\<lambda>s'. s' = s) s"
proof (induction n arbitrary: st)
  case 0
  then show ?case by (auto intro!: wp_intros simp del: io_simps)
next
  case (Suc n)
  show ?case
  proof (cases "sc_stack st")
    case Nil
    with Suc.prems show ?thesis by (auto intro!: wp_intros simp del: io_simps)
  next
    case (Cons head rest)
    obtain z xs where z: "fst head = root @ z" and d: "dir_at s (root @ z)" and es: "length (sc_entries st) = length xs"
      and xs: "distinct xs" "\<forall>x \<in> set xs. x \<noteq> [] \<and> node_at s (root @ x) \<noteq> None \<and> butlast x \<noteq> z"
      and pr: "\<forall>names. distinct names \<longrightarrow> set names = {c. node_at s ((root @ z) @ [c]) \<noteq> None} \<longrightarrow>
         length names \<le> MAX_WORKSPACE_ENTRIES - length xs \<longrightarrow> progress L s root z names (st\<lparr>sc_stack := rest\<rparr>)"
      using progress_pop [OF Suc.prems Cons wf] by blast
    have "wp (scan_directory L root dev head (st\<lparr>sc_stack := rest\<rparr>))
        (\<lambda>st' s'. s' = s \<and> progress L s root z [] st') (\<lambda>_ s'. s' = s) (\<lambda>s'. s' = s) s"
      unfolding scan_directory_def z
      by (intro wp_iob wp_scan_listing [OF d] refl wp_scan_children [OF d pn] pr [rule_format]) (simp_all add: es)
    then show ?thesis
      unfolding scan_loop.simps Cons list.case
      by (intro wp_iob) (erule wp_mono, use Suc.IH progress_Nil in auto)
  qed
qed

text \<open>The whole tree below the root, with no node other than directories and regular files.\<close>

definition tree_exact :: "pylib \<Rightarrow> fs \<Rightarrow> path \<Rightarrow> ws_entry list \<Rightarrow> bool" where
  "tree_exact L s root es \<longleftrightarrow>
     set es = {entry_for L s root x | x. x \<noteq> [] \<and> node_at s (root @ x) \<noteq> None}
     \<and> distinct (map entry_path es)
     \<and> (\<forall>x. x \<noteq> [] \<longrightarrow> node_at s (root @ x) \<noteq> None \<longrightarrow>
          node_at s (root @ x) = Some Dir \<or> (\<exists>b. node_at s (root @ x) = Some (Reg b)))"

definition hex_digests :: "pylib \<Rightarrow> bool" where
  "hex_digests L \<longleftrightarrow> (\<forall>b. is_sha256 (PStr (sha256 L b)))"

lemma total_size_sort: "total_size (sort_key f es) = total_size es"
proof (induction es)
  case (Cons e es)
  have "total_size (insort_key f e xs) = total_size (e # xs)" for xs
    by (induction xs) (auto simp: total_size_def)
  with Cons show ?case by (simp add: total_size_def)
qed simp

lemma scan_finished:
  assumes pr: "progress L s root y [] st" "sc_stack st = []" and wf: "wf_fs s" and pn: "posix_names s"
    and hx: "hex_digests L"
  shows "tree_exact L s root (sort_key entry_sort_key (sc_entries st))"
    "closed_tree L (sort_key entry_sort_key (sc_entries st))"
proof -
  let ?es = "sort_key entry_sort_key (sc_entries st)"
  from pr obtain xs where v: "visits s root xs [] y []" and inv: "scan_inv L s root xs st"
    and len: "length xs \<le> MAX_WORKSPACE_ENTRIES"
    by (auto simp: progress_def)
  have es: "sc_entries st = map (entry_for L s root) xs" using inv by (simp add: scan_inv_def)
  have all: "x \<in> set xs \<longleftrightarrow> x \<noteq> [] \<and> node_at s (root @ x) \<noteq> None" for x
    using v by (auto simp: visits_def)
  have node: "node_at s (root @ x) = Some Dir
      \<or> (\<exists>b. node_at s (root @ x) = Some (Reg b) \<and> length b \<le> MAX_WORKSPACE_FILE_BYTES)"
    "canonical_name L (join_on 47 x)" if "x \<in> set xs" for x
    using inv that by (auto simp: scan_inv_def)
  have dk: "distinct (alias_keys L ?es)"
    using inv unfolding scan_inv_def alias_keys_def distinct_map_sort_key by blast
  show "tree_exact L s root ?es"
    unfolding tree_exact_def using all node closed_tree_paths [OF dk] by (auto simp: es)
  have "entry_ok L (entry_for L s root x)" if "x \<in> set xs" for x
    using node [OF that] hx by (auto simp: entry_for_def hex_digests_def intro!: entry_okI)
  then have ok: "\<forall>e \<in> set ?es. entry_ok L e" by (auto simp: es)
  have anc: "dir_entry q \<in> set ?es" if e: "x \<in> set xs" "q \<in> set (ancestors (join_on 47 x))" for x q
  proof -
    have "split_on 47 (join_on 47 x) = x"
      using e(1) all posix_namesD [OF pn, of "root @ x"] by (intro split_join) auto
    with e(2) obtain z where z: "q = join_on 47 z" "strict_prefix z x" "z \<noteq> []"
      by (auto simp: ancestors_def set_proper_prefixes)
    then obtain c r where x: "x = z @ c # r" by (auto elim: strict_prefixE')
    have "entry s ((root @ z) @ c # r) \<noteq> None" using e(1) all by (simp add: x node_at_def)
    then have n: "node_at s (root @ z) = Some Dir" using wf_fs_prefix_dir [OF wf] by blast
    then have "z \<in> set xs" using all z(3) by simp
    moreover have "entry_for L s root z = dir_entry q" using n z(1) by (simp add: entry_for_def)
    ultimately show ?thesis by (force simp: es)
  qed
  have "total_size ?es = total_size (sc_entries st)" by (rule total_size_sort)
  then show "closed_tree L ?es"
    using ok dk anc inv len by (auto simp: closed_tree_def scan_inv_def es)
qed

definition observed :: "pylib \<Rightarrow> fs \<Rightarrow> path \<Rightarrow> workspace_observation \<Rightarrow> bool" where
  "observed L s root obs \<longleftrightarrow> node_at s root = Some Dir \<and> tree_exact L s root (wo_entries obs)
     \<and> closed_tree L (wo_entries obs) \<and> tree_summary L (wo_entries obs) = Inr (wo_summary obs)"

lemma wp_scan_workspace_once:
  assumes "wf_fs s" "posix_names s" "hex_digests L" "node_at s root = Some Dir"
  shows "wp (scan_workspace_once L root dev key) (\<lambda>obs s'. s' = s \<and> observed L s root obs)
    (\<lambda>_ s'. s' = s) (\<lambda>s'. s' = s) s"
proof -
  let ?st = "\<lparr>sc_entries = [], sc_aliases = [], sc_total = 0, sc_stack = [(root, key)]\<rparr>"
  have "progress L s root [] [] ?st"
    using visits_start [OF assms(4)] unfolding progress_def
    by (intro conjI exI [of _ "[]"] exI [of _ "[[]]"]) (auto simp: scan_inv_def acc_of_def alias_keys_def total_size_def)
  from wp_scan_loop [OF assms(1,2) this] show ?thesis
    unfolding scan_workspace_once_def Let_def
    by (rule wp_iob [OF wp_mono]) (auto simp: observed_def simp del: io_simps
        intro!: wp_intros scan_finished assms)
qed

lemma wp_observe_workspace [wp_intros]:
  assumes "wf_fs s" "posix_names s" "hex_digests L"
    and "\<And>obs. observed L s (abspath p) obs \<Longrightarrow> Q obs s" "\<And>e. X e s" "K s"
  shows "wp (observe_workspace L p) Q X K s"
proof -
  have once: "wp (scan_workspace_once L (abspath p) dev key) Q' X K s"
    if "node_at s (abspath p) = Some Dir" "\<And>obs. observed L s (abspath p) obs \<Longrightarrow> Q' obs s" for dev key Q'
    using wp_scan_workspace_once [OF assms(1-3) that(1), of dev key] by (rule wp_mono) (use that assms in auto)
  show ?thesis
    unfolding observe_workspace_def by (intro wp_iob wp_checked_workspace_root wp_look once wp_if wp_raise wp_ret assms(4-6))
qed

lemma wp_load_workspace_manifest [wp_intros]:
  assumes "\<And>raw m. node_via s p = Some (Reg raw) \<Longrightarrow> manifest_of_bytes L ident raw = Inr m \<Longrightarrow> Q m s" "\<And>e. X e s" "K s"
  shows "wp (load_workspace_manifest L p ident) Q X K s"
  unfolding load_workspace_manifest_def by (intro wp_iob wp_read_regular_bytes wp_from_result) (use assms in auto)

section \<open>Comparing a workspace with what is expected\<close>

lemma entry_map_eq: "distinct (map entry_path es) \<Longrightarrow> entry_map es = map (\<lambda>e. (entry_path e, e)) es"
proof (induction es rule: rev_induct)
  case (snoc e es)
  then show ?case
    by (simp add: entry_map_def) (subst update_new_key, auto simp: map_of_eq_None_iff image_image)
qed (simp add: entry_map_def)

lemma map_of_entry_map:
  "distinct (map entry_path es) \<Longrightarrow> map_of (entry_map es) p = Some e \<longleftrightarrow> e \<in> set es \<and> entry_path e = p"
  by (auto simp: entry_map_eq o_def)

lemma map_of_entry_map_None:
  "distinct (map entry_path es) \<Longrightarrow> map_of (entry_map es) p = None \<longleftrightarrow> p \<notin> entry_path ` set es"
  by (auto simp: entry_map_eq map_of_eq_None_iff image_image)

lemma py_eq_entries:
  assumes "entry_ok L e" "py_eq (PDict e) (PDict (sized_entry p h n))"
  shows "e = sized_entry p h n"
  using assms by (cases rule: entry_okE) (auto simp: dir_entry_def sized_entry_eq)

lemma py_eq_dir_entries:
  assumes "entry_ok L e" "py_eq (PDict e) (PDict (dir_entry p))"
  shows "e = dir_entry p"
  using assms by (cases rule: entry_okE) (auto simp: dir_entry_def sized_entry_eq)

lemma py_eq_entry_ok:
  assumes "entry_ok L e" "entry_ok L' e'" "py_eq (PDict e) (PDict e')"
  shows "e = e'"
  using assms(2) by (cases rule: entry_okE) (use assms py_eq_entries py_eq_dir_entries in blast)+

text \<open>An identity as the recording code writes it.\<close>

definition plain_identity :: "pyval \<Rightarrow> bool" where
  "plain_identity i \<longleftrightarrow> (\<exists>h n. i = PDict [(lit ''sha256'', PStr h), (lit ''size'', PInt n)])"

definition sealed_entry :: "pystr \<times> pyval \<Rightarrow> ws_entry" where
  "sealed_entry q = file_entry (fst q) (dict_of (snd q))"

lemma sealed_entry_plain:
  "plain_identity (snd q) \<Longrightarrow> \<exists>h n. sealed_entry q = sized_entry (fst q) h n \<and> snd q = PDict [(lit ''sha256'', PStr h), (lit ''size'', PInt n)]"
  by (auto simp: plain_identity_def sealed_entry_def)

text \<open>Both loops over outputs extend the baseline by the sealed entries, unless a path is taken.\<close>

lemma complete_loop:
  "rfold (complete_step L) outputs expected = Inr r \<Longrightarrow> distinct (map fst expected) \<Longrightarrow>
   r = expected @ map (\<lambda>q. (fst q, sealed_entry q)) outputs \<and> distinct (map fst r)"
proof (induction outputs arbitrary: expected)
  case (Cons q outputs)
  then obtain e1 where e1: "complete_step L q expected = Inr e1" "rfold (complete_step L) outputs e1 = Inr r" by auto
  from e1(1) have e: "e1 = expected @ [(fst q, sealed_entry q)]" "fst q \<notin> fst ` set expected"
    by (auto simp: complete_step_def canonical_path_name sealed_entry_def update_new_key map_of_eq_None_iff)
  have "distinct (map fst e1)" using e Cons.prems(2) by simp
  note ih = Cons.IH [OF e1(2) this]
  have "r = expected @ map (\<lambda>q. (fst q, sealed_entry q)) (q # outputs)" using ih e(1) by simp
  with ih show ?case by blast
qed simp

lemma project_loop:
  "rfold (complete_step L) outputs expected = Inr r \<Longrightarrow> \<forall>q \<in> set outputs. file_identity_ok (snd q) \<Longrightarrow>
   rfold (project_step L) outputs expected = Inr r"
proof (induction outputs arbitrary: expected)
  case (Cons q outputs)
  then obtain e1 where e1: "complete_step L q expected = Inr e1" "rfold (complete_step L) outputs e1 = Inr r" by auto
  then have "project_step L q expected = Inr e1"
    using Cons.prems(2) by (auto simp: complete_step_def project_step_def)
  with Cons e1 show ?case by simp
qed simp

text \<open>
  What a verified workspace is: the baseline entries and the sealed outputs are there with their
  content, and there is nothing else but volatile regular files.
\<close>

definition workspace_holds ::
  "pylib \<Rightarrow> fs \<Rightarrow> path \<Rightarrow> ws_entry list \<Rightarrow> pydict \<Rightarrow> pystr list \<Rightarrow> bool" where
  "workspace_holds L s root base sealed volatile \<longleftrightarrow>
     (\<forall>e \<in> set base. \<exists>x. x \<noteq> [] \<and> node_at s (root @ x) \<noteq> None \<and> entry_for L s root x = e)
     \<and> (\<forall>q \<in> set sealed. \<exists>x b. x \<noteq> [] \<and> join_on 47 x = fst q \<and> node_at s (root @ x) = Some (Reg b)
          \<and> identity_of L b = snd q)
     \<and> (\<forall>x nd. x \<noteq> [] \<longrightarrow> node_at s (root @ x) = Some nd \<longrightarrow>
          entry_for L s root x \<in> set base \<or> join_on 47 x \<in> fst ` set sealed
          \<or> join_on 47 x \<in> set volatile \<and> is_reg nd)"

lemma compare_workspace_Inr:
  "compare_workspace expected volatile obs = Inr summary \<longleftrightarrow>
   summary = wo_summary obs
   \<and> (\<forall>q \<in> set expected. \<exists>e. map_of (entry_map (wo_entries obs)) (fst q) = Some e \<and> py_eq (PDict e) (PDict (snd q)))
   \<and> (\<forall>p \<in> fst ` set (entry_map (wo_entries obs)). map_of expected p = None \<longrightarrow>
        p \<in> set volatile \<and> is_kind ''file'' (the (map_of (entry_map (wo_entries obs)) p)))"
  by (fastforce simp: compare_workspace_def Let_def filter_empty_conv entry_drifted_def split: option.splits)

definition expected_entries :: "ws_entry list \<Rightarrow> pydict \<Rightarrow> (pystr \<times> ws_entry) list" where
  "expected_entries base sealed = map (\<lambda>e. (entry_path e, e)) base @ map (\<lambda>q. (fst q, sealed_entry q)) sealed"

lemma in_expected_entries:
  "e \<in> set base \<Longrightarrow> (entry_path e, e) \<in> set (expected_entries base sealed)"
  "q \<in> set sealed \<Longrightarrow> (fst q, sealed_entry q) \<in> set (expected_entries base sealed)"
  by (auto simp: expected_entries_def)

lemma fst_expected_entries: "fst ` set (expected_entries base sealed) = entry_path ` set base \<union> fst ` set sealed"
  by (auto simp: expected_entries_def image_Un image_image)

lemma expected_present:
  assumes obs: "observed L s root obs" and base: "\<forall>e \<in> set base. entry_ok L e"
    and pl: "\<forall>q \<in> set sealed. plain_identity (snd q)"
    and cmp: "compare_workspace (expected_entries base sealed) volatile obs = Inr summary"
    and q: "q \<in> set (expected_entries base sealed)"
  shows "snd q \<in> set (wo_entries obs)" "entry_path (snd q) = fst q"
proof -
  have d: "distinct (map entry_path (wo_entries obs))" using obs by (simp add: observed_def tree_exact_def)
  from cmp q obtain e where e: "map_of (entry_map (wo_entries obs)) (fst q) = Some e" "py_eq (PDict e) (PDict (snd q))"
    by (auto simp: compare_workspace_Inr)
  then have e': "e \<in> set (wo_entries obs)" by (simp add: map_of_entry_map [OF d])
  then have ok: "entry_ok L e" using obs by (auto simp: observed_def closed_tree_def)
  consider (base) b where "b \<in> set base" "q = (entry_path b, b)"
    | (sealed) z where "z \<in> set sealed" "q = (fst z, sealed_entry z)"
    using q by (auto simp: expected_entries_def)
  then have "e = snd q \<and> entry_path (snd q) = fst q"
  proof cases
    case base
    then show ?thesis using py_eq_entry_ok [OF ok, of L b] assms(2) e(2) by auto
  next
    case sealed
    then show ?thesis using sealed_entry_plain [of z] pl py_eq_entries [OF ok] e(2) by fastforce
  qed
  with e' show "snd q \<in> set (wo_entries obs)" "entry_path (snd q) = fst q" by auto
qed

lemma entry_for_sized:
  "entry_for L s root x = sized_entry p h n \<Longrightarrow>
   \<exists>b. node_at s (root @ x) = Some (Reg b) \<and> p = join_on 47 x \<and> h = sha256 L b \<and> n = int (length b)"
  by (auto simp: entry_for_def dir_entry_def sized_entry_eq split: option.splits node.splits)

lemma compare_holds:
  assumes obs: "observed L s root obs" and base: "\<forall>e \<in> set base. entry_ok L e"
    and pl: "\<forall>q \<in> set sealed. plain_identity (snd q)"
    and cmp: "compare_workspace (expected_entries base sealed) volatile obs = Inr summary"
  shows "workspace_holds L s root base sealed volatile"
proof -
  note pres = expected_present [OF obs base pl cmp]
  have es: "set (wo_entries obs) = {entry_for L s root x | x. x \<noteq> [] \<and> node_at s (root @ x) \<noteq> None}"
    and d: "distinct (map entry_path (wo_entries obs))"
    and kinds: "\<And>x. x \<noteq> [] \<Longrightarrow> node_at s (root @ x) \<noteq> None \<Longrightarrow>
        node_at s (root @ x) = Some Dir \<or> (\<exists>b. node_at s (root @ x) = Some (Reg b))"
    using obs by (auto simp: observed_def tree_exact_def)
  show ?thesis
    unfolding workspace_holds_def
  proof (intro conjI ballI allI impI)
    fix e assume "e \<in> set base"
    then have "e \<in> set (wo_entries obs)" using pres(1) in_expected_entries(1) by fastforce
    then show "\<exists>x. x \<noteq> [] \<and> node_at s (root @ x) \<noteq> None \<and> entry_for L s root x = e" using es by auto
  next
    fix q assume q: "q \<in> set sealed"
    then obtain h n where z: "sealed_entry q = sized_entry (fst q) h n" "snd q = PDict [(lit ''sha256'', PStr h), (lit ''size'', PInt n)]"
      using sealed_entry_plain [of q] pl by blast
    have "sealed_entry q \<in> set (wo_entries obs)"
      using pres(1) in_expected_entries(2) q by fastforce
    then obtain x where "x \<noteq> []" "entry_for L s root x = sized_entry (fst q) h n" using es z by auto
    with entry_for_sized [OF this(2)] z(2)
    show "\<exists>x b. x \<noteq> [] \<and> join_on 47 x = fst q \<and> node_at s (root @ x) = Some (Reg b) \<and> identity_of L b = snd q"
      by (auto simp: identity_of_def intro!: exI [of _ x])
  next
    fix x nd assume x: "x \<noteq> []" "node_at s (root @ x) = Some nd"
    then have mem: "entry_for L s root x \<in> set (wo_entries obs)" using es by auto
    then have act: "map_of (entry_map (wo_entries obs)) (join_on 47 x) = Some (entry_for L s root x)"
      by (simp add: map_of_entry_map [OF d])
    consider (out) "join_on 47 x \<notin> fst ` set (expected_entries base sealed)"
      | (base) e where "e \<in> set base" "entry_path e = join_on 47 x" | (sealed) "join_on 47 x \<in> fst ` set sealed"
      unfolding fst_expected_entries by (metis UnE imageE)
    then show "entry_for L s root x \<in> set base \<or> join_on 47 x \<in> fst ` set sealed
        \<or> join_on 47 x \<in> set volatile \<and> is_reg nd"
    proof cases
      case out
      then have n: "map_of (expected_entries base sealed) (join_on 47 x) = None" by (simp add: map_of_eq_None_iff)
      have "join_on 47 x \<in> fst ` set (entry_map (wo_entries obs))" using act by (force dest: map_of_SomeD)
      with cmp n act have "join_on 47 x \<in> set volatile" "is_kind ''file'' (entry_for L s root x)"
        by (auto simp: compare_workspace_Inr)
      then show ?thesis using kinds [OF x(1)] x(2) by (auto simp: entry_for_def is_reg_def)
    next
      case base
      then have "e \<in> set (wo_entries obs)" using pres(1) in_expected_entries(1) by fastforce
      with mem d base(2) have "e = entry_for L s root x" by (auto simp: distinct_map inj_on_def)
      with base show ?thesis by simp
    qed simp
  qed
qed

text \<open>Without volatile outputs the observed summary is the projected one.\<close>

lemma path_bytes_inj: "canonical_name L p \<Longrightarrow> canonical_name L q \<Longrightarrow> path_bytes p = path_bytes q \<Longrightarrow> p = q"
  by (auto simp: canonical_name_def portable_path_def path_bytes_def intro: utf8_inj)

lemma sorted_entries_unique:
  assumes "\<forall>e \<in> set es. entry_ok L e" "set es = set es'" "distinct (map entry_path es)" "distinct (map entry_path es')"
    "sorted (map entry_sort_key es)"
  shows "sort_key entry_sort_key es' = es"
proof (rule map_sorted_distinct_set_unique [of entry_sort_key])
  have inj: "inj_on entry_sort_key (set es)"
  proof (rule inj_onI)
    fix a b assume ab: "a \<in> set es" "b \<in> set es" "entry_sort_key a = entry_sort_key b"
    then have "entry_path a = entry_path b"
      using path_bytes_inj [of L "entry_path a" "entry_path b"] entry_ok_path assms(1)
      by (auto simp: entry_sort_key_def)
    with ab assms(3) show "a = b" by (auto simp: distinct_map inj_on_def)
  qed
  then show "inj_on entry_sort_key (set (sort_key entry_sort_key es') \<union> set es)" using assms(2) by simp
  show "distinct (map entry_sort_key es)" using inj assms(3) by (simp add: distinct_map)
  have "distinct es'" using assms(4) by (simp add: distinct_map)
  then show "distinct (map entry_sort_key (sort_key entry_sort_key es'))"
    using inj assms(2) by (simp add: distinct_map)
qed (use assms in simp_all)

lemma compare_projects:
  assumes obs: "observed L s root obs" and base: "\<forall>e \<in> set base. entry_ok L e"
    and pl: "\<forall>q \<in> set sealed. plain_identity (snd q)"
    and d: "distinct (map fst (expected_entries base sealed))"
    and cmp: "compare_workspace (expected_entries base sealed) [] obs = Inr summary"
  shows "tree_summary L (sort_key entry_sort_key (map snd (expected_entries base sealed))) = Inr summary"
    "\<forall>q \<in> set sealed. file_identity_ok (snd q)"
proof -
  let ?ex = "expected_entries base sealed"
  note pres = expected_present [OF obs base pl cmp]
  have do: "distinct (map entry_path (wo_entries obs))" and ok: "\<forall>e \<in> set (wo_entries obs). entry_ok L e"
    and so: "sorted (map entry_sort_key (wo_entries obs))"
    using obs by (auto simp: observed_def tree_exact_def closed_tree_def)
  have "e \<in> set (map snd ?ex)" if e: "e \<in> set (wo_entries obs)" for e
  proof -
    have "(entry_path e, e) \<in> set (entry_map (wo_entries obs))" using e by (simp add: entry_map_eq [OF do])
    then have "entry_path e \<in> fst ` set (entry_map (wo_entries obs))" by force
    with cmp have "map_of ?ex (entry_path e) \<noteq> None" by (auto simp: compare_workspace_Inr)
    then obtain q where q: "q \<in> set ?ex" "fst q = entry_path e" by (auto dest: map_of_SomeD)
    with pres [OF q(1)] e do have "snd q = e" by (auto simp: distinct_map inj_on_def)
    with q show ?thesis by auto
  qed
  then have set: "set (wo_entries obs) = set (map snd ?ex)" using pres by auto
  have "map entry_path (map snd ?ex) = map fst ?ex" using pres(2) by simp
  with d have "distinct (map entry_path (map snd ?ex))" by (simp only:)
  then have "sort_key entry_sort_key (map snd ?ex) = wo_entries obs"
    by (rule sorted_entries_unique [OF ok set do _ so])
  then show "tree_summary L (sort_key entry_sort_key (map snd ?ex)) = Inr summary"
    using obs cmp by (simp add: observed_def compare_workspace_Inr)
  show "\<forall>q \<in> set sealed. file_identity_ok (snd q)"
  proof
    fix q assume q: "q \<in> set sealed"
    then obtain h n where z: "sealed_entry q = sized_entry (fst q) h n"
      "snd q = PDict [(lit ''sha256'', PStr h), (lit ''size'', PInt n)]"
      using sealed_entry_plain [of q] pl by blast
    have "sealed_entry q \<in> set (wo_entries obs)"
      using pres(1) in_expected_entries(2) q by fastforce
    then have "entry_ok L (sized_entry (fst q) h n)" using ok z(1) by auto
    then show "file_identity_ok (snd q)"
      by (cases rule: entry_okE) (auto simp: z file_identity_ok_def sized_entry_eq dir_entry_def dkeys_def)
  qed
qed

lemma expected_entries_eq:
  assumes "closed_tree L base" "rfold (complete_step L) sealed (entry_map base) = Inr expected"
  shows "expected = expected_entries base sealed" "distinct (map fst expected)"
proof -
  have d: "distinct (map entry_path base)" using assms(1) by (auto simp: closed_tree_def intro: closed_tree_paths)
  then have "distinct (map fst (entry_map base))" by (simp add: entry_map_eq o_def)
  note l = complete_loop [OF assms(2) this]
  then show "distinct (map fst expected)" by (rule conjunct2)
  from l show "expected = expected_entries base sealed"
    by (simp add: expected_entries_def entry_map_eq [OF d])
qed

lemma manifest_closed: "manifest_of_bytes L i raw = Inr m \<Longrightarrow> closed_tree L (wm_entries m)"
  by (auto simp: manifest_of_bytes_def Let_def validate_manifest_value_iff split: if_splits)

lemma rmap_canonical: "rmap (\<lambda>p. canonical_path L (PStr p)) ps = Inr qs \<Longrightarrow> qs = ps"
  by (induction ps arbitrary: qs) (auto simp: canonical_path_name)

lemma wp_verify_workspace:
  assumes "wf_fs s" "posix_names s" "hex_digests L" "\<forall>q \<in> set sealed. plain_identity (snd q)"
    and "\<And>raw m obs expected summary. node_via s mp = Some (Reg raw) \<Longrightarrow> manifest_of_bytes L (Some ident) raw = Inr m \<Longrightarrow>
       py_eq (wm_summary m) baseline \<Longrightarrow> rfold (complete_step L) sealed (entry_map (wm_entries m)) = Inr expected \<Longrightarrow>
       observed L s (abspath p) obs \<Longrightarrow> compare_workspace expected volatile obs = Inr summary \<Longrightarrow> Q summary s"
    and "\<And>e. X e s" "K s"
  shows "wp (verify_workspace L p mp ident baseline sealed volatile) Q X K s"
  unfolding verify_workspace_def
  by (intro wp_intros assms(1-3,6,7)) (use assms(5) rmap_canonical in blast)

section \<open>Publishing a manifest\<close>

text \<open>At most the one new file differs.\<close>

definition created :: "fs \<Rightarrow> path \<Rightarrow> fs \<Rightarrow> bool" where
  "created s0 p s \<longleftrightarrow> s = s0 \<or> node_at s0 p = None \<and> (\<exists>i b. staged s0 p i b s)"

lemma wp_write_new_bytes:
  assumes "dir_at s q" "c \<noteq> dotdot"
    and "\<And>i k s'. node_at s (q @ [c]) = None \<Longrightarrow> staged s (q @ [c]) i payload s' \<Longrightarrow> Q (identity_of L payload, k) s'"
    and "\<And>e s'. created s (q @ [c]) s' \<Longrightarrow> X e s'" "\<And>s'. created s (q @ [c]) s' \<Longrightarrow> K s'"
  shows "wp (write_new_bytes L (q @ [c]) payload) Q X K s"
proof -
  let ?p = "q @ [c]"
  have cr: "created s ?p s'" if "node_at s ?p = None" "staged s ?p i b s'" for i b s'
    using that by (auto simp: created_def)
  have rest: "wp (iob (handle (iob (write_file i payload) (\<lambda>_. look (\<lambda>_. Inr ())))
        (\<lambda>e. iob (handle (look (\<lambda>_. Inr ())) (\<lambda>e'. if is_os_error e' then ret () else raise e')) (\<lambda>_. raise e)))
        (\<lambda>_. iob (look (\<lambda>_. Inr ())) (\<lambda>_. ret (identity_of L payload, k)))) Q X K s1"
    if n: "node_at s ?p = None" and st: "staged s ?p i [] s1" for i k s1
  proof -
    have w: "staged s ?p i b (fs_set i b s1)" for b using staged_write [OF st] .
    note fin = assms(3) [OF n w] assms(4) [OF cr [OF n w]] assms(5) [OF cr [OF n w]]
      assms(4) [OF cr [OF n st]] assms(5) [OF cr [OF n st]]
    show ?thesis
      unfolding write_file_def
      by (intro wp_iob wp_handle wp_sys_torn wp_look wp_raise wp_if wp_ret; clarify?; (rule fin)?)
  qed
  have st: "node_at s ?p = None \<and> staged s ?p i [] s1" if "fs_create (Reg []) ?p s = (Inr i, s1)" for i s1
    using staged_create [of s q c i s1] that assms(1,2) by (auto simp: dir_at_def)
  have bad: "s1 = s" if "fs_create (Reg []) ?p s = (Inl e, s1)" for e s1
    using fs_create_absent [OF that] .
  have here: "created s ?p s" by (simp add: created_def)
  show ?thesis
    unfolding write_new_bytes_def
  proof (rule wp_iob, rule wp_sys, rule wp_iob, rule wp_look, rule rest, goal_cases)
    case (1 i s1 k) then show ?case using st by blast
  next
    case (2 i s1 k) then show ?case using st by blast
  next
    case (3 i s1 e) then show ?case using st cr assms(4) by blast
  next
    case (4 i s1) then show ?case using st cr assms(5) by blast
  next
    case (5 e s1) then show ?case using bad here assms(4) by blast
  qed (use here assms(4,5) in blast)+
qed

lemma created_dir: "created s0 p s \<Longrightarrow> dir_at s0 q \<Longrightarrow> dir_at s q"
  by (auto simp: created_def staged_def dir_at_def)

lemma wp_snapshot_workspace:
  assumes wf: "wf_fs s" and pn: "posix_names s" and hx: "hex_digests L"
  shows "wp (snapshot_workspace L ws output)
    (\<lambda>_ s'. \<exists>q obs i b. output \<noteq> [] \<and> locate s True (butlast output) = Inr q \<and> dir_at s q \<and> last output \<noteq> dotdot
       \<and> observed L s (abspath (abspath ws)) obs \<and> \<not> is_within (q @ [last output]) (abspath ws)
       \<and> canonical_json_bytes L (manifest_body (wo_entries obs)) = Inr b \<and> length b \<le> MAX_WORKSPACE_MANIFEST_BYTES
       \<and> node_at s (q @ [last output]) = None \<and> staged s (q @ [last output]) i b s')
    (\<lambda>_ s'. \<exists>p. created s p s') (\<lambda>s'. \<exists>p. created s p s') s" (is "wp _ ?Q ?X ?K s")
proof -
  have here: "?X e s" "?K s" for e by (auto simp: created_def)
  have name: "last output \<noteq> dotdot" if "windows_component_key L (last output) = Inr k" for k
    using that by (auto simp: windows_component_key_iff portable_component_def dotdot_def)
  show ?thesis
    unfolding snapshot_workspace_def Let_def
  proof (intro wp_iob wp_checked_workspace_root wp_if wp_raise wp_from_result wp_path_lexists wp_reraise
      wp_checked_directory wp_look wp_ret wp_prod wp_observe_workspace [OF wf pn hx] here, goal_cases)
    case (1 k q m parent pk obs payload)
    have q: "dir_at s q" using 1 wf by (simp add: dir_at_def)
    have lo: "last output \<noteq> dotdot" using 1 name by blast
    have parent: "parent = q" using 1 by simp
    show ?case
      unfolding parent
    proof (rule wp_write_new_bytes [OF q lo], goal_cases)
      case s': (1 i k s')
      then have cr: "created s (q @ [last output]) s'" by (auto simp: created_def)
      have fin: "\<exists>q obs i b. output \<noteq> [] \<and> locate s True (butlast output) = Inr q \<and> dir_at s q \<and> last output \<noteq> dotdot
       \<and> observed L s (abspath (abspath ws)) obs \<and> \<not> is_within (q @ [last output]) (abspath ws)
       \<and> canonical_json_bytes L (manifest_body (wo_entries obs)) = Inr b \<and> length b \<le> MAX_WORKSPACE_MANIFEST_BYTES
       \<and> node_at s (q @ [last output]) = None \<and> staged s (q @ [last output]) i b s'"
        by (rule exI [of _ q], rule exI [of _ obs], rule exI [of _ i], rule exI [of _ payload]) (use 1 s' q lo in simp)
      show ?case by (intro wp_intros) (use fin cr in blast)+
    qed auto
  qed
qed

section \<open>When an observation returns\<close>

definition stat_of :: "fs \<Rightarrow> path \<Rightarrow> stat_result" where
  "stat_of s p = stat_ino s (the (entry s p))"

lemma physical_locate:
  assumes "wf_fs s" "node_at s p \<noteq> None"
  shows "locate s False p = Inr p"
proof (cases p rule: rev_cases)
  case Nil
  then show ?thesis by (simp add: locate_def)
next
  case (snoc q c)
  then have "node_at s q = Some Dir" "c \<noteq> dotdot"
    using assms wf_fs_parent [of s q c] by (auto simp: node_at_def)
  then show ?thesis using locate_child [OF assms(1)] snoc by simp
qed

lemma lstat_physical:
  assumes "wf_fs s" "node_at s p \<noteq> None"
  shows "fs_lstat p s = Inr (stat_of s p)"
  using physical_locate [OF assms] assms(2) by (auto simp: fs_lstat_def stat_of_def node_at_def)

lemma stat_of_node: "node_at s p = Some nd \<Longrightarrow> st_node (stat_of s p) = nd"
  by (auto simp: stat_of_def stat_ino_def node_at_def)

text \<open>One device below the root, and no file with a second name.\<close>

definition plain_tree :: "fs \<Rightarrow> path \<Rightarrow> bool" where
  "plain_tree s root \<longleftrightarrow> (\<forall>x. node_at s (root @ x) \<noteq> None \<longrightarrow>
     st_dev (stat_of s (root @ x)) = st_dev (stat_of s root)
     \<and> (is_reg (st_node (stat_of s (root @ x))) \<longrightarrow> st_nlink (stat_of s (root @ x)) = 1))"

lemma runs_root_scan:
  assumes "wf_fs s" "Q () s"
  shows "node_at s (current @ parts) = Some Dir \<Longrightarrow> runs U (root_scan current parts) Q s"
proof (induction parts arbitrary: current)
  case (Cons c rest)
  have d: "node_at s (current @ [c]) = Some Dir"
  proof (cases "rest = []")
    case False
    have "entry s ((current @ [c]) @ rest) \<noteq> None" using Cons.prems by (auto simp: node_at_def)
    then show ?thesis using wf_fs_prefix_dir [OF assms(1)] False by blast
  qed (use Cons.prems in simp)
  note l = lstat_physical [OF assms(1), of "current @ [c]"] stat_of_node [OF d]
  have "runs U (root_scan (current @ [c]) rest) Q s" using Cons by simp
  then show ?case using l d by (auto simp: is_lnk_def Let_def intro!: runs_intros)
qed (use assms(2) in \<open>simp add: runs_ret\<close>)

lemma abspath_physical: "wf_fs s \<Longrightarrow> node_at s p \<noteq> None \<Longrightarrow> abspath p = p"
proof -
  assume a: "wf_fs s" "node_at s p \<noteq> None"
  have "foldl (\<lambda>acc c. if c = dotdot then butlast acc else acc @ [c]) q x = q @ x" if "dotdot \<notin> set x" for q x
    using that by (induction x arbitrary: q) auto
  then show "abspath p = p" using wf_fs_no_dotdot [OF a(1)] a(2) by (auto simp: abspath_def node_at_def)
qed

lemma runs_checked_workspace_root:
  assumes "dir_at s root" "Q root s"
  shows "runs U (checked_workspace_root root) Q s"
proof -
  have wf: "wf_fs s" and n: "node_at s root = Some Dir" using assms(1) by (auto simp: dir_at_def)
  have "fs_resolve root s = Inr root"
    using dir_at_locate [OF assms(1)] n by (auto simp: fs_resolve_def node_at_def split: option.splits)
  with lstat_physical [OF wf, of root] stat_of_node [OF n] n assms(2) show ?thesis
    unfolding checked_workspace_root_def abspath_physical [OF wf, of root, unfolded n, OF option.distinct(2)] Let_def
    by (intro runs_iob runs_root_scan [OF wf] runs_reraise runs_look runs_ret) (auto simp: is_lnk_def intro!: runs_intros)
qed

lemma runs_bounded_file_identity:
  assumes "wf_fs s" "node_at s p = Some (Reg b)" "length b \<le> MAX_WORKSPACE_FILE_BYTES"
    and "st_nlink (stat_of s p) = 1" "st_dev (stat_of s p) = dev" "Q (identity_of L b) s"
  shows "runs U (bounded_file_identity L dev (stat_of s p) p) Q s"
proof -
  obtain i where i: "entry s p = Some i" "fs_nodes s i = Reg b" using assms(2) by (auto simp: node_at_entry)
  then have o: "fs_open_nofollow p s = Inr i" "fs_lstat p s = Inr (stat_of s p)" "stat_of s p = stat_ino s i"
    using physical_locate [OF assms(1), of p] lstat_physical [OF assms(1), of p] assms(2)
    by (auto simp: fs_open_nofollow_def is_lnk_def stat_of_def)
  have r: "fs_read i s = Inr b" using i by (simp add: fs_read_def)
  have n: "st_node (stat_ino s i) = Reg b" using i by (simp add: stat_ino_def)
  show ?thesis
    unfolding bounded_file_identity_def Let_def
    using assms(3-6) o r n
    by (auto simp: is_reg_def is_lnk_def node_size_def intro!: runs_intros)
qed

lemma runs_wp:
  assumes "runs U m Q s" "wp m Q' X K s"
  shows "runs U m (\<lambda>x s'. Q x s' \<and> Q' x s') s"
  using assms unfolding runs_def wp_def quiet_def by fastforce

text \<open>A tree that can be observed, and how the scan stays within it.\<close>

definition observable :: "pylib \<Rightarrow> fs \<Rightarrow> path \<Rightarrow> ws_entry list \<Rightarrow> bool" where
  "observable L s root all \<longleftrightarrow> dir_at s root \<and> posix_names s \<and> plain_tree s root
     \<and> tree_exact L s root all \<and> closed_tree L all"

lemma observable_entry:
  assumes "observable L s root all" "x \<noteq> []" "node_at s (root @ x) \<noteq> None"
  shows "entry_for L s root x \<in> set all" "canonical_name L (join_on 47 x)"
    "\<forall>c \<in> set x. 47 \<notin> set c \<and> utf8 c \<noteq> None" "split_on 47 (join_on 47 x) = x"
    "node_at s (root @ x) = Some Dir \<or> (\<exists>b. node_at s (root @ x) = Some (Reg b) \<and> length b \<le> MAX_WORKSPACE_FILE_BYTES)"
proof -
  show m: "entry_for L s root x \<in> set all" using assms by (auto simp: observable_def tree_exact_def)
  then have ok: "entry_ok L (entry_for L s root x)" using assms(1) by (auto simp: observable_def closed_tree_def)
  then show c: "canonical_name L (join_on 47 x)" using entry_ok_path by fastforce
  have p: "\<forall>c \<in> set x. 47 \<notin> set c"
    using assms posix_namesD [of s "root @ x"] by (auto simp: observable_def)
  then show sp: "split_on 47 (join_on 47 x) = x" using assms(2) by (intro split_join) auto
  then show "\<forall>c \<in> set x. 47 \<notin> set c \<and> utf8 c \<noteq> None"
    using p c by (auto simp: canonical_name_def portable_path_def portable_component_def)
  from ok show "node_at s (root @ x) = Some Dir
      \<or> (\<exists>b. node_at s (root @ x) = Some (Reg b) \<and> length b \<le> MAX_WORKSPACE_FILE_BYTES)"
    using assms
    by (cases rule: entry_okE; auto simp: observable_def tree_exact_def entry_for_def dir_entry_def sized_entry_eq
        split: option.splits node.splits)
qed

lemma sum_list_sublist:
  assumes "distinct xs" "distinct ys" "set xs \<subseteq> set ys" "\<And>y. y \<in> set ys \<Longrightarrow> (0 :: int) \<le> f y"
  shows "sum_list (map f xs) \<le> sum_list (map f ys)"
  using sum_mono2 [of "set ys" "set xs" f] assms by (simp add: sum_list_distinct_conv_sum_set)

lemma observable_part:
  assumes o: "observable L s root all" and xs: "distinct xs" "\<And>x. x \<in> set xs \<Longrightarrow> x \<noteq> [] \<and> node_at s (root @ x) \<noteq> None"
  shows "length xs \<le> MAX_WORKSPACE_ENTRIES"
    "total_size (map (entry_for L s root) xs) \<le> int MAX_WORKSPACE_TOTAL_BYTES"
proof -
  let ?es = "map (entry_for L s root) xs"
  have sub: "set ?es \<subseteq> set all" using observable_entry(1) [OF o] xs(2) by auto
  have "inj_on (\<lambda>x. join_on 47 x) (set xs)"
    using observable_entry(4) [OF o] xs(2) by (metis inj_onI)
  then have "inj_on (entry_for L s root) (set xs)"
    by (metis (no_types, lifting) entry_for_path inj_onD inj_onI)
  then have de: "distinct ?es" using xs(1) by (simp add: distinct_map)
  have da: "distinct all" and ok: "\<forall>e \<in> set all. entry_ok L e" and lim: "length all \<le> MAX_WORKSPACE_ENTRIES"
    "total_size all \<le> int MAX_WORKSPACE_TOTAL_BYTES"
    using o closed_tree_paths [of L all] by (auto simp: observable_def closed_tree_def distinct_map)
  show "length xs \<le> MAX_WORKSPACE_ENTRIES"
    using card_mono [OF _ sub] lim(1) distinct_card [OF de] distinct_card [OF da] by simp
  have "total_size ?es \<le> total_size all"
    unfolding total_size_def
    by (rule sum_list_sublist) (use de da sub ok in \<open>auto elim!: entry_okE\<close>)
  with lim(2) show "total_size ?es \<le> int MAX_WORKSPACE_TOTAL_BYTES" by simp
qed

lemma observable_aliases:
  assumes o: "observable L s root all" and inv: "scan_inv L s root xs st"
    and xs: "\<And>x. x \<in> set xs \<Longrightarrow> x \<noteq> [] \<and> node_at s (root @ x) \<noteq> None" and x: "x \<noteq> []" "node_at s (root @ x) \<noteq> None"
  shows "\<not> other_owner (sc_aliases st) (path_key L (join_on 47 x)) (join_on 47 x)"
proof -
  have inj: "entry_for L s root z = entry_for L s root x"
    if "z \<in> set xs" "path_key L (join_on 47 z) = path_key L (join_on 47 x)" for z
  proof -
    have i: "inj_on (\<lambda>e. path_key L (entry_path e)) (set all)"
      using o by (simp add: observable_def closed_tree_def alias_keys_def distinct_map)
    have m: "entry_for L s root z \<in> set all" "entry_for L s root x \<in> set all"
      using observable_entry(1) [OF o] xs that(1) x by blast+
    from inj_onD [OF i _ m] that(2) show ?thesis by simp
  qed
  have "sc_aliases st = map (\<lambda>z. (path_key L (join_on 47 z), join_on 47 z)) xs"
    using inv by (simp add: scan_inv_def acc_of_def)
  then have "w = join_on 47 x" if "map_of (sc_aliases st) (path_key L (join_on 47 x)) = Some w" for w
    using that inj by (auto dest!: map_of_SomeD) (metis entry_for_path)
  then show ?thesis by (auto simp: other_owner_iff)
qed

definition stack_keys :: "fs \<Rightarrow> scan_state \<Rightarrow> bool" where
  "stack_keys s st \<longleftrightarrow> (\<forall>t \<in> set (sc_stack st). snd t = object_key (stat_of s (fst t)))"

lemma runs_scan_child:
  assumes o: "observable L s root all" and pr: "progress L s root y (c # cs) st" and d: "dir_at s (root @ y)"
    and k: "stack_keys s st" and dev: "dev = st_dev (stat_of s root)"
  shows "runs U (scan_child L root dev (root @ y @ [c]) st)
    (\<lambda>st' s'. stack_keys s st' \<and> s' = s \<and> progress L s root y cs st') s"
proof -
  let ?x = "y @ [c]" and ?p = "join_on 47 (y @ [c])" and ?n = "root @ y @ [c]"
  from pr obtain xs ys where v: "visits s root xs ys y (c # cs)" and inv: "scan_inv L s root xs st"
    and n: "node_at s ?n \<noteq> None" by (auto simp: progress_def)
  have wf: "wf_fs s" using d by (simp add: dir_at_def)
  have nx: "node_at s (root @ ?x) \<noteq> None" using n by simp
  note e = observable_entry [OF o _ nx, simplified]
  have xs: "x \<noteq> [] \<and> node_at s (root @ x) \<noteq> None" if "x \<in> set (xs @ [?x])" for x
    using that v nx by (auto simp: visits_def)
  have al: "\<not> other_owner (sc_aliases st) (path_key L ?p) ?p"
    using observable_aliases [OF o inv, of ?x] xs by auto
  have tot: "total_size (map (entry_for L s root) (xs @ [?x])) \<le> int MAX_WORKSPACE_TOTAL_BYTES"
    using v xs by (intro observable_part(2) [OF o]) (auto simp: visits_def)
  have can: "canonical_path L (PStr (relative_name root ?n)) = Inr ?p" "windows_path_key L ?p = Inr (path_key L ?p)"
    using e(2) by (auto simp: canonical_path_name relative_name_def windows_path_key_eq canonical_name_def)
  note l = lstat_physical [OF wf n]
  have pt: "st_dev (stat_of s ?n) = dev" "is_reg (st_node (stat_of s ?n)) \<longrightarrow> st_nlink (stat_of s ?n) = 1"
    using o nx dev by (auto simp: observable_def plain_tree_def)
  have r: "runs U (scan_child L root dev ?n st) (\<lambda>st' s'. stack_keys s st') s"
  proof (cases "node_at s ?n = Some Dir")
    case True
    with stat_of_node [OF True] al can l pt k show ?thesis
      by (auto simp: scan_child_def Let_def is_lnk_def stack_keys_def intro!: runs_intros)
  next
    case False
    then obtain b where b: "node_at s ?n = Some (Reg b)" "length b \<le> MAX_WORKSPACE_FILE_BYTES" using e(5) by auto
    have t: "sc_total st + int (length b) \<le> int MAX_WORKSPACE_TOTAL_BYTES"
      using tot inv b(1) by (simp add: scan_inv_def total_size_snoc entry_for_def)
    from stat_of_node [OF b(1)] al can l pt k b t show ?thesis
      by (auto simp: scan_child_def Let_def is_lnk_def is_reg_def node_size_def stack_keys_def identity_of_def
          intro!: runs_intros runs_bounded_file_identity [OF wf b])
  qed
  from runs_wp [OF r wp_scan_child [OF d _ pr]] o show ?thesis by (auto simp: observable_def elim: runs_mono)
qed

lemma runs_scan_children:
  assumes o: "observable L s root all" and d: "dir_at s (root @ y)" and dev: "dev = st_dev (stat_of s root)"
  shows "progress L s root y cs st \<Longrightarrow> stack_keys s st \<Longrightarrow>
    runs U (io_fold (\<lambda>name. scan_child L root dev ((root @ y) @ [name])) cs st)
      (\<lambda>st' s'. stack_keys s st' \<and> s' = s \<and> progress L s root y [] st') s"
proof (induction cs arbitrary: st)
  case (Cons c cs)
  from runs_scan_child [OF o Cons.prems(1) d Cons.prems(2) dev]
  have "runs U (scan_child L root dev ((root @ y) @ [c]) st)
      (\<lambda>st' s'. stack_keys s st' \<and> s' = s \<and> progress L s root y cs st') s" by simp
  then show ?case unfolding io_fold.simps by (intro runs_iob) (erule runs_mono, use Cons.IH in auto)
qed (simp add: runs_def)

lemma runs_checked_directory_metadata:
  assumes "dir_at s p" "st_dev (stat_of s p) = dev" "Q (stat_of s p) s"
  shows "runs U (checked_directory_metadata dev p) Q s"
  using assms lstat_physical [of s p] stat_of_node [of s p Dir]
  by (auto simp: checked_directory_metadata_def dir_at_def is_lnk_def intro!: runs_intros)

lemma runs_scan_listing:
  assumes o: "observable L s root all" and d: "dir_at s (root @ y)"
    and xs: "distinct xs" "\<And>x. x \<in> set xs \<Longrightarrow> x \<noteq> [] \<and> node_at s (root @ x) \<noteq> None \<and> butlast x \<noteq> y"
    and m: "n = MAX_WORKSPACE_ENTRIES - length xs"
  shows "runs U (scan_listing n (st_dev (stat_of s root)) (root @ y) (object_key (stat_of s (root @ y)))) (\<lambda>_ _. True) s"
proof -
  have loc: "locate s True (root @ y) = Inr (root @ y)" using d by (rule dir_at_locate)
  obtain l where l: "fs_scandir (root @ y) s = Inr l" using d loc by (auto simp: fs_scandir_def dir_at_def)
  note ch = scandir_children [OF d l]
  have node: "node_at s (root @ y @ [c]) \<noteq> None" if "c \<in> set (map fst l)" for c using that ch(2) by auto
  have "utf8 c \<noteq> None" if "c \<in> set (map fst l)" for c
    using observable_entry(3) [OF o, of "y @ [c]"] node [OF that] by auto
  then have utf: "\<not> (\<exists>e \<in> set l. utf8 (fst e) = None)" by auto
  have "length (xs @ map (\<lambda>c. y @ [c]) (map fst l)) \<le> MAX_WORKSPACE_ENTRIES"
  proof (rule observable_part(1) [OF o])
    have "y @ [c] \<notin> set xs" for c using xs(2) [of "y @ [c]"] by auto
    then show "distinct (xs @ map (\<lambda>c. y @ [c]) (map fst l))"
      using xs(1) ch(1) by (auto simp: distinct_map inj_on_def)
  qed (use xs node in auto)
  then have len: "\<not> length l > n" using m by simp
  have dv: "st_dev (stat_of s (root @ y)) = st_dev (stat_of s root)"
    using o d by (auto simp: observable_def plain_tree_def dir_at_def)
  show ?thesis
    using utf len l unfolding scan_listing_def
    by (auto intro!: runs_intros runs_checked_directory_metadata [OF d dv])
qed

lemma runs_scan_loop:
  assumes o: "observable L s root all" and dev: "dev = st_dev (stat_of s root)"
  shows "progress L s root y [] st \<Longrightarrow> stack_keys s st \<Longrightarrow> scan_work st \<le> n \<Longrightarrow>
    runs U (scan_loop L root dev n st) (\<lambda>_ s'. s' = s) s"
proof (induction n arbitrary: st)
  case 0
  then show ?case by (simp add: scan_work_def runs_def)
next
  case (Suc n)
  show ?case
  proof (cases "sc_stack st")
    case Nil
    then show ?thesis by (simp add: runs_def)
  next
    case (Cons head rest)
    let ?st = "st\<lparr>sc_stack := rest\<rparr>"
    have wf: "wf_fs s" using o by (simp add: observable_def dir_at_def)
    obtain z xs where z: "fst head = root @ z" and d: "dir_at s (root @ z)" and es: "length (sc_entries st) = length xs"
      and xs: "distinct xs" "\<forall>x \<in> set xs. x \<noteq> [] \<and> node_at s (root @ x) \<noteq> None \<and> butlast x \<noteq> z"
      and pr: "\<forall>names. distinct names \<longrightarrow> set names = {c. node_at s ((root @ z) @ [c]) \<noteq> None} \<longrightarrow>
         length names \<le> MAX_WORKSPACE_ENTRIES - length xs \<longrightarrow> progress L s root z names ?st"
      using progress_pop [OF Suc.prems(1) Cons wf] by blast
    have key: "snd head = object_key (stat_of s (root @ z))" "stack_keys s ?st"
      using Suc.prems(2) Cons z by (auto simp: stack_keys_def)
    have lst: "runs U (scan_listing (MAX_WORKSPACE_ENTRIES - length (sc_entries ?st)) dev (fst head) (snd head))
        (\<lambda>names s'. s' = s \<and> progress L s root z names ?st) s"
      using runs_wp [OF runs_scan_listing [OF o d xs(1) xs(2) [rule_format] refl]
          wp_scan_listing [OF d, where Q = "\<lambda>names s'. s' = s \<and> progress L s root z names ?st"
            and X = "\<lambda>_ _. True" and K = "\<lambda>_. True"]] pr
      by (auto simp: key z dev es elim: runs_mono)
    have "runs U (scan_directory L root dev head ?st)
        (\<lambda>st' s'. stack_keys s st' \<and> s' = s \<and> progress L s root z [] st') s"
      unfolding scan_directory_def
      by (intro runs_iob, rule runs_mono [OF lst]) (use runs_scan_children [OF o d dev _ key(2)] z in auto)
    then have "runs U (scan_directory L root dev head ?st)
        (\<lambda>st' s'. scan_work st' \<le> n \<and> stack_keys s st' \<and> s' = s \<and> progress L s root z [] st') s"
      using scan_directory_work [of L root dev head ?st] Suc.prems(3) Cons
      unfolding runs_def scan_work_def by fastforce
    then show ?thesis
      unfolding scan_loop.simps Cons list.case
      by (intro runs_iob) (erule runs_mono, use Suc.IH progress_Nil in auto)
  qed
qed

lemma runs_scan_workspace_once:
  assumes o: "observable L s root all" and hx: "hex_digests L"
  shows "runs U (scan_workspace_once L root (st_dev (stat_of s root)) (object_key (stat_of s root)))
    (\<lambda>obs s'. s' = s \<and> wo_entries obs = all \<and> tree_summary L all = Inr (wo_summary obs)) s"
proof -
  let ?dev = "st_dev (stat_of s root)" and ?key = "object_key (stat_of s root)"
  let ?st = "\<lparr>sc_entries = [], sc_aliases = [], sc_total = 0, sc_stack = [(root, ?key)]\<rparr>"
  have wf: "wf_fs s" and n: "node_at s root = Some Dir" and pn: "posix_names s" and ex: "tree_exact L s root all"
    and cl: "closed_tree L all"
    using o by (auto simp: observable_def dir_at_def)
  have pr: "progress L s root [] [] ?st"
    using visits_start [OF n] unfolding progress_def
    by (intro conjI exI [of _ "[]"] exI [of _ "[[]]"]) (auto simp: scan_inv_def acc_of_def alias_keys_def total_size_def)
  have k: "stack_keys s ?st" by (simp add: stack_keys_def)
  have loop: "runs U (scan_loop L root ?dev (Suc MAX_WORKSPACE_ENTRIES) ?st)
      (\<lambda>st' s'. s' = s \<and> s' = s \<and> progress L s root [] [] st' \<and> sc_stack st' = []) s"
    using runs_wp [OF runs_scan_loop [OF o refl pr k] wp_scan_loop [OF wf pn pr], of "Suc MAX_WORKSPACE_ENTRIES"]
    by (simp add: scan_work_def del: scan_loop.simps)
  have all: "sort_key entry_sort_key (sc_entries st) = all"
    if "progress L s root [] [] st" "sc_stack st = []" for st
  proof -
    note fin = scan_finished [OF that wf pn hx]
    have "sort_key entry_sort_key (sort_key entry_sort_key (sc_entries st)) = all"
      by (rule sorted_entries_unique [of all L])
        (use fin ex cl in \<open>auto simp: tree_exact_def closed_tree_def\<close>)
    then show ?thesis by (simp add: sort_key_id_if_sorted)
  qed
  obtain summary where "tree_summary L all = Inr summary" using tree_summary_total [of all L] cl by (auto simp: closed_tree_def)
  with all show ?thesis
    unfolding scan_workspace_once_def Let_def
    by (intro runs_iob, rule_tac runs_mono [OF loop]) (auto intro!: runs_intros simp del: io_simps)
qed

lemma py_eq_reflexive: "entry_ok L e \<Longrightarrow> py_eq (PDict e) (PDict e)"
  by (auto elim!: entry_okE simp: dir_entry_def sized_entry_eq)

lemma same_entries_refl: "\<forall>e \<in> set es. entry_ok L e \<Longrightarrow> same_entries es es"
  unfolding same_entries_def using py_eq_reflexive
  by (auto simp: py_eq_list_iff list_all2_conv_all_nth simp del: py_eq.simps(7)) (metis nth_mem py_eq_reflexive)

lemma tree_summary_refl: "tree_summary L es = Inr v \<Longrightarrow> py_eq v v"
  by (auto simp: tree_summary_def Let_def)

lemma runs_observe_workspace:
  assumes o: "observable L s root all" and hx: "hex_digests L"
    and Q: "\<And>obs. wo_entries obs = all \<Longrightarrow> tree_summary L all = Inr (wo_summary obs) \<Longrightarrow> Q obs s"
  shows "runs U (observe_workspace L root) Q s"
proof -
  have d: "dir_at s root" and ok: "\<forall>e \<in> set all. entry_ok L e" using o by (auto simp: observable_def closed_tree_def)
  then have l: "fs_lstat root s = Inr (stat_of s root)" by (intro lstat_physical) (auto simp: dir_at_def)
  note once = runs_scan_workspace_once [OF o hx, of U]
  show ?thesis
    unfolding observe_workspace_def
    using Q same_entries_refl [OF ok] tree_summary_refl [of L all] l
    by (intro runs_iob runs_checked_workspace_root [OF d] runs_look)
      (auto intro!: runs_intros runs_mono [OF once])
qed

section \<open>A concrete workspace\<close>

text \<open>A baseline of one directory, one output in it, and the manifest of the baseline beside it.\<close>

definition base_entries :: "ws_entry list" where
  "base_entries = [dir_entry (lit ''d'')]"

definition manifest_file :: bytes where
  "manifest_file = (case canonical_json_bytes fixed_lib (manifest_body base_entries) of Inl _ \<Rightarrow> [] | Inr b \<Rightarrow> b)"

definition ws_fs :: fs where
  "ws_fs = \<lparr>fs_names = [([], 0), ([lit ''w''], 1), ([lit ''w'', lit ''d''], 2), ([lit ''w'', lit ''d'', lit ''f''], 3),
       ([lit ''m''], 4)],
     fs_nodes = (\<lambda>i. if i = 3 then Reg ''abc'' else if i = 4 then Reg manifest_file else Dir),
     fs_dev = (\<lambda>_. 0), fs_next = 5,
     fs_locks = (\<lambda>_. None), fs_maker = (\<lambda>_. 0)\<rparr>"

definition ws_world :: "(nat \<Rightarrow> fate) \<Rightarrow> world" where
  "ws_world fates = \<lparr>w_fs = ws_fs, w_tick = 0, w_env = (\<lambda>_ s. s), w_fate = fates,
     w_uuid = (\<lambda>_. lit ''u''), w_now = (\<lambda>_. lit ''now''),
     w_pid = 1, w_os = bare_os, w_log = []\<rparr>"

lemma ws_world_simps [simp]:
  "calm (ws_world fates)" "w_fs (ws_world fates) = ws_fs" "quiet {lit ''u''} (ws_world (\<lambda>_. Run))"
  by (simp_all add: ws_world_def calm_def quiet_def)

lemma ws_fs_node:
  "node_at ws_fs p = (if p = [] \<or> p = [lit ''w''] \<or> p = [lit ''w'', lit ''d''] then Some Dir
     else if p = [lit ''w'', lit ''d'', lit ''f''] then Some (Reg ''abc'')
     else if p = [lit ''m''] then Some (Reg manifest_file) else None)"
  by (simp add: ws_fs_def node_at_def entry_def)

lemma ws_fs_wf: "wf_fs ws_fs" "posix_names ws_fs"
  by (simp_all add: wf_fs_def ws_fs_node) (simp_all add: ws_fs_def dotdot_def lit_def posix_names_def)

lemma fixed_hex: "hex_digests fixed_lib"
  by (simp add: hex_digests_def fixed_sha)

lemma sample_entries_eq:
  "entry_for fixed_lib ws_fs [lit ''w''] [lit ''d''] = dir_entry (lit ''d'')"
  "entry_for fixed_lib ws_fs [lit ''w''] [lit ''d'', lit ''f''] = sized_entry (lit ''d/f'') (replicate 64 48) 3"
proof -
  have "join_on 47 [lit ''d'', lit ''f''] = lit ''d/f''" by (simp add: lit_def)
  then show "entry_for fixed_lib ws_fs [lit ''w''] [lit ''d''] = dir_entry (lit ''d'')"
    "entry_for fixed_lib ws_fs [lit ''w''] [lit ''d'', lit ''f''] = sized_entry (lit ''d/f'') (replicate 64 48) 3"
    by (simp_all add: entry_for_def ws_fs_node fixed_lib_def)
qed

lemma ws_observable: "observable fixed_lib ws_fs [lit ''w''] sample_entries"
proof -
  have x: "x \<noteq> [] \<and> node_at ws_fs ([lit ''w''] @ x) \<noteq> None \<longleftrightarrow> x = [lit ''d''] \<or> x = [lit ''d'', lit ''f'']" for x
    by (auto simp: ws_fs_node)
  have "tree_exact fixed_lib ws_fs [lit ''w''] sample_entries"
    unfolding tree_exact_def
  proof (intro conjI allI impI)
    have "{entry_for fixed_lib ws_fs [lit ''w''] x | x. x \<noteq> [] \<and> node_at ws_fs ([lit ''w''] @ x) \<noteq> None}
        = {entry_for fixed_lib ws_fs [lit ''w''] [lit ''d''], entry_for fixed_lib ws_fs [lit ''w''] [lit ''d'', lit ''f'']}"
      unfolding x by blast
    then show "set sample_entries
        = {entry_for fixed_lib ws_fs [lit ''w''] x | x. x \<noteq> [] \<and> node_at ws_fs ([lit ''w''] @ x) \<noteq> None}"
      by (simp only: sample_entries_eq) (simp add: sample_entries_def)
    show "distinct (map entry_path sample_entries)" by (simp add: sample_entries_def)
  qed (auto simp: ws_fs_node split: if_splits)
  moreover have "plain_tree ws_fs [lit ''w'']"
    unfolding plain_tree_def
  proof (intro allI impI)
    fix x assume "node_at ws_fs ([lit ''w''] @ x) \<noteq> None"
    then have "x = [] \<or> x = [lit ''d''] \<or> x = [lit ''d'', lit ''f'']" using x by blast
    then show "st_dev (stat_of ws_fs ([lit ''w''] @ x)) = st_dev (stat_of ws_fs [lit ''w''])
        \<and> (is_reg (st_node (stat_of ws_fs ([lit ''w''] @ x))) \<longrightarrow> st_nlink (stat_of ws_fs ([lit ''w''] @ x)) = 1)"
      by (elim disjE) (simp_all add: stat_of_def stat_ino_def is_reg_def ws_fs_def entry_def)
  qed
  ultimately show ?thesis using sample_closed_tree ws_fs_wf by (simp add: observable_def dir_at_def ws_fs_node)
qed

lemma ws_abspath: "abspath [lit ''w''] = [lit ''w'']"
  using abspath_physical [OF ws_fs_wf(1), of "[lit ''w'']"] by (simp add: ws_fs_node)

definition sealed_outputs :: pydict where
  "sealed_outputs = [(lit ''d/f'', identity_of fixed_lib ''abc'')]"

lemma sealed_outputs_plain: "\<forall>q \<in> set sealed_outputs. plain_identity (snd q)"
  by (auto simp: sealed_outputs_def plain_identity_def identity_of_def)

lemma base_closed: "closed_tree fixed_lib base_entries"
proof -
  have "ancestors (lit ''d'') = []" by (simp add: ancestors_def proper_prefixes_def lit_def)
  then show ?thesis
    using sample_names(1)
    by (simp add: closed_tree_def base_entries_def alias_keys_def total_size_def entry_okI MAX_WORKSPACE_ENTRIES_def)
qed

lemma manifest_file_bytes:
  "canonical_json_bytes fixed_lib (manifest_body base_entries) = Inr manifest_file"
  "length manifest_file \<le> MAX_WORKSPACE_MANIFEST_BYTES"
proof -
  have "ascii_val (manifest_body base_entries)"
    by (simp add: manifest_body_def base_entries_def dir_entry_def WORKSPACE_MANIFEST_KIND_def WORKSPACE_POLICY_def
        ascii_def lit_def)
  then obtain b where b: "canonical_json_bytes fixed_lib (manifest_body base_entries) = Inr b"
    "length b \<le> text_size (manifest_body base_entries) + 1" using ascii_writable by blast
  then show "canonical_json_bytes fixed_lib (manifest_body base_entries) = Inr manifest_file"
    by (simp add: manifest_file_def)
  moreover have "text_size (manifest_body base_entries) < MAX_WORKSPACE_MANIFEST_BYTES"
    by (simp add: manifest_body_def base_entries_def dir_entry_def WORKSPACE_MANIFEST_KIND_def WORKSPACE_POLICY_def
        WORKSPACE_MANIFEST_SCHEMA_VERSION_def MAX_WORKSPACE_MANIFEST_BYTES_def dump_int_def dec.simps)
  ultimately show "length manifest_file \<le> MAX_WORKSPACE_MANIFEST_BYTES" using b by simp
qed

definition base_summary :: pyval where
  "base_summary = (case tree_summary fixed_lib base_entries of Inl _ \<Rightarrow> PNone | Inr s \<Rightarrow> s)"

lemma ws_verify_runs:
  "\<exists>summary w'. verify_workspace fixed_lib [lit ''w''] [lit ''m''] (identity_of fixed_lib manifest_file)
     base_summary sealed_outputs [] (ws_world (\<lambda>_. Run)) = (Ret summary, w')"
proof -
  obtain m where m: "manifest_of_bytes fixed_lib (Some (identity_of fixed_lib manifest_file)) manifest_file = Inr m"
    "wm_entries m = base_entries" "wm_summary m = base_summary" "tree_summary fixed_lib base_entries = Inr base_summary"
  proof -
    from manifest_published [OF base_closed] obtain b summary where
      b: "canonical_json_bytes fixed_lib (manifest_body base_entries) = Inr b" "tree_summary fixed_lib base_entries = Inr summary"
        "manifest_of_bytes fixed_lib (Some (identity_of fixed_lib b)) b
          = Inr \<lparr>wm_entries = base_entries, wm_identity = identity_of fixed_lib b, wm_summary = summary\<rparr>" by blast
    have "b = manifest_file" "summary = base_summary"
      using b(1) manifest_file_bytes(1) by simp (simp add: base_summary_def b(2))
    with b that show thesis by simp
  qed
  have e: "rfold (complete_step fixed_lib) sealed_outputs (entry_map base_entries)
      = Inr (expected_entries base_entries sealed_outputs)"
    using sample_names
    by (simp add: sealed_outputs_def base_entries_def entry_map_def complete_step_def canonical_path_name [THEN iffD2]
        expected_entries_def sealed_entry_def identity_of_def)
  have c: "compare_workspace (expected_entries base_entries sealed_outputs) [] obs = Inr (wo_summary obs)"
    if "wo_entries obs = sample_entries" for obs
    by (simp add: that compare_workspace_Inr expected_entries_def base_entries_def sealed_outputs_def entry_map_def
        sample_entries_def sealed_entry_def identity_of_def fixed_lib_def)
      (simp add: dir_entry_def sized_entry_eq)
  have "runs {lit ''u''} (verify_workspace fixed_lib [lit ''w''] [lit ''m''] (identity_of fixed_lib manifest_file)
     base_summary sealed_outputs []) (\<lambda>_ _. True) ws_fs"
  proof -
    have d: "dir_at ws_fs []" "node_at ws_fs ([] @ [lit ''m'']) = Some (Reg manifest_file)" "lit ''m'' \<noteq> dotdot"
      using ws_fs_wf by (simp_all add: dir_at_def ws_fs_node)
    have r: "runs {lit ''u''} (read_regular_bytes [lit ''m''] (Some MAX_WORKSPACE_MANIFEST_BYTES)) Q ws_fs"
      if "Q manifest_file ws_fs" for Q
      using runs_read_regular_bytes [OF d(1,3,2), of "Some MAX_WORKSPACE_MANIFEST_BYTES"] that manifest_file_bytes(2) by simp
    show ?thesis
      unfolding verify_workspace_def load_workspace_manifest_def
      using m e c tree_summary_refl [OF m(4)]
      by (auto intro!: runs_intros r runs_observe_workspace [OF ws_observable fixed_hex] simp del: io_simps)
  qed
  then show ?thesis using runsE [of "{lit ''u''}" _ _ "ws_world (\<lambda>_. Run)"] by (metis ws_world_simps(2,3))
qed

section \<open>Properties\<close>

text \<open>
  C17: The scan of a workspace ends: the bound on the number of directories that the model puts on
  the loop is never reached. Giving the loop any larger bound changes nothing, in whatever world
  with whatever faults and concurrent changes.
\<close>

theorem scan_bound_never_reached:
  "scan_loop L root dev (Suc MAX_WORKSPACE_ENTRIES + k)
     \<lparr>sc_entries = [], sc_aliases = [], sc_total = 0, sc_stack = [(root, key)]\<rparr>
   = scan_loop L root dev (Suc MAX_WORKSPACE_ENTRIES)
     \<lparr>sc_entries = [], sc_aliases = [], sc_total = 0, sc_stack = [(root, key)]\<rparr>"
  by (rule scan_loop_enough) (simp add: scan_work_def)

text \<open>
  C15: An observation is the tree. When nothing else changes the file system, an observation that
  returns lists exactly the names below the root, each directory and each file with the digest and
  size of its content; there is no link and no special file; the list is a closed tree, so it
  can be published as a manifest; and nothing was changed. This holds with any calls failing.
\<close>

theorem observation_is_the_tree:
  assumes "calm w" "wf_fs (w_fs w)" "posix_names (w_fs w)" "hex_digests L"
    and "observe_workspace L p w = (Ret obs, w')"
  shows "tree_exact L (w_fs w) (abspath p) (wo_entries obs) \<and> closed_tree L (wo_entries obs)
    \<and> tree_summary L (wo_entries obs) = Inr (wo_summary obs) \<and> w_fs w' = w_fs w"
proof -
  have "wp (observe_workspace L p) (\<lambda>obs s'. s' = w_fs w \<and> observed L (w_fs w) (abspath p) obs)
      (\<lambda>_ _. True) (\<lambda>_. True) (w_fs w)"
    by (rule wp_observe_workspace [OF assms(2-4)]) auto
  from wpD(1) [OF this assms(1,5)] show ?thesis by (auto simp: observed_def)
qed

theorem observation_is_the_tree_witness:
  "\<exists>obs w'. observe_workspace fixed_lib [lit ''w''] (ws_world (\<lambda>_. Run)) = (Ret obs, w')
    \<and> tree_exact fixed_lib ws_fs [lit ''w''] (wo_entries obs)"
proof -
  obtain obs w' where o: "observe_workspace fixed_lib [lit ''w''] (ws_world (\<lambda>_. Run)) = (Ret obs, w')"
    using runs_observe_workspace [OF ws_observable fixed_hex, of "\<lambda>_ _. True" "{lit ''u''}"]
    by (auto elim: runsE [of _ _ _ "ws_world (\<lambda>_. Run)", simplified])
  have "tree_exact fixed_lib (w_fs (ws_world (\<lambda>_. Run))) (abspath [lit ''w'']) (wo_entries obs)"
    by (rule conjunct1 [OF observation_is_the_tree [OF _ _ _ fixed_hex o]]) (simp_all add: ws_fs_wf)
  with o show ?thesis by (simp add: ws_abspath)
qed

text \<open>
  An observation of a proper tree returns. When the root is a directory without links on its
  path and the tree below it is a closed tree on one device with no file under two names, then
  without faults an observation returns exactly its entries.
\<close>

theorem observation_completes:
  assumes "quiet U w" "observable L (w_fs w) root es" "hex_digests L"
  shows "\<exists>obs w'. observe_workspace L root w = (Ret obs, w') \<and> wo_entries obs = es
    \<and> tree_summary L es = Inr (wo_summary obs) \<and> w_fs w' = w_fs w"
  using runs_observe_workspace [OF assms(2,3), of "\<lambda>obs s'. wo_entries obs = es \<and>
      tree_summary L es = Inr (wo_summary obs) \<and> s' = w_fs w" U] assms(1)
  by (auto elim: runsE)

theorem observation_completes_witness:
  "\<exists>obs w'. observe_workspace fixed_lib [lit ''w''] (ws_world (\<lambda>_. Run)) = (Ret obs, w')
    \<and> wo_entries obs = sample_entries"
  using observation_completes [OF ws_world_simps(3) _ fixed_hex, of "[lit ''w'']" sample_entries] ws_observable by auto

text \<open>
  C16: A verified workspace holds what is expected and nothing else. When the verification
  returns, the manifest file has the bound identity and describes a closed tree; every baseline
  entry and every sealed output is in the workspace with its content; every other name is a
  volatile output and a regular file. Without volatile outputs the returned summary is the one
  projected from the manifest and the sealed outputs.
\<close>

theorem verified_workspace_holds:
  assumes "calm w" "wf_fs (w_fs w)" "posix_names (w_fs w)" "hex_digests L"
    and "\<forall>q \<in> set sealed. plain_identity (snd q)"
    and "verify_workspace L p mp ident baseline sealed volatile w = (Ret summary, w')"
  shows "\<exists>raw m. node_via (w_fs w) mp = Some (Reg raw) \<and> manifest_of_bytes L (Some ident) raw = Inr m
    \<and> workspace_holds L (w_fs w) (abspath p) (wm_entries m) sealed volatile
    \<and> (volatile = [] \<longrightarrow> project_workspace_summary L m sealed = Inr summary) \<and> w_fs w' = w_fs w"
proof -
  let ?R = "\<lambda>summary s'. \<exists>raw m. node_via (w_fs w) mp = Some (Reg raw) \<and> manifest_of_bytes L (Some ident) raw = Inr m
    \<and> workspace_holds L (w_fs w) (abspath p) (wm_entries m) sealed volatile
    \<and> (volatile = [] \<longrightarrow> project_workspace_summary L m sealed = Inr summary) \<and> s' = w_fs w"
  have "wp (verify_workspace L p mp ident baseline sealed volatile) ?R (\<lambda>_ _. True) (\<lambda>_. True) (w_fs w)"
  proof (rule wp_verify_workspace [OF assms(2-5)])
    fix raw m obs expected summary
    assume a: "node_via (w_fs w) mp = Some (Reg raw)" "manifest_of_bytes L (Some ident) raw = Inr m"
      "rfold (complete_step L) sealed (entry_map (wm_entries m)) = Inr expected"
      "observed L (w_fs w) (abspath p) obs" "compare_workspace expected volatile obs = Inr summary"
    note m = manifest_closed [OF a(2)]
    then have ok: "\<forall>e \<in> set (wm_entries m). entry_ok L e" by (simp add: closed_tree_def)
    note ex = expected_entries_eq [OF m a(3)]
    have "project_workspace_summary L m sealed = Inr summary" if "volatile = []"
      using compare_projects [OF a(4) ok assms(5)] ex a(5) that project_loop [OF a(3)]
      by (auto simp: project_workspace_summary_def)
    with a(1,2,4,5) compare_holds [OF a(4) ok assms(5), of volatile summary] ex(1)
    show "?R summary (w_fs w)" by blast
  qed auto
  from wpD(1) [OF this assms(1,6)] show ?thesis .
qed

theorem verified_workspace_holds_witness:
  "\<exists>m. workspace_holds fixed_lib ws_fs [lit ''w''] (wm_entries m) sealed_outputs []
    \<and> manifest_of_bytes fixed_lib (Some (identity_of fixed_lib manifest_file)) manifest_file = Inr m"
proof -
  obtain summary w' where v: "verify_workspace fixed_lib [lit ''w''] [lit ''m''] (identity_of fixed_lib manifest_file)
     base_summary sealed_outputs [] (ws_world (\<lambda>_. Run)) = (Ret summary, w')" using ws_verify_runs by blast
  have via: "node_via ws_fs [lit ''m''] = Some (Reg manifest_file)"
    using file_at_via [of ws_fs "[]" "lit ''m''"] ws_fs_wf by (simp add: dir_at_def ws_fs_node)
  from verified_workspace_holds [OF _ _ _ fixed_hex sealed_outputs_plain v] ws_fs_wf via
  show ?thesis by (auto simp: ws_abspath)
qed

text \<open>
  C33: A snapshot creates one file or nothing. Whatever call fails and wherever it is killed, at
  most one name that did not exist has appeared. When it returns, that name is outside the
  workspace and holds the canonical manifest of the whole tree, and loading it returns the
  observed entries.
\<close>

theorem snapshot_creates_one_manifest:
  assumes "calm w" "wf_fs (w_fs w)" "posix_names (w_fs w)" "hex_digests L"
    and "snapshot_workspace L ws output w = (out, w')"
  shows "(\<exists>p. (\<forall>q. q \<noteq> p \<longrightarrow> node_at (w_fs w') q = node_at (w_fs w) q)
      \<and> (node_at (w_fs w) p \<noteq> None \<longrightarrow> node_at (w_fs w') p = node_at (w_fs w) p))
    \<and> (\<forall>v. out = Ret v \<longrightarrow> (\<exists>es raw m. tree_exact L (w_fs w) (abspath (abspath ws)) es
      \<and> node_via (w_fs w') output = Some (Reg raw) \<and> length raw \<le> MAX_WORKSPACE_MANIFEST_BYTES
      \<and> manifest_of_bytes L (Some (identity_of L raw)) raw = Inr m \<and> wm_entries m = es))"
proof -
  let ?s = "w_fs w" and ?t = "w_fs w'"
  note wp = wpD [OF wp_snapshot_workspace [OF assms(2-4)] assms(1)]
  have one: "\<exists>p. (\<forall>q. q \<noteq> p \<longrightarrow> node_at ?t q = node_at ?s q)
      \<and> (node_at ?s p \<noteq> None \<longrightarrow> node_at ?t p = node_at ?s p)" if "created ?s p ?t" for p
    using that by (intro exI [of _ p]) (auto simp: created_def staged_def)
  show ?thesis
  proof (cases out)
    case (Ret v)
    from wp(1) [OF assms(5) [unfolded Ret]] obtain q obs i b where
      q: "output \<noteq> []" "locate ?s True (butlast output) = Inr q" "dir_at ?s q" "last output \<noteq> dotdot"
      and obs: "observed L ?s (abspath (abspath ws)) obs"
      and b: "canonical_json_bytes L (manifest_body (wo_entries obs)) = Inr b" "length b \<le> MAX_WORKSPACE_MANIFEST_BYTES"
      and st: "node_at ?s (q @ [last output]) = None" "staged ?s (q @ [last output]) i b ?t" by blast
    have "same_tree ?s ?t" using st by (auto simp: same_tree_def staged_def)
    then have "node_via ?t (butlast output @ [last output]) = Some (Reg b)"
      using node_via_under [OF q(2) _ _ q(4)] q(3) st(2) by (simp add: dir_at_def staged_def)
    moreover obtain m where "manifest_of_bytes L (Some (identity_of L b)) b = Inr m" "wm_entries m = wo_entries obs"
      using manifest_published [of L "wo_entries obs"] obs b(1) by (auto simp: observed_def)
    moreover have "created ?s (q @ [last output]) ?t" using st by (auto simp: created_def)
    ultimately show ?thesis
      using one [of "q @ [last output]"] q(1) obs b(2) by (auto simp: observed_def)
  qed (use wp(2,3) assms(5) one in \<open>blast+\<close>)
qed

theorem snapshot_creates_one_manifest_witness:
  "let w' = snd (snapshot_workspace fixed_lib [lit ''w''] [lit ''new''] (ws_world (\<lambda>t. if t = 40 then Tear 2 else Run))) in
   \<exists>p. (\<forall>q. q \<noteq> p \<longrightarrow> node_at (w_fs w') q = node_at ws_fs q)
     \<and> (node_at ws_fs p \<noteq> None \<longrightarrow> node_at (w_fs w') p = node_at ws_fs p)"
proof -
  let ?w = "ws_world (\<lambda>t. if t = 40 then Tear 2 else Run)"
  let ?r = "snapshot_workspace fixed_lib [lit ''w''] [lit ''new''] ?w"
  show ?thesis
    using conjunct1 [OF snapshot_creates_one_manifest [of ?w fixed_lib "[lit ''w'']" "[lit ''new'']" "fst ?r" "snd ?r"]]
      ws_fs_wf fixed_hex by (simp add: Let_def)
qed

end
