(* ===== verification/Run_Context.thy ===== *)
theory Run_Context
  imports Event_Log Workspace Writer_Lock
begin

text \<open>
  The parts of \<^verbatim>\<open>src/src/benchhandoff/engine.py\<close> that tie a run to its suite: the root of the
  task paths, the workspace binding and its observations, the execution context of a task, the
  checks before a run, and the plan. Also \<^verbatim>\<open>load_suite\<close> of \<^verbatim>\<open>src/src/benchhandoff/model.py\<close> with the
  reading of the file.
\<close>

section \<open>The host\<close>

text \<open>
  What the engine takes from outside the repository: the library functions of the JSON and
  hashing model, the TOML parser, the text of a raised exception at a time, \<open>shutil.which\<close>, the
  command \<open>ps\<close>, the own process group and working directory, the three platform strings of a
  plan, and how the kernel starts a child. \<open>h_directories\<close> and \<open>h_rounds\<close> bound the walks over
  run artifacts and the rounds of a wait, \<open>h_second\<close> is a second on the monotonic clock.
\<close>

record launch =
  la_argv :: "pystr list"
  la_executable :: "path option"
  la_cwd :: path
  la_env :: "(pystr \<times> pystr) list"
  la_new_session :: bool

record host =
  h_lib :: pylib
  h_toml :: "pystr \<Rightarrow> pyval option"
  h_text :: "nat \<Rightarrow> pyexc \<Rightarrow> pystr"
  h_which :: "pystr \<Rightarrow> fs \<Rightarrow> path option"
  h_ps :: ps_run
  h_group :: int
  h_cwd :: path
  h_environ :: "(pystr \<times> pystr) list"
  h_platform :: "pystr \<times> pystr \<times> pystr"
  h_spawn :: "launch \<Rightarrow> (nat \<times> controllable) io"
  h_directories :: nat
  h_rounds :: nat
  h_second :: nat

text \<open>\<open>str(exc)\<close>\<close>

definition exc_text :: "host \<Rightarrow> pyexc \<Rightarrow> pystr io" where
  "exc_text H e w = (Ret (h_text H (w_tick w) e), w)"

section \<open>Paths and suites\<close>

text \<open>\<open>Path(text).absolute()\<close>\<close>

definition text_parts :: "pystr \<Rightarrow> path" where
  "text_parts s = filter (\<lambda>c. c \<noteq> [] \<and> c \<noteq> [46]) (split_on 47 s)"

definition absolute :: "host \<Rightarrow> pystr \<Rightarrow> path" where
  "absolute H s = (if starts_with [47] s then text_parts s else h_cwd H @ text_parts s)"

definition load_suite :: "host \<Rightarrow> path \<Rightarrow> suite_spec io" where
  "load_suite H p =
     iob (read_regular_bytes p (Some MAX_SUITE_BYTES)) (\<lambda>raw.
     from_result (parse_suite (h_lib H) (h_toml H) p raw))"

definition identity_or_raise :: "pyval \<Rightarrow> pyval \<Rightarrow> unit io" where
  "identity_or_raise actual expected =
     (if \<not> identities_match actual expected then raise EvidenceError else ret ())"

section \<open>The workspace of a run\<close>

definition task_root :: "host \<Rightarrow> suite_spec \<Rightarrow> path io" where
  "task_root H suite =
     (if suite_version suite \<noteq> 3 then ret (suite_root suite)
      else case suite_workspace suite of
        None \<Rightarrow> raise EvidenceError
      | Some w \<Rightarrow> iob (resolve_member (h_lib H) (suite_root suite) (wsd_root w)) checked_workspace_root)"

definition workspace_manifest_path :: "host \<Rightarrow> suite_spec \<Rightarrow> path io" where
  "workspace_manifest_path H suite =
     (if suite_version suite \<noteq> 3 then raise EvidenceError
      else case suite_workspace suite of
        None \<Rightarrow> raise EvidenceError
      | Some w \<Rightarrow> resolve_member (h_lib H) (suite_root suite) (wsd_manifest w))"

definition digest_of :: "pystr \<Rightarrow> int \<Rightarrow> pyval" where
  "digest_of digest bytes_size =
     PDict [(lit ''sha256'', PStr (remove_prefix (lit ''sha256:'') digest)), (lit ''size'', PInt bytes_size)]"

definition workspace_manifest_identity :: "suite_spec \<Rightarrow> pyexc + pyval" where
  "workspace_manifest_identity suite =
     (case suite_workspace suite of
        None \<Rightarrow> Inl EvidenceError
      | Some w \<Rightarrow> Inr (digest_of (wsd_digest w) (wsd_size w)))"

definition suite_workspace_binding :: "host \<Rightarrow> suite_spec \<Rightarrow> pyval option io" where
  "suite_workspace_binding H suite =
     (if suite_version suite \<noteq> 3 then ret None
      else case suite_workspace suite of
        None \<Rightarrow> raise EvidenceError
      | Some w \<Rightarrow>
          iob (task_root H suite) (\<lambda>root.
          iob (workspace_manifest_path H suite) (\<lambda>manifest_path.
          iob (from_result (workspace_manifest_identity suite)) (\<lambda>identity.
          iob (prepare_workspace_binding (h_lib H) root manifest_path identity
                (concat (map task_outputs (suite_tasks suite)))) (\<lambda>prepared.
          let manifest = fld (dict_of prepared) ''manifest'' in
          if \<not> py_eq manifest identity then raise EvidenceError
          else ret (Some (PDict [(lit ''policy'', PStr (wsd_policy w)), (lit ''root'', PStr (wsd_root w)),
            (lit ''manifest'', PDict (merge_into [(lit ''path'', PStr (wsd_manifest w))] (dict_of manifest))),
            (lit ''baseline'', fld (dict_of prepared) ''baseline'')])))))))"

text \<open>\<open>context.state["tasks"][task_id]\<close>\<close>

definition task_state :: "run_context \<Rightarrow> pystr \<Rightarrow> pydict" where
  "task_state ctx tid =
     (case map_of (dict_of (fld (rc_state ctx) ''tasks'')) tid of None \<Rightarrow> [] | Some v \<Rightarrow> dict_of v)"

definition task_status :: "run_context \<Rightarrow> task_spec \<Rightarrow> pyval" where
  "task_status ctx task = fld (task_state ctx (task_id task)) ''status''"

definition task_attempts :: "run_context \<Rightarrow> task_spec \<Rightarrow> pydict list" where
  "task_attempts ctx task = map dict_of (list_of (fld (task_state ctx (task_id task)) ''attempts''))"

definition task_completed :: "run_context \<Rightarrow> task_spec \<Rightarrow> bool" where
  "task_completed ctx task \<longleftrightarrow> task_status ctx task = PLit ''completed''"

definition add_output :: "pystr \<times> pyval \<Rightarrow> pydict \<Rightarrow> pyexc + pydict" where
  "add_output output outputs =
     (if map_of outputs (fst output) \<noteq> None then Inl EvidenceError
      else Inr (AList.update (fst output) (snd output) outputs))"

definition completed_outputs :: "run_context \<Rightarrow> pydict" where
  "completed_outputs ctx =
     fold (\<lambda>task outputs. if task_completed ctx task
        then merge_into outputs (dict_of (fld (task_state ctx (task_id task)) ''verified_outputs'')) else outputs)
       (suite_tasks (rc_suite ctx)) []"

definition workspace_completed_outputs :: "run_context \<Rightarrow> pydict \<Rightarrow> pyexc + pydict" where
  "workspace_completed_outputs ctx additional = rfold add_output additional (completed_outputs ctx)"

definition is_workspace_error :: "pyexc \<Rightarrow> bool" where
  "is_workspace_error e = (case e of WorkspaceVerificationError _ \<Rightarrow> True | _ \<Rightarrow> False)"

text \<open>\<open>None\<close> where the suite has no workspace.\<close>

definition bound_workspace_observation ::
  "host \<Rightarrow> run_context \<Rightarrow> pydict \<Rightarrow> pystr list \<Rightarrow> pyval option io" where
  "bound_workspace_observation H ctx additional volatile =
     (if plan_version (rc_plan ctx) \<noteq> 3 then ret None
      else let binding = dict_of (fld (rc_plan ctx) ''workspace'') in
      reraise (\<lambda>e. if is_workspace_error e then e else bench_to_evidence e)
        (iob (task_root H (rc_suite ctx)) (\<lambda>root.
         iob (workspace_manifest_path H (rc_suite ctx)) (\<lambda>manifest_path.
         iob (from_result (workspace_completed_outputs ctx additional)) (\<lambda>outputs.
         iob (verify_workspace (h_lib H) root manifest_path (fld binding ''manifest'')
               (fld binding ''baseline'') outputs volatile) (\<lambda>observation.
         ret (Some observation)))))))"

text \<open>One output of a task under recovery: where it is now, and its identity.\<close>

definition reconstruct_output :: "host \<Rightarrow> run_context \<Rightarrow> task_spec \<Rightarrow> nat \<Rightarrow> pystr \<Rightarrow> pydict \<Rightarrow> pydict io" where
  "reconstruct_output H ctx task attempt_number relative outputs =
     iob (task_root H (rc_suite ctx)) (\<lambda>root.
     iob (resolve_member (h_lib H) root relative) (\<lambda>source.
     iob (from_result (quarantine_artifact (h_lib H) (task_id task) attempt_number relative)) (\<lambda>artifact.
     iob (resolve_member (h_lib H) (rc_root ctx) artifact) (\<lambda>destination.
     iob (path_lexists source) (\<lambda>source_exists.
     iob (path_lexists destination) (\<lambda>destination_exists.
     if source_exists \<and> destination_exists then raise EvidenceError
     else if source_exists
     then iob (file_identity (h_lib H) source) (\<lambda>identity. ret (AList.update relative identity outputs))
     else if destination_exists
     then iob (file_identity (h_lib H) destination) (\<lambda>identity. ret (AList.update relative identity outputs))
     else ret outputs))))))"

definition recovery_workspace_observation ::
  "host \<Rightarrow> run_context \<Rightarrow> task_spec \<Rightarrow> pydict \<Rightarrow> pyval option io" where
  "recovery_workspace_observation H ctx task latest =
     iob (bound_workspace_observation H ctx [] (task_outputs task)) (\<lambda>current.
     let recorded = fld latest ''workspace_after'' in
     if recorded = PNone
     then (if fld latest ''status'' \<noteq> PLit ''running'' then raise EvidenceError else ret current)
     else let binding = dict_of (fld (rc_plan ctx) ''workspace'') in
     iob (workspace_manifest_path H (rc_suite ctx)) (\<lambda>manifest_path.
     iob (load_workspace_manifest (h_lib H) manifest_path (Some (fld binding ''manifest''))) (\<lambda>manifest.
     iob (from_result (workspace_completed_outputs ctx [])) (\<lambda>outputs.
     iob (io_fold (reconstruct_output H ctx task (nat (int_of (fld latest ''number'')))) (task_outputs task) outputs)
       (\<lambda>reconstructed_outputs.
     iob (from_result (project_workspace_summary (h_lib H) manifest reconstructed_outputs)) (\<lambda>reconstructed.
     if \<not> py_eq reconstructed recorded then raise EvidenceError else ret current))))))"

definition first_incomplete :: "run_context \<Rightarrow> task_spec option" where
  "first_incomplete ctx = find (\<lambda>task. \<not> task_completed ctx task) (suite_tasks (rc_suite ctx))"

definition started :: "pyval \<Rightarrow> bool" where
  "started status \<longleftrightarrow> status = PLit ''running'' \<or> status = PLit ''failed''"

definition current_workspace_observation :: "host \<Rightarrow> run_context \<Rightarrow> pyval option io" where
  "current_workspace_observation H ctx =
     (case first_incomplete ctx of
        None \<Rightarrow> bound_workspace_observation H ctx [] []
      | Some task \<Rightarrow>
          let status = task_status ctx task; attempts = task_attempts ctx task in
          if plan_version (rc_plan ctx) = 3 \<and> started status \<and> attempts \<noteq> []
          then recovery_workspace_observation H ctx task (last attempts)
          else iob (bound_workspace_observation H ctx [] (if started status then task_outputs task else [])) (\<lambda>observation.
          case observation of
            None \<Rightarrow> ret None
          | Some summary \<Rightarrow>
              if attempts = [] then ret observation
              else let expected = (if status = PLit ''pending'' then fld (last attempts) ''workspace_recovered''
                     else if started status then fld (last attempts) ''workspace_after'' else PNone) in
              if expected \<noteq> PNone \<and> \<not> py_eq summary expected then raise EvidenceError
              else ret observation))"

section \<open>Execution contexts\<close>

definition executable_candidate :: "host \<Rightarrow> suite_spec \<Rightarrow> pystr \<Rightarrow> path io" where
  "executable_candidate H suite raw =
     (if starts_with [47] raw then ret (text_parts raw)
      else if 47 \<in> set raw \<or> 92 \<in> set raw
      then iob (task_root H suite) (\<lambda>root. ret (root @ text_parts raw))
      else iob (peek (h_which H raw)) (\<lambda>located.
        case located of None \<Rightarrow> raise BoundaryError | Some p \<Rightarrow> ret p))"

definition executable_record :: "host \<Rightarrow> path \<Rightarrow> pyval \<Rightarrow> pyexc + pydict" where
  "executable_record H resolved identity =
     (let basename = (if resolved = [] then [] else last resolved) in
      case (utf8 basename, utf8 (path_text resolved)) of
        (Some encoded_basename, Some encoded_path) \<Rightarrow>
          if basename = [] \<or> length encoded_basename > 1024 then Inl BoundaryError
          else Inr (merge_into [(lit ''basename'', PStr basename),
            (lit ''path_sha256'', PStr (sha256 (h_lib H) encoded_path)),
            (lit ''path_utf8_size'', PInt (int (length encoded_path)))] (dict_of identity))
      | _ \<Rightarrow> Inl BoundaryError)"

definition resolved_executable :: "host \<Rightarrow> suite_spec \<Rightarrow> task_spec \<Rightarrow> (path \<times> pyval) io" where
  "resolved_executable H suite task =
     iob (executable_candidate H suite (hd (task_argv task))) (\<lambda>candidate.
     iob (reraise (\<lambda>e. if is_os_error e then BoundaryError else e)
           (iob (look (fs_resolve candidate)) (\<lambda>resolved.
            iob (file_identity (h_lib H) resolved) (\<lambda>identity. ret (resolved, identity))))) (\<lambda>(resolved, identity).
     iob (from_result (executable_record H resolved identity)) (\<lambda>r. ret (resolved, PDict r))))"

text \<open>Outside Windows no variable is passed on.\<close>

definition launch_environment :: "(pystr \<times> pystr) list \<times> pyval" where
  "launch_environment =
     ([], PDict [(lit ''inherit_parent'', PBool False), (lit ''static_variables'', PDict []),
        (lit ''runner_variables'', PList [PLit ''BENCHHANDOFF_ATTEMPT'', PLit ''BENCHHANDOFF_RUN_ID'',
           PLit ''BENCHHANDOFF_TASK_ID''])])"

definition digested :: "host \<Rightarrow> pydict \<Rightarrow> pyexc + pyval" where
  "digested H body =
     rbind (canonical_json_bytes (h_lib H) (PDict body)) (\<lambda>b.
     Inr (PDict (body @ [(lit ''context_sha256'', PStr (sha256 (h_lib H) b))])))"

definition task_execution_context ::
  "host \<Rightarrow> suite_spec \<Rightarrow> task_spec \<Rightarrow> (path \<times> (pystr \<times> pystr) list \<times> pyval) io" where
  "task_execution_context H suite task =
     (if \<not> uses_execution_context (suite_version suite) then raise EvidenceError
      else case suite_context suite of
        None \<Rightarrow> raise EvidenceError
      | Some c \<Rightarrow>
          iob (task_root H suite) (\<lambda>root.
          iob (member_identity (h_lib H) root (ctx_path c)) (\<lambda>descriptor_identity.
          iob (identity_or_raise descriptor_identity (digest_of (ctx_digest c) (ctx_size c))) (\<lambda>_.
          iob (resolved_executable H suite task) (\<lambda>(executable, identity).
          iob (process_scope_policy (h_group H)) (\<lambda>scope_policy.
          iob (from_result (digested H [(lit ''descriptor'', context_as_dict c),
                (lit ''environment'', snd launch_environment), (lit ''executable'', identity),
                (lit ''process_scope'', scope_policy)])) (\<lambda>body.
          ret (executable, fst launch_environment, body))))))))"

definition suite_execution_context :: "host \<Rightarrow> suite_spec \<Rightarrow> pyval option io" where
  "suite_execution_context H suite =
     (if suite_version suite = 1 then ret None
      else case suite_context suite of
        None \<Rightarrow> raise EvidenceError
      | Some c \<Rightarrow>
          iob (io_fold (\<lambda>task tasks. iob (task_execution_context H suite task) (\<lambda>(_, _, body).
                 ret (AList.update (task_id task) body tasks))) (suite_tasks suite) []) (\<lambda>tasks.
          iob (from_result (digested H [(lit ''descriptor'', context_as_dict c), (lit ''tasks'', PDict tasks)])) (\<lambda>body.
          ret (Some body))))"

text \<open>\<open>None\<close> for a suite of version 1, which has no execution context.\<close>

definition bound_task_execution_context ::
  "host \<Rightarrow> run_context \<Rightarrow> task_spec \<Rightarrow> (path \<times> (pystr \<times> pystr) list \<times> pydict) option io" where
  "bound_task_execution_context H ctx task =
     (if plan_version (rc_plan ctx) = 1 then ret None
      else iob (task_execution_context H (rc_suite ctx) task) (\<lambda>(executable, environment, current).
        let recorded = dict_of (fld (dict_of (fld (rc_plan ctx) ''execution_context'')) ''tasks'') in
        case map_of recorded (task_id task) of
          None \<Rightarrow> raise KeyError
        | Some expected \<Rightarrow>
            if \<not> py_eq current expected then raise EvidenceError
            else ret (Some (executable, environment, dict_of current))))"

definition verify_next_execution_context :: "host \<Rightarrow> run_context \<Rightarrow> unit io" where
  "verify_next_execution_context H ctx =
     (if plan_version (rc_plan ctx) = 1 then ret ()
      else case first_incomplete ctx of
        None \<Rightarrow> ret ()
      | Some task \<Rightarrow> iob (bound_task_execution_context H ctx task) (\<lambda>_. ret ()))"

section \<open>Before a run\<close>

definition preflight_output :: "host \<Rightarrow> path \<Rightarrow> pystr \<Rightarrow> unit io" where
  "preflight_output H root relative =
     iob (ensure_output_parent_boundary (h_lib H) root relative) (\<lambda>_.
     iob (ensure_member_absent (h_lib H) root relative) (\<lambda>_. ret ()))"

definition preflight_suite :: "host \<Rightarrow> suite_spec \<Rightarrow> (pydict \<times> pyval option \<times> pyval option) io" where
  "preflight_suite H suite =
     iob require_process_identity_support (\<lambda>_.
     iob (task_root H suite) (\<lambda>root.
     iob (io_fold (\<lambda>relative inputs. iob (member_identity (h_lib H) root relative) (\<lambda>identity.
            ret (AList.update relative identity inputs))) (suite_seed_inputs suite) []) (\<lambda>seed_inputs.
     iob (io_map (preflight_output H root) (concat (map task_outputs (suite_tasks suite)))) (\<lambda>_.
     iob (suite_execution_context H suite) (\<lambda>execution_context.
     iob (suite_workspace_binding H suite) (\<lambda>binding.
     ret (seed_inputs, execution_context, binding)))))))"

text \<open>The last two \<open>except\<close> clauses of the public functions.\<close>

definition evidence_or :: "pyexc \<Rightarrow> pyexc" where
  "evidence_or e = (if is_evidence_error e then e
     else if is_benchhandoff_error e then EvidenceError
     else if e = KeyError \<or> e = IndexError \<or> e = TypeError \<or> is_value_error e \<or> is_os_error e then EvidenceError
     else e)"

definition inspect_workspace_suite :: "host \<Rightarrow> path \<Rightarrow> pyval io" where
  "inspect_workspace_suite H suite_file =
     reraise evidence_or
       (iob (load_suite H suite_file) (\<lambda>suite.
        if suite_version suite \<noteq> 3 then raise EvidenceError
        else iob (preflight_suite H suite) (\<lambda>(seed_inputs, _, binding).
        case binding of
          None \<Rightarrow> raise EvidenceError
        | Some w \<Rightarrow>
            let workspace = dict_of w; manifest = dict_of (fld workspace ''manifest'') in
            ret (PDict [(lit ''status'', PLit ''matched''), (lit ''schema_version'', PInt (suite_version suite)),
              (lit ''policy'', fld workspace ''policy''), (lit ''tasks'', PInt (int (length (suite_tasks suite)))),
              (lit ''seed_inputs'', PInt (int (length seed_inputs))),
              (lit ''declared_outputs'', PInt (int (length (concat (map task_outputs (suite_tasks suite)))))),
              (lit ''manifest'', PDict [(lit ''sha256'', fld manifest ''sha256''), (lit ''size'', fld manifest ''size'')]),
              (lit ''workspace'', fld workspace ''baseline'')]))))"

definition file_record :: "path \<Rightarrow> pyval \<Rightarrow> pyval" where
  "file_record p identity = PDict (merge_into [(lit ''path'', PStr (path_text p))] (dict_of identity))"

definition initial_plan :: "host \<Rightarrow> suite_spec \<Rightarrow> path \<Rightarrow> pydict \<Rightarrow> pyval option \<Rightarrow> pyval option \<Rightarrow> pydict io" where
  "initial_plan H suite run_root seed_inputs execution_context binding =
     iob uuid4 (\<lambda>run_id. iob utc_now (\<lambda>now.
     ret ([(lit ''schema_version'', PInt (suite_version suite)), (lit ''kind'', PLit ''benchhandoff-plan''),
        (lit ''run_id'', PStr run_id), (lit ''created_at'', PStr now),
        (lit ''run_directory'', PStr (path_text run_root)),
        (lit ''suite_file'', file_record (suite_path suite) (suite_identity suite)),
        (lit ''suite_root'', PStr (path_text (suite_root suite))),
        (lit ''suite'', normalized suite), (lit ''seed_inputs'', PDict seed_inputs),
        (lit ''environment'', case h_platform H of (implementation, version, system) \<Rightarrow>
           PDict [(lit ''python_implementation'', PStr implementation), (lit ''python_version'', PStr version),
             (lit ''platform'', PStr (if system = [] then lit ''Unknown'' else system))])]
        @ (case execution_context of None \<Rightarrow> [] | Some c \<Rightarrow> [(lit ''execution_context'', c)])
        @ (case binding of None \<Rightarrow> [] | Some w \<Rightarrow> [(lit ''workspace'', w)]))))"

end
