(* ===== verification/Run_Evidence.thy ===== *)
theory Run_Evidence
  imports Run_Context
begin

text \<open>
  Reading a run back (\<^verbatim>\<open>src/src/benchhandoff/engine.py\<close>): the layout of the run directory, the
  attempt artifacts, the history of the workspace, \<^verbatim>\<open>_load_context\<close>, the checks of inputs and
  completed tasks, the evidence bundle and its verification, and the resume decision.
\<close>

section \<open>The run directory\<close>

definition topology_entry :: "pystr \<times> node \<Rightarrow> pyexc + pystr" where
  "topology_entry e =
     (case e of (name, nd) \<Rightarrow>
       if is_lnk nd then Inl EvidenceError
       else if name \<in> {PLAN_FILE, STATE_FILE, EVENTS_FILE, BUNDLE_FILE}
       then (if \<not> is_reg nd then Inl EvidenceError else Inr name)
       else if name \<in> {LOGS_DIRECTORY, QUARANTINE_DIRECTORY}
       then (if nd \<noteq> Dir then Inl EvidenceError else Inr name)
       else Inl EvidenceError)"

definition validate_run_root_topology :: "path \<Rightarrow> unit io" where
  "validate_run_root_topology run_root =
     iob (reraise (\<lambda>e. if is_os_error e then EvidenceError else e)
           (iob (look (fs_scandir run_root)) (\<lambda>entries. from_result (rmap topology_entry entries)))) (\<lambda>seen.
     if {PLAN_FILE, STATE_FILE, EVENTS_FILE, LOGS_DIRECTORY, QUARANTINE_DIRECTORY} \<subseteq> set seen
     then ret () else raise EvidenceError)"

section \<open>Attempt artifacts\<close>

definition note_log :: "pylib \<Rightarrow> path \<Rightarrow> pystr \<Rightarrow> pystr list \<Rightarrow> pystr list io" where
  "note_log L run_root relative logs =
     (if relative \<in> set logs then raise EvidenceError
      else iob (member_identity L run_root relative) (\<lambda>_. ret (relative # logs)))"

definition note_quarantine :: "pylib \<Rightarrow> path \<Rightarrow> pyval \<Rightarrow> pystr list \<Rightarrow> pystr list io" where
  "note_quarantine L run_root recorded artifacts =
     (let artifact = str_of (fld (dict_of recorded) ''artifact'') in
      if artifact \<in> set artifacts then raise EvidenceError
      else iob (member_identity L run_root artifact) (\<lambda>actual.
        iob (identity_or_raise actual recorded) (\<lambda>_. ret (artifact # artifacts))))"

definition note_attempt :: "pylib \<Rightarrow> path \<Rightarrow> pydict \<Rightarrow> pystr list \<times> pystr list \<Rightarrow> (pystr list \<times> pystr list) io" where
  "note_attempt L run_root attempt seen =
     iob (note_log L run_root (str_of (fld attempt ''stdout'')) (fst seen)) (\<lambda>logs.
     iob (note_log L run_root (str_of (fld attempt ''stderr'')) logs) (\<lambda>logs.
     iob (io_fold (note_quarantine L run_root) (list_of (fld attempt ''quarantined_outputs'')) (snd seen)) (\<lambda>artifacts.
     ret (logs, artifacts))))"

text \<open>\<open>state["tasks"][task["id"]]\<close> for a task of the plan.\<close>

definition recorded_state :: "pydict \<Rightarrow> pydict \<Rightarrow> pydict" where
  "recorded_state state task =
     (case map_of (dict_of (fld state ''tasks'')) (task_key task) of None \<Rightarrow> [] | Some v \<Rightarrow> dict_of v)"

definition recorded_attempts :: "pydict \<Rightarrow> pydict \<Rightarrow> pydict list" where
  "recorded_attempts state task = map dict_of (list_of (fld (recorded_state state task) ''attempts''))"

text \<open>The logs and the quarantine artifacts an interruption may have left without a record.\<close>

definition recoverable :: "pylib \<Rightarrow> pydict \<Rightarrow> pydict \<Rightarrow> pyexc + pystr list \<times> pystr list" where
  "recoverable L state plan =
     (case find (\<lambda>t. fld (recorded_state state t) ''status'' \<noteq> PLit ''completed'') (plan_tasks plan) of
        None \<Rightarrow> Inr ([], [])
      | Some t \<Rightarrow>
          let status = fld (recorded_state state t) ''status''; attempts = recorded_attempts state t;
              n = length attempts + 1 in
          if status = PLit ''pending''
          then Inr ([log_path (task_key t) n ''stdout'', log_path (task_key t) n ''stderr''], [])
          else if started status \<and> attempts \<noteq> [] \<and> \<not> has_key (last attempts) ''quarantined_outputs''
          then rbind (rmap (\<lambda>relative. quarantine_artifact L (task_key t) (nat (int_of (fld (last attempts) ''number'')))
                 (str_of relative)) (list_of (fld t ''outputs''))) (\<lambda>artifacts. Inr ([], artifacts))
          else Inr ([], []))"

text \<open>The order in which the code visits the set of unexpected logs is not fixed; here it is sorted.\<close>

definition check_orphan_log :: "pylib \<Rightarrow> path \<Rightarrow> pystr \<Rightarrow> unit io" where
  "check_orphan_log L run_root relative =
     iob (member_identity L run_root relative) (\<lambda>identity.
     if \<not> py_eq (fld (dict_of identity) ''size'') (PInt 0) then raise EvidenceError else ret ())"

definition validate_attempt_artifacts :: "host \<Rightarrow> path \<Rightarrow> pydict \<Rightarrow> pydict \<Rightarrow> unit io" where
  "validate_attempt_artifacts H run_root state plan =
     iob (io_fold (note_attempt (h_lib H) run_root) (concat (map (recorded_attempts state) (plan_tasks plan))) ([], []))
       (\<lambda>(referenced_logs, referenced_quarantine).
     iob (from_result (recoverable (h_lib H) state plan)) (\<lambda>(orphan_logs, recoverable_quarantine).
     iob (iter_regular_artifacts (h_lib H) (h_directories H) run_root [LOGS_DIRECTORY]) (\<lambda>current_logs.
     let unexpected_logs = filter (\<lambda>p. p \<notin> set referenced_logs) current_logs in
     if \<not> set referenced_logs \<subseteq> set current_logs then raise EvidenceError
     else if \<not> set unexpected_logs \<subseteq> set orphan_logs then raise EvidenceError
     else iob (io_map (check_orphan_log (h_lib H) run_root) unexpected_logs) (\<lambda>_.
     iob (iter_regular_artifacts (h_lib H) (h_directories H) run_root [QUARANTINE_DIRECTORY]) (\<lambda>current_quarantine.
     if \<not> set referenced_quarantine \<subseteq> set current_quarantine then raise EvidenceError
     else if \<not> set current_quarantine \<subseteq> set referenced_quarantine \<union> set recoverable_quarantine
     then raise EvidenceError
     else ret ())))))"

section \<open>The history of the workspace\<close>

definition partial_outputs :: "pydict \<Rightarrow> pydict" where
  "partial_outputs attempt =
     fold (\<lambda>r outputs. AList.update (str_of (fld (dict_of r) ''source''))
        (PDict [(lit ''sha256'', fld (dict_of r) ''sha256''), (lit ''size'', fld (dict_of r) ''size'')]) outputs)
       (list_of (fld attempt ''quarantined_outputs'')) []"

definition history_attempt :: "pylib \<Rightarrow> workspace_manifest \<Rightarrow> pydict \<Rightarrow> pyval \<Rightarrow> pydict \<Rightarrow> pyexc + unit" where
  "history_attempt L manifest sealed clean attempt =
     (if \<not> py_eq (fld attempt ''workspace_before'') clean then Inl EvidenceError
      else if fld attempt ''status'' = PLit ''completed''
      then rbind (project_workspace_summary L manifest (merge_into sealed (dict_of (fld attempt ''verified_outputs''))))
        (\<lambda>expected_after. if \<not> py_eq (fld attempt ''workspace_after'') expected_after then Inl EvidenceError else Inr ())
      else if has_key attempt ''quarantined_outputs''
      then rbind (project_workspace_summary L manifest (merge_into sealed (partial_outputs attempt))) (\<lambda>expected_after.
        if \<not> py_eq (fld attempt ''workspace_after'') expected_after then Inl EvidenceError
        else if \<not> py_eq (fld attempt ''workspace_recovered'') clean then Inl EvidenceError
        else Inr ())
      else Inr ())"

definition history_task :: "pylib \<Rightarrow> run_context \<Rightarrow> workspace_manifest \<Rightarrow> task_spec \<Rightarrow> pydict \<Rightarrow> pyexc + pydict" where
  "history_task L ctx manifest task sealed =
     rbind (project_workspace_summary L manifest sealed) (\<lambda>clean.
     rbind (rmap (history_attempt L manifest sealed clean) (task_attempts ctx task)) (\<lambda>_.
     Inr (if task_completed ctx task
          then merge_into sealed (dict_of (fld (task_state ctx (task_id task)) ''verified_outputs'')) else sealed)))"

definition validate_workspace_history :: "host \<Rightarrow> run_context \<Rightarrow> unit io" where
  "validate_workspace_history H ctx =
     (if plan_version (rc_plan ctx) \<noteq> 3 then ret ()
      else let binding = dict_of (fld (rc_plan ctx) ''workspace'') in
      iob (workspace_manifest_path H (rc_suite ctx)) (\<lambda>manifest_path.
      iob (load_workspace_manifest (h_lib H) manifest_path (Some (fld binding ''manifest''))) (\<lambda>manifest.
      if \<not> py_eq (wm_summary manifest) (fld binding ''baseline'') then raise EvidenceError
      else iob (from_result (rfold (history_task (h_lib H) ctx manifest) (suite_tasks (rc_suite ctx)) [])) (\<lambda>_. ret ()))))"

section \<open>Loading a run\<close>

definition bound_suite :: "host \<Rightarrow> path \<Rightarrow> pydict \<Rightarrow> suite_spec io" where
  "bound_suite H run_root plan =
     (let suite_file = fld plan ''suite_file'' in
      iob (reraise (\<lambda>e. if is_benchhandoff_error e \<or> is_os_error e \<or> is_value_error e then EvidenceError else e)
            (load_suite H (absolute H (str_of (fld (dict_of suite_file) ''path''))))) (\<lambda>suite.
      if PStr (path_text (suite_root suite)) \<noteq> fld plan ''suite_root'' then raise EvidenceError
      else iob (identity_or_raise (suite_identity suite) suite_file) (\<lambda>_.
      if \<not> py_eq (normalized suite) (fld plan ''suite'') then raise EvidenceError
      else iob (io_separate_trees run_root (suite_root suite)) (\<lambda>_. ret suite))))"

definition check_output_device :: "host \<Rightarrow> suite_spec \<Rightarrow> path \<Rightarrow> pystr \<Rightarrow> unit io" where
  "check_output_device H suite target relative =
     iob (task_root H suite) (\<lambda>root.
     iob (resolve_member (h_lib H) root relative) (\<lambda>output.
     iob (nearest_existing_directory (butlast output)) (\<lambda>output_parent.
     require_same_filesystem output_parent target)))"

definition check_seed :: "host \<Rightarrow> suite_spec \<Rightarrow> pystr \<times> pyval \<Rightarrow> unit io" where
  "check_seed H suite seed =
     iob (task_root H suite) (\<lambda>root.
     iob (member_identity (h_lib H) root (fst seed)) (\<lambda>actual. identity_or_raise actual (snd seed)))"

definition check_bound_tree :: "host \<Rightarrow> suite_spec \<Rightarrow> path \<Rightarrow> pydict \<Rightarrow> unit io" where
  "check_bound_tree H suite run_root plan =
     iob (checked_directory (run_root @ [LOGS_DIRECTORY])) (\<lambda>_.
     iob (checked_directory (run_root @ [QUARANTINE_DIRECTORY])) (\<lambda>quarantine_root.
     iob (task_root H suite) (\<lambda>root.
     iob (require_same_filesystem root quarantine_root) (\<lambda>_.
     iob (io_map (check_output_device H suite quarantine_root) (concat (map task_outputs (suite_tasks suite)))) (\<lambda>_.
     let seeds = dict_of (fld plan ''seed_inputs'') in
     if set (dkeys seeds) \<noteq> set (suite_seed_inputs suite) then raise EvidenceError
     else iob (io_map (check_seed H suite) seeds) (\<lambda>_. ret ()))))))"

definition load_context :: "host \<Rightarrow> path \<Rightarrow> run_context io" where
  "load_context H run_directory =
     iob (checked_directory run_directory) (\<lambda>run_root.
     iob (validate_run_root_topology run_root) (\<lambda>_.
     iob (read_json_file (h_lib H) (run_root @ [PLAN_FILE])) (\<lambda>plan_value.
     iob (from_result (validate_plan_shape (h_lib H) plan_value)) (\<lambda>_.
     let plan = dict_of plan_value in
     if fld plan ''run_directory'' \<noteq> PStr (path_text run_root) then raise EvidenceError
     else iob (read_json_file (h_lib H) (run_root @ [STATE_FILE])) (\<lambda>state_value.
     iob (from_result (validate_state_shape (h_lib H) plan state_value)) (\<lambda>_.
     let state = dict_of state_value in
     iob (file_identity (h_lib H) (run_root @ [PLAN_FILE])) (\<lambda>current_plan_identity.
     if \<not> py_eq (fld state ''plan_sha256'') (fld (dict_of current_plan_identity) ''sha256'') then raise EvidenceError
     else iob (bound_suite H run_root plan) (\<lambda>suite.
     iob (check_bound_tree H suite run_root plan) (\<lambda>_.
     iob (file_identity (h_lib H) (event_path run_root)) (\<lambda>_.
     iob (event_transition_status (h_lib H) run_root plan state) (\<lambda>_.
     iob (validate_attempt_artifacts H run_root state plan) (\<lambda>_.
     let ctx = \<lparr>rc_suite = suite, rc_root = run_root, rc_plan = plan, rc_state = state\<rparr> in
     iob (validate_workspace_history H ctx) (\<lambda>_.
     iob (current_workspace_observation H ctx) (\<lambda>_.
     ret ctx))))))))))))))"

section \<open>Inputs and completed tasks\<close>

definition producer_map :: "suite_spec \<Rightarrow> (pystr \<times> pystr) list" where
  "producer_map suite =
     fold (\<lambda>task m. fold (\<lambda>output. AList.update output (task_id task)) (task_outputs task) m) (suite_tasks suite) []"

definition expected_input :: "run_context \<Rightarrow> pystr \<Rightarrow> pyexc + pyval" where
  "expected_input ctx relative =
     (case map_of (dict_of (fld (rc_plan ctx) ''seed_inputs'')) relative of
        Some expected \<Rightarrow> Inr expected
      | None \<Rightarrow>
          (case map_of (producer_map (rc_suite ctx)) relative of
             None \<Rightarrow> Inl EvidenceError
           | Some producer_id \<Rightarrow>
               let producer_state = task_state ctx producer_id in
               if fld producer_state ''status'' \<noteq> PLit ''completed'' then Inl EvidenceError
               else (case map_of (dict_of (fld producer_state ''verified_outputs'')) relative of
                       Some (PDict d) \<Rightarrow> Inr (PDict d)
                     | _ \<Rightarrow> Inl EvidenceError)))"

definition verify_input :: "host \<Rightarrow> run_context \<Rightarrow> pystr \<Rightarrow> pydict \<Rightarrow> pydict io" where
  "verify_input H ctx relative inputs =
     iob (from_result (expected_input ctx relative)) (\<lambda>expected.
     iob (task_root H (rc_suite ctx)) (\<lambda>root.
     iob (member_identity (h_lib H) root relative) (\<lambda>actual.
     iob (identity_or_raise actual expected) (\<lambda>_. ret (AList.update relative actual inputs)))))"

definition expected_inputs :: "host \<Rightarrow> run_context \<Rightarrow> task_spec \<Rightarrow> pydict io" where
  "expected_inputs H ctx task = io_fold (verify_input H ctx) (task_inputs task) []"

text \<open>\<open>member_identity\<close> below the task root, compared with a record.\<close>

definition verify_member :: "host \<Rightarrow> suite_spec \<Rightarrow> pystr \<Rightarrow> pyval \<Rightarrow> unit io" where
  "verify_member H suite relative expected =
     iob (task_root H suite) (\<lambda>root.
     iob (member_identity (h_lib H) root relative) (\<lambda>actual. identity_or_raise actual expected))"

definition item :: "pydict \<Rightarrow> pystr \<Rightarrow> pyexc + pyval" where
  "item d k = (case map_of d k of None \<Rightarrow> Inl KeyError | Some v \<Rightarrow> Inr v)"

definition verify_completed_task :: "host \<Rightarrow> run_context \<Rightarrow> task_spec \<Rightarrow> unit io" where
  "verify_completed_task H ctx task =
     (let outputs = dict_of (fld (task_state ctx (task_id task)) ''verified_outputs'') in
      if set (dkeys outputs) \<noteq> set (task_outputs task) then raise EvidenceError
      else iob (io_map (\<lambda>relative. iob (from_result (item outputs relative)) (\<lambda>expected.
             verify_member H (rc_suite ctx) relative expected)) (task_outputs task)) (\<lambda>_. ret ()))"

definition verify_prefix_step :: "host \<Rightarrow> run_context \<Rightarrow> task_spec \<Rightarrow> bool \<Rightarrow> bool io" where
  "verify_prefix_step H ctx task saw_incomplete =
     (if task_completed ctx task
      then (if saw_incomplete then raise EvidenceError
            else iob (verify_completed_task H ctx task) (\<lambda>_. ret False))
      else ret True)"

definition verify_completed_prefix :: "host \<Rightarrow> run_context \<Rightarrow> unit io" where
  "verify_completed_prefix H ctx =
     iob (io_fold (verify_prefix_step H ctx) (suite_tasks (rc_suite ctx)) False) (\<lambda>_. ret ())"

definition total_attempts :: "run_context \<Rightarrow> nat" where
  "total_attempts ctx =
     sum_list (map (\<lambda>p. length (list_of (fld (dict_of (snd p)) ''attempts''))) (dict_of (fld (rc_state ctx) ''tasks'')))"

definition assert_resume_attempt_budget :: "run_context \<Rightarrow> unit io" where
  "assert_resume_attempt_budget ctx =
     (case first_incomplete ctx of
        None \<Rightarrow> ret ()
      | Some task \<Rightarrow>
          if length (task_attempts ctx task) \<ge> MAX_ATTEMPTS_PER_TASK then raise EvidenceError
          else if total_attempts ctx \<ge> MAX_TOTAL_ATTEMPTS then raise EvidenceError
          else ret ())"

section \<open>The bundle\<close>

definition artifact_paths :: "host \<Rightarrow> path \<Rightarrow> pystr list io" where
  "artifact_paths H run_root =
     iob (iter_regular_artifacts (h_lib H) (h_directories H) run_root [LOGS_DIRECTORY, QUARANTINE_DIRECTORY]) (\<lambda>dynamic.
     ret (sort ([PLAN_FILE, STATE_FILE, EVENTS_FILE] @ dynamic)))"

definition output_record :: "pystr \<Rightarrow> pystr \<Rightarrow> pyval \<Rightarrow> pyval" where
  "output_record tid relative identity =
     PDict (merge_into [(lit ''task_id'', PStr tid), (lit ''path'', PStr relative)] (dict_of identity))"

definition final_outputs :: "run_context \<Rightarrow> pyexc + pyval list" where
  "final_outputs ctx =
     rmap (\<lambda>(task, relative).
       rbind (item (dict_of (fld (task_state ctx (task_id task)) ''verified_outputs'')) relative) (\<lambda>identity.
       Inr (output_record (task_id task) relative identity)))
       (concat (map (\<lambda>task. map (Pair task) (task_outputs task)) (suite_tasks (rc_suite ctx))))"

text \<open>\<open>{"path": relative, **member_identity(run_root, relative)}\<close>\<close>

definition artifact_record :: "host \<Rightarrow> path \<Rightarrow> pystr \<Rightarrow> pyval io" where
  "artifact_record H run_root relative =
     iob (member_identity (h_lib H) run_root relative) (\<lambda>identity.
     ret (PDict (merge_into [(lit ''path'', PStr relative)] (dict_of identity))))"

definition bundle_body ::
  "run_context \<Rightarrow> pystr \<Rightarrow> pyval list \<Rightarrow> pyval list \<Rightarrow> pyval option \<Rightarrow> pyexc + pydict" where
  "bundle_body ctx now outputs run_artifacts final_workspace =
     (let plan = rc_plan ctx;
          base = [(lit ''schema_version'', fld plan ''schema_version''), (lit ''kind'', PLit ''benchhandoff-bundle''),
            (lit ''run_id'', fld plan ''run_id''), (lit ''created_at'', PStr now),
            (lit ''suite_file'', file_record (suite_path (rc_suite ctx)) (suite_identity (rc_suite ctx))),
            (lit ''seed_inputs'', fld plan ''seed_inputs''), (lit ''verified_outputs'', PList outputs),
            (lit ''run_artifacts'', PList run_artifacts)]
            @ (if uses_execution_context (plan_version plan)
               then [(lit ''execution_context'', fld plan ''execution_context'')] else []) in
      if plan_version plan \<noteq> 3 then Inr base
      else case final_workspace of
        None \<Rightarrow> Inl EvidenceError
      | Some w \<Rightarrow> Inr (base @ [(lit ''workspace'', fld plan ''workspace''), (lit ''final_workspace'', w)]))"

definition build_bundle :: "host \<Rightarrow> run_context \<Rightarrow> unit io" where
  "build_bundle H ctx =
     (if fld (rc_state ctx) ''pending_event'' \<noteq> PNone then raise EvidenceError
      else iob (event_transition_status (h_lib H) (rc_root ctx) (rc_plan ctx) (rc_state ctx)) (\<lambda>status.
      if status \<noteq> Stable then raise EvidenceError
      else iob (path_lexists (rc_root ctx @ [BUNDLE_FILE])) (\<lambda>found.
      if found then raise EvidenceError
      else iob (bound_workspace_observation H ctx [] []) (\<lambda>final_workspace.
      iob (artifact_paths H (rc_root ctx)) (\<lambda>paths.
      iob (io_map (artifact_record H (rc_root ctx)) paths) (\<lambda>run_artifacts.
      iob utc_now (\<lambda>now.
      iob (from_result (final_outputs ctx)) (\<lambda>outputs.
      iob (from_result (bundle_body ctx now outputs run_artifacts final_workspace)) (\<lambda>bundle.
      atomic_write_json (h_lib H) (rc_root ctx @ [BUNDLE_FILE]) (PDict bundle))))))))))"

definition bundle_required :: "int \<Rightarrow> string list" where
  "bundle_required version =
     [''schema_version'', ''kind'', ''run_id'', ''created_at'', ''suite_file'', ''seed_inputs'',
      ''verified_outputs'', ''run_artifacts'']
     @ (if uses_execution_context version then [''execution_context''] else [])
     @ (if version = 3 then [''workspace'', ''final_workspace''] else [])"

definition bundle_header :: "pylib \<Rightarrow> pydict \<Rightarrow> pydict \<Rightarrow> pyexc + unit" where
  "bundle_header L plan bundle =
     (let version = plan_version plan in
      rbind (exact_keys bundle (bundle_required version) []) (\<lambda>_.
      if \<not> non_bool_int (fld bundle ''schema_version'')
         \<or> \<not> py_eq (fld bundle ''schema_version'') (fld plan ''schema_version'')
         \<or> \<not> py_eq (fld bundle ''kind'') (PLit ''benchhandoff-bundle'') then Inl EvidenceError
      else if \<not> py_eq (fld bundle ''run_id'') (fld plan ''run_id'') then Inl EvidenceError
      else rbind (validate_text (fld bundle ''created_at'')) (\<lambda>_.
      rbind (validate_file_record (fld bundle ''suite_file'')) (\<lambda>_.
      if \<not> py_eq (fld bundle ''suite_file'') (fld plan ''suite_file'') then Inl EvidenceError
      else if uses_execution_context version \<and> \<not> py_eq (fld bundle ''execution_context'') (fld plan ''execution_context'')
      then Inl EvidenceError
      else rbind (if version = 3
            then rbind (validate_workspace_binding L (fld bundle ''workspace'')) (\<lambda>workspace.
                 if \<not> py_eq workspace (fld plan ''workspace'') then Inl EvidenceError
                 else rbind (validate_workspace_summary (fld bundle ''final_workspace'')) (\<lambda>_. Inr ()))
            else Inr ()) (\<lambda>_.
      rbind (validate_identity_map L (Some (set (dkeys (dict_of (fld plan ''seed_inputs''))))) (fld bundle ''seed_inputs''))
        (\<lambda>_. Inr ()))))))"

definition declared_output :: "pydict \<Rightarrow> pystr \<Rightarrow> pystr \<Rightarrow> bool" where
  "declared_output plan tid relative \<longleftrightarrow>
     (case map_of (map (\<lambda>t. (task_key t, t)) (plan_tasks plan)) tid of
        None \<Rightarrow> False
      | Some t \<Rightarrow> PStr relative \<in> set (list_of (fld t ''outputs'')))"

definition bundle_output_step :: "pylib \<Rightarrow> pydict \<Rightarrow> pyval \<Rightarrow> (pystr \<times> pystr) list \<Rightarrow> pyexc + (pystr \<times> pystr) list" where
  "bundle_output_step L plan v seen =
     (case v of
        PDict output \<Rightarrow>
          rbind (exact_keys output [''task_id'', ''path'', ''sha256'', ''size''] []) (\<lambda>_.
          rbind (validate_text (fld output ''task_id'')) (\<lambda>tid.
          rbind (validate_portable_path L (fld output ''path'')) (\<lambda>relative.
          if \<not> declared_output plan tid relative then Inl EvidenceError
          else if (tid, relative) \<in> set seen then Inl EvidenceError
          else rbind (validate_identity_fields output) (\<lambda>_. Inr ((tid, relative) # seen)))))
      | _ \<Rightarrow> Inl EvidenceError)"

definition bundle_artifact_step :: "pylib \<Rightarrow> pyval \<Rightarrow> pystr list \<Rightarrow> pyexc + pystr list" where
  "bundle_artifact_step L v seen =
     (case v of
        PDict artifact \<Rightarrow>
          rbind (exact_keys artifact [''path'', ''sha256'', ''size''] []) (\<lambda>_.
          rbind (validate_portable_path L (fld artifact ''path'')) (\<lambda>relative.
          if relative \<in> set seen then Inl EvidenceError
          else rbind (validate_identity_fields artifact) (\<lambda>_. Inr (relative # seen))))
      | _ \<Rightarrow> Inl EvidenceError)"

definition validate_bundle_shape :: "pylib \<Rightarrow> pydict \<Rightarrow> pyval \<Rightarrow> pyexc + unit" where
  "validate_bundle_shape L plan v =
     (case v of
        PDict bundle \<Rightarrow>
          rbind (bundle_header L plan bundle) (\<lambda>_.
          case fld bundle ''verified_outputs'' of
            PList outputs \<Rightarrow>
              rbind (rfold (bundle_output_step L plan) outputs []) (\<lambda>_.
              case fld bundle ''run_artifacts'' of
                PList artifacts \<Rightarrow> rbind (rfold (bundle_artifact_step L) artifacts []) (\<lambda>_. Inr ())
              | _ \<Rightarrow> Inl EvidenceError)
          | _ \<Rightarrow> Inl EvidenceError)
      | _ \<Rightarrow> Inl EvidenceError)"

section \<open>Verifying a run\<close>

definition recorded_artifact :: "pyval \<Rightarrow> pydict \<Rightarrow> pyexc + pydict" where
  "recorded_artifact artifact recorded =
     (case artifact of
        PDict d \<Rightarrow>
          (case fld d ''path'' of
             PStr relative \<Rightarrow>
               if map_of recorded relative \<noteq> None then Inl EvidenceError
               else Inr (AList.update relative artifact recorded)
           | _ \<Rightarrow> Inl EvidenceError)
      | _ \<Rightarrow> Inl EvidenceError)"

definition verify_artifact :: "host \<Rightarrow> path \<Rightarrow> pydict \<Rightarrow> pystr \<Rightarrow> unit io" where
  "verify_artifact H run_root recorded relative =
     iob (member_identity (h_lib H) run_root relative) (\<lambda>actual.
     iob (from_result (item recorded relative)) (\<lambda>expected. identity_or_raise actual expected))"

definition verify_final_workspace :: "host \<Rightarrow> run_context \<Rightarrow> pydict \<Rightarrow> unit io" where
  "verify_final_workspace H ctx bundle =
     (if plan_version (rc_plan ctx) \<noteq> 3 then ret ()
      else iob (bound_workspace_observation H ctx [] []) (\<lambda>current_workspace.
        case current_workspace of
          None \<Rightarrow> raise EvidenceError
        | Some w \<Rightarrow> if \<not> py_eq (fld bundle ''final_workspace'') w then raise EvidenceError else ret ()))"

text \<open>The outputs and the run artifacts against the bundle; the value counts them.\<close>

definition verify_bundle :: "host \<Rightarrow> run_context \<Rightarrow> pydict \<Rightarrow> (nat \<times> nat) io" where
  "verify_bundle H ctx bundle =
     iob (from_result (final_outputs ctx)) (\<lambda>expected_outputs.
     if \<not> py_eq (fld bundle ''verified_outputs'') (PList expected_outputs) then raise EvidenceError
     else iob (io_map (\<lambda>output. verify_member H (rc_suite ctx) (str_of (fld (dict_of output) ''path'')) output)
                 expected_outputs) (\<lambda>_.
     iob (from_result (rfold recorded_artifact (list_of (fld bundle ''run_artifacts'')) [])) (\<lambda>recorded.
     iob (artifact_paths H (rc_root ctx)) (\<lambda>current_paths.
     if set (dkeys recorded) \<noteq> set current_paths then raise EvidenceError
     else iob (io_map (verify_artifact H (rc_root ctx) recorded) current_paths) (\<lambda>_.
     ret (length expected_outputs, length current_paths))))))"

definition verify_run_checked :: "host \<Rightarrow> path \<Rightarrow> pyval io" where
  "verify_run_checked H run_directory =
     iob (load_context H run_directory) (\<lambda>ctx.
     if fld (rc_state ctx) ''pending_event'' \<noteq> PNone then raise EvidenceError
     else if fld (rc_state ctx) ''status'' \<noteq> PLit ''completed'' then raise EvidenceError
     else iob (read_json_file (h_lib H) (rc_root ctx @ [BUNDLE_FILE])) (\<lambda>bundle_value.
     iob (from_result (validate_bundle_shape (h_lib H) (rc_plan ctx) bundle_value)) (\<lambda>_.
     let bundle = dict_of bundle_value in
     if \<not> py_eq (fld bundle ''seed_inputs'') (fld (rc_plan ctx) ''seed_inputs'') then raise EvidenceError
     else iob (file_identity (h_lib H) (suite_path (rc_suite ctx))) (\<lambda>current_suite_identity.
     iob (identity_or_raise current_suite_identity (fld bundle ''suite_file'')) (\<lambda>_.
     iob (verify_final_workspace H ctx bundle) (\<lambda>_.
     iob (verify_bundle H ctx bundle) (\<lambda>(outputs, artifacts).
     ret (PDict [(lit ''status'', PLit ''verified''), (lit ''run_directory'', PStr (path_text (rc_root ctx))),
       (lit ''run_id'', fld (rc_plan ctx) ''run_id''), (lit ''tasks'', PInt (int (length (suite_tasks (rc_suite ctx))))),
       (lit ''outputs'', PInt (int outputs)), (lit ''artifacts'', PInt (int artifacts))]))))))))"

definition verify_run :: "host \<Rightarrow> path \<Rightarrow> pyval io" where
  "verify_run H run_directory = reraise evidence_or (verify_run_checked H run_directory)"

end
