(* ===== verification/Resume_Decision.thy ===== *)
theory Resume_Decision
  imports Run_Evidence
begin

text \<open>
  The decision whether and how an interrupted run can be resumed (\<^verbatim>\<open>_assert_recovery_liveness\<close>,
  \<^verbatim>\<open>_build_resume_decision\<close> and \<^verbatim>\<open>inspect_resume\<close> of \<^verbatim>\<open>src/src/benchhandoff/engine.py\<close>). It is bound to
  the evidence by a digest, which the operator hands back to authorise the resume.
\<close>

section \<open>Liveness of a recorded child\<close>

definition child_gone :: "pydict \<Rightarrow> unit io" where
  "child_gone attempt =
     (let process_id = fld attempt ''child_pid'' in
      if process_id = PNone then raise EvidenceError
      else iob (process_start_token process_id) (\<lambda>current_token.
        let pid_reused = (case current_token of None \<Rightarrow> False | Some t \<Rightarrow> PStr t \<noteq> fld attempt ''child_start_token'') in
        if pid_reused then ret ()
        else iob (process_liveness process_id) (\<lambda>liveness.
          if liveness \<noteq> Dead then raise EvidenceError else ret ())))"

definition scope_gone :: "host \<Rightarrow> pydict \<Rightarrow> unit io" where
  "scope_gone H attempt =
     (let sc = dict_of (fld attempt ''process_scope'') in
      if fld sc ''mode'' \<noteq> PLit GROUP_MODE then ret ()
      else iob (process_scope_liveness (h_ps H) (fld sc ''mode'') (fld sc ''scope_id'')) (\<lambda>liveness.
        if liveness \<noteq> Dead then raise EvidenceError else ret ()))"

definition attempt_gone :: "host \<Rightarrow> run_context \<Rightarrow> task_spec \<Rightarrow> unit io" where
  "attempt_gone H ctx task =
     (if task_status ctx task \<noteq> PLit ''running'' then ret ()
      else let attempts = task_attempts ctx task in
      if attempts = [] \<or> fld (last attempts) ''status'' \<noteq> PLit ''running'' then raise EvidenceError
      else if fld (last attempts) ''child_launch_guard'' = PBool True then raise EvidenceError
      else iob (child_gone (last attempts)) (\<lambda>_.
        if uses_execution_context (plan_version (rc_plan ctx)) then scope_gone H (last attempts) else ret ()))"

definition assert_recovery_liveness :: "host \<Rightarrow> run_context \<Rightarrow> unit io" where
  "assert_recovery_liveness H ctx = iob (io_map (attempt_gone H ctx) (suite_tasks (rc_suite ctx))) (\<lambda>_. ret ())"

section \<open>Observations\<close>

definition observe_output :: "host \<Rightarrow> run_context \<Rightarrow> pystr \<Rightarrow> pydict io" where
  "observe_output H ctx relative =
     iob (task_root H (rc_suite ctx)) (\<lambda>root.
     iob (resolve_member (h_lib H) root relative) (\<lambda>candidate.
     iob (path_lexists candidate) (\<lambda>found.
     if \<not> found then ret [(lit ''path'', PStr relative), (lit ''status'', PLit ''absent'')]
     else iob (file_identity (h_lib H) candidate) (\<lambda>identity.
       ret (merge_into [(lit ''path'', PStr relative), (lit ''status'', PLit ''present'')] (dict_of identity))))))"

definition current_output_observation :: "host \<Rightarrow> run_context \<Rightarrow> task_spec \<Rightarrow> pydict list io" where
  "current_output_observation H ctx task = io_map (observe_output H ctx) (task_outputs task)"

definition observe_quarantine :: "host \<Rightarrow> run_context \<Rightarrow> task_spec \<Rightarrow> nat \<Rightarrow> pystr \<Rightarrow> pydict io" where
  "observe_quarantine H ctx task attempt_number relative =
     iob (from_result (quarantine_artifact (h_lib H) (task_id task) attempt_number relative)) (\<lambda>artifact.
     iob (resolve_member (h_lib H) (rc_root ctx) artifact) (\<lambda>candidate.
     iob (path_lexists candidate) (\<lambda>found.
     let named = [(lit ''source'', PStr relative), (lit ''artifact'', PStr artifact)] in
     if \<not> found then ret (named @ [(lit ''status'', PLit ''absent'')])
     else iob (file_identity (h_lib H) candidate) (\<lambda>identity.
       ret (merge_into (named @ [(lit ''status'', PLit ''present'')]) (dict_of identity))))))"

definition quarantine_observation :: "host \<Rightarrow> run_context \<Rightarrow> task_spec \<Rightarrow> pydict list io" where
  "quarantine_observation H ctx task =
     (let attempts = task_attempts ctx task in
      if \<not> started (task_status ctx task) then ret []
      else if attempts = [] then raise EvidenceError
      else io_map (observe_quarantine H ctx task (nat (int_of (fld (last attempts) ''number'')))) (task_outputs task))"

section \<open>The decision\<close>

definition present_in :: "string \<Rightarrow> pydict list \<Rightarrow> pystr \<Rightarrow> bool" where
  "present_in key observations relative \<longleftrightarrow>
     (\<exists>e \<in> set observations. fld e key = PStr relative \<and> fld e ''status'' = PLit ''present'')"

definition with_path :: "pystr \<times> pyval \<Rightarrow> pyval" where
  "with_path p = PDict (merge_into [(lit ''path'', PStr (fst p))] (dict_of (snd p)))"

definition next_task_record :: "host \<Rightarrow> run_context \<Rightarrow> task_spec \<Rightarrow> pyval io" where
  "next_task_record H ctx task =
     iob (expected_inputs H ctx task) (\<lambda>verified_inputs.
     iob (current_output_observation H ctx task) (\<lambda>outputs.
     iob (quarantine_observation H ctx task) (\<lambda>quarantine.
     if \<exists>relative \<in> set (task_outputs task). present_in ''path'' outputs relative \<and> present_in ''source'' quarantine relative
     then raise EvidenceError
     else let record = [(lit ''id'', PStr (task_id task)), (lit ''current_status'', task_status ctx task),
            (lit ''next_attempt'', PInt (int (length (task_attempts ctx task)) + 1)),
            (lit ''verified_inputs'', PList (map with_path (sort_key fst verified_inputs))),
            (lit ''unverified_outputs'', PList (map PDict outputs)),
            (lit ''quarantine_candidates'', PList (map PDict quarantine))] in
     if \<not> uses_execution_context (plan_version (rc_plan ctx)) then ret (PDict record)
     else iob (bound_task_execution_context H ctx task) (\<lambda>current.
       ret (PDict (record @ [(lit ''execution_context'',
         case current of None \<Rightarrow> PNone | Some (_, _, body) \<Rightarrow> PDict body)]))))))"

definition completed_output_record :: "host \<Rightarrow> run_context \<Rightarrow> task_spec \<times> pystr \<Rightarrow> pyval io" where
  "completed_output_record H ctx p =
     iob (task_root H (rc_suite ctx)) (\<lambda>root.
     iob (member_identity (h_lib H) root (snd p)) (\<lambda>identity.
     ret (output_record (task_id (fst p)) (snd p) identity)))"

definition resume_action :: "run_context \<Rightarrow> bool \<Rightarrow> string io" where
  "resume_action ctx bundle_exists =
     (let completed = (fld (rc_state ctx) ''status'' = PLit ''completed'') in
      case first_incomplete ctx of
        None \<Rightarrow>
          if \<not> completed then raise EvidenceError
          else ret (if bundle_exists then ''already-complete'' else ''seal-completed-run'')
      | Some task \<Rightarrow>
          if bundle_exists then raise EvidenceError
          else iob (assert_resume_attempt_budget ctx) (\<lambda>_.
            ret (if started (task_status ctx task) then ''recover-and-resume'' else ''resume'')))"

definition decision_fields ::
  "run_context \<Rightarrow> string \<Rightarrow> task_spec list \<Rightarrow> pyval list \<Rightarrow> pyval \<Rightarrow> pyval \<Rightarrow> pyval list \<Rightarrow> pyval option \<Rightarrow> pydict" where
  "decision_fields ctx action sealed outputs next_task current_identity evidence observation =
     [(lit ''schema_version'', fld (rc_plan ctx) ''schema_version''), (lit ''kind'', PLit ''benchhandoff-resume-decision''),
      (lit ''run_id'', fld (rc_plan ctx) ''run_id''), (lit ''run_directory'', PStr (path_text (rc_root ctx))),
      (lit ''action'', PLit action), (lit ''completed_prefix'', PList (map (\<lambda>t. PStr (task_id t)) sealed)),
      (lit ''completed_outputs'', PList outputs), (lit ''next_task'', next_task),
      (lit ''suite_file'', file_record (suite_path (rc_suite ctx)) current_identity),
      (lit ''evidence_files'', PList evidence)]
     @ (case observation of None \<Rightarrow> [] | Some w \<Rightarrow> [(lit ''workspace'', w)])"

definition resume_decision_sha256 :: "pylib \<Rightarrow> pydict \<Rightarrow> pyexc + pystr" where
  "resume_decision_sha256 L decision =
     rbind (canonical_json_bytes L (PDict (filter (\<lambda>p. fst p \<noteq> lit ''decision_sha256'') decision))) (\<lambda>b.
     Inr (sha256 L b))"

definition build_resume_decision :: "host \<Rightarrow> run_context \<Rightarrow> pydict io" where
  "build_resume_decision H ctx =
     iob (event_transition_status (h_lib H) (rc_root ctx) (rc_plan ctx) (rc_state ctx)) (\<lambda>status.
     if status \<noteq> Stable then raise EvidenceError
     else iob (verify_completed_prefix H ctx) (\<lambda>_.
     iob (assert_recovery_liveness H ctx) (\<lambda>_.
     iob (current_workspace_observation H ctx) (\<lambda>observation.
     let sealed = takeWhile (task_completed ctx) (suite_tasks (rc_suite ctx)) in
     iob (io_map (completed_output_record H ctx) (concat (map (\<lambda>t. map (Pair t) (task_outputs t)) sealed))) (\<lambda>outputs.
     iob (path_lexists (rc_root ctx @ [BUNDLE_FILE])) (\<lambda>bundle_exists.
     iob (resume_action ctx bundle_exists) (\<lambda>action.
     iob (artifact_paths H (rc_root ctx)) (\<lambda>paths.
     iob (io_map (artifact_record H (rc_root ctx)) (sort (paths @ (if bundle_exists then [BUNDLE_FILE] else [])))) (\<lambda>evidence.
     iob (case first_incomplete ctx of None \<Rightarrow> ret PNone | Some task \<Rightarrow> next_task_record H ctx task) (\<lambda>next_task.
     iob (file_identity (h_lib H) (suite_path (rc_suite ctx))) (\<lambda>current_identity.
     let decision = decision_fields ctx action sealed outputs next_task current_identity evidence observation in
     iob (from_result (resume_decision_sha256 (h_lib H) decision)) (\<lambda>digest.
     ret (decision @ [(lit ''decision_sha256'', PStr digest)])))))))))))))"

definition inspect_resume_checked :: "host \<Rightarrow> path \<Rightarrow> pydict io" where
  "inspect_resume_checked H run_directory =
     iob (load_context H run_directory) (\<lambda>ctx.
     iob (path_lexists (rc_root ctx @ [BUNDLE_FILE])) (\<lambda>found.
     if found
     then iob (verify_run H (rc_root ctx)) (\<lambda>_.
          iob (load_context H (rc_root ctx)) (\<lambda>ctx1. build_resume_decision H ctx1))
     else build_resume_decision H ctx))"

definition inspect_resume :: "host \<Rightarrow> path \<Rightarrow> pydict io" where
  "inspect_resume H run_directory = reraise evidence_or (inspect_resume_checked H run_directory)"

end
