(* ===== verification/Run_Control.thy ===== *)
theory Run_Control
  imports Resume_Decision
begin

text \<open>
  Running and recovering tasks (\<^verbatim>\<open>src/src/benchhandoff/engine.py\<close>): the quarantine of the outputs of
  an interrupted attempt, the attempt logs, the supervision of a child process and the completion
  of an attempt.
\<close>

section \<open>Updates of the state\<close>

definition set_task :: "pystr \<Rightarrow> pydict \<Rightarrow> run_context \<Rightarrow> run_context" where
  "set_task tid d ctx =
     ctx\<lparr>rc_state := dset ''tasks'' (PDict (AList.update tid (PDict d) (dict_of (fld (rc_state ctx) ''tasks''))))
       (rc_state ctx)\<rparr>"

text \<open>The attempt at the end of the list, which the code changes in place.\<close>

definition set_latest :: "pydict \<Rightarrow> pydict \<Rightarrow> pydict" where
  "set_latest attempt d = dset ''attempts'' (PList (butlast (list_of (fld d ''attempts'')) @ [PDict attempt])) d"

definition put_attempt :: "task_spec \<Rightarrow> pydict \<Rightarrow> run_context \<Rightarrow> run_context" where
  "put_attempt task attempt ctx = set_task (task_id task) (set_latest attempt (task_state ctx (task_id task))) ctx"

definition set_state :: "string \<Rightarrow> pyval \<Rightarrow> run_context \<Rightarrow> run_context" where
  "set_state k v ctx = ctx\<lparr>rc_state := dset k v (rc_state ctx)\<rparr>"

text \<open>\<open>attempt["process_scope"].update(...)\<close>\<close>

definition update_scope :: "pydict \<Rightarrow> pydict \<Rightarrow> pydict" where
  "update_scope changes attempt =
     dset ''process_scope'' (PDict (merge_into (dict_of (fld attempt ''process_scope'')) changes)) attempt"

definition scope_empty :: "string \<Rightarrow> pydict" where
  "scope_empty closure = [(lit ''empty_confirmed'', PBool True), (lit ''closure'', PLit closure)]"

section \<open>Recovery of an interrupted task\<close>

definition mark_interrupted :: "int \<Rightarrow> pystr \<Rightarrow> pydict \<Rightarrow> pydict" where
  "mark_interrupted version now latest =
     (let a = dset ''interruption_reason'' (PLit ''runner did not record a terminal child result'')
            (dset ''ended_at'' (PStr now) (dset ''status'' (PLit ''interrupted'') latest));
          b = (if uses_execution_context version then update_scope (scope_empty ''recovered-empty'') a else a) in
      if fld b ''child_pid'' \<noteq> PNone \<and> fld b ''return_code'' = PNone
      then dset ''return_code_unavailable_reason''
             (PLit ''the recorded child identity was no longer live when resume began'') b
      else b)"

definition quarantine_output ::
  "host \<Rightarrow> run_context \<Rightarrow> task_spec \<Rightarrow> nat \<Rightarrow> path \<Rightarrow> pystr \<Rightarrow> pyval list \<Rightarrow> pyval list io" where
  "quarantine_output H ctx task attempt_number quarantine_root relative quarantined =
     iob (task_root H (rc_suite ctx)) (\<lambda>root.
     iob (resolve_member (h_lib H) root relative) (\<lambda>source.
     iob (from_result (quarantine_name (h_lib H) (task_id task) attempt_number relative)) (\<lambda>destination_name.
     let destination = quarantine_root @ [destination_name];
         record = (\<lambda>identity. PDict (merge_into [(lit ''source'', PStr relative),
           (lit ''artifact'', PStr (QUARANTINE_DIRECTORY @ [47] @ destination_name))] (dict_of identity))) in
     iob (path_lexists source) (\<lambda>source_exists.
     iob (path_lexists destination) (\<lambda>destination_exists.
     if source_exists \<and> destination_exists then raise EvidenceError
     else if source_exists
     then iob (move_regular_same_filesystem (h_lib H) source destination) (\<lambda>identity. ret (quarantined @ [record identity]))
     else if destination_exists
     then iob (file_identity (h_lib H) destination) (\<lambda>identity. ret (quarantined @ [record identity]))
     else ret quarantined)))))"

definition option_val :: "pyval option \<Rightarrow> pyval" where
  "option_val v = (case v of None \<Rightarrow> PNone | Some x \<Rightarrow> x)"

definition recovery_observed :: "host \<Rightarrow> run_context \<Rightarrow> task_spec \<Rightarrow> pydict \<Rightarrow> pydict io" where
  "recovery_observed H ctx task latest =
     (if plan_version (rc_plan ctx) \<noteq> 3 then ret latest
      else iob (recovery_workspace_observation H ctx task latest) (\<lambda>current.
        ret (if fld latest ''workspace_after'' = PNone then dset ''workspace_after'' (option_val current) latest else latest)))"

definition recovered_attempt :: "host \<Rightarrow> run_context \<Rightarrow> pydict \<Rightarrow> pyval list \<Rightarrow> pydict io" where
  "recovered_attempt H ctx latest quarantined =
     (let recorded = fld latest ''quarantined_outputs'' in
      if recorded \<noteq> PNone \<and> \<not> py_eq recorded (PList quarantined) then raise EvidenceError
      else let a = dset ''quarantined_outputs'' (PList quarantined) latest in
      if plan_version (rc_plan ctx) = 3
      then iob (bound_workspace_observation H ctx [] []) (\<lambda>w. ret (dset ''workspace_recovered'' (option_val w) a))
      else ret (filter (\<lambda>p. fst p \<noteq> lit ''workspace_recovered'') a))"

definition recover_incomplete_task :: "host \<Rightarrow> run_context \<Rightarrow> task_spec \<Rightarrow> run_context io" where
  "recover_incomplete_task H ctx task =
     (let previous_status = task_status ctx task; attempts = task_attempts ctx task in
      if attempts = [] then raise EvidenceError
      else let number = fld (last attempts) ''number'' in
      if \<not> (non_bool_int number \<and> int_of number > 0) then raise EvidenceError
      else iob (assert_recovery_liveness H ctx) (\<lambda>_.
      iob (recovery_observed H ctx task (last attempts)) (\<lambda>latest.
      iob utc_now (\<lambda>now.
      let interrupted = (if previous_status = PLit ''running''
            then mark_interrupted (plan_version (rc_plan ctx)) now latest else latest) in
      iob (checked_directory (rc_root ctx @ [QUARANTINE_DIRECTORY])) (\<lambda>quarantine_root.
      iob (io_fold (quarantine_output H ctx task (nat (int_of number)) quarantine_root) (task_outputs task) []) (\<lambda>quarantined.
      iob (recovered_attempt H ctx interrupted quarantined) (\<lambda>attempt.
      let state = dset ''verified_outputs'' (PDict []) (dset ''verified_inputs'' (PDict [])
            (dset ''status'' (PLit ''pending'') (set_latest attempt (task_state ctx (task_id task))))) in
      commit_transition (h_lib H) (set_task (task_id task) state ctx) (lit ''task_recovery_prepared'') (Some (task_id task))
        [(lit ''previous_status'', previous_status), (lit ''attempt'', number),
         (lit ''quarantined_outputs'', PInt (int (length quarantined)))])))))))"

section \<open>Attempt logs\<close>

definition close_descriptor :: "unit io" where
  "close_descriptor = look (\<lambda>_. Inr ())"

definition task_log_directory :: "host \<Rightarrow> run_context \<Rightarrow> task_spec \<Rightarrow> path io" where
  "task_log_directory H ctx task =
     iob (checked_directory (rc_root ctx @ [LOGS_DIRECTORY])) (\<lambda>logs_root.
     let destination = logs_root @ [task_id task] in
     iob (path_lexists destination) (\<lambda>found.
     if found then checked_directory destination
     else iob (fs_mkdir destination) (\<lambda>_. checked_directory destination)))"

definition open_attempt_log :: "host \<Rightarrow> bool \<Rightarrow> path \<Rightarrow> ino io" where
  "open_attempt_log H create p =
     iob (if create then sys (fs_create (Reg []) p)
          else iob (reraise (\<lambda>e. if e = BoundaryError then EvidenceError else e) (file_identity (h_lib H) p)) (\<lambda>existing.
            if \<not> py_eq (fld (dict_of existing) ''size'') (PInt 0) then raise EvidenceError
            else look (fs_open_nofollow p))) (\<lambda>descriptor.
     on_exception
       (iob (look (\<lambda>s. Inr (stat_ino s descriptor))) (\<lambda>metadata.
        if \<not> is_reg (st_node metadata) \<or> node_size (st_node metadata) \<noteq> 0 then raise EvidenceError else ret descriptor))
       close_descriptor)"

definition to_evidence :: "pyexc \<Rightarrow> pyexc" where
  "to_evidence e = (if e = KeyboardInterrupt \<or> is_benchhandoff_error e then e else EvidenceError)"

definition prepare_attempt_logs :: "host \<Rightarrow> path \<Rightarrow> path \<Rightarrow> unit io" where
  "prepare_attempt_logs H stdout_path stderr_path =
     iob (path_lexists stdout_path) (\<lambda>stdout_exists.
     iob (path_lexists stderr_path) (\<lambda>stderr_exists.
     iob (reraise to_evidence (open_attempt_log H (\<not> stdout_exists) stdout_path)) (\<lambda>_.
     reraise to_evidence
       (iob (on_exception (open_attempt_log H (\<not> stderr_exists) stderr_path) close_descriptor) (\<lambda>_. ret ())))))"

definition close_logs :: "unit io" where
  "close_logs = iob close_descriptor (\<lambda>_. close_descriptor)"

section \<open>Supervising a child\<close>

text \<open>\<open>try: m\<close> with the exception as a value, for code that goes on after it.\<close>

definition tried :: "'a io \<Rightarrow> (pyexc + 'a) io" where
  "tried m = handle (iob m (\<lambda>x. ret (Inr x))) (\<lambda>e. ret (Inl e))"

record managed =
  m_pid :: nat
  m_process :: controllable
  m_scope :: "scope option"

record child_outcome =
  co_attempt :: pydict
  co_return_code :: "int option"
  co_launch_error :: "pystr option"
  co_interrupted :: bool
  co_launched :: bool

text \<open>
  A step of the supervision: its result or exception, and the child with its scope, which the
  clean-up afterwards needs in either case.
\<close>

type_synonym 'a supervised = "((pyexc + 'a) \<times> managed option) io"

definition five_seconds :: "host \<Rightarrow> nat" where
  "five_seconds H = 5 * h_second H"

definition stop_managed_process :: "host \<Rightarrow> managed \<Rightarrow> pydict \<Rightarrow> (int \<times> pydict) supervised" where
  "stop_managed_process H m attempt =
     (case m_scope m of
        None \<Rightarrow>
          iob (tried (stop_process (m_process m) (five_seconds H) (five_seconds H))) (\<lambda>r.
          ret (rbind r (\<lambda>code. Inr (code, attempt)), Some m))
      | Some sc \<Rightarrow>
          iob (tried (iob (scope_terminate (h_ps H) (h_rounds H) sc (five_seconds H) (five_seconds H)) (\<lambda>code.
                iob (scope_wait_empty (h_ps H) (h_rounds H) sc 0) (\<lambda>gone.
                if \<not> gone then raise EvidenceError else ret code)))) (\<lambda>r.
          case r of
            Inl e \<Rightarrow> ret (Inl e, Some m)
          | Inr code \<Rightarrow>
              iob (tried (scope_close (h_ps H) (h_rounds H) (five_seconds H) sc)) (\<lambda>c.
              ret (case c of
                     Inl e \<Rightarrow> (Inl e, Some m)
                   | Inr closed \<Rightarrow> (Inr (code, update_scope (scope_empty ''terminated'') attempt),
                                   Some (m\<lparr>m_scope := Some closed\<rparr>))))))"

definition scope_start :: "host \<Rightarrow> launch \<Rightarrow> managed io" where
  "scope_start H l =
     iob (process_scope_policy (h_group H)) (\<lambda>policy.
     if fld (dict_of policy) ''mode'' \<noteq> PLit GROUP_MODE then raise EvidenceError
     else iob (h_spawn H l) (\<lambda>(child, p).
       ret \<lparr>m_pid = child, m_process = p,
         m_scope = Some \<lparr>sc_group = child, sc_process = p, sc_backend_closed = False, sc_closed = False\<rparr>\<rparr>))"

definition child_environment :: "host \<Rightarrow> run_context \<Rightarrow> task_spec \<Rightarrow> nat \<Rightarrow> (pystr \<times> pystr) list \<Rightarrow> (pystr \<times> pystr) list" where
  "child_environment H ctx task attempt_number base =
     fold (\<lambda>p. AList.update (fst p) (snd p))
       [(lit ''BENCHHANDOFF_RUN_ID'', str_of (fld (rc_plan ctx) ''run_id'')),
        (lit ''BENCHHANDOFF_TASK_ID'', task_id task), (lit ''BENCHHANDOFF_ATTEMPT'', dec attempt_number)]
       (if plan_version (rc_plan ctx) = 1 then h_environ H else base)"

type_synonym bound_context = "(path \<times> (pystr \<times> pystr) list \<times> pydict) option"

definition spawn_child :: "host \<Rightarrow> run_context \<Rightarrow> task_spec \<Rightarrow> nat \<Rightarrow> bound_context \<Rightarrow> managed io" where
  "spawn_child H ctx task attempt_number bound =
     iob (task_root H (rc_suite ctx)) (\<lambda>cwd.
     case bound of
       None \<Rightarrow>
         iob (h_spawn H \<lparr>la_argv = task_argv task, la_executable = None, la_cwd = cwd,
                la_env = child_environment H ctx task attempt_number [], la_new_session = False\<rparr>) (\<lambda>(child, p).
         ret \<lparr>m_pid = child, m_process = p, m_scope = None\<rparr>)
     | Some (executable, base, _) \<Rightarrow>
         scope_start H \<lparr>la_argv = task_argv task, la_executable = Some executable, la_cwd = cwd,
           la_env = child_environment H ctx task attempt_number base, la_new_session = True\<rparr>)"

definition launch_failed :: "bound_context \<Rightarrow> pyexc \<Rightarrow> pydict \<Rightarrow> pydict" where
  "launch_failed bound e attempt =
     (let a = dset ''child_launch_guard'' (PBool False) attempt in
      if bound = None then a
      else update_scope [(lit ''scope_id'', PNone), (lit ''empty_confirmed'', PBool True),
        (lit ''closure'', PLit (if e = ProcessScopeLaunchError then ''launch-cleaned'' else ''not-created''))] a)"

text \<open>Whether a launched scope has the mode of the bound execution context.\<close>

definition scope_as_bound :: "bound_context \<Rightarrow> bool" where
  "scope_as_bound bound \<longleftrightarrow>
     (case bound of
        None \<Rightarrow> True
      | Some (_, _, body) \<Rightarrow>
          let policy = dict_of (fld body ''process_scope'') in
          fld policy ''mode'' = PLit GROUP_MODE \<and> fld policy ''cooperative'' = PBool True)"

definition launch_child ::
  "host \<Rightarrow> run_context \<Rightarrow> task_spec \<Rightarrow> nat \<Rightarrow> bound_context \<Rightarrow> pydict \<Rightarrow> (pydict \<times> pystr option) supervised" where
  "launch_child H ctx task attempt_number bound attempt =
     (let failed = (\<lambda>e m. if is_os_error e \<or> e = ProcessScopeLaunchError
            then iob (exc_text H e) (\<lambda>text.
              ret (Inr (launch_failed bound e attempt, Some (lit ''child launch failed: '' @ text)), m))
            else ret (Inl e, m)) in
      iob (tried (spawn_child H ctx task attempt_number bound)) (\<lambda>r.
      case r of
        Inl e \<Rightarrow> failed e None
      | Inr m \<Rightarrow>
          if scope_as_bound bound then ret (Inr (attempt, None), Some m)
          else iob (stop_managed_process H m attempt) (\<lambda>(s, m').
            case s of Inl e \<Rightarrow> failed e m' | Inr _ \<Rightarrow> ret (Inl EvidenceError, m'))))"

text \<open>\<open>type(exc).__name__\<close>\<close>

fun exc_name :: "pyexc \<Rightarrow> string" where
  "exc_name OSError = ''OSError''"
| "exc_name FileNotFoundError = ''FileNotFoundError''"
| "exc_name FileExistsError = ''FileExistsError''"
| "exc_name ProcessLookupError = ''ProcessLookupError''"
| "exc_name PermissionError = ''PermissionError''"
| "exc_name TimeoutExpired = ''TimeoutExpired''"
| "exc_name UnicodeEncodeError = ''UnicodeEncodeError''"
| "exc_name UnicodeDecodeError = ''UnicodeDecodeError''"
| "exc_name JSONDecodeError = ''JSONDecodeError''"
| "exc_name ValueError = ''ValueError''"
| "exc_name KeyError = ''KeyError''"
| "exc_name IndexError = ''IndexError''"
| "exc_name TypeError = ''TypeError''"
| "exc_name RuntimeError = ''RuntimeError''"
| "exc_name KeyboardInterrupt = ''KeyboardInterrupt''"
| "exc_name ConfigurationError = ''ConfigurationError''"
| "exc_name BoundaryError = ''BoundaryError''"
| "exc_name TaskExecutionError = ''TaskExecutionError''"
| "exc_name EvidenceError = ''EvidenceError''"
| "exc_name (WorkspaceVerificationError _) = ''WorkspaceVerificationError''"
| "exc_name ProcessScopeLaunchError = ''ProcessScopeLaunchError''"
| "exc_name InvalidRequest = ''InvalidRequest''"

text \<open>
  After the stop of a child that could not be watched: an exception of the stop is raised, as an
  \<open>EvidenceError\<close> where the code wraps it; otherwise the supervision goes on with the outcome.
\<close>

definition stop_then ::
  "host \<Rightarrow> managed \<Rightarrow> pydict \<Rightarrow> (pydict \<Rightarrow> int \<Rightarrow> child_outcome supervised) \<Rightarrow> child_outcome supervised" where
  "stop_then H m attempt k =
     iob (stop_managed_process H m attempt) (\<lambda>(r, m').
     case r of
       Inl e \<Rightarrow> ret (Inl (if is_evidence_error e then EvidenceError else e), m')
     | Inr (code, a) \<Rightarrow> iob (k a code) (\<lambda>(r', _). ret (r', m')))"

definition outcome :: "pydict \<Rightarrow> int option \<Rightarrow> pystr option \<Rightarrow> bool \<Rightarrow> child_outcome" where
  "outcome attempt return_code launch_error interrupted =
     \<lparr>co_attempt = attempt, co_return_code = return_code, co_launch_error = launch_error,
      co_interrupted = interrupted, co_launched = True\<rparr>"

definition end_with :: "child_outcome \<Rightarrow> child_outcome supervised" where
  "end_with co = ret (Inr co, None)"

text \<open>After the leader has exited: the rest of its process group.\<close>

definition settle_scope :: "host \<Rightarrow> managed \<Rightarrow> bound_context \<Rightarrow> pydict \<Rightarrow> int \<Rightarrow> child_outcome supervised" where
  "settle_scope H m bound attempt code =
     (if bound = None then ret (Inr (outcome attempt (Some code) None False), Some m)
      else case m_scope m of
        None \<Rightarrow> ret (Inl EvidenceError, Some m)
      | Some sc \<Rightarrow>
          iob (tried (scope_wait_empty (h_ps H) (h_rounds H) sc (h_second H div 4))) (\<lambda>r.
          case r of
            Inl e \<Rightarrow> ret (Inl e, Some m)
          | Inr gone \<Rightarrow>
              if gone
              then iob (tried (scope_close (h_ps H) (h_rounds H) (five_seconds H) sc)) (\<lambda>c.
                ret (case c of
                       Inl e \<Rightarrow> (Inl e, Some m)
                     | Inr closed \<Rightarrow> (Inr (outcome (update_scope (scope_empty ''natural-empty'') attempt) (Some code) None False),
                                     Some (m\<lparr>m_scope := Some closed\<rparr>))))
              else iob (stop_managed_process H m attempt) (\<lambda>(r', m').
                ret (rbind r' (\<lambda>(code', a). Inr (outcome a (Some code')
                       (Some (lit ''process scope remained active after its leader exited'')) False)), m'))))"

definition await_child :: "host \<Rightarrow> managed \<Rightarrow> bound_context \<Rightarrow> pydict \<Rightarrow> child_outcome supervised" where
  "await_child H m bound attempt =
     iob (tried (c_join (m_process m))) (\<lambda>r.
     case r of
       Inr code \<Rightarrow> settle_scope H m bound attempt code
     | Inl e \<Rightarrow>
         if e = KeyboardInterrupt
         then iob (stop_managed_process H m attempt) (\<lambda>(r', m').
           ret (rbind r' (\<lambda>(code, a). Inr (outcome a (Some code) None True)), m'))
         else if is_os_error e
         then stop_then H m attempt (\<lambda>a code. iob (exc_text H e) (\<lambda>text.
           end_with (outcome a (Some code) (Some (lit ''child wait failed: '' @ text)) False)))
         else ret (Inl e, Some m))"

text \<open>The child identity is written to the state before the child is watched.\<close>

definition watch_child ::
  "host \<Rightarrow> run_context \<Rightarrow> task_spec \<Rightarrow> managed \<Rightarrow> bound_context \<Rightarrow> pystr option \<Rightarrow> pydict \<Rightarrow> child_outcome supervised" where
  "watch_child H ctx task m bound launch_error attempt =
     iob (tried (write_state (h_lib H) (put_attempt task attempt ctx))) (\<lambda>r.
     case r of
       Inr _ \<Rightarrow>
         if launch_error = None then await_child H m bound attempt
         else ret (Inr (outcome attempt None launch_error False), Some m)
     | Inl e \<Rightarrow>
         if e = KeyboardInterrupt
         then iob (stop_managed_process H m attempt) (\<lambda>(r', m').
           ret (rbind r' (\<lambda>(code, a). Inr (outcome a (Some code) launch_error True)), m'))
         else stop_then H m attempt (\<lambda>a code.
           if is_benchhandoff_error e then ret (Inl e, None)
           else iob (exc_text H e) (\<lambda>text.
             end_with (outcome a (Some code)
               (Some (lit ''unable to persist child identity before monitoring: '' @ lit (exc_name e) @ lit '': '' @ text))
               False))))"

definition supervise_child ::
  "host \<Rightarrow> run_context \<Rightarrow> task_spec \<Rightarrow> managed \<Rightarrow> bound_context \<Rightarrow> pystr option \<Rightarrow> pydict \<Rightarrow> child_outcome supervised" where
  "supervise_child H ctx task m bound launch_error attempt =
     (let a = dset ''child_pid'' (PInt (int (m_pid m))) attempt;
          b = (if bound = None then a
               else update_scope [(lit ''scope_id'', PInt (int (m_pid m))), (lit ''closure'', PLit ''active'')] a) in
      iob (tried (process_start_token (PInt (int (m_pid m))))) (\<lambda>r.
      case r of
        Inl e \<Rightarrow> ret (Inl e, Some m)
      | Inr None \<Rightarrow>
          stop_then H m (dset ''child_start_token'' (PLit ''unavailable'') b) (\<lambda>c code.
            end_with (outcome (dset ''child_launch_guard'' (PBool False) c) (Some code)
              (Some (lit ''unable to capture a stable child process start identity'')) False))
      | Inr (Some token) \<Rightarrow>
          watch_child H ctx task m bound launch_error
            (dset ''child_launch_guard'' (PBool False) (dset ''child_start_token'' (PStr token) b))))"

text \<open>The \<open>try\<close> block of the supervision, and the \<open>finally\<close> block after it.\<close>

definition supervised_body ::
  "host \<Rightarrow> run_context \<Rightarrow> task_spec \<Rightarrow> nat \<Rightarrow> bound_context \<Rightarrow> pydict \<Rightarrow> child_outcome supervised" where
  "supervised_body H ctx task attempt_number bound attempt =
     iob (launch_child H ctx task attempt_number bound attempt) (\<lambda>(r, m).
     case r of
       Inl e \<Rightarrow> ret (Inl e, m)
     | Inr (a, launch_error) \<Rightarrow>
         (case m of
            None \<Rightarrow> ret (Inr ((outcome a None launch_error False)\<lparr>co_launched := False\<rparr>), None)
          | Some child \<Rightarrow> supervise_child H ctx task child bound launch_error a))"

definition close_supervised :: "host \<Rightarrow> managed option \<Rightarrow> unit io" where
  "close_supervised H m =
     iob (case Option.bind m m_scope of
            None \<Rightarrow> ret False
          | Some sc \<Rightarrow>
              handle (iob (scope_close (h_ps H) (h_rounds H) (five_seconds H) sc) (\<lambda>_. ret False))
                (\<lambda>e. if is_evidence_error e then ret True else raise e)) (\<lambda>cleanup_error.
     iob close_logs (\<lambda>_. if cleanup_error then raise EvidenceError else ret ()))"

definition supervise :: "host \<Rightarrow> run_context \<Rightarrow> task_spec \<Rightarrow> nat \<Rightarrow> bound_context \<Rightarrow> pydict \<Rightarrow> child_outcome io" where
  "supervise H ctx task attempt_number bound attempt =
     iob (supervised_body H ctx task attempt_number bound attempt) (\<lambda>(r, m).
     iob (close_supervised H m) (\<lambda>_. from_result r))"

section \<open>The end of an attempt\<close>

definition int_text :: "int \<Rightarrow> pystr" where
  "int_text i = (if i < 0 then lit ''-'' @ dec (nat (- i)) else dec (nat i))"

definition code_val :: "int option \<Rightarrow> pyval" where
  "code_val code = (case code of None \<Rightarrow> PNone | Some c \<Rightarrow> PInt c)"

definition code_text :: "int option \<Rightarrow> pystr" where
  "code_text code = (case code of None \<Rightarrow> lit ''None'' | Some c \<Rightarrow> int_text c)"

definition nonzero_text :: "int option \<Rightarrow> pystr" where
  "nonzero_text code = lit ''child process exited non-zero ('' @ code_text code @ lit '')''"

definition finish_failed_attempt ::
  "host \<Rightarrow> run_context \<Rightarrow> task_spec \<Rightarrow> pydict \<Rightarrow> string \<Rightarrow> pystr \<Rightarrow> int option \<Rightarrow> run_context io" where
  "finish_failed_attempt H ctx task attempt status detail code =
     iob utc_now (\<lambda>now.
     let a = dset ''error'' (PStr detail) (dset ''return_code'' (code_val code) (dset ''ended_at'' (PStr now)
           (dset ''status'' (PLit status) (dset ''child_launch_guard'' (PBool False) attempt))));
         d = dset ''status'' (PLit ''failed'') (set_latest a (task_state ctx (task_id task)));
         ctx1 = set_state ''last_error'' (PStr (task_id task @ lit '': '' @ detail))
           (set_state ''status'' (PLit ''failed'') (set_task (task_id task) d ctx)) in
     commit_transition (h_lib H) ctx1 (lit ''task_failed'') (Some (task_id task))
       [(lit ''attempt'', fld a ''number''), (lit ''return_code'', code_val code), (lit ''reason'', PStr detail)])"

text \<open>The observation a failed comparison of the workspace carries.\<close>

definition observation_of :: "pyexc \<Rightarrow> pyval option" where
  "observation_of e = (case e of WorkspaceVerificationError v \<Rightarrow> v | _ \<Rightarrow> None)"

definition keep_observation :: "pyexc \<Rightarrow> pydict \<Rightarrow> pydict" where
  "keep_observation e attempt =
     (case observation_of e of None \<Rightarrow> attempt | Some w \<Rightarrow> dset ''workspace_after'' w attempt)"

text \<open>The checks after the child has ended: the attempt and what was wrong, if anything.\<close>

definition context_after :: "host \<Rightarrow> run_context \<Rightarrow> task_spec \<Rightarrow> bound_context \<Rightarrow> child_outcome \<Rightarrow> pystr option io" where
  "context_after H ctx task bound co =
     (if bound = None \<or> \<not> co_launched co then ret None
      else if fld (dict_of (fld (co_attempt co) ''process_scope'')) ''empty_confirmed'' \<noteq> PBool True
      then raise EvidenceError
      else handle (iob (bound_task_execution_context H ctx task) (\<lambda>_. ret None))
        (\<lambda>e. if is_benchhandoff_error e
             then iob (exc_text H e) (\<lambda>text. ret (Some (lit ''post-exit execution-context validation failed: '' @ text)))
             else raise e))"

definition workspace_after ::
  "host \<Rightarrow> run_context \<Rightarrow> task_spec \<Rightarrow> pystr option \<Rightarrow> pydict \<Rightarrow> (pydict \<times> pystr option) io" where
  "workspace_after H ctx task context_error attempt =
     (if plan_version (rc_plan ctx) \<noteq> 3 then ret (attempt, context_error)
      else handle
        (iob (bound_workspace_observation H ctx [] (task_outputs task)) (\<lambda>w.
         ret (dset ''workspace_after'' (option_val w) attempt, context_error)))
        (\<lambda>e. if is_benchhandoff_error e
             then iob (exc_text H e) (\<lambda>text.
               let workspace_error = lit ''post-exit workspace validation failed: '' @ text in
               ret (keep_observation e attempt,
                    Some (case context_error of None \<Rightarrow> workspace_error | Some c \<Rightarrow> c @ lit ''; '' @ workspace_error)))
             else raise e))"

definition prior_outcome :: "child_outcome \<Rightarrow> pystr" where
  "prior_outcome co =
     (case co_launch_error co of
        Some text \<Rightarrow> text
      | None \<Rightarrow>
          if co_interrupted co then lit ''runner received KeyboardInterrupt''
          else if co_return_code co \<noteq> Some 0 then nonzero_text (co_return_code co)
          else lit ''child process exited zero'')"

text \<open>The inputs again, the outputs, and the workspace with the outputs sealed.\<close>

definition seal_outputs ::
  "host \<Rightarrow> run_context \<Rightarrow> task_spec \<Rightarrow> pydict \<Rightarrow> pydict \<Rightarrow> (pydict \<times> pydict) io" where
  "seal_outputs H ctx task verified_inputs attempt =
     iob (io_map (\<lambda>p. verify_member H (rc_suite ctx) (fst p) (snd p)) verified_inputs) (\<lambda>_.
     iob (io_fold (\<lambda>relative outputs. iob (task_root H (rc_suite ctx)) (\<lambda>root.
            iob (member_identity (h_lib H) root relative) (\<lambda>identity.
            ret (AList.update relative identity outputs)))) (task_outputs task) []) (\<lambda>verified_outputs.
     iob (bound_workspace_observation H ctx verified_outputs []) (\<lambda>final_workspace.
     ret (verified_outputs, case final_workspace of None \<Rightarrow> attempt | Some w \<Rightarrow> dset ''workspace_after'' w attempt))))"

definition complete_attempt ::
  "host \<Rightarrow> run_context \<Rightarrow> task_spec \<Rightarrow> pydict \<Rightarrow> pydict \<Rightarrow> pydict \<Rightarrow> int option \<Rightarrow> run_context io" where
  "complete_attempt H ctx task verified_inputs verified_outputs attempt code =
     iob utc_now (\<lambda>now.
     let a = dset ''verified_outputs'' (PDict verified_outputs) (dset ''return_code'' (code_val code)
           (dset ''ended_at'' (PStr now) (dset ''status'' (PLit ''completed'') attempt)));
         d = dset ''verified_outputs'' (PDict verified_outputs) (dset ''verified_inputs'' (PDict verified_inputs)
           (dset ''status'' (PLit ''completed'') (set_latest a (task_state ctx (task_id task))))) in
     commit_transition (h_lib H) (set_task (task_id task) d ctx) (lit ''task_completed'') (Some (task_id task))
       [(lit ''attempt'', fld a ''number''), (lit ''outputs'', PInt (int (length verified_outputs)))])"

definition conclude_success ::
  "host \<Rightarrow> run_context \<Rightarrow> task_spec \<Rightarrow> pydict \<Rightarrow> pydict \<Rightarrow> int option \<Rightarrow> (run_context \<times> bool) io" where
  "conclude_success H ctx task verified_inputs attempt code =
     iob (tried (seal_outputs H ctx task verified_inputs attempt)) (\<lambda>r.
     case r of
       Inr (verified_outputs, a) \<Rightarrow>
         iob (complete_attempt H ctx task verified_inputs verified_outputs a code) (\<lambda>ctx1. ret (ctx1, True))
     | Inl e \<Rightarrow>
         if \<not> is_benchhandoff_error e then raise e
         else let a = keep_observation e attempt in
         if plan_version (rc_plan ctx) = 3 \<and> \<not> has_key a ''workspace_after'' then raise EvidenceError
         else iob (exc_text H e) (\<lambda>text.
           iob (finish_failed_attempt H ctx task a ''failed'' (lit ''post-run evidence validation failed: '' @ text) code)
             (\<lambda>ctx1. ret (ctx1, False))))"

definition conclude_attempt ::
  "host \<Rightarrow> run_context \<Rightarrow> task_spec \<Rightarrow> pydict \<Rightarrow> bound_context \<Rightarrow> child_outcome \<Rightarrow> (run_context \<times> bool) io" where
  "conclude_attempt H ctx task verified_inputs bound co =
     iob (context_after H ctx task bound co) (\<lambda>context_error.
     iob (workspace_after H ctx task context_error (co_attempt co)) (\<lambda>(attempt, post_exit_error).
     let fail = (\<lambda>status detail. iob (finish_failed_attempt H ctx task attempt status detail (co_return_code co))
                  (\<lambda>ctx1. ret (ctx1, False))) in
     case post_exit_error of
       Some text \<Rightarrow>
         if plan_version (rc_plan ctx) = 3 \<and> \<not> has_key attempt ''workspace_after'' then raise EvidenceError
         else fail (if co_interrupted co then ''interrupted'' else ''failed'')
                (text @ lit ''; child outcome: '' @ prior_outcome co)
     | None \<Rightarrow>
         (case co_launch_error co of
            Some text \<Rightarrow> fail ''failed'' text
          | None \<Rightarrow>
              if co_interrupted co then fail ''interrupted'' (lit ''runner received KeyboardInterrupt'')
              else if co_return_code co \<noteq> Some 0 then fail ''failed'' (nonzero_text (co_return_code co))
              else conclude_success H ctx task verified_inputs attempt (co_return_code co))))"

section \<open>Running a task\<close>

definition ready_output :: "host \<Rightarrow> run_context \<Rightarrow> pystr \<Rightarrow> unit io" where
  "ready_output H ctx relative =
     iob (task_root H (rc_suite ctx)) (\<lambda>root.
     iob (ensure_output_parent_boundary (h_lib H) root relative) (\<lambda>_.
     iob (task_root H (rc_suite ctx)) (\<lambda>root.
     iob (ensure_member_absent (h_lib H) root relative) (\<lambda>_. ret ()))))"

definition relative_to :: "path \<Rightarrow> path \<Rightarrow> pyexc + pystr" where
  "relative_to root p =
     (if take (length root) p = root then Inr (join_on 47 (drop (length root) p)) else Inl ValueError)"

definition log_file :: "path \<Rightarrow> nat \<Rightarrow> string \<Rightarrow> path" where
  "log_file log_directory attempt_number stream =
     log_directory @ [lit ''attempt-'' @ dec_pad 4 attempt_number @ lit ''.'' @ lit stream @ lit ''.log'']"

definition new_attempt ::
  "nat \<Rightarrow> pystr \<Rightarrow> task_spec \<Rightarrow> pydict \<Rightarrow> pystr \<Rightarrow> pystr \<Rightarrow> pyval option \<Rightarrow> bound_context \<Rightarrow> pydict" where
  "new_attempt attempt_number now task verified_inputs out err workspace_before bound =
     [(lit ''number'', PInt (int attempt_number)), (lit ''status'', PLit ''running''), (lit ''started_at'', PStr now),
      (lit ''ended_at'', PNone), (lit ''child_pid'', PNone), (lit ''child_start_token'', PNone),
      (lit ''child_launch_guard'', PBool True), (lit ''return_code'', PNone),
      (lit ''argv'', PList (map PStr (task_argv task))), (lit ''verified_inputs'', PDict verified_inputs),
      (lit ''stdout'', PStr out), (lit ''stderr'', PStr err)]
     @ (case workspace_before of None \<Rightarrow> [] | Some w \<Rightarrow> [(lit ''workspace_before'', w)])
     @ (case bound of
          None \<Rightarrow> []
        | Some (_, _, body) \<Rightarrow>
            [(lit ''execution_context_sha256'', fld body ''context_sha256''),
             (lit ''process_scope'', PDict (merge_into (dict_of (fld body ''process_scope''))
               [(lit ''scope_id'', PNone), (lit ''empty_confirmed'', PBool False), (lit ''closure'', PLit ''pending-launch'')]))])"

definition with_attempt :: "task_spec \<Rightarrow> pydict \<Rightarrow> run_context \<Rightarrow> run_context" where
  "with_attempt task attempt ctx =
     (let d = task_state ctx (task_id task);
          d1 = dset ''status'' (PLit ''running'') (dset ''attempts'' (PList (list_of (fld d ''attempts'') @ [PDict attempt])) d) in
      set_state ''last_error'' PNone (set_state ''status'' (PLit ''running'') (set_task (task_id task) d1 ctx)))"

text \<open>Up to the durable start of the attempt; the value is the context, the number and the attempt.\<close>

definition begin_attempt ::
  "host \<Rightarrow> run_context \<Rightarrow> task_spec \<Rightarrow> bound_context \<Rightarrow> pydict \<Rightarrow> (run_context \<times> nat \<times> pydict) io" where
  "begin_attempt H ctx task bound verified_inputs =
     iob (io_map (ready_output H ctx) (task_outputs task)) (\<lambda>_.
     iob (bound_workspace_observation H ctx [] []) (\<lambda>workspace_before.
     let n = length (task_attempts ctx task) + 1 in
     if n > MAX_ATTEMPTS_PER_TASK then raise EvidenceError
     else if total_attempts ctx \<ge> MAX_TOTAL_ATTEMPTS then raise EvidenceError
     else iob (task_log_directory H ctx task) (\<lambda>log_directory.
     let stdout_path = log_file log_directory n ''stdout''; stderr_path = log_file log_directory n ''stderr'' in
     iob (from_result (relative_to (rc_root ctx) stdout_path)) (\<lambda>out.
     iob (from_result (relative_to (rc_root ctx) stderr_path)) (\<lambda>err.
     iob (prepare_attempt_logs H stdout_path stderr_path) (\<lambda>_.
     iob utc_now (\<lambda>now.
     let attempt = new_attempt n now task verified_inputs out err workspace_before bound in
     iob (on_exception (commit_transition (h_lib H) (with_attempt task attempt ctx) (lit ''task_started'') (Some (task_id task))
            [(lit ''attempt'', PInt (int n))]) close_logs) (\<lambda>ctx1.
     ret (ctx1, n, attempt)))))))))"

definition run_task :: "host \<Rightarrow> run_context \<Rightarrow> task_spec \<Rightarrow> (run_context \<times> bool) io" where
  "run_task H ctx task =
     iob require_process_identity_support (\<lambda>_.
     iob (bound_task_execution_context H ctx task) (\<lambda>bound.
     iob (expected_inputs H ctx task) (\<lambda>verified_inputs.
     iob (begin_attempt H ctx task bound verified_inputs) (\<lambda>(ctx1, n, attempt).
     iob (supervise H ctx1 task n bound attempt) (\<lambda>co.
     conclude_attempt H ctx1 task verified_inputs bound co)))))"

end
