(* ===== verification/Run_Operations.thy ===== *)
theory Run_Operations
  imports Run_Control
begin

text \<open>
  The public operations of \<^verbatim>\<open>src/src/benchhandoff/engine.py\<close>: \<^verbatim>\<open>start_run\<close> and \<^verbatim>\<open>resume_run\<close>, with the
  loop over the tasks and the writer locks around them.
\<close>

record run_result =
  rr_status :: string
  rr_directory :: path
  rr_run_id :: pyval
  rr_detail :: pyval

definition task_result :: "run_context \<Rightarrow> string \<Rightarrow> pyval \<Rightarrow> run_result" where
  "task_result ctx status detail =
     \<lparr>rr_status = status, rr_directory = rc_root ctx, rr_run_id = fld (rc_plan ctx) ''run_id'', rr_detail = detail\<rparr>"

text \<open>
  The loop over the tasks; the flag says whether an incomplete task has been seen, the result
  whether every task has succeeded.
\<close>

fun run_remaining :: "host \<Rightarrow> task_spec list \<Rightarrow> bool \<Rightarrow> run_context \<Rightarrow> (run_context \<times> bool) io" where
  "run_remaining H [] saw_incomplete ctx = ret (ctx, True)"
| "run_remaining H (task # tasks) saw_incomplete ctx =
     (if task_completed ctx task
      then (if saw_incomplete then raise EvidenceError
            else iob (verify_completed_task H ctx task) (\<lambda>_. run_remaining H tasks False ctx))
      else iob (if started (task_status ctx task) then recover_incomplete_task H ctx task
                else if task_status ctx task \<noteq> PLit ''pending'' then raise EvidenceError
                else ret ctx) (\<lambda>ctx1.
        iob (run_task H ctx1 task) (\<lambda>(ctx2, succeeded).
        if \<not> succeeded then ret (ctx2, False) else run_remaining H tasks True ctx2)))"

definition execute_remaining :: "host \<Rightarrow> string \<Rightarrow> run_context \<Rightarrow> run_result io" where
  "execute_remaining H operation ctx =
     iob (run_remaining H (suite_tasks (rc_suite ctx)) False ctx) (\<lambda>(ctx1, finished).
     if \<not> finished
     then ret (task_result ctx1 ''failed''
            (let last_error = fld (rc_state ctx1) ''last_error'' in
             if last_error = PNone \<or> last_error = PStr [] then PLit ''task failed closed'' else last_error))
     else iob (commit_transition (h_lib H)
                 (set_state ''last_error'' PNone (set_state ''status'' (PLit ''completed'') ctx1)) (lit ''run_completed'') None
                 [(lit ''operation'', PLit operation), (lit ''tasks'', PInt (int (length (suite_tasks (rc_suite ctx1)))))]) (\<lambda>ctx2.
     iob (build_bundle H ctx2) (\<lambda>_.
     iob (verify_run H (rc_root ctx2)) (\<lambda>_.
     ret (task_result ctx2 ''completed'' (PLit ''all tasks completed and the evidence bundle verified''))))))"

section \<open>Starting\<close>

definition revalidate_suite_source :: "host \<Rightarrow> suite_spec \<Rightarrow> unit io" where
  "revalidate_suite_source H suite =
     iob (read_regular_bytes (suite_path suite) (Some MAX_SUITE_BYTES)) (\<lambda>payload.
     identity_or_raise (identity_of (h_lib H) payload) (suite_identity suite))"

definition create_run :: "host \<Rightarrow> suite_spec \<Rightarrow> path \<Rightarrow> pydict \<Rightarrow> pyval option \<Rightarrow> pyval option \<Rightarrow> run_context io" where
  "create_run H suite run_candidate seed_inputs execution_context binding =
     iob (prepare_new_directory run_candidate) (\<lambda>run_root.
     iob (fs_mkdir (run_root @ [LOGS_DIRECTORY])) (\<lambda>_.
     iob (fs_mkdir (run_root @ [QUARANTINE_DIRECTORY])) (\<lambda>_.
     iob (initial_plan H suite run_root seed_inputs execution_context binding) (\<lambda>plan.
     iob (atomic_write_json (h_lib H) (run_root @ [PLAN_FILE]) (PDict plan)) (\<lambda>_.
     iob (file_identity (h_lib H) (run_root @ [PLAN_FILE])) (\<lambda>plan_identity.
     iob (create_empty_regular (run_root @ [EVENTS_FILE])) (\<lambda>_.
     iob (file_identity (h_lib H) (run_root @ [EVENTS_FILE])) (\<lambda>event_identity.
     iob utc_now (\<lambda>now.
     let state = initial_state now plan (dict_of plan_identity) (dict_of event_identity) in
     iob (atomic_write_json (h_lib H) (run_root @ [STATE_FILE]) (PDict state)) (\<lambda>_.
     ret \<lparr>rc_suite = suite, rc_root = run_root, rc_plan = plan, rc_state = state\<rparr>))))))))))"

definition start_run_checked :: "host \<Rightarrow> suite_spec \<Rightarrow> path \<Rightarrow> run_result io" where
  "start_run_checked H suite run_candidate =
     iob (revalidate_suite_source H suite) (\<lambda>_.
     iob (io_separate_trees run_candidate (suite_root suite)) (\<lambda>_.
     iob (nearest_existing_directory (butlast run_candidate)) (\<lambda>run_parent.
     iob (task_root H suite) (\<lambda>root.
     iob (require_same_filesystem root run_parent) (\<lambda>_.
     iob (io_map (check_output_device H suite run_parent) (concat (map task_outputs (suite_tasks suite)))) (\<lambda>_.
     iob (preflight_suite H suite) (\<lambda>(seed_inputs, execution_context, binding).
     iob (revalidate_suite_source H suite) (\<lambda>_.
     iob (create_run H suite run_candidate seed_inputs execution_context binding) (\<lambda>ctx.
     iob (commit_transition (h_lib H) ctx (lit ''run_started'') None
            [(lit ''suite'', PStr (suite_name suite)), (lit ''tasks'', PInt (int (length (suite_tasks suite))))]) (\<lambda>ctx1.
     execute_remaining H ''start'' ctx1))))))))))"

definition acquire_workspace_writer_lock :: "host \<Rightarrow> suite_spec \<Rightarrow> writer_lock option io" where
  "acquire_workspace_writer_lock H suite =
     (if suite_version suite \<noteq> 3 then ret None
      else iob (task_root H suite) (\<lambda>root. iob (acquire (h_lib H) root) (\<lambda>l. ret (Some l))))"

definition release_lock :: "host \<Rightarrow> writer_lock \<Rightarrow> unit io" where
  "release_lock H l w = fst (release (h_lib H) l w)"

text \<open>The workspace lock is released first, and the run lock in any case.\<close>

definition with_workspace_lock :: "host \<Rightarrow> writer_lock option \<Rightarrow> 'a io \<Rightarrow> 'a io" where
  "with_workspace_lock H l m =
     (case l of None \<Rightarrow> m | Some k \<Rightarrow> finally_do m (release_lock H k))"

definition run_start_failure :: "pyexc \<Rightarrow> pyexc" where
  "run_start_failure e =
     (if is_benchhandoff_error e then e
      else if e = KeyError \<or> e = IndexError \<or> e = TypeError \<or> is_value_error e \<or> is_os_error e then EvidenceError
      else e)"

definition start_run :: "host \<Rightarrow> path \<Rightarrow> path \<Rightarrow> pystr option \<Rightarrow> run_result io" where
  "start_run H suite_file run_directory expected_suite_sha256 =
     reraise run_start_failure
       (if (case expected_suite_sha256 of None \<Rightarrow> False | Some h \<Rightarrow> \<not> is_sha256_text h) then raise EvidenceError
        else iob (acquire (h_lib H) run_directory) (\<lambda>run_lock.
        finally_do
          (iob (load_suite H suite_file) (\<lambda>suite.
           if (case expected_suite_sha256 of None \<Rightarrow> False
               | Some h \<Rightarrow> \<not> py_eq (fld (dict_of (suite_identity suite)) ''sha256'') (PStr h))
           then raise EvidenceError
           else iob (acquire_workspace_writer_lock H suite) (\<lambda>l.
             with_workspace_lock H l (start_run_checked H suite run_directory))))
          (release_lock H run_lock)))"

section \<open>Resuming\<close>

definition check_decision :: "host \<Rightarrow> pystr option \<Rightarrow> run_context \<Rightarrow> unit io" where
  "check_decision H expected ctx =
     (case expected of
        None \<Rightarrow> ret ()
      | Some h \<Rightarrow> iob (build_resume_decision H ctx) (\<lambda>decision.
          if \<not> py_eq (fld decision ''decision_sha256'') (PStr h) then raise EvidenceError else ret ()))"

definition resume_sealed :: "host \<Rightarrow> run_context \<Rightarrow> run_result io" where
  "resume_sealed H ctx =
     (if fld (rc_state ctx) ''pending_event'' \<noteq> PNone then raise EvidenceError
      else if fld (rc_state ctx) ''status'' \<noteq> PLit ''completed'' then raise EvidenceError
      else iob (verify_run H (rc_root ctx)) (\<lambda>_.
        ret (task_result ctx ''completed'' (PLit ''run was already complete and remains verified''))))"

definition resume_open :: "host \<Rightarrow> pystr option \<Rightarrow> run_context \<Rightarrow> run_result io" where
  "resume_open H expected ctx =
     iob (if expected = None then reconcile_pending_event (h_lib H) ctx else ret ctx) (\<lambda>ctx1.
     iob (verify_completed_prefix H ctx1) (\<lambda>_.
     iob (assert_recovery_liveness H ctx1) (\<lambda>_.
     iob (assert_resume_attempt_budget ctx1) (\<lambda>_.
     iob (verify_next_execution_context H ctx1) (\<lambda>_.
     iob (check_decision H expected ctx1) (\<lambda>_.
     iob (commit_transition (h_lib H)
            (set_state ''last_error'' PNone (set_state ''status'' (PLit ''running'') ctx1)) (lit ''run_resumed'') None
            [(lit ''previous_status'', fld (rc_state ctx1) ''status'')]) (\<lambda>ctx2.
     execute_remaining H ''resume'' ctx2)))))))"

definition resume_run_checked :: "host \<Rightarrow> path \<Rightarrow> pystr option \<Rightarrow> run_result io" where
  "resume_run_checked H run_directory expected =
     (if (case expected of None \<Rightarrow> False | Some h \<Rightarrow> \<not> is_sha256_text h) then raise EvidenceError
      else iob (load_context H run_directory) (\<lambda>ctx.
      iob (verify_next_execution_context H ctx) (\<lambda>_.
      iob (check_decision H expected ctx) (\<lambda>_.
      iob (path_lexists (rc_root ctx @ [BUNDLE_FILE])) (\<lambda>found.
      if found then resume_sealed H ctx else resume_open H expected ctx)))))"

definition suite_for_existing_run_workspace_lock :: "host \<Rightarrow> path \<Rightarrow> suite_spec option io" where
  "suite_for_existing_run_workspace_lock H run_directory =
     iob (checked_directory run_directory) (\<lambda>run_root.
     iob (validate_run_root_topology run_root) (\<lambda>_.
     iob (read_json_file (h_lib H) (run_root @ [PLAN_FILE])) (\<lambda>plan_value.
     iob (from_result (validate_plan_shape (h_lib H) plan_value)) (\<lambda>_.
     let plan = dict_of plan_value; suite_file = fld plan ''suite_file'' in
     if plan_version plan \<noteq> 3 then ret None
     else iob (reraise bench_to_evidence (load_suite H (absolute H (str_of (fld (dict_of suite_file) ''path''))))) (\<lambda>suite.
     if PStr (path_text (suite_root suite)) \<noteq> fld plan ''suite_root'' then raise EvidenceError
     else iob (identity_or_raise (suite_identity suite) suite_file) (\<lambda>_.
     if \<not> py_eq (normalized suite) (fld plan ''suite'') then raise EvidenceError else ret (Some suite)))))))"

definition resume_run :: "host \<Rightarrow> path \<Rightarrow> pystr option \<Rightarrow> run_result io" where
  "resume_run H run_directory expected =
     reraise evidence_or
       (iob (acquire (h_lib H) run_directory) (\<lambda>run_lock.
        finally_do
          (iob (suite_for_existing_run_workspace_lock H run_directory) (\<lambda>suite.
           iob (case suite of None \<Rightarrow> ret None | Some s \<Rightarrow> acquire_workspace_writer_lock H s) (\<lambda>l.
           with_workspace_lock H l (resume_run_checked H run_directory expected))))
          (release_lock H run_lock)))"

end
