(* ===== verification/Read_Only.thy ===== *)
theory Read_Only
  imports Run_Operations Lock_Protocol
begin

text \<open>
  Inspection changes nothing: loading a run, verifying it, inspecting a suite and building a
  resume decision make no call that changes the file system, in any world.
\<close>

section \<open>Combinators\<close>

lemma reads_world:
  assumes "\<And>n. reads (m n)"
  shows "reads (\<lambda>w. m (w_pid w) w)"
proof (rule readsI)
  show "still (\<lambda>w. m (w_pid w) w)"
    using assms [THEN reads_still] unfolding still_def wp_def by blast
next
  fix me R I s and G :: "fs \<Rightarrow> fs \<Rightarrow> bool" assume a: "steady R I" "\<And>s. G s s" "I s"
  have "rg me R G (m n) (\<lambda>_. I) (\<lambda>_. I) s" for n using assms [of n] a by (simp add: reads_def)
  then show "rg me R G (\<lambda>w. m (w_pid w) w) (\<lambda>_. I) (\<lambda>_. I) s" unfolding rg_def by blast
qed

lemma reads_io_map [reads_intros]: "(\<And>x. reads (f x)) \<Longrightarrow> reads (io_map f xs)"
  by (induction xs) (auto simp del: io_simps intro!: reads_intros)

lemma reads_io_fold [reads_intros]: "(\<And>x s. reads (f x s)) \<Longrightarrow> reads (io_fold f xs s)"
  by (induction xs arbitrary: s) (auto simp del: io_simps intro!: reads_intros)

lemma reads_utc_now [reads_intros]: "reads utc_now"
  by (rule readsI) (simp_all add: rg_def utc_now_def still_def wp_def)

lemma reads_exc_text [reads_intros]: "reads (exc_text H e)"
  by (rule readsI) (simp_all add: rg_def exc_text_def still_def wp_def)

section \<open>Storage and workspace\<close>

lemma reads_member_scan [reads_intros]: "reads (member_scan p parts)"
  by (induction parts arbitrary: p) (auto simp del: io_simps simp: Let_def intro!: reads_intros)

lemma reads_member [reads_intros]:
  "reads (resolve_member L root r)" "reads (member_identity L root r)" "reads (ensure_member_absent L root r)"
proof -
  show m: "reads (resolve_member L root r)" for root r
    unfolding resolve_member_def by (intro reads_intros)
  show "reads (member_identity L root r)" "reads (ensure_member_absent L root r)"
    unfolding member_identity_def ensure_member_absent_def by (intro reads_intros m)+
qed

lemma reads_parents [reads_intros]: "reads (parents_scan ps)"
  by (induction ps) (auto simp del: io_simps intro!: reads_intros)

lemma reads_trees [reads_intros]:
  "reads (ensure_output_parent_boundary L root r)" "reads (io_separate_trees a b)" "reads (require_same_filesystem a b)"
  "reads (read_json_file L p)"
  unfolding ensure_output_parent_boundary_def io_separate_trees_def require_same_filesystem_def read_json_file_def
  by (intro reads_intros)+

lemma reads_nearest [reads_intros]: "reads (nearest_existing_directory p)"
  by (induction p rule: nearest_existing_directory.induct)
    (subst nearest_existing_directory.simps, auto simp del: io_simps intro!: reads_intros)

lemma reads_artifact_walk [reads_intros]: "reads (artifact_walk L n root stack acc)"
  by (induction L n root stack acc rule: artifact_walk.induct) (auto simp del: io_simps intro!: reads_intros)

lemma reads_artifacts [reads_intros]: "reads (iter_regular_artifacts L n root ds)"
  unfolding iter_regular_artifacts_def by (intro reads_intros)

lemma reads_root_scan [reads_intros]: "reads (root_scan p parts)"
  by (induction parts arbitrary: p) (auto simp del: io_simps simp: Let_def intro!: reads_intros)

lemma reads_workspace_root [reads_intros]: "reads (checked_workspace_root p)"
  unfolding checked_workspace_root_def by (intro reads_intros)

lemma reads_scan [reads_intros]:
  "reads (checked_directory_metadata n p)" "reads (bounded_file_identity L n m p)" "reads (scan_child L root dev p st)"
  "reads (scan_directory L root dev d st)"
proof -
  show a: "reads (checked_directory_metadata n p)" "reads (bounded_file_identity L n m p)" for n m p
    unfolding checked_directory_metadata_def bounded_file_identity_def by (intro reads_intros)+
  show c: "reads (scan_child L root dev p st)" for p st
    unfolding scan_child_def by (intro reads_intros a)
  show "reads (scan_directory L root dev d st)"
    unfolding scan_directory_def scan_listing_def by (intro reads_intros a c)
qed

lemma reads_scan_loop [reads_intros]: "reads (scan_loop L root dev n st)"
  by (induction n arbitrary: st) (auto simp del: io_simps intro!: reads_intros split: list.splits)

lemma reads_observe [reads_intros]:
  "reads (observe_workspace L root)" "reads (load_workspace_manifest L p e)"
  "reads (prepare_workspace_binding L root p i ds)" "reads (verify_workspace L root p i b outs vol)"
  unfolding observe_workspace_def scan_workspace_once_def load_workspace_manifest_def prepare_workspace_binding_def
    verify_workspace_def by (intro reads_intros)+

section \<open>Processes\<close>

lemma reads_read_proc [reads_intros]: "reads (read_proc p)"
  unfolding read_proc_def by (intro reads_intros)

lemma reads_group_scan [reads_intros]: "reads (group_scan n names)"
  by (induction names) (auto simp del: io_simps intro!: reads_intros split: option.splits)

lemma reads_groups [reads_intros]:
  "reads (linux_process_group_members n)" "reads (process_scope_policy n)" "reads require_process_identity_support"
proof -
  show m: "reads (linux_process_group_members n)" for n
    unfolding linux_process_group_members_def by (intro reads_intros)
  show "reads require_process_identity_support"
    unfolding require_process_identity_support_def by (rule reads_world) (intro reads_intros)
  show "reads (process_scope_policy n)"
    unfolding process_scope_policy_def proc_mounted_def by (rule reads_world) (intro reads_intros m)
qed

lemma reads_scope_liveness [reads_intros]:
  "reads ps \<Longrightarrow> reads (process_scope_liveness ps mode n)"
  unfolding process_scope_liveness_def ps_process_group_members_def proc_mounted_def
  by (intro reads_intros)

section \<open>The suite of a run\<close>

lemma reads_roots [reads_intros]:
  "reads (load_suite H p)" "reads (identity_or_raise a b)" "reads (task_root H suite)" "reads (workspace_manifest_path H suite)"
  unfolding load_suite_def identity_or_raise_def task_root_def workspace_manifest_path_def by (intro reads_intros)+

lemma reads_binding [reads_intros]:
  "reads (suite_workspace_binding H suite)" "reads (bound_workspace_observation H ctx a v)"
  "reads (reconstruct_output H ctx task n r outs)"
  unfolding suite_workspace_binding_def bound_workspace_observation_def reconstruct_output_def by (intro reads_intros)+

lemma reads_observations [reads_intros]:
  "reads (recovery_workspace_observation H ctx task a)" "reads (current_workspace_observation H ctx)"
proof -
  show r: "reads (recovery_workspace_observation H ctx task a)" for task a
    unfolding recovery_workspace_observation_def by (intro reads_intros)
  show "reads (current_workspace_observation H ctx)"
    unfolding current_workspace_observation_def by (intro reads_intros r)
qed

lemma reads_executable [reads_intros]:
  "reads (executable_candidate H suite raw)" "reads (resolved_executable H suite task)"
proof -
  show e: "reads (executable_candidate H suite raw)" for raw
    unfolding executable_candidate_def by (intro reads_intros)
  show "reads (resolved_executable H suite task)"
    unfolding resolved_executable_def by (intro reads_intros e)
qed

lemma reads_execution_context [reads_intros]:
  "reads (task_execution_context H suite task)" "reads (suite_execution_context H suite)"
  "reads (bound_task_execution_context H ctx task)" "reads (verify_next_execution_context H ctx)"
proof -
  show t: "reads (task_execution_context H suite task)" for suite task
    unfolding task_execution_context_def by (intro reads_intros)
  show "reads (suite_execution_context H suite)"
    unfolding suite_execution_context_def by (intro reads_intros t)
  show b: "reads (bound_task_execution_context H ctx task)" for task
    unfolding bound_task_execution_context_def by (intro reads_intros t)
  show "reads (verify_next_execution_context H ctx)"
    unfolding verify_next_execution_context_def by (intro reads_intros b)
qed

lemma reads_preflight [reads_intros]: "reads (preflight_suite H suite)" "reads (inspect_workspace_suite H p)"
proof -
  show p: "reads (preflight_suite H suite)" for suite
    unfolding preflight_suite_def preflight_output_def by (intro reads_intros)
  show "reads (inspect_workspace_suite H p)"
    unfolding inspect_workspace_suite_def by (intro reads_intros p)
qed

section \<open>The evidence of a run\<close>

lemma reads_topology [reads_intros]: "reads (validate_run_root_topology r)"
  unfolding validate_run_root_topology_def by (intro reads_intros)

lemma reads_attempt_artifacts [reads_intros]: "reads (validate_attempt_artifacts H r state plan)"
  unfolding validate_attempt_artifacts_def note_attempt_def note_log_def note_quarantine_def check_orphan_log_def
  by (intro reads_intros)

lemma reads_history [reads_intros]: "reads (validate_workspace_history H ctx)"
  unfolding validate_workspace_history_def by (intro reads_intros)

lemma reads_bound_tree [reads_intros]: "reads (bound_suite H r plan)" "reads (check_bound_tree H suite r plan)"
  unfolding bound_suite_def check_bound_tree_def check_output_device_def check_seed_def by (intro reads_intros)+

lemma reads_events [reads_intros]:
  "reads (event_log_observation L r plan e)" "reads (event_transition_status L r plan state)"
proof -
  show o: "reads (event_log_observation L r plan e)" for e
    unfolding event_log_observation_def by (intro reads_intros)
  show "reads (event_transition_status L r plan state)"
    unfolding event_transition_status_def by (intro reads_intros o)
qed

lemma reads_load_context [reads_intros]: "reads (load_context H r)"
  unfolding load_context_def by (intro reads_intros)

lemma reads_verify_member [reads_intros]: "reads (verify_member H suite r e)"
  unfolding verify_member_def by (intro reads_intros)

lemma reads_tasks [reads_intros]:
  "reads (expected_inputs H ctx task)" "reads (verify_completed_task H ctx task)" "reads (verify_completed_prefix H ctx)"
  "reads (assert_resume_attempt_budget ctx)"
  unfolding expected_inputs_def verify_input_def verify_completed_task_def verify_completed_prefix_def
    verify_prefix_step_def assert_resume_attempt_budget_def
  by (intro reads_intros)+

lemma reads_artifact_paths [reads_intros]: "reads (artifact_paths H r)" "reads (artifact_record H r p)"
  unfolding artifact_paths_def artifact_record_def by (intro reads_intros)+

lemma reads_verify_run [reads_intros]: "reads (verify_run H r)"
  unfolding verify_run_def verify_run_checked_def verify_final_workspace_def verify_bundle_def verify_artifact_def
  by (intro reads_intros)

section \<open>Resume decisions\<close>

lemma reads_recovery_liveness [reads_intros]: "reads (h_ps H) \<Longrightarrow> reads (assert_recovery_liveness H ctx)"
  unfolding assert_recovery_liveness_def attempt_gone_def child_gone_def scope_gone_def by (intro reads_intros)

lemma reads_next_task [reads_intros]: "reads (next_task_record H ctx task)" "reads (completed_output_record H ctx p)"
  unfolding next_task_record_def current_output_observation_def observe_output_def quarantine_observation_def
    observe_quarantine_def completed_output_record_def
  by (intro reads_intros)+

lemma reads_resume_decision [reads_intros]: "reads (h_ps H) \<Longrightarrow> reads (build_resume_decision H ctx)"
  unfolding build_resume_decision_def resume_action_def by (intro reads_intros)

lemma reads_inspect_resume [reads_intros]: "reads (h_ps H) \<Longrightarrow> reads (inspect_resume H r)"
  unfolding inspect_resume_def inspect_resume_checked_def by (intro reads_intros)

section \<open>Inspection\<close>

text \<open>None of the calls made between two worlds has changed the file system.\<close>

definition no_change :: "world \<Rightarrow> world \<Rightarrow> bool" where
  "no_change w w' \<longleftrightarrow> guarded (\<lambda>s s'. s' = s) w w'"

lemma no_change_trans: "no_change w1 w2 \<Longrightarrow> no_change w2 w3 \<Longrightarrow> no_change w1 w3"
  unfolding no_change_def by (rule guarded_trans)

lemma reads_no_change: "reads m \<Longrightarrow> no_change w (snd (m w))"
proof -
  assume "reads m"
  then have "rg (w_pid w) (\<lambda>_ _. True) (\<lambda>s s'. s' = s) m (\<lambda>_ _. True) (\<lambda>_ _. True) (w_fs w)"
    by (rule readsD [where I = "\<lambda>_. True"]) (auto simp: steady_def)
  from rgE(1) [OF this refl] show ?thesis by (simp add: obeys_def no_change_def)
qed

text \<open>
  C12: Inspection is free of side effects. Whatever other processes do and whichever calls fail,
  no call made by the inspection of a resume, the verification of a run or the inspection of a
  workspace suite changes the file system.
\<close>

theorem inspection_changes_nothing:
  assumes "reads (h_ps H)"
  shows "no_change w (snd (inspect_resume H run w)) \<and> no_change w (snd (verify_run H run w))
    \<and> no_change w (snd (inspect_workspace_suite H suite_file w))"
  using assms by (intro conjI reads_no_change reads_intros)

text \<open>A host without a \<open>ps\<close> command.\<close>

definition sample_host :: host where
  "sample_host = \<lparr>h_lib = sample_lib, h_toml = (\<lambda>_. None), h_text = (\<lambda>_ _. lit ''x''), h_which = (\<lambda>_ _. None),
     h_ps = raise OSError, h_group = 1, h_cwd = [], h_environ = [], h_platform = (lit ''p'', lit ''3'', lit ''L''),
     h_spawn = (\<lambda>_. raise OSError), h_directories = 10, h_rounds = 10, h_second = 4\<rparr>"

theorem inspection_changes_nothing_witness:
  "no_change (sample_world (\<lambda>_. Run)) (snd (inspect_resume sample_host [lit ''r''] (sample_world (\<lambda>_. Run))))"
proof -
  have "reads (h_ps sample_host)" by (simp add: sample_host_def reads_intros)
  from inspection_changes_nothing [OF this] show ?thesis by blast
qed

section \<open>An authorised resume\<close>

lemma reads_first:
  assumes "reads m" "iob m f w = (out, w')"
  shows "no_change w w' \<or> (\<exists>x w1. m w = (Ret x, w1) \<and> no_change w w1 \<and> f x w1 = (out, w'))"
proof (cases "m w")
  case (Pair r w1)
  with reads_no_change [OF assms(1), of w] have "no_change w w1" by simp
  with Pair assms(2) show ?thesis by (cases r) (auto simp: iob_def)
qed

lemma no_change_refl [simp]: "no_change w w"
  by (simp add: no_change_def)

lemma check_decision_returns:
  assumes "reads (h_ps H)" "check_decision H (Some h) ctx w = (Ret x, w')"
  shows "\<exists>d. build_resume_decision H ctx w = (Ret d, w') \<and> fld d ''decision_sha256'' = PStr h"
  using assms(2) by (auto simp: check_decision_def returns_simps split: if_splits)

lemma reads_check_decision [reads_intros]: "reads (h_ps H) \<Longrightarrow> reads (check_decision H e ctx)"
  unfolding check_decision_def by (intro reads_intros)

lemma reads_resume_sealed [reads_intros]: "reads (resume_sealed H ctx)"
  unfolding resume_sealed_def by (intro reads_intros)

definition resume_step :: "host \<Rightarrow> run_context \<Rightarrow> run_result io" where
  "resume_step H ctx =
     iob (commit_transition (h_lib H) (set_state ''last_error'' PNone (set_state ''status'' (PLit ''running'') ctx))
            (lit ''run_resumed'') None [(lit ''previous_status'', fld (rc_state ctx) ''status'')])
       (execute_remaining H ''resume'')"

lemma resume_open_checked:
  assumes "reads (h_ps H)" "resume_open H (Some h) ctx w = (out, w')"
  shows "no_change w w' \<or> (\<exists>w1 d w2. no_change w w1 \<and> build_resume_decision H ctx w1 = (Ret d, w2)
    \<and> fld d ''decision_sha256'' = PStr h \<and> resume_step H ctx w2 = (out, w'))"
proof -
  have open_eq: "resume_open H (Some h) ctx =
    iob (iob (verify_completed_prefix H ctx) (\<lambda>_. iob (assert_recovery_liveness H ctx) (\<lambda>_.
      iob (assert_resume_attempt_budget ctx) (\<lambda>_. verify_next_execution_context H ctx)))) (\<lambda>_.
    iob (check_decision H (Some h) ctx) (\<lambda>_. resume_step H ctx))"
    by (simp add: resume_open_def resume_step_def iob_assoc)
  have r: "reads (iob (verify_completed_prefix H ctx) (\<lambda>_. iob (assert_recovery_liveness H ctx) (\<lambda>_.
      iob (assert_resume_attempt_budget ctx) (\<lambda>_. verify_next_execution_context H ctx))))"
    using assms(1) by (intro reads_intros)
  from reads_first [OF r assms(2) [unfolded open_eq]] show ?thesis
  proof (elim disjE exE conjE)
    fix x w1 assume w1: "no_change w w1" "iob (check_decision H (Some h) ctx) (\<lambda>_. resume_step H ctx) w1 = (out, w')"
    from reads_first [OF reads_check_decision [OF assms(1)] w1(2)] show ?thesis
      using w1(1) no_change_trans check_decision_returns [OF assms(1)] by blast
  qed blast
qed

text \<open>
  C9: A resume that was authorised by the digest of a decision changes nothing unless, right
  before its first change, the decision built from the evidence of the run has that digest. A
  stale or foreign digest therefore leaves the file system as it is, in any world.
\<close>

theorem resume_needs_current_decision:
  assumes "reads (h_ps H)" "resume_run_checked H run (Some h) w = (out, w')"
  shows "no_change w w' \<or> (\<exists>ctx w1 d w2. no_change w w1 \<and> build_resume_decision H ctx w1 = (Ret d, w2)
    \<and> fld d ''decision_sha256'' = PStr h \<and> no_change w1 w2 \<and> resume_step H ctx w2 = (out, w'))"
proof (cases "is_sha256_text h")
  case True
  with assms(2) have l: "iob (load_context H run) (\<lambda>ctx. iob (verify_next_execution_context H ctx) (\<lambda>_.
      iob (check_decision H (Some h) ctx) (\<lambda>_. iob (path_lexists (rc_root ctx @ [BUNDLE_FILE])) (\<lambda>found.
      if found then resume_sealed H ctx else resume_open H (Some h) ctx)))) w = (out, w')"
    by (simp add: resume_run_checked_def)
  from reads_first [OF reads_load_context l] show ?thesis
  proof (elim disjE exE conjE)
    fix ctx w1 assume w1: "no_change w w1" and f: "iob (verify_next_execution_context H ctx) (\<lambda>_.
      iob (check_decision H (Some h) ctx) (\<lambda>_. iob (path_lexists (rc_root ctx @ [BUNDLE_FILE])) (\<lambda>found.
      if found then resume_sealed H ctx else resume_open H (Some h) ctx))) w1 = (out, w')"
    let ?b = "iob (verify_next_execution_context H ctx) (\<lambda>_. iob (check_decision H (Some h) ctx) (\<lambda>_.
      path_lexists (rc_root ctx @ [BUNDLE_FILE])))"
    have b: "reads ?b" using assms(1) by (intro reads_intros)
    from f have "iob ?b (\<lambda>found. if found then resume_sealed H ctx else resume_open H (Some h) ctx) w1 = (out, w')"
      by (simp add: iob_assoc)
    from reads_first [OF b this] show ?thesis
    proof (elim disjE exE conjE)
      fix found w2 assume w2: "no_change w1 w2"
        and r: "(if found then resume_sealed H ctx else resume_open H (Some h) ctx) w2 = (out, w')"
      have n: "no_change w w2" using w1 w2 by (rule no_change_trans)
      show ?thesis
      proof (cases found)
        case True
        with r reads_no_change [OF reads_resume_sealed, of w2 H ctx] have "no_change w2 w'" by simp
        with n no_change_trans show ?thesis by blast
      next
        case False
        with r have "resume_open H (Some h) ctx w2 = (out, w')" by simp
        from resume_open_checked [OF assms(1) this] show ?thesis
        proof (elim disjE exE conjE)
          fix w3 d w4 assume w3: "no_change w2 w3" "build_resume_decision H ctx w3 = (Ret d, w4)"
            "fld d ''decision_sha256'' = PStr h" "resume_step H ctx w4 = (out, w')"
          have "no_change w3 w4" using reads_no_change [OF reads_resume_decision [OF assms(1)], of w3 ctx] w3(2) by simp
          with w3 no_change_trans [OF n w3(1)] show ?thesis by blast
        qed (use n no_change_trans in blast)
      qed
    qed (use w1 no_change_trans in blast)
  qed blast
qed (use assms(2) in \<open>simp add: resume_run_checked_def\<close>)

theorem resume_needs_current_decision_witness:
  "let w = sample_world (\<lambda>_. Run); w' = snd (resume_run_checked sample_host [lit ''r''] (Some (replicate 64 48)) w) in
   no_change w w' \<or> (\<exists>ctx w1 d w2. no_change w w1 \<and> build_resume_decision sample_host ctx w1 = (Ret d, w2))"
proof -
  have "reads (h_ps sample_host)" by (simp add: sample_host_def reads_intros)
  from resume_needs_current_decision [OF this surjective_pairing] show ?thesis unfolding Let_def by blast
qed

section \<open>A completed run\<close>

text \<open>A run that returns has failed, or it has completed and its verification has just succeeded.\<close>

definition accounted :: "host \<Rightarrow> run_result outcome \<times> world \<Rightarrow> bool" where
  "accounted H result =
     (case result of
        (Ret r, w') \<Rightarrow> rr_status r = ''failed''
          \<or> rr_status r = ''completed'' \<and> (\<exists>v w1. verify_run H (rr_directory r) w1 = (Ret v, w'))
      | _ \<Rightarrow> True)"

lemma accounted_last: "(\<And>x w1. accounted H (f x w1)) \<Longrightarrow> accounted H (iob m f w)"
  by (cases "m w") (auto simp: iob_def accounted_def split: outcome.split)

lemma accounted_verified: "accounted H (iob (verify_run H (rc_root ctx)) (\<lambda>_. ret (task_result ctx ''completed'' d)) w)"
proof -
  obtain out w' where v: "verify_run H (rc_root ctx) w = (out, w')" by fastforce
  then show ?thesis by (cases out) (auto simp: iob_def accounted_def task_result_def)
qed

lemma accounted_execute: "accounted H (execute_remaining H operation ctx w)"
  unfolding execute_remaining_def
proof (rule accounted_last, split prod.split, intro allI impI)
  fix x w1 and ctx1 :: run_context and finished :: bool assume "x = (ctx1, finished)"
  show "accounted H ((if \<not> finished
     then ret (task_result ctx1 ''failed''
            (let last_error = fld (rc_state ctx1) ''last_error'' in
             if last_error = PNone \<or> last_error = PStr [] then PLit ''task failed closed'' else last_error))
     else iob (commit_transition (h_lib H)
                 (set_state ''last_error'' PNone (set_state ''status'' (PLit ''completed'') ctx1)) (lit ''run_completed'') None
                 [(lit ''operation'', PLit operation), (lit ''tasks'', PInt (int (length (suite_tasks (rc_suite ctx1)))))]) (\<lambda>ctx2.
     iob (build_bundle H ctx2) (\<lambda>_.
     iob (verify_run H (rc_root ctx2)) (\<lambda>_.
     ret (task_result ctx2 ''completed'' (PLit ''all tasks completed and the evidence bundle verified'')))))) w1)"
  proof (cases finished)
    case True
    then show ?thesis by (simp add: accounted_last accounted_verified)
  qed (simp add: accounted_def task_result_def)
qed

lemma accounted_start: "accounted H (start_run_checked H suite run w)"
  unfolding start_run_checked_def
  by (intro accounted_last) (auto split: prod.split intro!: accounted_last accounted_execute)

lemma accounted_resume: "accounted H (resume_run_checked H run expected w)"
proof -
  have "accounted H (resume_open H expected ctx w1)" for ctx w1
    unfolding resume_open_def by (intro accounted_last accounted_execute)
  moreover have "accounted H (resume_sealed H ctx w1)" for ctx w1
    using accounted_verified by (auto simp: resume_sealed_def accounted_def [of H "(Exc e, w1)" for e])
  ultimately have "accounted H (iob (load_context H run) (\<lambda>ctx. iob (verify_next_execution_context H ctx) (\<lambda>_.
      iob (check_decision H expected ctx) (\<lambda>_. iob (path_lexists (rc_root ctx @ [BUNDLE_FILE])) (\<lambda>found.
      if found then resume_sealed H ctx else resume_open H expected ctx)))) w)"
    by (intro accounted_last) simp
  then show ?thesis by (auto simp: resume_run_checked_def accounted_def)
qed

text \<open>
  C10: A run that returns reports a failed task, or it reports completion and the verification of
  its directory has succeeded as the last thing it did. This holds for every start and every
  resume, in any world.
\<close>

theorem completed_run_was_verified:
  "accounted H (start_run_checked H suite run w) \<and> accounted H (resume_run_checked H run expected w)"
  using accounted_start accounted_resume by blast

end
