(* ===== verification/Run_Verified.thy ===== *)
theory Run_Verified
  imports Read_Only
begin

text \<open>
  What a successful verification means (\<^verbatim>\<open>verify_run\<close> of \<^verbatim>\<open>src/src/benchhandoff/engine.py\<close>): while no
  other process interferes, the files of the run hold what its evidence records.
\<close>

section \<open>Learning from a return\<close>

text \<open>
  \<open>learns m s P\<close>: in a calm world with the file system \<open>s\<close>, a return of \<open>m\<close> leaves the file system
  as it is and has a value that satisfies \<open>P\<close>.
\<close>

definition learns :: "'a io \<Rightarrow> fs \<Rightarrow> ('a \<Rightarrow> bool) \<Rightarrow> bool" where
  "learns m s P \<longleftrightarrow> wp m (\<lambda>x s'. s' = s \<and> P x) (\<lambda>_ _. True) (\<lambda>_. True) s"

named_theorems learns_intros \<open>what a return tells\<close>

lemma learnsI: "(\<And>Q. (\<And>x. P x \<Longrightarrow> Q x s) \<Longrightarrow> wp m Q (\<lambda>_ _. True) (\<lambda>_. True) s) \<Longrightarrow> learns m s P"
  by (simp add: learns_def)

lemma learnsD:
  assumes "learns m (w_fs w) P" "calm w" "m w = (Ret x, w')"
  shows "w_fs w' = w_fs w \<and> P x"
  using wpD(1) [OF assms(1) [unfolded learns_def] assms(2,3)] by simp

lemma learns_reads: "reads m \<Longrightarrow> learns m s (\<lambda>_. True)"
  unfolding learns_def by (rule stillD [OF reads_still]) simp_all

lemma learns_iob: "learns m s P \<Longrightarrow> (\<And>x. P x \<Longrightarrow> learns (f x) s Q) \<Longrightarrow> learns (iob m f) s Q"
  unfolding learns_def by (rule wp_iob) (auto elim!: wp_mono)

lemma learns_mono: "learns m s P \<Longrightarrow> (\<And>x. P x \<Longrightarrow> Q x) \<Longrightarrow> learns m s Q"
  unfolding learns_def by (auto elim!: wp_mono)

lemma learns_basic [learns_intros]:
  "P x \<Longrightarrow> learns (ret x) s P" "learns (raise e) s P" "(\<And>x. r = Inr x \<Longrightarrow> P x) \<Longrightarrow> learns (from_result r) s P"
  unfolding learns_def by (intro wp_intros; simp)+

lemma learns_if [learns_intros]:
  "(b \<Longrightarrow> learns m s P) \<Longrightarrow> (\<not> b \<Longrightarrow> learns n s P) \<Longrightarrow> learns (if b then m else n) s P"
  by simp

lemma learns_let [learns_intros]: "learns (f a) s P \<Longrightarrow> learns (Let a f) s P"
  by simp

lemma learns_option [learns_intros]:
  "(v = None \<Longrightarrow> learns m s P) \<Longrightarrow> (\<And>x. v = Some x \<Longrightarrow> learns (f x) s P)
    \<Longrightarrow> learns (case v of None \<Rightarrow> m | Some x \<Rightarrow> f x) s P"
  by (cases v) simp_all

lemma learns_prod [learns_intros]:
  "(\<And>a b. x = (a, b) \<Longrightarrow> learns (f a b) s P) \<Longrightarrow> learns (case x of (a, b) \<Rightarrow> f a b) s P"
  by (cases x) simp

lemma learns_reraise [learns_intros]: "learns m s P \<Longrightarrow> learns (reraise h m) s P"
  unfolding learns_def by (rule wp_reraise)

lemma learns_map:
  assumes "\<And>x. x \<in> set xs \<Longrightarrow> learns (f x) s (\<lambda>_. P x)"
  shows "learns (io_map f xs) s (\<lambda>_. \<forall>x \<in> set xs. P x)"
  using assms
proof (induction xs)
  case (Cons x xs)
  show ?case
    unfolding io_map.simps
    by (rule learns_iob [OF Cons.prems], simp, rule learns_iob [OF Cons.IH]) (use Cons.prems in \<open>auto intro!: learns_intros\<close>)
qed (simp add: learns_basic del: io_simps)

text \<open>A step whose value is not needed.\<close>

lemma learns_skip: "reads m \<Longrightarrow> (\<And>x. learns (f x) s Q) \<Longrightarrow> learns (iob m f) s Q"
  by (rule learns_iob [OF learns_reads])

section \<open>Members with a recorded identity\<close>

text \<open>The file at a path below a root, reached without a link, has the recorded size and digest.\<close>

definition recorded_at :: "pylib \<Rightarrow> fs \<Rightarrow> path \<Rightarrow> pystr \<Rightarrow> pyval \<Rightarrow> bool" where
  "recorded_at L s root relative identity \<longleftrightarrow>
     (\<exists>q c. locate s True root = Inr q \<and> no_links s q (split_on 47 relative)
        \<and> node_at s (q @ split_on 47 relative) = Some (Reg c) \<and> identities_match (identity_of L c) identity)"

lemma learns_member_identity:
  assumes "wf_fs s"
  shows "learns (member_identity L root relative) s (\<lambda>v. \<exists>q c. locate s True root = Inr q
    \<and> no_links s q (split_on 47 relative) \<and> node_at s (q @ split_on 47 relative) = Some (Reg c) \<and> v = identity_of L c)"
  unfolding member_identity_def
proof (rule learnsI, rule wp_iob, rule wp_resolve_member [OF assms], rule wp_file_identity)
  fix Q q c
  assume m: "\<And>x. \<exists>q c. locate s True root = Inr q \<and> no_links s q (split_on 47 relative)
      \<and> node_at s (q @ split_on 47 relative) = Some (Reg c) \<and> x = identity_of L c \<Longrightarrow> Q x s"
    and q: "locate s True root = Inr q" "node_at s q = Some Dir" "portable_path L relative"
      "no_links s q (split_on 47 relative)" and c: "node_via s (q @ split_on 47 relative) = Some (Reg c)"
  have "dotdot \<notin> set (split_on 47 relative)"
    using portable_path_parts(3) [OF q(3)] by (auto simp: dotdot_def)
  then have "node_at s (q @ split_on 47 relative) = Some (Reg c)"
    using no_links_via [of s q] q c assms by (simp add: dir_at_def)
  with q show "Q (identity_of L c) s" by (intro m) blast
qed simp_all

lemma learns_verified:
  assumes "wf_fs s"
  shows "learns (iob (member_identity L root relative) (\<lambda>actual. identity_or_raise actual expected)) s
    (\<lambda>_. recorded_at L s root relative expected)"
  by (rule learns_iob [OF learns_member_identity [OF assms]])
    (auto simp: identity_or_raise_def recorded_at_def simp del: io_simps intro!: learns_intros)

text \<open>The root of the task paths.\<close>

definition is_task_root :: "fs \<Rightarrow> suite_spec \<Rightarrow> path \<Rightarrow> bool" where
  "is_task_root s suite root \<longleftrightarrow>
     (if suite_version suite \<noteq> 3 then root = suite_root suite
      else \<exists>d q. suite_workspace suite = Some d \<and> locate s True (suite_root suite) = Inr q
        \<and> node_at s q = Some Dir \<and> root = abspath (q @ split_on 47 (wsd_root d)))"

lemma learns_task_root:
  assumes "wf_fs s"
  shows "learns (task_root H suite) s (is_task_root s suite)"
  unfolding task_root_def
proof (intro learns_intros)
  fix d assume v: "\<not> suite_version suite \<noteq> 3" "suite_workspace suite = Some d"
  show "learns (iob (resolve_member (h_lib H) (suite_root suite) (wsd_root d)) checked_workspace_root) s (is_task_root s suite)"
    by (rule learnsI, intro wp_iob wp_resolve_member [OF assms] wp_checked_workspace_root)
      (use v in \<open>auto simp: is_task_root_def\<close>)
qed (simp add: is_task_root_def)

definition holds_at :: "pylib \<Rightarrow> fs \<Rightarrow> suite_spec \<Rightarrow> pystr \<Rightarrow> pyval \<Rightarrow> bool" where
  "holds_at L s suite relative identity \<longleftrightarrow> (\<exists>root. is_task_root s suite root \<and> recorded_at L s root relative identity)"

lemma learns_verify_member:
  assumes "wf_fs s"
  shows "learns (verify_member H suite relative expected) s (\<lambda>_. holds_at (h_lib H) s suite relative expected)"
  unfolding verify_member_def
  by (rule learns_iob [OF learns_task_root [OF assms]], rule learns_mono [OF learns_verified [OF assms]])
    (auto simp: holds_at_def)

section \<open>A verified run\<close>

text \<open>The evidence as it is on disk.\<close>

definition read_from :: "pylib \<Rightarrow> fs \<Rightarrow> path \<Rightarrow> pydict \<Rightarrow> bool" where
  "read_from L s p d \<longleftrightarrow> (\<exists>b v. node_via s p = Some (Reg b) \<and> json_input_value L b = Inr v \<and> d = dict_of v)"

lemma learns_read_json: "learns (read_json_file L p) s (\<lambda>v. read_from L s p (dict_of v))"
  unfolding read_json_file_def
  by (rule learnsI, intro wp_iob wp_read_regular_bytes wp_from_result) (auto simp: read_from_def)

text \<open>
  The run is complete, its plan and its state are those on disk, and every seed, every output the
  state records, and every artifact the bundle lists is a file with the recorded identity.
\<close>

definition run_holds :: "pylib \<Rightarrow> fs \<Rightarrow> run_context \<Rightarrow> pydict \<Rightarrow> bool" where
  "run_holds L s ctx bundle \<longleftrightarrow>
     fld (rc_state ctx) ''status'' = PLit ''completed'' \<and> fld (rc_state ctx) ''pending_event'' = PNone
   \<and> read_from L s (rc_root ctx @ [PLAN_FILE]) (rc_plan ctx) \<and> read_from L s (rc_root ctx @ [STATE_FILE]) (rc_state ctx)
   \<and> read_from L s (rc_root ctx @ [BUNDLE_FILE]) bundle
   \<and> (\<forall>(relative, identity) \<in> set (dict_of (fld (rc_plan ctx) ''seed_inputs'')).
        holds_at L s (rc_suite ctx) relative identity)
   \<and> (\<exists>outputs. final_outputs ctx = Inr outputs \<and> py_eq (fld bundle ''verified_outputs'') (PList outputs)
        \<and> (\<forall>output \<in> set outputs. holds_at L s (rc_suite ctx) (str_of (fld (dict_of output) ''path'')) output))
   \<and> (\<forall>artifact \<in> set (list_of (fld bundle ''run_artifacts'')).
        recorded_at L s (rc_root ctx) (str_of (fld (dict_of artifact) ''path'')) artifact)"

lemma learns_bound_tree:
  assumes "wf_fs s"
  shows "learns (check_bound_tree H suite run_root plan) s (\<lambda>_. \<forall>(relative, identity) \<in> set (dict_of (fld plan ''seed_inputs'')).
    holds_at (h_lib H) s suite relative identity)"
proof -
  have seed: "learns (check_seed H suite seed) s (\<lambda>_. case seed of (relative, identity) \<Rightarrow> holds_at (h_lib H) s suite relative identity)"
    for seed
    using learns_verify_member [OF assms, of H suite "fst seed" "snd seed"]
    by (cases seed) (simp add: check_seed_def verify_member_def)
  show ?thesis
    unfolding check_bound_tree_def check_output_device_def
    by (intro learns_iob [OF learns_map [OF seed]] learns_skip reads_intros learns_let learns_if learns_basic) auto
qed

lemma learns_checked_directory: "learns (checked_directory p) s (\<lambda>q. locate s True p = Inr q)"
  by (rule learnsI, rule wp_checked_directory) simp_all

lemma learns_load_context:
  assumes "wf_fs s"
  shows "learns (load_context H run) s (\<lambda>ctx. locate s True run = Inr (rc_root ctx) \<and>
    read_from (h_lib H) s (rc_root ctx @ [PLAN_FILE]) (rc_plan ctx) \<and> read_from (h_lib H) s (rc_root ctx @ [STATE_FILE]) (rc_state ctx)
    \<and> (\<forall>(relative, identity) \<in> set (dict_of (fld (rc_plan ctx) ''seed_inputs'')).
         holds_at (h_lib H) s (rc_suite ctx) relative identity))"
  unfolding load_context_def
  by (intro learns_iob [OF learns_checked_directory] learns_iob [OF learns_read_json] learns_iob [OF learns_bound_tree [OF assms]]
      learns_skip reads_intros learns_let learns_if learns_basic) auto

lemma recorded_artifacts:
  assumes "rfold recorded_artifact artifacts recorded = Inr result"
  shows "(\<forall>a \<in> set artifacts. map_of result (str_of (fld (dict_of a) ''path'')) = Some a)
    \<and> (\<forall>k v. map_of recorded k = Some v \<longrightarrow> map_of result k = Some v)"
  using assms
proof (induction artifacts arbitrary: recorded)
  case (Cons a artifacts)
  from Cons.prems obtain step where "recorded_artifact a recorded = Inr step" "rfold recorded_artifact artifacts step = Inr result"
    by auto
  then obtain d r where d: "a = PDict d" "fld d ''path'' = PStr r" "map_of recorded r = None"
      "rfold recorded_artifact artifacts (AList.update r a recorded) = Inr result"
    by (auto simp: recorded_artifact_def split: pyval.splits if_splits)
  from Cons.IH [OF d(4)] d(1-3) show ?case by (auto simp: update_conv' split: if_splits) (metis option.distinct(1))
qed simp

lemma learns_verify_bundle:
  assumes "wf_fs s"
  shows "learns (verify_bundle H ctx bundle) s (\<lambda>_.
    (\<exists>outputs. final_outputs ctx = Inr outputs \<and> py_eq (fld bundle ''verified_outputs'') (PList outputs)
       \<and> (\<forall>output \<in> set outputs. holds_at (h_lib H) s (rc_suite ctx) (str_of (fld (dict_of output) ''path'')) output))
    \<and> (\<forall>artifact \<in> set (list_of (fld bundle ''run_artifacts'')).
         recorded_at (h_lib H) s (rc_root ctx) (str_of (fld (dict_of artifact) ''path'')) artifact))" (is "learns _ s (\<lambda>_. ?P)")
  unfolding verify_bundle_def
proof (rule learns_iob [where P = "\<lambda>outputs. final_outputs ctx = Inr outputs"])
  fix outputs assume o: "final_outputs ctx = Inr outputs"
  let ?recorded = "\<lambda>recorded. rfold recorded_artifact (list_of (fld bundle ''run_artifacts'')) [] = Inr recorded"
  let ?held = "\<forall>output \<in> set outputs. holds_at (h_lib H) s (rc_suite ctx) (str_of (fld (dict_of output) ''path'')) output"
  have artifact: "learns (verify_artifact H (rc_root ctx) recorded relative) s (\<lambda>_.
      \<forall>a. map_of recorded relative = Some a \<longrightarrow> recorded_at (h_lib H) s (rc_root ctx) relative a)" for recorded relative
    unfolding verify_artifact_def
    by (intro learns_iob [OF learns_member_identity [OF assms]] learns_iob [OF learns_basic(3) [where P = "\<lambda>a. item recorded relative = Inr a"]])
      (auto simp: item_def identity_or_raise_def recorded_at_def simp del: io_simps
        intro!: learns_intros split: option.splits)
  have fin: ?P if e: "py_eq (fld bundle ''verified_outputs'') (PList outputs)" ?held
      and r: "?recorded recorded" "set (dkeys recorded) = set paths"
      and p: "\<forall>p \<in> set paths. \<forall>a. map_of recorded p = Some a \<longrightarrow> recorded_at (h_lib H) s (rc_root ctx) p a"
    for recorded paths
  proof -
    have "recorded_at (h_lib H) s (rc_root ctx) (str_of (fld (dict_of a) ''path'')) a"
      if "a \<in> set (list_of (fld bundle ''run_artifacts''))" for a
    proof -
      have "map_of recorded (str_of (fld (dict_of a) ''path'')) = Some a" using recorded_artifacts [OF r(1)] that by blast
      moreover from this have "str_of (fld (dict_of a) ''path'') \<in> set (dkeys recorded)"
        by (force simp: dkeys_def dest: map_of_SomeD)
      ultimately show ?thesis using p r(2) by blast
    qed
    with e o show ?thesis by blast
  qed
  show "learns (if \<not> py_eq (fld bundle ''verified_outputs'') (PList outputs) then raise EvidenceError
     else iob (io_map (\<lambda>output. verify_member H (rc_suite ctx) (str_of (fld (dict_of output) ''path'')) output) outputs) (\<lambda>_.
     iob (from_result (rfold recorded_artifact (list_of (fld bundle ''run_artifacts'')) [])) (\<lambda>recorded.
     iob (artifact_paths H (rc_root ctx)) (\<lambda>current_paths.
     if set (dkeys recorded) \<noteq> set current_paths then raise EvidenceError
     else iob (io_map (verify_artifact H (rc_root ctx) recorded) current_paths) (\<lambda>_.
     ret (length outputs, length current_paths)))))) s (\<lambda>_. ?P)"
    by (intro learns_if learns_iob [OF learns_map [OF learns_verify_member [OF assms]]]
        learns_iob [OF learns_basic(3) [where P = ?recorded]] learns_iob [OF learns_map [OF artifact]]
        learns_skip reads_intros learns_basic; (rule fin; simp)?) simp_all
qed (simp add: learns_basic)

lemma learns_verify_run:
  assumes "wf_fs s"
  shows "learns (verify_run H run) s (\<lambda>_. \<exists>ctx bundle. locate s True run = Inr (rc_root ctx) \<and> run_holds (h_lib H) s ctx bundle)"
  unfolding verify_run_def verify_run_checked_def verify_final_workspace_def
  by (intro learns_reraise learns_iob [OF learns_load_context [OF assms]] learns_iob [OF learns_read_json]
      learns_iob [OF learns_verify_bundle [OF assms]] learns_skip reads_intros learns_let learns_if learns_prod learns_basic)
    (force simp: run_holds_def)



end
