(* ===== verification/Recovery.thy ===== *)
theory Recovery
  imports Run_Verified
begin

text \<open>
  Recovering an interrupted task (\<^verbatim>\<open>_recover_incomplete_task\<close> of \<^verbatim>\<open>src/src/benchhandoff/engine.py\<close>):
  nothing is lost on the way into quarantine, wherever the recovery is cut off, and a recovery
  that returns has cleared the place of every declared output.
\<close>

section \<open>The place of the task files\<close>

text \<open>The physical directory below which the paths of tasks are resolved.\<close>

definition task_place :: "fs \<Rightarrow> suite_spec \<Rightarrow> path \<Rightarrow> bool" where
  "task_place s suite q \<longleftrightarrow> (\<exists>root. is_task_root s suite root \<and> locate s True root = Inr q) \<and> node_at s q = Some Dir"

lemma task_place_unique: "task_place s suite q \<Longrightarrow> task_place s suite q' \<Longrightarrow> q' = q"
  by (auto simp: task_place_def is_task_root_def split: if_splits)

lemma task_place_same:
  assumes "same_tree s s'" "task_place s suite q"
  shows "task_place s' suite q"
proof -
  have l: "locate s' True p = Inr r" if "locate s True p = Inr r" "node_at s r = Some Dir" for p r
    using that walk_same_tree [OF assms(1)] by (simp add: locate_def)
  have d: "node_at s' r = Some Dir" if "node_at s r = Some Dir" for r
    using that assms(1) by (auto simp: same_tree_def)
  obtain root where r: "is_task_root s suite root" "locate s True root = Inr q" "node_at s q = Some Dir"
    using assms(2) by (auto simp: task_place_def)
  then have "is_task_root s' suite root" using l d by (auto simp: is_task_root_def)
  with r l d show ?thesis by (auto simp: task_place_def)
qed

text \<open>What the check of separate trees gives: the task files are not around the quarantine.\<close>

definition quarantine_of :: "run_context \<Rightarrow> path" where
  "quarantine_of ctx = rc_root ctx @ [QUARANTINE_DIRECTORY]"

definition tasks_apart :: "fs \<Rightarrow> run_context \<Rightarrow> bool" where
  "tasks_apart s ctx \<longleftrightarrow> (\<forall>q. task_place s (rc_suite ctx) q \<longrightarrow> \<not> prefix q (quarantine_of ctx))"

lemma apart_names:
  assumes "\<not> prefix q (r @ [d])" "ps \<noteq> []"
  shows "q @ ps \<noteq> r @ [x]" "q @ ps \<noteq> r @ [d] @ [x]" "q @ butlast ps \<noteq> r"
proof -
  obtain ps' c where ps: "ps = ps' @ [c]" using assms(2) by (cases ps rule: rev_cases) auto
  show "q @ ps \<noteq> r @ [x]" "q @ ps \<noteq> r @ [d] @ [x]" "q @ butlast ps \<noteq> r"
    using assms(1) prefixI [OF sym, of q ps' "r @ [d]"] unfolding ps
    by (auto simp: append_assoc [symmetric] simp del: append_assoc)
qed

section \<open>Conservation\<close>

text \<open>The place of a declared output and its name in quarantine.\<close>

definition set_aside :: "pylib \<Rightarrow> run_context \<Rightarrow> task_spec \<Rightarrow> nat \<Rightarrow> fs \<Rightarrow> path \<Rightarrow> path \<Rightarrow> bool" where
  "set_aside L ctx task n s p p' \<longleftrightarrow>
     (\<exists>q. \<exists>relative \<in> set (task_outputs task). \<exists>name. task_place s (rc_suite ctx) q \<and> p = q @ split_on 47 relative
        \<and> quarantine_name L (task_id task) n relative = Inr name \<and> p' = quarantine_of ctx @ [name])"

text \<open>Every file is where it was, or it is an output of the task and under its name in quarantine.\<close>

definition conserved :: "pylib \<Rightarrow> run_context \<Rightarrow> task_spec \<Rightarrow> nat \<Rightarrow> fs \<Rightarrow> fs \<Rightarrow> bool" where
  "conserved L ctx task n s0 s \<longleftrightarrow>
     (\<forall>p c. node_at s0 p = Some (Reg c) \<longrightarrow> p \<notin> run_files (rc_root ctx) \<longrightarrow>
        node_at s p = Some (Reg c) \<or> (\<exists>p'. set_aside L ctx task n s0 p p' \<and> node_at s p' = Some (Reg c)))"

definition cleared :: "run_context \<Rightarrow> fs \<Rightarrow> fs \<Rightarrow> pystr \<Rightarrow> bool" where
  "cleared ctx s0 s relative \<longleftrightarrow>
     (\<forall>q. task_place s0 (rc_suite ctx) q \<longrightarrow> node_at s (q @ split_on 47 relative) = None)"

text \<open>What holds between two moves.\<close>

definition recovering :: "pylib \<Rightarrow> run_context \<Rightarrow> task_spec \<Rightarrow> nat \<Rightarrow> bytes \<Rightarrow> bytes \<Rightarrow> fs \<Rightarrow> fs \<Rightarrow> bool" where
  "recovering L ctx task n b l s0 s \<longleftrightarrow>
     conserved L ctx task n s0 s \<and> on_disk (rc_root ctx) b l s \<and> dir_at s (quarantine_of ctx)
     \<and> same_tree s0 s \<and> same_tree s s0"

lemma moved_back: "move_target s0 src dst a b \<Longrightarrow> moved s0 a b s \<Longrightarrow> same_tree s s0"
  by (auto simp: move_target_def moved_def same_tree_def is_lnk_def split: if_splits)

lemma same_tree_trans: "same_tree s s' \<Longrightarrow> same_tree s' s'' \<Longrightarrow> same_tree s s''"
  by (simp add: same_tree_def)

lemma conserved_move:
  assumes "conserved L ctx task n s0 s" "moved s a b s'" "node_at s b = None"
    and "set_aside L ctx task n s0 a b" "\<And>x. a \<noteq> quarantine_of ctx @ [x]"
  shows "conserved L ctx task n s0 s'"
  unfolding conserved_def
proof (intro allI impI)
  fix p c assume p: "node_at s0 p = Some (Reg c)" "p \<notin> run_files (rc_root ctx)"
  have m: "node_at s' x = (if x = b then node_at s a else if x = a then None else node_at s x)" for x
    using assms(2) by (simp add: moved_def)
  from assms(1) p consider "node_at s p = Some (Reg c)"
    | p' where "set_aside L ctx task n s0 p p'" "node_at s p' = Some (Reg c)" by (auto simp: conserved_def)
  then show "node_at s' p = Some (Reg c) \<or> (\<exists>p'. set_aside L ctx task n s0 p p' \<and> node_at s' p' = Some (Reg c))"
  proof cases
    case 1
    then have "p \<noteq> b" using assms(3) by auto
    with 1 m [of p] m [of b] assms(4) show ?thesis by (cases "p = a") auto
  next
    case 2
    then have "p' \<noteq> a" using assms(5) by (auto simp: set_aside_def)
    moreover have "p' \<noteq> b" using 2(2) assms(3) by auto
    ultimately have "node_at s' p' = Some (Reg c)" using 2(2) m [of p'] by simp
    with 2(1) show ?thesis by blast
  qed
qed
lemma conserved_keep:
  assumes "conserved L ctx task n s0 s" "kept s s' (run_files (rc_root ctx))"
  shows "conserved L ctx task n s0 s'"
proof -
  have k: "node_at s' p = Some (Reg c)" if "node_at s p = Some (Reg c)" "p \<notin> run_files (rc_root ctx)" for p c
    using that assms(2) by (auto simp: kept_def)
  have "p' \<notin> run_files (rc_root ctx)" if "set_aside L ctx task n s0 p p'" for p p'
    using that by (auto simp: set_aside_def quarantine_of_def run_files_def)
  with k assms(1) show ?thesis unfolding conserved_def by blast
qed

section \<open>One output\<close>

lemma butlast_no_links:
  assumes "dir_at s q" "no_links s q ps" "dotdot \<notin> set ps" "ps \<noteq> []" "locate s True (butlast (q @ ps)) = Inr d"
  shows "d = q @ butlast ps"
proof (cases "butlast ps = []")
  case True
  then show ?thesis using assms(1,4,5) dir_at_locate [OF assms(1)] by (simp add: butlast_append)
next
  case False
  have nl: "no_links s q (xs @ ys) \<Longrightarrow> no_links s q xs" for xs ys q
    by (induction xs arbitrary: q) (auto split: option.splits)
  have "no_links s q (butlast ps)" using nl [of q "butlast ps" "[last ps]"] assms(2,4) by simp
  moreover have "dotdot \<notin> set (butlast ps)" using assms(3) by (meson in_set_butlastD)
  moreover have "locate s True (q @ butlast ps) = walk s MAX_LINKS True q (butlast ps)"
    unfolding locate_def using assms(1) walk_physical by (simp add: dir_at_def)
  ultimately show ?thesis
    using walk_no_links [of s q "butlast ps" MAX_LINKS True] False assms(4,5) by (auto simp: butlast_append)
qed

lemma recovering_move:
  assumes r: "recovering L ctx task n b l s0 s" and apart: "tasks_apart s0 ctx"
    and rel: "relative \<in> set (task_outputs task)" "quarantine_name L (task_id task) n relative = Inr name"
    and q: "task_place s0 (rc_suite ctx) q" "dir_at s q" "no_links s q (split_on 47 relative)"
      "dotdot \<notin> set (split_on 47 relative)"
    and m: "move_target s (q @ split_on 47 relative) (quarantine_of ctx @ [name]) a b'" "moved s a b' s'"
  shows "recovering L ctx task n b l s0 s'" "node_at s' (q @ split_on 47 relative) = None"
    "cleared ctx s0 s other \<Longrightarrow> cleared ctx s0 s' other"
proof -
  let ?src = "q @ split_on 47 relative"
  have ne: "\<not> prefix q (rc_root ctx @ [QUARANTINE_DIRECTORY])" "split_on 47 relative \<noteq> []"
    using apart q(1) by (auto simp: tasks_apart_def quarantine_of_def)
  have d: "dir_at s (quarantine_of ctx)" "on_disk (rc_root ctx) b l s" using r by (auto simp: recovering_def)
  have a: "a = ?src"
    using m(1) butlast_no_links [OF q(2-4) ne(2)] ne(2) unfolding move_target_def by (auto simp: butlast_append)
  have b: "b' = quarantine_of ctx @ [name]" "node_at s b' = None"
    using m(1) dir_at_locate [OF d(1), of True] unfolding move_target_def by auto
  have t: "same_tree s s'" "same_tree s' s" using m moved_tree moved_back by blast+
  have n: "node_at s' x = (if x = b' then node_at s a else if x = a then None else node_at s x)" and wf: "wf_fs s'" for x
    using m(2) by (auto simp: moved_def)
  have off: "a \<noteq> quarantine_of ctx @ [x]" "a \<noteq> rc_root ctx @ [x]" "b' \<noteq> rc_root ctx @ [x]" for x
    using apart_names [OF ne] by (auto simp: a b(1) quarantine_of_def)
  have "set_aside L ctx task n s0 a b'" using q(1) rel a b(1) by (auto simp: set_aside_def)
  then have "conserved L ctx task n s0 s'" using conserved_move [OF _ m(2) b(2)] off(1) r by (auto simp: recovering_def)
  moreover have "dir_at s' x" if "dir_at s x" for x using that t(1) wf by (auto simp: dir_at_def same_tree_def)
  moreover have "node_at s' (rc_root ctx @ [x]) = node_at s (rc_root ctx @ [x])" for x
    using n [of "rc_root ctx @ [x]"] off(2,3) [of x] by (metis)
  ultimately show "recovering L ctx task n b l s0 s'"
    using r d t by (auto simp: recovering_def on_disk_def intro: same_tree_trans)
  show "node_at s' ?src = None" using n [of ?src] off(1) [of name] by (simp add: a b(1))
  show "cleared ctx s0 s' other" if c: "cleared ctx s0 s other"
    unfolding cleared_def
  proof (intro allI impI)
    fix q' assume "task_place s0 (rc_suite ctx) q'"
    moreover from this have "q' = q" by (rule task_place_unique [OF q(1)])
    moreover have "q @ split_on 47 other \<noteq> b'"
      using apart_names(2) [OF ne(1), of "split_on 47 other"] by (simp add: b(1) quarantine_of_def)
    ultimately show "node_at s' (q' @ split_on 47 other) = None"
      using c n [of "q @ split_on 47 other"] by (simp add: cleared_def)
  qed
qed

lemma wp_learns:
  assumes "learns m s P" "reads m" "\<And>x. P x \<Longrightarrow> Q x s" "\<And>e. X e s" "K s"
  shows "wp m Q X K s"
proof -
  have "wp m (\<lambda>_ s'. s' = s) (\<lambda>_ s'. s' = s) (\<lambda>s'. s' = s) s" by (rule stillD [OF reads_still [OF assms(2)]]) simp_all
  with assms(1) have "wp m (\<lambda>x s'. s' = s \<and> P x) (\<lambda>_ s'. s' = s) (\<lambda>s'. s' = s) s"
    unfolding learns_def wp_def meets_def by (auto split: outcome.splits)
  then show ?thesis by (rule wp_mono) (use assms(3-) in auto)
qed

lemma wp_reads: "reads m \<Longrightarrow> (\<And>x. Q x s) \<Longrightarrow> (\<And>e. X e s) \<Longrightarrow> K s \<Longrightarrow> wp m Q X K s"
  by (rule stillD [OF reads_still])

lemma quarantine_name_file: "quarantine_name L tid n relative = Inr name \<Longrightarrow> name \<noteq> dotdot"
  by (auto simp: quarantine_name_def dotdot_def lit_def split: option.splits)

lemma wp_quarantine_output:
  assumes r: "recovering (h_lib H) ctx task n b l s0 s" and apart: "tasks_apart s0 ctx"
    and rel: "relative \<in> set (task_outputs task)"
  shows "wp (quarantine_output H ctx task n (quarantine_of ctx) relative acc)
    (\<lambda>_ s'. recovering (h_lib H) ctx task n b l s0 s' \<and> cleared ctx s0 s' relative
       \<and> (\<forall>other. cleared ctx s0 s other \<longrightarrow> cleared ctx s0 s' other))
    (\<lambda>_ s'. recovering (h_lib H) ctx task n b l s0 s') (recovering (h_lib H) ctx task n b l s0) s"
    (is "wp _ ?Q ?X ?K s")
proof -
  have wf: "wf_fs s" using r by (auto simp: recovering_def dir_at_def)
  have body: "wp (iob (path_lexists (q @ split_on 47 relative)) (\<lambda>source_exists.
      iob (path_lexists (quarantine_of ctx @ [name])) (\<lambda>destination_exists.
      if source_exists \<and> destination_exists then raise EvidenceError
      else if source_exists
      then iob (move_regular_same_filesystem (h_lib H) (q @ split_on 47 relative) (quarantine_of ctx @ [name]))
             (\<lambda>identity. ret (acc @ [f identity]))
      else if destination_exists
      then iob (file_identity (h_lib H) (quarantine_of ctx @ [name])) (\<lambda>identity. ret (acc @ [f identity]))
      else ret acc))) ?Q ?X ?K s"
    if place: "is_task_root s (rc_suite ctx) root" "locate s True root = Inr q" "node_at s q = Some Dir"
      and port: "portable_path (h_lib H) relative" "no_links s q (split_on 47 relative)"
      and name: "quarantine_name (h_lib H) (task_id task) n relative = Inr name" for root q name f
  proof -
    have q: "task_place s0 (rc_suite ctx) q" "dir_at s q"
      using place r wf task_place_same [of s s0 _ q] by (auto simp: task_place_def recovering_def dir_at_def)
    have dd: "dotdot \<notin> set (split_on 47 relative)"
      using portable_path_parts(3) [OF port(1)] by (auto simp: dotdot_def)
    then have last: "last (q @ split_on 47 relative) \<noteq> dotdot"
      using split_on_not_Nil by (metis last_appendR last_in_set)
    have here: "cleared ctx s0 s relative" if "\<not> fs_lexists (q @ split_on 47 relative) s"
      using that task_place_unique [OF q(1)] no_links_via [OF q(2) port(2) dd]
      by (auto simp: cleared_def fs_lexists_iff)
    note moved = recovering_move [OF r apart rel name q port(2) dd]
    have gone: "cleared ctx s0 s' relative" if "node_at s' (q @ split_on 47 relative) = None" for s'
      using that task_place_unique [OF q(1)] by (auto simp: cleared_def)
    have move: "wp (move_regular_same_filesystem (h_lib H) (q @ split_on 47 relative) (quarantine_of ctx @ [name]))
        (\<lambda>x. wp (ret (acc @ [f x])) ?Q ?X ?K) ?X ?K s"
      by (rule wp_mono [OF wp_move_regular [OF wf last]])
        (use quarantine_name_file [OF name] moved gone r in \<open>auto intro!: wp_ret\<close>)
    show ?thesis
      by (intro wp_iob wp_path_lexists wp_if move wp_raise wp_file_identity wp_ret)
        (use r here in auto)
  qed
  show ?thesis
    unfolding quarantine_output_def
    by (rule wp_iob, rule wp_learns [OF learns_task_root [OF wf] reads_roots(3)], rule wp_iob, rule wp_resolve_member [OF wf],
        rule wp_iob, rule wp_from_result) (use r in \<open>auto simp: Let_def intro!: body\<close>)
qed

section \<open>The whole recovery\<close>

lemma wp_quarantine_outputs:
  assumes "recovering (h_lib H) ctx task n b l s0 s" "tasks_apart s0 ctx" "set relatives \<subseteq> set (task_outputs task)"
  shows "wp (io_fold (quarantine_output H ctx task n (quarantine_of ctx)) relatives acc)
    (\<lambda>_ s'. recovering (h_lib H) ctx task n b l s0 s' \<and> (\<forall>relative \<in> set relatives. cleared ctx s0 s' relative)
       \<and> (\<forall>other. cleared ctx s0 s other \<longrightarrow> cleared ctx s0 s' other))
    (\<lambda>_ s'. recovering (h_lib H) ctx task n b l s0 s') (recovering (h_lib H) ctx task n b l s0) s"
  using assms
proof (induction relatives arbitrary: acc s)
  case (Cons relative rest)
  show ?case
    unfolding io_fold.simps
  proof (rule wp_iob, rule wp_mono [OF wp_quarantine_output [OF Cons.prems(1,2)]])
    fix acc' s1
    assume c: "recovering (h_lib H) ctx task n b l s0 s1 \<and> cleared ctx s0 s1 relative
      \<and> (\<forall>other. cleared ctx s0 s other \<longrightarrow> cleared ctx s0 s1 other)"
    then show "wp (io_fold (quarantine_output H ctx task n (quarantine_of ctx)) rest acc')
      (\<lambda>_ s'. recovering (h_lib H) ctx task n b l s0 s' \<and> (\<forall>relative \<in> set (relative # rest). cleared ctx s0 s' relative)
         \<and> (\<forall>other. cleared ctx s0 s other \<longrightarrow> cleared ctx s0 s' other))
      (\<lambda>_ s'. recovering (h_lib H) ctx task n b l s0 s') (recovering (h_lib H) ctx task n b l s0) s1"
      using Cons.prems by (intro wp_mono [OF Cons.IH]) auto
  qed (use Cons.prems in auto)
qed (auto simp del: io_simps intro: wp_ret)

lemma recovering_refl:
  assumes "on_disk (rc_root ctx) b l s" "dir_at s (quarantine_of ctx)"
  shows "recovering L ctx task n b l s s"
  using assms by (auto simp: recovering_def conserved_def same_tree_def)

lemma cleared_keep:
  assumes "kept s s' (run_files (rc_root ctx))" "tasks_apart s0 ctx" "cleared ctx s0 s relative"
  shows "cleared ctx s0 s' relative"
  unfolding cleared_def
proof (intro allI impI)
  fix q assume q: "task_place s0 (rc_suite ctx) q"
  then have "\<not> prefix q (rc_root ctx @ [QUARANTINE_DIRECTORY])"
    using assms(2) by (auto simp: tasks_apart_def quarantine_of_def)
  then have "butlast (q @ split_on 47 relative) \<noteq> rc_root ctx"
    using apart_names(3) [of q "rc_root ctx" QUARANTINE_DIRECTORY "split_on 47 relative"] by (simp add: butlast_append)
  moreover have "node_at s (q @ split_on 47 relative) = None" using assms(3) q by (simp add: cleared_def)
  ultimately show "node_at s' (q @ split_on 47 relative) = None"
    using assms(1) by (fastforce simp: kept_def run_files_def)
qed

lemma reads_recovery [reads_intros]:
  "reads (recovery_observed H ctx task latest)" "reads (recovered_attempt H ctx latest quarantined)"
  unfolding recovery_observed_def recovered_attempt_def by (intro reads_intros)+

text \<open>The attempt that a recovery belongs to.\<close>

definition attempt_number_of :: "run_context \<Rightarrow> task_spec \<Rightarrow> nat" where
  "attempt_number_of ctx task = nat (int_of (fld (last (task_attempts ctx task)) ''number''))"

lemma wp_recover_task:
  assumes "on_disk (rc_root ctx) b l s0" "dir_at s0 (quarantine_of ctx)" "tasks_apart s0 ctx" "reads (h_ps H)"
  shows "wp (recover_incomplete_task H ctx task)
    (\<lambda>_ s. conserved (h_lib H) ctx task (attempt_number_of ctx task) s0 s \<and> (\<forall>relative \<in> set (task_outputs task). cleared ctx s0 s relative))
    (\<lambda>_. conserved (h_lib H) ctx task (attempt_number_of ctx task) s0)
    (conserved (h_lib H) ctx task (attempt_number_of ctx task) s0) s0"
    (is "wp _ ?Q ?X ?K s0")
proof -
  let ?n = "attempt_number_of ctx task"
  note here = recovering_refl [OF assms(1,2), of "h_lib H" task ?n]
  have here': "?K s0" using here by (simp add: recovering_def)
  have rest: "wp (iob (recovered_attempt H ctx latest quarantined) (\<lambda>attempt.
      commit_transition (h_lib H) (set_task (task_id task) (f attempt) ctx) ty tid details)) ?Q ?X ?K s"
    if r: "recovering (h_lib H) ctx task ?n b l s0 s" "\<forall>relative \<in> set (task_outputs task). cleared ctx s0 s relative"
    for latest quarantined f ty tid details s
  proof (rule wp_iob, rule wp_reads [OF reads_recovery(2)])
    have c: "conserved (h_lib H) ctx task ?n s0 s" using r(1) by (simp add: recovering_def)
    then show "?K s" "?X e s" for e by simp_all
    fix attempt
    have "on_disk (rc_root (set_task (task_id task) (f attempt) ctx)) b l s"
      using r(1) by (simp add: recovering_def set_task_def)
    then show "wp (commit_transition (h_lib H) (set_task (task_id task) (f attempt) ctx) ty tid details) ?Q ?X ?K s"
      by (rule wp_mono [OF wp_commit_transition])
        (use conserved_keep [OF c] cleared_keep [OF _ assms(3)] r(2) in \<open>auto simp: set_task_def\<close>)
  qed
  have root: "wp (checked_directory (rc_root ctx @ [QUARANTINE_DIRECTORY])) Q ?X ?K s0" if "Q (quarantine_of ctx) s0" for Q
    by (rule wp_checked_directory) (use that here' dir_at_locate [OF assms(2)] in \<open>auto simp: quarantine_of_def\<close>)
  have fold: "wp (iob (io_fold (quarantine_output H ctx task ?n (quarantine_of ctx)) (task_outputs task) []) (\<lambda>quarantined.
      iob (recovered_attempt H ctx latest quarantined) (\<lambda>attempt.
      commit_transition (h_lib H) (set_task (task_id task) (f attempt) ctx) ty tid (details quarantined)))) ?Q ?X ?K s0"
    for latest f ty tid details
    by (rule wp_iob, rule wp_mono [OF wp_quarantine_outputs [OF here assms(3)]])
      (use rest in \<open>auto simp: recovering_def\<close>)
  show ?thesis
    unfolding recover_incomplete_task_def Let_def attempt_number_of_def [symmetric]
    by (intro wp_if wp_raise fold wp_iob [OF wp_reads [OF reads_recovery_liveness [OF assms(4)]]]
          wp_iob [OF wp_reads [OF reads_recovery(1)]] wp_iob [OF wp_utc_now] wp_iob [OF root])
      (use here' in auto)
qed

section \<open>Properties\<close>

lemma first_must_return:
  assumes "reads m" "calm w"
  shows "w_fs (snd (iob m f w)) = w_fs w \<or> (\<exists>x w1. m w = (Ret x, w1))"
proof -
  have "wp m (\<lambda>_ s. s = w_fs w) (\<lambda>_ s. s = w_fs w) (\<lambda>s. s = w_fs w) (w_fs w)"
    by (rule wp_reads [OF assms(1)]) simp_all
  note m = wpD [OF this assms(2)]
  show ?thesis
  proof (cases "m w")
    case (Pair r w1)
    then show ?thesis
    proof (cases r)
      case (Exc e)
      with m(2) [of e w1] Pair show ?thesis by (simp add: iob_def)
    next
      case Killed
      with m(3) [of w1] Pair show ?thesis by (simp add: iob_def)
    qed simp
  qed
qed

text \<open>
  C11: A run directory has its state, its log and its quarantine directory in place, the task files
  lie apart from the quarantine, and the command \<open>ps\<close> only looks. While no other process interferes,
  the recovery of an interrupted task loses no file, whichever call fails and wherever the process
  is killed: every regular file but the state and the log of the run is where it was, or it is a
  declared output of the task and its content is in quarantine under the name of that output and
  attempt. A recovery that returns has left no declared output at its place, so that the next attempt
  starts clean. And nothing is changed unless the check that the runner and its child are gone has
  returned.
\<close>

theorem recovery_loses_nothing:
  assumes "calm w" "on_disk (rc_root ctx) b l (w_fs w)" "dir_at (w_fs w) (quarantine_of ctx)" "tasks_apart (w_fs w) ctx"
    and "reads (h_ps H)"
  shows "conserved (h_lib H) ctx task (attempt_number_of ctx task) (w_fs w) (w_fs (snd (recover_incomplete_task H ctx task w)))
    \<and> (case fst (recover_incomplete_task H ctx task w) of
         Ret _ \<Rightarrow> \<forall>relative \<in> set (task_outputs task).
           cleared ctx (w_fs w) (w_fs (snd (recover_incomplete_task H ctx task w))) relative
       | _ \<Rightarrow> True)
    \<and> (w_fs (snd (recover_incomplete_task H ctx task w)) = w_fs w
       \<or> (\<exists>w1. assert_recovery_liveness H ctx w = (Ret (), w1)))"
proof -
  note r = wpD [OF wp_recover_task [OF assms(2-5)] assms(1)]
  have "w_fs (snd (recover_incomplete_task H ctx task w)) = w_fs w \<or> (\<exists>w1. assert_recovery_liveness H ctx w = (Ret (), w1))"
    unfolding recover_incomplete_task_def Let_def
    by (simp, intro impI first_must_return [OF reads_recovery_liveness [OF assms(5)] assms(1), simplified])
  then show ?thesis
    using r by (cases "recover_incomplete_task H ctx task w") (auto split: outcome.split)
qed

text \<open>An interrupted first attempt of a task with its output in place.\<close>

definition halted_fs :: fs where
  "halted_fs = \<lparr>fs_names = [([], 0), ([lit ''r''], 1), ([lit ''r'', STATE_FILE], 2), ([lit ''r'', EVENTS_FILE], 3),
       ([lit ''r'', QUARANTINE_DIRECTORY], 4), ([lit ''q''], 5), ([lit ''q'', lit ''d''], 6), ([lit ''q'', lit ''d'', lit ''o''], 7)],
     fs_nodes = (\<lambda>i. if i = 2 then Reg ''s'' else if i = 3 then Reg [] else if i = 7 then Reg ''x'' else Dir), fs_dev = (\<lambda>_. 0),
     fs_next = 8, fs_locks = (\<lambda>_. None), fs_maker = (\<lambda>_. 0)\<rparr>"

definition halted_ctx :: run_context where
  "halted_ctx = (sample_ctx [(lit ''tasks'', PDict [(lit ''a'', PDict [(lit ''status'', PLit ''running''),
     (lit ''attempts'', PList [PDict [(lit ''number'', PInt 1)]])])])])\<lparr>rc_suite := sample_suite\<lparr>suite_root := [lit ''q'']\<rparr>\<rparr>"

theorem recovery_loses_nothing_witness:
  "\<forall>fates. let s = w_fs (snd (recover_incomplete_task sample_host halted_ctx (hd (suite_tasks sample_suite))
       ((sample_world fates)\<lparr>w_fs := halted_fs\<rparr>))) in
     node_at s [lit ''q'', lit ''d'', lit ''o''] = Some (Reg ''x'')
     \<or> (\<exists>name. node_at s [lit ''r'', QUARANTINE_DIRECTORY, name] = Some (Reg ''x''))"
proof
  fix fates
  let ?w = "(sample_world fates)\<lparr>w_fs := halted_fs\<rparr>"
  note names = halted_fs_def halted_ctx_def sample_ctx_def STATE_FILE_def EVENTS_FILE_def QUARANTINE_DIRECTORY_def
  have n: "node_at halted_fs [lit ''q'', lit ''d'', lit ''o''] = Some (Reg ''x'')" "node_at halted_fs [lit ''q''] = Some Dir"
    by (simp_all add: names node_at_def entry_def)
  have wf: "wf_fs halted_fs" by (simp add: wf_fs_def names node_at_def entry_def dotdot_def) (simp add: lit_def)
  have "on_disk (rc_root halted_ctx) ''s'' [] halted_fs" "dir_at halted_fs (quarantine_of halted_ctx)"
    using wf by (simp_all add: on_disk_def dir_at_def quarantine_of_def names node_at_def entry_def)
  moreover have "tasks_apart halted_fs halted_ctx"
    using dir_at_locate [of halted_fs "[lit ''q'']" True] wf n(2)
    by (auto simp: tasks_apart_def task_place_def is_task_root_def quarantine_of_def dir_at_def halted_ctx_def sample_ctx_def sample_suite_def)
  moreover have "reads (h_ps sample_host)" by (simp add: sample_host_def reads_intros)
  moreover have "calm ?w" by (simp add: sample_world_def calm_def)
  moreover have "[lit ''q'', lit ''d'', lit ''o''] \<notin> run_files (rc_root halted_ctx)"
    by (simp add: run_files_def halted_ctx_def sample_ctx_def)
  ultimately obtain s where s: "s = w_fs (snd (recover_incomplete_task sample_host halted_ctx (hd (suite_tasks sample_suite)) ?w))"
      "node_at s [lit ''q'', lit ''d'', lit ''o''] = Some (Reg ''x'')
       \<or> (\<exists>p'. set_aside sample_lib halted_ctx (hd (suite_tasks sample_suite)) (attempt_number_of halted_ctx (hd (suite_tasks sample_suite)))
            halted_fs [lit ''q'', lit ''d'', lit ''o''] p' \<and> node_at s p' = Some (Reg ''x''))"
    using recovery_loses_nothing [of ?w halted_ctx "''s''" "[]" sample_host "hd (suite_tasks sample_suite)"] n(1)
    unfolding conserved_def by (simp add: sample_host_def)
  moreover have "\<exists>name. p' = [lit ''r'', QUARANTINE_DIRECTORY, name]" if "set_aside L halted_ctx t k f p p'" for L t k f p p'
    using that by (auto simp: set_aside_def quarantine_of_def halted_ctx_def sample_ctx_def)
  ultimately show "let s = w_fs (snd (recover_incomplete_task sample_host halted_ctx (hd (suite_tasks sample_suite)) ?w)) in
     node_at s [lit ''q'', lit ''d'', lit ''o''] = Some (Reg ''x'')
     \<or> (\<exists>name. node_at s [lit ''r'', QUARANTINE_DIRECTORY, name] = Some (Reg ''x''))"
    unfolding Let_def s(1) [symmetric] by metis
qed

end
