(* ===== verification/Controller_Step.thy ===== *)
theory Controller_Step
  imports Read_Only
begin

text \<open>
  The step a cluster controller runs (\<^verbatim>\<open>src/src/benchhandoff/controller_step.py\<close>): its arguments, the
  checks of a request, the three actions over the engine, and the termination message, a bounded
  JSON object that carries no path and no text of an exception.
\<close>

section \<open>Arguments\<close>

definition PROTOCOL :: pystr where "PROTOCOL = lit ''benchhandoff-controller-step/v1''"
definition DEFAULT_DATA_ROOT :: pystr where "DEFAULT_DATA_ROOT = lit ''/benchhandoff-data''"
definition DEFAULT_TERMINATION_LOG :: pystr where "DEFAULT_TERMINATION_LOG = lit ''/dev/termination-log''"
definition MAX_TERMINATION_BYTES :: nat where "MAX_TERMINATION_BYTES = 1024"
definition MAX_OVERRIDE_PATH_BYTES :: nat where "MAX_OVERRIDE_PATH_BYTES = 4096"
definition MAX_BUNDLE_BYTES :: nat where "MAX_BUNDLE_BYTES = 16 * 1024 * 1024"

definition ACTIONS :: "pystr list" where
  "ACTIONS = map lit [''start'', ''resume'', ''verify'']"

definition OUTCOMES :: "pystr list" where
  "OUTCOMES = map lit [''awaiting_approval'', ''completed'', ''verified'', ''blocked'']"

definition ERROR_CODES :: "pystr list" where
  "ERROR_CODES = map lit [''invalid_request'', ''execution_failed'', ''evidence_invalid'', ''internal_error'']"

definition OPTIONS :: "pystr list" where
  "OPTIONS = map lit [''--action'', ''--agent-run-uid'', ''--execution-spec-sha256'', ''--suite-sha256'',
     ''--suite-path'', ''--resume-decision-sha256'', ''--data-root'', ''--termination-log'']"

record namespace =
  ns_action :: pystr
  ns_agent_run_uid :: pystr
  ns_execution_spec_sha256 :: pystr
  ns_suite_sha256 :: pystr
  ns_suite_path :: pystr
  ns_resume_decision_sha256 :: "pystr option"
  ns_data_root :: pystr
  ns_termination_log :: pystr

definition reject_duplicate_options :: "pystr list \<Rightarrow> pyexc + unit" where
  "reject_duplicate_options arguments =
     (if \<exists>opt \<in> set OPTIONS. length (filter (\<lambda>v. v = opt \<or> starts_with (opt @ [61]) v) arguments) > 1
      then Inl InvalidRequest else Inr ())"

text \<open>
  \<open>argparse\<close> as it is used here: long options with one value each, no positional arguments, no
  abbreviations. A value may begin with a dash when it is the dash alone, looks like a negative
  number or contains a space. Whatever else is left over is an error. The parameter tells the
  characters that the regular expression \<open>\d\<close> accepts.
\<close>

definition negative_number :: "(nat \<Rightarrow> bool) \<Rightarrow> pystr \<Rightarrow> bool" where
  "negative_number digit s =
     (let line = (if s \<noteq> [] \<and> last s = 10 then butlast s else s); r = drop 1 line; f = dropWhile digit r in
      starts_with [45] line
      \<and> (r \<noteq> [] \<and> f = [] \<or> f \<noteq> [] \<and> hd f = 46 \<and> tl f \<noteq> [] \<and> list_all digit (tl f)))"

definition option_of :: "pystr \<Rightarrow> (pystr \<times> pystr option) option" where
  "option_of s =
     (let name = takeWhile (\<lambda>c. c \<noteq> 61) s in
      if s \<in> set OPTIONS then Some (s, None)
      else if 61 \<in> set s \<and> name \<in> set OPTIONS then Some (name, Some (drop (length name + 1) s))
      else None)"

definition is_value :: "(nat \<Rightarrow> bool) \<Rightarrow> pystr \<Rightarrow> bool" where
  "is_value digit s \<longleftrightarrow>
     \<not> starts_with [45] s
     \<or> option_of s = None \<and> s \<noteq> [45, 45] \<and> (s = [45] \<or> negative_number digit s \<or> 32 \<in> set s)"

fun consume :: "(nat \<Rightarrow> bool) \<Rightarrow> pystr list \<Rightarrow> (pystr \<times> pystr) list \<Rightarrow> pyexc + (pystr \<times> pystr) list" where
  "consume digit [] found = Inr found"
| "consume digit (s # rest) found =
     (case option_of s of
        None \<Rightarrow> Inl InvalidRequest
      | Some (name, Some v) \<Rightarrow> consume digit rest (AList.update name v found)
      | Some (name, None) \<Rightarrow>
          (case rest of
             [] \<Rightarrow> Inl InvalidRequest
           | v # rest' \<Rightarrow>
               if is_value digit v then consume digit rest' (AList.update name v found) else Inl InvalidRequest))"

definition parsed :: "(pystr \<times> pystr) list \<Rightarrow> pyexc + namespace" where
  "parsed found =
     (let given = (\<lambda>s. map_of found (lit s)) in
      case (given ''--action'', given ''--agent-run-uid'', given ''--execution-spec-sha256'', given ''--suite-sha256'',
        given ''--suite-path'') of
        (Some action, Some uid, Some spec, Some suite, Some path) \<Rightarrow>
          if action \<notin> set ACTIONS then Inl InvalidRequest
          else Inr \<lparr>ns_action = action, ns_agent_run_uid = uid, ns_execution_spec_sha256 = spec, ns_suite_sha256 = suite,
            ns_suite_path = path, ns_resume_decision_sha256 = given ''--resume-decision-sha256'',
            ns_data_root = (case given ''--data-root'' of None \<Rightarrow> DEFAULT_DATA_ROOT | Some v \<Rightarrow> v),
            ns_termination_log = (case given ''--termination-log'' of None \<Rightarrow> DEFAULT_TERMINATION_LOG | Some v \<Rightarrow> v)\<rparr>
      | _ \<Rightarrow> Inl InvalidRequest)"

definition parse_arguments :: "(nat \<Rightarrow> bool) \<Rightarrow> pystr list \<Rightarrow> pyexc + namespace" where
  "parse_arguments digit arguments =
     rbind (reject_duplicate_options arguments) (\<lambda>_. rbind (consume digit arguments []) parsed)"

definition valid_absolute_path :: "pystr \<Rightarrow> pyexc + path" where
  "valid_absolute_path value =
     (if value = [] \<or> 0 \<in> set value then Inl InvalidRequest
      else case utf8 value of
        None \<Rightarrow> Inl InvalidRequest
      | Some b \<Rightarrow>
          if length b > MAX_OVERRIDE_PATH_BYTES then Inl InvalidRequest
          else if \<not> starts_with [47] value then Inl InvalidRequest
          else Inr (text_parts value))"

fun termination_values :: "pystr list \<Rightarrow> pystr list" where
  "termination_values [] = []"
| "termination_values (v # rest) =
     (let opt = lit ''--termination-log'' in
      (if v = opt \<and> rest \<noteq> [] then [hd rest]
       else if starts_with (opt @ [61]) v then [drop (length opt + 1) v] else [])
      @ termination_values rest)"

definition termination_candidate :: "pystr list \<Rightarrow> path" where
  "termination_candidate arguments =
     (case termination_values arguments of
        [v] \<Rightarrow> (case valid_absolute_path v of Inl _ \<Rightarrow> text_parts DEFAULT_TERMINATION_LOG | Inr p \<Rightarrow> p)
      | _ \<Rightarrow> text_parts DEFAULT_TERMINATION_LOG)"

text \<open>\<open>str(uuid.UUID(value)) == value\<close>: the text is a UUID in its canonical form, which is lower case.\<close>

definition is_uuid_text :: "pystr \<Rightarrow> bool" where
  "is_uuid_text s \<longleftrightarrow>
     length s = 36 \<and> list_all (\<lambda>(i, c). if i \<in> {8, 13, 18, 23} then c = 45 else is_lower_hex c) (enumerate 0 s)"

definition valid_uid :: "pystr \<Rightarrow> pyexc + pystr" where
  "valid_uid value = (if is_uuid_text value then Inr value else Inl InvalidRequest)"

definition valid_sha256 :: "pystr option \<Rightarrow> pyexc + pystr" where
  "valid_sha256 value =
     (case value of None \<Rightarrow> Inl InvalidRequest | Some h \<Rightarrow> if is_sha256_text h then Inr h else Inl InvalidRequest)"

definition valid_run_id :: "pyval \<Rightarrow> pyexc + pystr" where
  "valid_run_id value =
     (case value of PStr s \<Rightarrow> if is_nonce s then Inr s else Inl EvidenceError | _ \<Rightarrow> Inl EvidenceError)"

section \<open>The termination message\<close>

definition termination_message ::
  "pystr \<Rightarrow> pystr \<Rightarrow> pystr \<Rightarrow> pystr \<Rightarrow> pystr \<Rightarrow> pystr \<Rightarrow> pystr \<Rightarrow> pystr \<Rightarrow> pyexc + (pystr \<times> pystr) list" where
  "termination_message action result uid spec run_id decision bundle error_code =
     (if action \<notin> set ACTIONS \<and> action \<noteq> [] then Inl RuntimeError
      else if result \<notin> set OUTCOMES then Inl RuntimeError
      else if error_code \<notin> set ERROR_CODES \<and> error_code \<noteq> [] then Inl RuntimeError
      else Inr [(lit ''protocol'', PROTOCOL), (lit ''action'', action), (lit ''outcome'', result),
        (lit ''agent_run_uid'', uid), (lit ''execution_spec_sha256'', spec), (lit ''run_id'', run_id),
        (lit ''resume_decision_sha256'', decision), (lit ''bundle_sha256'', bundle), (lit ''error_code'', error_code)])"

text \<open>\<open>json.dumps\<close> with \<open>ensure_ascii=True\<close> of a dictionary of strings\<close>

definition unicode_escape :: "nat \<Rightarrow> pystr" where
  "unicode_escape n =
     [92, 117, hex_digit (n div 4096), hex_digit (n div 256 mod 16), hex_digit (n div 16 mod 16), hex_digit (n mod 16)]"

definition ascii_char :: "nat \<Rightarrow> pystr" where
  "ascii_char c =
     (if c < 127 then esc_char c
      else if c < 0x10000 then unicode_escape c
      else unicode_escape (0xD800 + (c - 0x10000) div 1024) @ unicode_escape (0xDC00 + (c - 0x10000) mod 1024))"

definition ascii_text :: "pystr \<Rightarrow> pystr" where
  "ascii_text s = 34 # concat (map ascii_char s) @ [34]"

definition encoded_termination :: "(pystr \<times> pystr) list \<Rightarrow> pyexc + bytes" where
  "encoded_termination value =
     (let text = 123 # join_on 44 (map (\<lambda>p. ascii_text (fst p) @ 58 # ascii_text (snd p)) (sort_key fst value)) @ [125, 10] in
      case utf8 text of
        None \<Rightarrow> Inl UnicodeEncodeError
      | Some payload \<Rightarrow> if length payload > MAX_TERMINATION_BYTES then Inl RuntimeError else Inr payload)"

text \<open>\<open>os.open\<close> with \<open>O_CREAT\<close>, \<open>O_TRUNC\<close> and \<open>O_NOFOLLOW\<close>\<close>

definition fs_open_truncated :: "path \<Rightarrow> fs \<Rightarrow> (pyexc + ino) \<times> fs" where
  "fs_open_truncated p s =
     (case locate s False p of
        Inl e \<Rightarrow> (Inl e, s)
      | Inr q \<Rightarrow>
          (case entry s q of
             None \<Rightarrow> fs_create (Reg []) p s
           | Some i \<Rightarrow>
               (case fs_nodes s i of
                  Reg _ \<Rightarrow> (Inr i, fs_set i [] s)
                | Special \<Rightarrow> (Inr i, s)
                | _ \<Rightarrow> (Inl OSError, s))))"

text \<open>A write to a device leaves the file system as it is.\<close>

definition write_open :: "ino \<Rightarrow> bytes \<Rightarrow> unit io" where
  "write_open i payload =
     sys_torn (\<lambda>s. (Inr (), if fs_nodes s i = Special then s else fs_set i payload s))
       (\<lambda>n s. if fs_nodes s i = Special then s else fs_set i (take n payload) s)"

definition write_termination :: "path \<Rightarrow> bytes \<Rightarrow> unit io" where
  "write_termination p payload =
     iob (sys (fs_open_truncated p)) (\<lambda>descriptor. finally_do (write_open descriptor payload) (look (\<lambda>_. Inr ())))"

definition blocked :: "pystr \<Rightarrow> pystr \<Rightarrow> pystr \<Rightarrow> pystr \<Rightarrow> pyexc + (pystr \<times> pystr) list" where
  "blocked action uid spec error_code = termination_message action (lit ''blocked'') uid spec [] [] [] error_code"

definition classify_error :: "pyexc \<Rightarrow> pystr \<times> int" where
  "classify_error e =
     (if e = InvalidRequest \<or> e = BoundaryError \<or> e = ConfigurationError then (lit ''invalid_request'', 10)
      else if e = TaskExecutionError then (lit ''execution_failed'', 20)
      else if is_evidence_error e then (lit ''evidence_invalid'', 30)
      else if is_benchhandoff_error e then (lit ''execution_failed'', 20)
      else (lit ''internal_error'', 70))"

section \<open>Actions\<close>

definition controller_paths :: "host \<Rightarrow> namespace \<Rightarrow> (path \<times> path \<times> path) io" where
  "controller_paths H ns =
     iob (from_result (valid_absolute_path (ns_data_root ns))) (\<lambda>given_root.
     iob (checked_directory given_root) (\<lambda>data_root.
     iob (checked_directory (data_root @ [lit ''suites''])) (\<lambda>suites_root.
     iob (checked_directory (data_root @ [lit ''runs''])) (\<lambda>runs_root.
     iob (from_result (normalize_relative_file (h_lib H) (PStr (ns_suite_path ns)))) (\<lambda>suite_relative.
     iob (resolve_member (h_lib H) suites_root suite_relative) (\<lambda>suite_file.
     iob (from_result (valid_absolute_path (ns_termination_log ns))) (\<lambda>termination_log.
     ret (suite_file, runs_root @ [ns_agent_run_uid ns], termination_log))))))))"

definition validate_suite_source :: "host \<Rightarrow> path \<Rightarrow> pystr \<Rightarrow> unit io" where
  "validate_suite_source H suite_file expected =
     iob (read_regular_bytes suite_file (Some MAX_SUITE_BYTES)) (\<lambda>raw.
     if sha256 (h_lib H) raw \<noteq> expected then raise EvidenceError
     else iob (load_suite H suite_file) (\<lambda>suite.
     if \<not> py_eq (fld (dict_of (suite_identity suite)) ''sha256'') (PStr expected) then raise EvidenceError
     else if suite_version suite \<noteq> 3 then raise ConfigurationError
     else ret ()))"

definition bundle_bytes :: "path \<Rightarrow> bytes io" where
  "bundle_bytes run_path = read_regular_bytes (run_path @ [BUNDLE_FILE]) (Some MAX_BUNDLE_BYTES)"

definition verify_stable_bundle :: "host \<Rightarrow> path \<Rightarrow> (pystr \<times> pystr) io" where
  "verify_stable_bundle H run_path =
     iob (bundle_bytes run_path) (\<lambda>before.
     iob (verify_run H run_path) (\<lambda>verification.
     iob (bundle_bytes run_path) (\<lambda>after.
     if before \<noteq> after then raise EvidenceError
     else iob (from_result (valid_run_id (fld (dict_of verification) ''run_id''))) (\<lambda>run_id.
       ret (run_id, sha256 (h_lib H) after)))))"

definition awaiting_approval :: "host \<Rightarrow> pystr \<Rightarrow> path \<Rightarrow> (pystr \<times> pystr) io" where
  "awaiting_approval H run_id run_path =
     iob (inspect_resume H run_path) (\<lambda>decision.
     iob (from_result (valid_run_id (fld decision ''run_id''))) (\<lambda>decision_run_id.
     if decision_run_id \<noteq> run_id then raise EvidenceError
     else case fld decision ''decision_sha256'' of
       PStr h \<Rightarrow> if is_sha256_text h then ret (run_id, h) else raise EvidenceError
     | _ \<Rightarrow> raise EvidenceError))"

text \<open>A completed run is verified again, and the identities have to agree.\<close>

definition completed_termination ::
  "host \<Rightarrow> namespace \<Rightarrow> path \<Rightarrow> pystr \<Rightarrow> pystr \<Rightarrow> run_result \<Rightarrow> (pystr \<times> pystr) list io" where
  "completed_termination H ns run_path run_id decision result =
     (if rr_status result \<noteq> ''completed'' then raise EvidenceError
      else iob (verify_stable_bundle H run_path) (\<lambda>(verified_run_id, bundle).
        if verified_run_id \<noteq> run_id then raise EvidenceError
        else from_result (termination_message (ns_action ns) (lit ''completed'') (ns_agent_run_uid ns) (ns_execution_spec_sha256 ns)
          run_id decision bundle [])))"

definition start_action :: "host \<Rightarrow> namespace \<Rightarrow> path \<Rightarrow> path \<Rightarrow> (pystr \<times> pystr) list io" where
  "start_action H ns suite_file run_path =
     (if ns_resume_decision_sha256 ns \<noteq> None then raise InvalidRequest
      else iob (start_run H suite_file run_path (Some (ns_suite_sha256 ns))) (\<lambda>result.
      iob (from_result (valid_run_id (rr_run_id result))) (\<lambda>run_id.
      if rr_status result = ''failed''
      then iob (awaiting_approval H run_id run_path) (\<lambda>(run_id, decision).
        from_result (termination_message (lit ''start'') (lit ''awaiting_approval'') (ns_agent_run_uid ns) (ns_execution_spec_sha256 ns)
          run_id decision [] []))
      else completed_termination H ns run_path run_id [] result)))"

definition resume_action_step :: "host \<Rightarrow> namespace \<Rightarrow> path \<Rightarrow> (pystr \<times> pystr) list io" where
  "resume_action_step H ns run_path =
     iob (from_result (valid_sha256 (ns_resume_decision_sha256 ns))) (\<lambda>decision.
     iob (resume_run H run_path (Some decision)) (\<lambda>result.
     iob (from_result (valid_run_id (rr_run_id result))) (\<lambda>run_id.
     if rr_status result = ''failed'' then raise TaskExecutionError
     else completed_termination H ns run_path run_id decision result)))"

definition verify_action :: "host \<Rightarrow> namespace \<Rightarrow> path \<Rightarrow> (pystr \<times> pystr) list io" where
  "verify_action H ns run_path =
     (if ns_resume_decision_sha256 ns \<noteq> None then raise InvalidRequest
      else iob (verify_stable_bundle H run_path) (\<lambda>(run_id, bundle).
        from_result (termination_message (lit ''verify'') (lit ''verified'') (ns_agent_run_uid ns) (ns_execution_spec_sha256 ns)
          run_id [] bundle [])))"

definition execute_request :: "host \<Rightarrow> namespace \<Rightarrow> (pystr \<times> pystr) list io" where
  "execute_request H ns =
     iob (controller_paths H ns) (\<lambda>(suite_file, run_path, _).
     iob (validate_suite_source H suite_file (ns_suite_sha256 ns)) (\<lambda>_.
     if ns_action ns = lit ''start'' then start_action H ns suite_file run_path
     else if ns_action ns = lit ''resume'' then resume_action_step H ns run_path
     else verify_action H ns run_path))"

section \<open>The step\<close>

text \<open>What is known of the request so far; an error is reported with it.\<close>

record request =
  rq_action :: pystr
  rq_uid :: pystr
  rq_spec :: pystr
  rq_log :: path

definition read_request :: "(nat \<Rightarrow> bool) \<Rightarrow> pystr list \<Rightarrow> request \<times> (pyexc + namespace)" where
  "read_request digit arguments =
     (let r0 = \<lparr>rq_action = [], rq_uid = [], rq_spec = [], rq_log = termination_candidate arguments\<rparr> in
      case parse_arguments digit arguments of
        Inl e \<Rightarrow> (r0, Inl e)
      | Inr ns \<Rightarrow>
          let r1 = r0\<lparr>rq_action := ns_action ns\<rparr> in
          (case valid_uid (ns_agent_run_uid ns) of
             Inl e \<Rightarrow> (r1, Inl e)
           | Inr uid \<Rightarrow>
               let r2 = r1\<lparr>rq_uid := uid\<rparr> in
               (case valid_sha256 (Some (ns_execution_spec_sha256 ns)) of
                  Inl e \<Rightarrow> (r2, Inl e)
                | Inr spec \<Rightarrow>
                    let r3 = r2\<lparr>rq_spec := spec\<rparr> in
                    (case valid_sha256 (Some (ns_suite_sha256 ns)) of
                       Inl e \<Rightarrow> (r3, Inl e)
                     | Inr _ \<Rightarrow>
                         (case valid_absolute_path (ns_termination_log ns) of
                            Inl e \<Rightarrow> (r3, Inl e)
                          | Inr p \<Rightarrow> (r3\<lparr>rq_log := p\<rparr>, Inr ns))))))"

text \<open>The termination message and the exit code; an interrupt is not caught.\<close>

definition step_result :: "host \<Rightarrow> request \<Rightarrow> pyexc + namespace \<Rightarrow> ((pystr \<times> pystr) list \<times> int) io" where
  "step_result H rq req =
     handle (iob (iob (from_result req) (execute_request H)) (\<lambda>result. ret (result, 0)))
       (\<lambda>e. if e = KeyboardInterrupt then raise e
            else from_result (rbind (blocked (rq_action rq) (rq_uid rq) (rq_spec rq) (fst (classify_error e)))
              (\<lambda>result. Inr (result, snd (classify_error e)))))"

text \<open>The exit code and what is printed.\<close>

definition controller_main :: "host \<Rightarrow> (nat \<Rightarrow> bool) \<Rightarrow> pystr list \<Rightarrow> (int \<times> bytes) io" where
  "controller_main H digit arguments =
     (case read_request digit arguments of
        (rq, req) \<Rightarrow>
          iob (step_result H rq req) (\<lambda>(result, exit_code).
          iob (from_result (encoded_termination result)) (\<lambda>payload.
          handle (iob (write_termination (rq_log rq) payload) (\<lambda>_. ret (exit_code, payload)))
            (\<lambda>e. if \<not> is_os_error e then raise e
                 else from_result (rbind (blocked (rq_action rq) (rq_uid rq) (rq_spec rq) (lit ''internal_error'')) (\<lambda>failure.
                   rbind (encoded_termination failure) (\<lambda>text. Inr (70, text))))))))"

section \<open>The size of a message\<close>

text \<open>A field is empty or a token of fixed length from a small alphabet.\<close>

definition token :: "nat \<Rightarrow> pystr \<Rightarrow> bool" where
  "token n s \<longleftrightarrow> s = [] \<or> length s = n \<and> list_all (\<lambda>c. is_lower_hex c \<or> c = 45) s"

definition bounded_message :: "(pystr \<times> pystr) list \<Rightarrow> bool" where
  "bounded_message d \<longleftrightarrow>
     (\<exists>action result uid spec run_id decision bundle error_code.
        termination_message action result uid spec run_id decision bundle error_code = Inr d
      \<and> token 36 uid \<and> token 64 spec \<and> token 32 run_id \<and> token 64 decision \<and> token 64 bundle)"

definition plain :: "nat \<Rightarrow> bool" where
  "plain c \<longleftrightarrow> 32 \<le> c \<and> c < 127 \<and> c \<noteq> 34 \<and> c \<noteq> 92"

lemma ascii_text_plain: "list_all plain s \<Longrightarrow> ascii_text s = 34 # s @ [34]"
  by (induction s) (auto simp: ascii_text_def ascii_char_def esc_char_def plain_def)

lemma token_plain: "token n s \<Longrightarrow> list_all plain s \<and> length s \<le> n"
  by (auto simp: token_def list_all_iff plain_def is_lower_hex_def is_digit_def)

lemma encoded_plain:
  assumes "\<forall>(k, v) \<in> set d. list_all plain k \<and> list_all plain v"
    and "sum_list (map (\<lambda>(k, v). length k + length v + 6) d) + 3 \<le> MAX_TERMINATION_BYTES"
  shows "\<exists>payload. encoded_termination d = Inr payload \<and> length payload \<le> MAX_TERMINATION_BYTES"
proof -
  define member where "member = (\<lambda>p :: pystr \<times> pystr. ascii_text (fst p) @ 58 # ascii_text (snd p))"
  let ?text = "123 # join_on 44 (map member (sort_key fst d)) @ [125, 10]"
  have m: "length (member p) = length (fst p) + length (snd p) + 5" "\<forall>c \<in> set (member p). c < 0x80" if "p \<in> set d" for p
  proof -
    have p: "list_all plain (fst p)" "list_all plain (snd p)" using assms(1) that by fastforce+
    then show "length (member p) = length (fst p) + length (snd p) + 5" by (simp add: member_def ascii_text_plain)
    show "\<forall>c \<in> set (member p). c < 0x80" using p by (auto simp: member_def ascii_text_plain list_all_iff plain_def)
  qed
  have "c < 0x80" if "c \<in> set ?text" for c
    using that m(2) set_join_on [of 44 "map member (sort_key fst d)"] by fastforce
  then have u: "utf8 ?text = Some (map char_of ?text)" by (intro utf8_ascii) blast
  have "sum_list (map (\<lambda>p. length (member p) + 1) (sort_key fst d)) = sum_list (map (\<lambda>p. length (member p) + 1) d)"
    by (rule sum_list_sort_key)
  also have "\<dots> = sum_list (map (\<lambda>(k, v). length k + length v + 6) d)"
    using m(1) by (intro arg_cong [where f = sum_list] map_cong) (auto split: prod.splits)
  finally have "length ?text \<le> MAX_TERMINATION_BYTES"
    using length_join_on [of 44 "map member (sort_key fst d)"] assms(2) by (simp add: comp_def)
  with u show ?thesis
    by (auto simp: encoded_termination_def Let_def member_def simp del: list.map)
qed

lemma bounded_encodes:
  assumes "bounded_message d"
  shows "\<exists>payload. encoded_termination d = Inr payload \<and> length payload \<le> MAX_TERMINATION_BYTES"
proof -
  from assms obtain action result uid spec run_id decision sealed error_code
    where m: "termination_message action result uid spec run_id decision sealed error_code = Inr d"
      and t: "token 36 uid" "token 64 spec" "token 32 run_id" "token 64 decision" "token 64 sealed"
    by (auto simp: bounded_message_def)
  have w: "action = [] \<or> action \<in> set ACTIONS" "result \<in> set OUTCOMES" "error_code = [] \<or> error_code \<in> set ERROR_CODES"
    using m by (auto simp: termination_message_def split: if_splits)
  then have "list_all plain action \<and> length action \<le> 6" "list_all plain result \<and> length result \<le> 17"
    "list_all plain error_code \<and> length error_code \<le> 16"
    by (auto simp: ACTIONS_def OUTCOMES_def ERROR_CODES_def lit_def plain_def)
  with t [THEN token_plain] m show ?thesis
    by (intro encoded_plain)
      (auto simp: termination_message_def PROTOCOL_def MAX_TERMINATION_BYTES_def lit_def plain_def split: if_splits)
qed

section \<open>What a step reports\<close>

lemma is_sha256_token: "is_sha256_text h \<Longrightarrow> token 64 h"
  by (auto simp: is_sha256_text_def token_def list_all_iff)

lemma valid_run_id_iff: "valid_run_id v = Inr s \<longleftrightarrow> v = PStr s \<and> is_nonce s"
  by (auto simp: valid_run_id_def split: pyval.splits)

lemma is_nonce_token: "is_nonce s \<Longrightarrow> token 32 s"
  by (auto simp: is_nonce_def token_def list_all_iff)

lemma uuid_token: "is_uuid_text s \<Longrightarrow> token 36 s"
proof -
  assume u: "is_uuid_text s"
  have "is_lower_hex (s ! i) \<or> s ! i = 45" if "i < length s" for i
  proof -
    have "(i, s ! i) \<in> set (enumerate 0 s)" using that by (simp add: in_set_enumerate_eq)
    with u show ?thesis by (auto simp: is_uuid_text_def list_all_iff split: if_splits)
  qed
  with u show "token 36 s" by (auto simp: token_def is_uuid_text_def list_all_length)
qed

lemma parsed_action: "parsed found = Inr ns \<Longrightarrow> ns_action ns \<in> set ACTIONS"
  unfolding parsed_def Let_def
  by (cases "map_of found (lit ''--action'')"; cases "map_of found (lit ''--agent-run-uid'')";
      cases "map_of found (lit ''--execution-spec-sha256'')"; cases "map_of found (lit ''--suite-sha256'')";
      cases "map_of found (lit ''--suite-path'')") (simp_all, auto split: if_splits)

lemma parse_arguments_action: "parse_arguments digit arguments = Inr ns \<Longrightarrow> ns_action ns \<in> set ACTIONS"
  by (auto simp: parse_arguments_def dest: parsed_action)

definition request_valid :: "namespace \<Rightarrow> bool" where
  "request_valid ns \<longleftrightarrow> ns_action ns \<in> set ACTIONS \<and> is_uuid_text (ns_agent_run_uid ns)
     \<and> is_sha256_text (ns_execution_spec_sha256 ns) \<and> is_sha256_text (ns_suite_sha256 ns)"

lemma read_request_valid: "read_request digit arguments = (rq, Inr ns) \<Longrightarrow> request_valid ns"
  by (auto simp: read_request_def request_valid_def valid_uid_def valid_sha256_def Let_def
      split: sum.split_asm if_split_asm dest: parse_arguments_action)

lemma read_request_known:
  assumes "read_request digit arguments = (rq, req)"
  shows "(rq_action rq = [] \<or> rq_action rq \<in> set ACTIONS) \<and> token 36 (rq_uid rq) \<and> token 64 (rq_spec rq)"
  using assms uuid_token is_sha256_token
  by (auto simp: read_request_def valid_uid_def valid_sha256_def Let_def token_def [of _ "[]"]
      split: sum.split_asm if_split_asm dest: parse_arguments_action parse_arguments_action [OF sym])

text \<open>The run a message vouches for: verified, with the bundle read right after.\<close>

definition verified_message :: "host \<Rightarrow> (pystr \<times> pystr) list \<Rightarrow> bool" where
  "verified_message H d \<longleftrightarrow>
     (\<exists>run w1 v w2 b w3 run_id. verify_run H run w1 = (Ret v, w2) \<and> bundle_bytes run w2 = (Ret b, w3)
        \<and> fld (dict_of v) ''run_id'' = PStr run_id
        \<and> map_of d (lit ''run_id'') = Some run_id \<and> map_of d (lit ''bundle_sha256'') = Some (sha256 (h_lib H) b))"

text \<open>A message that asks for approval names a decision that inspection has just built.\<close>

definition approval_message :: "host \<Rightarrow> (pystr \<times> pystr) list \<Rightarrow> bool" where
  "approval_message H d \<longleftrightarrow>
     (\<exists>run w1 decision w2 h. inspect_resume H run w1 = (Ret decision, w2) \<and> fld decision ''decision_sha256'' = PStr h
        \<and> map_of d (lit ''resume_decision_sha256'') = Some h)"

definition message_backed :: "host \<Rightarrow> (pystr \<times> pystr) list \<Rightarrow> bool" where
  "message_backed H d \<longleftrightarrow>
     (map_of d (lit ''outcome'') = Some (lit ''awaiting_approval'') \<and> approval_message H d)
   \<or> (map_of d (lit ''outcome'') \<in> {Some (lit ''completed''), Some (lit ''verified'')} \<and> verified_message H d)"

lemma stable_bundle_returns:
  assumes "verify_stable_bundle H run w = (Ret (run_id, h), w')"
  shows "\<exists>w1 v w2 b. verify_run H run w1 = (Ret v, w2) \<and> bundle_bytes run w2 = (Ret b, w')
    \<and> fld (dict_of v) ''run_id'' = PStr run_id \<and> h = sha256 (h_lib H) b \<and> is_nonce run_id"
  using assms by (auto simp: verify_stable_bundle_def returns_simps valid_run_id_iff split: if_splits)

lemma message_fields:
  assumes "termination_message action result uid spec run_id decision sealed error_code = Inr d"
  shows "map_of d (lit ''outcome'') = Some result" "map_of d (lit ''run_id'') = Some run_id"
    "map_of d (lit ''resume_decision_sha256'') = Some decision" "map_of d (lit ''bundle_sha256'') = Some sealed"
  using assms by (auto simp: termination_message_def split: if_splits)

lemma execute_backed:
  assumes "execute_request H ns w = (Ret d, w')" "request_valid ns" "hex_digests (h_lib H)"
  shows "message_backed H d \<and> bounded_message d"
proof -
  have hx: "token 64 (sha256 (h_lib H) b)" for b
    using assms(3) by (auto simp: hex_digests_def is_sha256_def token_def list_all_iff)
  have valid: "token 36 (ns_agent_run_uid ns)" "token 64 (ns_execution_spec_sha256 ns)"
    using assms(2) uuid_token is_sha256_token by (simp_all add: request_valid_def)
  have nil: "token 64 []" by (simp add: token_def)
  have sealed: "message_backed H d \<and> bounded_message d"
    if m: "termination_message a (lit r) (ns_agent_run_uid ns) (ns_execution_spec_sha256 ns) run_id dec sealed [] = Inr d"
      and r: "r = ''completed'' \<or> r = ''verified''" and v: "verify_stable_bundle H run w1 = (Ret (run_id, sealed), w2)"
      and dec: "token 64 dec" for a r run_id dec sealed run w1 w2
  proof -
    from stable_bundle_returns [OF v] obtain w3 u w4 b where b: "verify_run H run w3 = (Ret u, w4)" "bundle_bytes run w4 = (Ret b, w2)"
      "fld (dict_of u) ''run_id'' = PStr run_id" "sealed = sha256 (h_lib H) b" "is_nonce run_id" by blast
    then have "verified_message H d"
      unfolding verified_message_def using message_fields(2,4) [OF m] by blast
    moreover have "bounded_message d"
      unfolding bounded_message_def using m dec hx b(4) valid is_nonce_token [OF b(5)] by blast
    ultimately show ?thesis using message_fields(1) [OF m] r by (auto simp: message_backed_def)
  qed
  have approval: "message_backed H d \<and> bounded_message d"
    if m: "termination_message a (lit ''awaiting_approval'') (ns_agent_run_uid ns) (ns_execution_spec_sha256 ns) run_id h [] [] = Inr d"
      and v: "awaiting_approval H rid run w1 = (Ret (run_id, h), w2)" for a rid run_id h run w1 w2
  proof -
    from v obtain decision w3 where i: "inspect_resume H run w1 = (Ret decision, w3)" "fld decision ''decision_sha256'' = PStr h"
      "is_sha256_text h" "is_nonce run_id"
      by (auto simp: awaiting_approval_def returns_simps valid_run_id_iff split: if_splits pyval.splits)
    then have "approval_message H d"
      unfolding approval_message_def using message_fields(3) [OF m] by blast
    moreover have "bounded_message d"
      unfolding bounded_message_def using m valid nil is_sha256_token [OF i(3)] is_nonce_token [OF i(4)] by blast
    ultimately show ?thesis using message_fields(1) [OF m] by (simp add: message_backed_def)
  qed
  have completed: "message_backed H d \<and> bounded_message d"
    if "completed_termination H ns run run_id dec result w1 = (Ret d, w2)" "token 64 dec" for run run_id dec result w1 w2
    using that sealed [where r = "''completed''"]
    by (auto simp: completed_termination_def returns_simps split: if_splits)
  have "message_backed H d \<and> bounded_message d" if "start_action H ns sf run w1 = (Ret d, w2)" for sf run w1 w2
    using that completed [OF _ nil] approval by (auto simp: start_action_def returns_simps split: if_splits)
  moreover have "message_backed H d \<and> bounded_message d" if "resume_action_step H ns run w1 = (Ret d, w2)" for run w1 w2
    using that completed is_sha256_token
    by (auto simp: resume_action_step_def returns_simps valid_sha256_def split: if_splits option.splits)
  moreover have "message_backed H d \<and> bounded_message d" if "verify_action H ns run w1 = (Ret d, w2)" for run w1 w2
    using that sealed [where r = "''verified''", OF _ _ _ nil] by (auto simp: verify_action_def returns_simps split: if_splits)
  ultimately show ?thesis
    using assms(1) by (auto simp: execute_request_def returns_simps split: if_splits)
qed

lemma classify_error_codes: "fst (classify_error e) \<in> set ERROR_CODES \<and> snd (classify_error e) \<in> {10, 20, 30, 70}"
  by (simp add: classify_error_def ERROR_CODES_def)

lemma blocked_bounded:
  assumes "read_request digit arguments = (rq, req)" "error_code \<in> set ERROR_CODES"
  shows "\<exists>d. blocked (rq_action rq) (rq_uid rq) (rq_spec rq) error_code = Inr d \<and> bounded_message d"
proof -
  have "lit ''blocked'' \<in> set OUTCOMES" by (simp add: OUTCOMES_def)
  then obtain d where d: "termination_message (rq_action rq) (lit ''blocked'') (rq_uid rq) (rq_spec rq) [] [] [] error_code = Inr d"
    using read_request_known [OF assms(1)] assms(2) by (auto simp: termination_message_def)
  moreover have "token n []" for n by (simp add: token_def)
  ultimately have "bounded_message d"
    unfolding bounded_message_def using read_request_known [OF assms(1)] by blast
  with d show ?thesis by (simp add: blocked_def)
qed

text \<open>The result of a step before it is written.\<close>

definition step_ok :: "host \<Rightarrow> (pystr \<times> pystr) list \<times> int \<Rightarrow> bool" where
  "step_ok H r \<longleftrightarrow> bounded_message (fst r) \<and> snd r \<in> {0, 10, 20, 30, 70} \<and> (snd r = 0 \<longrightarrow> message_backed H (fst r))"

lemma step_result_ok:
  assumes "read_request digit arguments = (rq, req)" "hex_digests (h_lib H)" "step_result H rq req w = (out, w')"
  shows "(\<exists>r. out = Ret r \<and> step_ok H r) \<or> out = Exc KeyboardInterrupt \<or> out = Killed"
proof -
  obtain o1 w1 where e: "iob (from_result req) (execute_request H) w = (o1, w1)" by fastforce
  show ?thesis
  proof (cases o1)
    case (Ret d)
    with e obtain ns where "req = Inr ns" "execute_request H ns w = (Ret d, w1)" by (auto simp: returns_simps)
    with execute_backed [OF _ _ assms(2)] read_request_valid assms(1) have "step_ok H (d, 0)" by (auto simp: step_ok_def)
    with assms(3) e Ret show ?thesis by (auto simp: step_result_def handle_def iob_def [of _ "\<lambda>result. ret (result, 0)"])
  next
    case (Exc x)
    obtain d where "blocked (rq_action rq) (rq_uid rq) (rq_spec rq) (fst (classify_error x)) = Inr d" "bounded_message d"
      using blocked_bounded [OF assms(1)] classify_error_codes [of x] by blast
    with assms(3) e Exc classify_error_codes [of x] show ?thesis
      by (auto simp: step_result_def handle_def iob_def [of _ "\<lambda>result. ret (result, 0)"] step_ok_def split: if_splits)
  qed (use assms(3) e in \<open>auto simp: step_result_def handle_def iob_def [of _ "\<lambda>result. ret (result, 0)"]\<close>)
qed

text \<open>
  What the end of a step says: the message is bounded and made of tokens only, exit code zero is
  backed by the engine, and the only exceptions that leave the step are an interrupt and a failure
  of the write that is not an operating system error.
\<close>

definition reported :: "host \<Rightarrow> (int \<times> bytes) outcome \<times> world \<Rightarrow> bool" where
  "reported H result =
     (case result of
        (Ret (code, payload), _) \<Rightarrow>
          length payload \<le> MAX_TERMINATION_BYTES
          \<and> (\<exists>d. encoded_termination d = Inr payload \<and> step_ok H (d, code))
      | (Exc e, w') \<Rightarrow> e = KeyboardInterrupt \<or> \<not> is_os_error e \<and> (\<exists>p b w1. write_termination p b w1 = (Exc e, w'))
      | (Killed, _) \<Rightarrow> True)"

lemma written_reported:
  assumes "read_request digit arguments = (rq, req)" "step_ok H (d, code)" "encoded_termination d = Inr payload"
  shows "reported H (handle (iob (write_termination p payload) (\<lambda>_. ret (code, payload)))
    (\<lambda>e. if \<not> is_os_error e then raise e
         else from_result (rbind (blocked (rq_action rq) (rq_uid rq) (rq_spec rq) (lit ''internal_error'')) (\<lambda>failure.
           rbind (encoded_termination failure) (\<lambda>text. Inr (70, text))))) w)"
proof -
  obtain o1 w1 where wr: "write_termination p payload w = (o1, w1)" by fastforce
  have len: "length payload \<le> MAX_TERMINATION_BYTES"
    using bounded_encodes [of d] assms(2,3) by (auto simp: step_ok_def)
  obtain f t where f: "blocked (rq_action rq) (rq_uid rq) (rq_spec rq) (lit ''internal_error'') = Inr f" "bounded_message f"
      "encoded_termination f = Inr t" "length t \<le> MAX_TERMINATION_BYTES"
    using blocked_bounded [OF assms(1)] bounded_encodes by (force simp: ERROR_CODES_def)
  then have "step_ok H (f, 70)" by (simp add: step_ok_def)
  with wr len f assms(2,3) show ?thesis
    by (cases o1) (auto simp: reported_def handle_def iob_def)
qed



end
