(* ===== verification/Command_Line.thy ===== *)
theory Command_Line
  imports Read_Only
begin

text \<open>
  The command line (\<^verbatim>\<open>src/src/benchhandoff/cli.py\<close>): the commands, what they print, and the exit codes
  of \<^verbatim>\<open>src/src/benchhandoff/errors.py\<close>. A command stands for the arguments after \<open>argparse\<close>.
\<close>

datatype command =
    Start pystr pystr
  | Resume pystr "pystr option"
  | Inspect pystr
  | Inspect_Writer_Lock pystr
  | Recover_Writer_Lock pystr pystr
  | Snapshot_Workspace pystr pystr
  | Inspect_Workspace pystr
  | Verify pystr

definition as_dict :: "run_result \<Rightarrow> pyval" where
  "as_dict r = PDict [(lit ''status'', PLit (rr_status r)), (lit ''run_directory'', PStr (path_text (rr_directory r))),
     (lit ''run_id'', rr_run_id r), (lit ''detail'', rr_detail r)]"

definition run_status :: "run_result \<Rightarrow> int \<times> pyval" where
  "run_status r = (if rr_status r = ''completed'' then 0 else 20, as_dict r)"

text \<open>The exit code and the value to print.\<close>

fun run_command :: "host \<Rightarrow> command \<Rightarrow> (int \<times> pyval) io" where
  "run_command H (Start suite run_dir) =
     iob (start_run H (absolute H suite) (absolute H run_dir) None) (\<lambda>r. ret (run_status r))"
| "run_command H (Resume run_dir expected) =
     iob (resume_run H (absolute H run_dir) expected) (\<lambda>r. ret (run_status r))"
| "run_command H (Inspect run_dir) =
     iob (inspect_resume H (absolute H run_dir)) (\<lambda>d. ret (0, PDict d))"
| "run_command H (Inspect_Writer_Lock run_dir) =
     iob (inspect_writer_lock (h_lib H) (absolute H run_dir)) (\<lambda>d. ret (0, PDict (ld_body d)))"
| "run_command H (Recover_Writer_Lock run_dir expected) =
     iob (recover_writer_lock (h_lib H) (absolute H run_dir) expected) (\<lambda>v. ret (0, v))"
| "run_command H (Snapshot_Workspace root output) =
     iob (snapshot_workspace (h_lib H) (absolute H root) (absolute H output)) (\<lambda>v. ret (0, v))"
| "run_command H (Inspect_Workspace suite) =
     iob (inspect_workspace_suite H (absolute H suite)) (\<lambda>v. ret (0, v))"
| "run_command H (Verify run_dir) =
     iob (verify_run H (absolute H run_dir)) (\<lambda>v. ret (0, v))"

text \<open>\<open>print(json.dumps(value, ...), file=stream)\<close>; the write may fail.\<close>

definition emit :: "host \<Rightarrow> pyval \<Rightarrow> pystr io" where
  "emit H v = iob (from_result (dumps (h_lib H) v)) (\<lambda>text. iob (look (\<lambda>_. Inr ())) (\<lambda>_. ret (text @ [10])))"

definition error_report :: "pyexc \<Rightarrow> pystr \<Rightarrow> pyval" where
  "error_report e text = PDict [(lit ''status'', PLit ''error''), (lit ''error_type'', PLit (exc_name e)), (lit ''detail'', PStr text)]"

definition report_error :: "host \<Rightarrow> pyexc \<Rightarrow> int \<Rightarrow> (int \<times> bool \<times> pystr) io" where
  "report_error H e code =
     iob (exc_text H e) (\<lambda>text. iob (emit H (error_report e text)) (\<lambda>out. ret (code, True, out)))"

text \<open>The exit code, whether the text went to the error stream, and the text.\<close>

definition cli_main :: "host \<Rightarrow> command \<Rightarrow> (int \<times> bool \<times> pystr) io" where
  "cli_main H c =
     handle (iob (run_command H c) (\<lambda>(code, v). iob (emit H v) (\<lambda>out. ret (code, False, out))))
       (\<lambda>e. if is_benchhandoff_error e then report_error H e (exit_code e)
            else if is_os_error e then report_error H e 30
            else raise e)"

section \<open>Exit codes\<close>

lemma returns_finally [returns_simps]:
  "finally_do m c w = (Ret y, w2) \<longleftrightarrow> (\<exists>w1 u. m w = (Ret y, w1) \<and> c w1 = (Ret u, w2))"
  by (auto simp: finally_do_def split: outcome.splits prod.splits)

lemma returns_workspace_lock: "with_workspace_lock H l m w = (Ret y, w2) \<Longrightarrow> \<exists>w1. m w = (Ret y, w1)"
  by (auto simp: with_workspace_lock_def returns_simps split: option.splits)

text \<open>The result of a run that is complete was verified.\<close>

definition was_verified :: "host \<Rightarrow> run_result \<Rightarrow> bool" where
  "was_verified H r \<longleftrightarrow>
     rr_status r = ''failed'' \<or> rr_status r = ''completed'' \<and> (\<exists>w1 v w2. verify_run H (rr_directory r) w1 = (Ret v, w2))"

lemma checked_was_verified:
  "start_run_checked H suite run w = (Ret r, w') \<Longrightarrow> was_verified H r"
  "resume_run_checked H run expected w = (Ret r, w') \<Longrightarrow> was_verified H r"
  using accounted_start [of H suite run w] accounted_resume [of H run expected w]
  by (auto simp: accounted_def was_verified_def)

lemma start_run_was_verified: "start_run H suite_file run expected w = (Ret r, w') \<Longrightarrow> was_verified H r"
  by (auto simp: start_run_def returns_simps split: if_split_asm dest!: returns_workspace_lock dest: checked_was_verified)

lemma resume_run_was_verified: "resume_run H run expected w = (Ret r, w') \<Longrightarrow> was_verified H r"
  by (auto simp: resume_run_def returns_simps dest!: returns_workspace_lock dest: checked_was_verified)

text \<open>The commands that answer for a whole run.\<close>

fun vouches :: "command \<Rightarrow> bool" where
  "vouches (Start _ _) = True"
| "vouches (Resume _ _) = True"
| "vouches (Verify _) = True"
| "vouches _ = False"

definition exit_backed :: "host \<Rightarrow> command \<Rightarrow> (int \<times> bool \<times> pystr) outcome \<times> world \<Rightarrow> bool" where
  "exit_backed H c result =
     (case result of
        (Ret (code, failed, _), _) \<Rightarrow>
          code \<in> {0, 10, 20, 30} \<and> (code = 0 \<longrightarrow> \<not> failed)
          \<and> (code = 0 \<and> vouches c \<longrightarrow> (\<exists>run w1 v w2. verify_run H run w1 = (Ret v, w2)))
      | (Exc e, _) \<Rightarrow> True
      | (Killed, _) \<Rightarrow> True)"

lemma verified_code: "was_verified H r \<Longrightarrow> rr_status r = ''completed'' \<longrightarrow> (\<exists>run w1 v w2. verify_run H run w1 = (Ret v, w2))"
  by (auto simp: was_verified_def)

lemma command_codes:
  assumes "run_command H c w = (Ret (code, v), w')"
  shows "(code = 0 \<or> code = 20) \<and> (code = 0 \<and> vouches c \<longrightarrow> (\<exists>run w1 v w2. verify_run H run w1 = (Ret v, w2)))"
proof (cases c)
  case (Start a b)
  with assms show ?thesis by (auto simp: returns_simps run_status_def split: if_splits dest!: start_run_was_verified verified_code)
next
  case (Resume a b)
  with assms show ?thesis by (auto simp: returns_simps run_status_def split: if_splits dest!: resume_run_was_verified verified_code)
qed (use assms in \<open>auto simp: returns_simps\<close>)

lemma exit_code_range: "is_benchhandoff_error e \<Longrightarrow> exit_code e \<in> {10, 20, 30}"
  by (cases e) auto

lemma report_error_exit: "report_error H e code w = (Ret (c, b, t), w') \<Longrightarrow> c = code \<and> b"
  by (auto simp: report_error_def returns_simps)


end
