(* ===== verification/License_State.thy ===== *)
theory License_State
  imports Read_Only
begin

text \<open>
  The licence state of the repository (\<^verbatim>\<open>src/tools/verify_license_state.py\<close>): the bounded read of a
  file that must not change meanwhile, and the check that the metadata, the pending notice and the
  licence text agree on one of two states.
\<close>

section \<open>Constants\<close>

definition MAX_METADATA_BYTES :: nat where "MAX_METADATA_BYTES = 256 * 1024"
definition MAX_LICENSE_BYTES :: nat where "MAX_LICENSE_BYTES = 64 * 1024"
definition PENDING_NOTICE :: pystr where "PENDING_NOTICE = lit ''LICENSING_STATUS.md''"
definition LICENSE_FILE :: pystr where "LICENSE_FILE = lit ''LICENSE''"
definition PYPROJECT :: pystr where "PYPROJECT = lit ''pyproject.toml''"
definition FINAL_BUILD_REQUIREMENT :: pystr where "FINAL_BUILD_REQUIREMENT = lit ''setuptools>=77.0.3''"

record license_spec =
  ls_identifier :: pystr
  ls_size :: nat
  ls_sha256 :: pystr
  ls_source_commit :: pystr
  ls_source_url :: pystr
  ls_derivation :: "pystr option"

definition DEFAULT_LICENSE_SPECS :: "(pystr \<times> license_spec) list" where
  "DEFAULT_LICENSE_SPECS =
     [(lit ''Apache-2.0'', \<lparr>ls_identifier = lit ''Apache-2.0'', ls_size = 10280,
        ls_sha256 = lit ''074e6e32c86a4c0ef8b3ed25b721ca23aca83df277cd88106ef7177c354615ff'',
        ls_source_commit = lit ''c4a7237ec8f4654e867546f9f409749300f1bf4c'',
        ls_source_url = lit ''https://raw.githubusercontent.com/spdx/license-list-data/'' @
          lit ''c4a7237ec8f4654e867546f9f409749300f1bf4c/text/Apache-2.0.txt'',
        ls_derivation = None\<rparr>),
      (lit ''MIT'', \<lparr>ls_identifier = lit ''MIT'', ls_size = 1068,
        ls_sha256 = lit ''ff4ef001f40e1f04fc476bf5b893b993c8b66708e204697ad9b5e03b9addd13d'',
        ls_source_commit = lit ''c4a7237ec8f4654e867546f9f409749300f1bf4c'',
        ls_source_url = lit ''https://raw.githubusercontent.com/spdx/license-list-data/'' @
          lit ''c4a7237ec8f4654e867546f9f409749300f1bf4c/text/MIT.txt'',
        ls_derivation = Some (lit ''replace <year> <copyright holders> with 2026 tiramitree'')\<rparr>)]"

text \<open>
  What the tools take from outside: the library of the JSON and hashing model, the TOML parser, the
  time of the last change of an inode, and the output of the command \<open>git\<close>, nothing when it
  cannot be run, exits with an error, or prints what is not UTF-8.
\<close>

record tool_host =
  th_lib :: pylib
  th_toml :: "pystr \<Rightarrow> pyval option"
  th_mtime :: "fs \<Rightarrow> ino \<Rightarrow> nat"
  th_git :: "path \<Rightarrow> pystr list \<Rightarrow> pystr option io"

section \<open>Reading\<close>

definition license_error :: "pyexc \<Rightarrow> pyexc" where
  "license_error e = (if is_os_error e then LicenseStateError else e)"

text \<open>A status with the time of the last change, by name and by descriptor.\<close>

definition status_of_name :: "tool_host \<Rightarrow> path \<Rightarrow> (stat_result \<times> nat) io" where
  "status_of_name T p = look (\<lambda>s. rbind (fs_lstat p s) (\<lambda>m. Inr (m, th_mtime T s (st_ino m))))"

definition status_of_open :: "tool_host \<Rightarrow> ino \<Rightarrow> (stat_result \<times> nat) io" where
  "status_of_open T i = look (\<lambda>s. Inr (stat_ino s i, th_mtime T s i))"

definition stat_identity :: "stat_result \<times> nat \<Rightarrow> nat \<times> ino \<times> nat \<times> nat" where
  "stat_identity m = (st_dev (fst m), st_ino (fst m), node_size (st_node (fst m)), snd m)"

definition regular_unlinked :: "stat_result \<times> nat \<Rightarrow> bool" where
  "regular_unlinked m \<longleftrightarrow> is_reg (st_node (fst m)) \<and> st_nlink (fst m) = 1"

text \<open>A status call reports a missing file only for a name that is missing; other faults may arrive.\<close>

definition lstat_told :: "path \<Rightarrow> stat_result io" where
  "lstat_told p =
     handle (look (fs_lstat p))
       (\<lambda>e. if e = FileNotFoundError
            then iob (answered (fs_lexists p)) (\<lambda>found. raise (if found then OSError else FileNotFoundError))
            else raise e)"

definition path_exists_no_follow :: "path \<Rightarrow> bool io" where
  "path_exists_no_follow p =
     handle (iob (lstat_told p) (\<lambda>_. ret True))
       (\<lambda>e. if e = FileNotFoundError then ret False else raise (license_error e))"

definition read_bounded_regular_file :: "tool_host \<Rightarrow> path \<Rightarrow> nat \<Rightarrow> bytes io" where
  "read_bounded_regular_file T p maximum =
     iob (reraise license_error (status_of_name T p)) (\<lambda>inspected.
     if \<not> regular_unlinked inspected then raise LicenseStateError
     else if node_size (st_node (fst inspected)) > maximum then raise LicenseStateError
     else iob (reraise license_error (look (fs_open_nofollow p))) (\<lambda>descriptor.
     iob (finally_do
            (iob (status_of_open T descriptor) (\<lambda>opened.
             if \<not> regular_unlinked opened \<or> stat_identity opened \<noteq> stat_identity inspected then raise LicenseStateError
             else iob (look (fs_read descriptor)) (\<lambda>content.
             let raw = take (maximum + 1) content in
             if length raw > maximum then raise LicenseStateError
             else iob (status_of_open T descriptor) (\<lambda>again.
             if stat_identity again \<noteq> stat_identity opened then raise LicenseStateError else ret raw))))
            close_descriptor) (\<lambda>raw.
     iob (reraise license_error (status_of_name T p)) (\<lambda>after.
     if stat_identity after \<noteq> stat_identity inspected then raise LicenseStateError else ret raw))))"

definition utf8_lf_text :: "bytes \<Rightarrow> pyexc + pystr" where
  "utf8_lf_text raw =
     (case utf8_decode raw of
        None \<Rightarrow> Inl LicenseStateError
      | Some text \<Rightarrow>
          if starts_with [0xFEFF] text then Inl LicenseStateError
          else if 13 \<in> set text \<or> text = [] \<or> last text \<noteq> 10 then Inl LicenseStateError
          else Inr text)"

definition load_pyproject :: "tool_host \<Rightarrow> path \<Rightarrow> (bytes \<times> pydict) io" where
  "load_pyproject T repository =
     iob (read_bounded_regular_file T (repository @ [PYPROJECT]) MAX_METADATA_BYTES) (\<lambda>raw.
     iob (from_result (utf8_lf_text raw)) (\<lambda>text.
     case th_toml T text of
       None \<Rightarrow> raise LicenseStateError
     | Some document \<Rightarrow> if \<not> is_dict document then raise LicenseStateError else ret (raw, dict_of document)))"

definition project_tables :: "pydict \<Rightarrow> pyexc + pydict \<times> pydict" where
  "project_tables document =
     (let project = fld document ''project''; build_system = fld document ''build-system'' in
      if \<not> is_dict project \<or> \<not> is_dict build_system then Inl LicenseStateError
      else Inr (dict_of project, dict_of build_system))"

text \<open>
  \<open>setuptools(?:[<>=!~].*)?\<close> for the whole string, ignoring case: a letter matches its capital, and
  \<open>s\<close> also the long s. The dot matches everything but a newline.
\<close>

definition letter_matches :: "nat \<Rightarrow> nat \<Rightarrow> bool" where
  "letter_matches c x \<longleftrightarrow> x = c \<or> x + 32 = c \<or> c = 115 \<and> x = 0x17F"

definition is_setuptools :: "pystr \<Rightarrow> bool" where
  "is_setuptools s \<longleftrightarrow>
     (let name = lit ''setuptools''; rest = drop (length name) s in
      list_all2 letter_matches name (take (length name) s)
      \<and> (rest = [] \<or> hd rest \<in> set (lit ''<>=!~'') \<and> 10 \<notin> set (tl rest)))"

definition setuptools_requirement :: "pydict \<Rightarrow> pyexc + pystr" where
  "setuptools_requirement build_system =
     (let requirements = fld build_system ''requires'' in
      if \<not> is_list requirements \<or> \<not> list_all is_str (list_of requirements) then Inl LicenseStateError
      else let found = filter is_setuptools (map str_of (list_of requirements)) in
      if length found \<noteq> 1 then Inl LicenseStateError else Inr (hd found))"

section \<open>The two states\<close>

definition infix_of :: "pystr \<Rightarrow> pystr \<Rightarrow> bool" where
  "infix_of p s \<longleftrightarrow> (\<exists>n \<in> {0..length s}. starts_with p (drop n s))"

definition pending_license_state :: "tool_host \<Rightarrow> path \<Rightarrow> pydict \<Rightarrow> pydict \<Rightarrow> pydict io" where
  "pending_license_state T repository project build_system =
     (if has_key project ''license'' \<or> has_key project ''license-files'' then raise LicenseStateError
      else iob (read_bounded_regular_file T (repository @ [PENDING_NOTICE]) MAX_METADATA_BYTES) (\<lambda>raw.
      iob (from_result (utf8_lf_text raw)) (\<lambda>text.
      if \<not> starts_with (lit ''# License Pending'' @ [10]) text
         \<or> \<not> infix_of (lit ''No open-source license has been selected'') text then raise LicenseStateError
      else iob (from_result (setuptools_requirement build_system)) (\<lambda>requirement.
      ret [(lit ''license_file'', PNone), (lit ''license_sha256'', PNone), (lit ''mode'', PLit ''pending''),
           (lit ''pending_notice'', PStr PENDING_NOTICE), (lit ''setuptools_requirement'', PStr requirement),
           (lit ''spdx_expression'', PNone)]))))"

definition optional_text :: "pystr option \<Rightarrow> pyval" where
  "optional_text v = (case v of None \<Rightarrow> PNone | Some s \<Rightarrow> PStr s)"

definition final_license_state ::
  "tool_host \<Rightarrow> (pystr \<times> license_spec) list \<Rightarrow> path \<Rightarrow> pydict \<Rightarrow> pydict \<Rightarrow> pydict io" where
  "final_license_state T license_specs repository project build_system =
     (let expression = fld project ''license'' in
      case (if is_str expression then map_of license_specs (str_of expression) else None) of
        None \<Rightarrow> raise LicenseStateError
      | Some spec \<Rightarrow>
          if \<not> py_eq (fld project ''license-files'') (PList [PStr LICENSE_FILE]) then raise LicenseStateError
          else iob (from_result (setuptools_requirement build_system)) (\<lambda>requirement.
          if requirement \<noteq> FINAL_BUILD_REQUIREMENT then raise LicenseStateError
          else iob (read_bounded_regular_file T (repository @ [LICENSE_FILE]) MAX_LICENSE_BYTES) (\<lambda>raw.
          iob (from_result (utf8_lf_text raw)) (\<lambda>_.
          let digest = sha256 (th_lib T) raw in
          if length raw \<noteq> ls_size spec \<or> digest \<noteq> ls_sha256 spec then raise LicenseStateError
          else ret [(lit ''license_file'', PStr LICENSE_FILE), (lit ''license_sha256'', PStr digest),
                    (lit ''license_source_commit'', PStr (ls_source_commit spec)),
                    (lit ''license_source_derivation'', optional_text (ls_derivation spec)),
                    (lit ''license_source_url'', PStr (ls_source_url spec)), (lit ''mode'', PLit ''final''),
                    (lit ''pending_notice'', PNone), (lit ''setuptools_requirement'', PStr requirement),
                    (lit ''spdx_expression'', expression)]))))"

definition is_directory :: "path \<Rightarrow> bool io" where
  "is_directory p = look (\<lambda>s. Inr (case locate s True p of Inl _ \<Rightarrow> False | Inr q \<Rightarrow> node_at s q = Some Dir))"

definition inspect_license_state :: "tool_host \<Rightarrow> (pystr \<times> license_spec) list \<Rightarrow> path \<Rightarrow> pydict io" where
  "inspect_license_state T license_specs given =
     iob (peek (\<lambda>s. realpath s MAX_LINKS [] given)) (\<lambda>repository.
     iob (is_directory repository) (\<lambda>found.
     if \<not> found then raise LicenseStateError
     else iob (load_pyproject T repository) (\<lambda>(_, document).
     iob (from_result (project_tables document)) (\<lambda>(project, build_system).
     iob (path_exists_no_follow (repository @ [PENDING_NOTICE])) (\<lambda>pending_exists.
     iob (path_exists_no_follow (repository @ [LICENSE_FILE])) (\<lambda>license_exists.
     if pending_exists = license_exists then raise LicenseStateError
     else if pending_exists then pending_license_state T repository project build_system
     else final_license_state T license_specs repository project build_system))))))"

text \<open>The command: the exit code, and what is printed when it is zero.\<close>

definition license_state_main :: "tool_host \<Rightarrow> path \<Rightarrow> bool \<Rightarrow> (int \<times> pydict option) io" where
  "license_state_main T repository require_final =
     handle
       (iob (inspect_license_state T DEFAULT_LICENSE_SPECS repository) (\<lambda>result.
        if require_final \<and> fld result ''mode'' \<noteq> PLit ''final'' then raise LicenseStateError
        else ret (0, Some result)))
       (\<lambda>e. if e = LicenseStateError then ret (1, None) else raise e)"

end
