(* ===== verification/License_Finalization.thy ===== *)
theory License_Finalization
  imports License_State
begin

text \<open>
  The transition of the repository from a pending to a final licence
  (\<^verbatim>\<open>src/tools/finalize_license.py\<close>): three changes of the working tree, undone when one of them or the
  check after them fails.
\<close>

section \<open>Text\<close>

text \<open>White space of \<open>str.strip\<close> and of \<open>\s\<close>.\<close>

definition unicode_space :: "nat \<Rightarrow> bool" where
  "unicode_space c \<longleftrightarrow> c \<in> {9..13} \<or> c \<in> {28..32} \<or> c \<in> {0x85, 0xA0, 0x1680} \<or> c \<in> {0x2000..0x200A}
     \<or> c \<in> {0x2028, 0x2029, 0x202F, 0x205F, 0x3000}"

definition strip_text :: "pystr \<Rightarrow> pystr" where
  "strip_text s = rev (dropWhile unicode_space (rev (dropWhile unicode_space s)))"

text \<open>\<open>str.count\<close> and \<open>str.replace\<close> for a nonempty pattern: occurrences from the left, without overlap.\<close>

fun count_text :: "nat \<Rightarrow> pystr \<Rightarrow> pystr \<Rightarrow> nat" where
  "count_text 0 p s = 0"
| "count_text (Suc n) p s =
     (if s = [] then 0 else if starts_with p s then Suc (count_text n p (drop (length p) s)) else count_text n p (tl s))"

fun replace_text :: "nat \<Rightarrow> pystr \<Rightarrow> pystr \<Rightarrow> pystr \<Rightarrow> pystr" where
  "replace_text 0 p r s = s"
| "replace_text (Suc n) p r s =
     (if s = [] then []
      else if starts_with p s then r @ replace_text n p r (drop (length p) s)
      else hd s # replace_text n p r (tl s))"

definition str_count :: "pystr \<Rightarrow> pystr \<Rightarrow> nat" where
  "str_count s p = count_text (length s) p s"

definition str_replace :: "pystr \<Rightarrow> pystr \<Rightarrow> pystr \<Rightarrow> pystr" where
  "str_replace s p r = replace_text (length s) p r s"

text \<open>\<open>^license(?:-files)?\s*=\<close> at the start of some line; the white space may span lines.\<close>

definition license_key_at :: "pystr \<Rightarrow> bool" where
  "license_key_at s \<longleftrightarrow> starts_with (lit ''license'') s
     \<and> starts_with [61] (dropWhile unicode_space (remove_prefix (lit ''-files'') (drop 7 s)))"

definition has_license_key :: "pystr \<Rightarrow> bool" where
  "has_license_key s \<longleftrightarrow> license_key_at s \<or> (\<exists>n \<in> {0..<length s}. s ! n = 10 \<and> license_key_at (drop (Suc n) s))"

definition PENDING_BUILD_LINE :: pystr where
  "PENDING_BUILD_LINE = lit ''requires = ['' @ [34] @ lit ''setuptools>=69'' @ [34] @ lit '']''"

definition FINAL_BUILD_LINE :: pystr where
  "FINAL_BUILD_LINE = lit ''requires = ['' @ [34] @ FINAL_BUILD_REQUIREMENT @ [34] @ lit '']''"

definition README_LINE :: pystr where
  "README_LINE = lit ''readme = '' @ [34] @ lit ''README.md'' @ [34]"

abbreviation finalization_error :: pyexc where
  "finalization_error \<equiv> LicenseFinalizationError None"

definition transform_pyproject :: "bytes \<Rightarrow> pystr \<Rightarrow> pyexc + bytes" where
  "transform_pyproject raw choice =
     (case utf8_decode raw of
        None \<Rightarrow> Inl finalization_error
      | Some text \<Rightarrow>
          if 13 \<in> set text \<or> text = [] \<or> last text \<noteq> 10 then Inl finalization_error
          else if str_count text PENDING_BUILD_LINE \<noteq> 1 then Inl finalization_error
          else if str_count text README_LINE \<noteq> 1 then Inl finalization_error
          else if has_license_key text then Inl finalization_error
          else let updated = str_replace text PENDING_BUILD_LINE FINAL_BUILD_LINE;
                   metadata = README_LINE @ [10] @ lit ''license = '' @ [34] @ choice @ [34, 10]
                     @ lit ''license-files = ['' @ [34] @ LICENSE_FILE @ [34] @ lit '']'' in
          case utf8 (str_replace updated README_LINE metadata) of
            None \<Rightarrow> Inl UnicodeEncodeError
          | Some b \<Rightarrow> Inr b)"

fun is_finalization_error :: "pyexc \<Rightarrow> bool" where
  "is_finalization_error (LicenseFinalizationError _) = True"
| "is_finalization_error _ = False"

section \<open>Checks\<close>

definition to_finalization :: "pyexc \<Rightarrow> pyexc" where
  "to_finalization e = (if e = LicenseStateError then finalization_error else e)"

definition run_git :: "tool_host \<Rightarrow> path \<Rightarrow> pystr list \<Rightarrow> pystr io" where
  "run_git T repository arguments =
     iob (reraise (\<lambda>e. if is_os_error e then finalization_error else e) (th_git T repository arguments)) (\<lambda>out.
     case out of None \<Rightarrow> raise finalization_error | Some text \<Rightarrow> ret (strip_text text))"

definition is_commit :: "pystr \<Rightarrow> bool" where
  "is_commit s \<longleftrightarrow> length s = 40 \<and> list_all is_lower_hex s"

definition check_git :: "tool_host \<Rightarrow> path \<Rightarrow> pystr \<Rightarrow> unit io" where
  "check_git T repository expected_source_commit =
     (if \<not> is_commit expected_source_commit then raise finalization_error
      else iob (run_git T repository [lit ''rev-parse'', lit ''HEAD'']) (\<lambda>head.
      if head \<noteq> expected_source_commit then raise finalization_error
      else iob (run_git T repository [lit ''status'', lit ''--porcelain=v1'', lit ''--untracked-files=all'']) (\<lambda>status.
      if status \<noteq> [] then raise finalization_error else ret ())))"

definition license_input :: "tool_host \<Rightarrow> (pystr \<times> license_spec) list \<Rightarrow> path \<Rightarrow> pystr \<Rightarrow> (bytes \<times> license_spec) io" where
  "license_input T license_specs p choice =
     (case map_of license_specs choice of
        None \<Rightarrow> raise finalization_error
      | Some spec \<Rightarrow>
          iob (reraise to_finalization (read_bounded_regular_file T p MAX_LICENSE_BYTES)) (\<lambda>raw.
          if length raw \<noteq> ls_size spec \<or> sha256 (th_lib T) raw \<noteq> ls_sha256 spec then raise finalization_error
          else ret (raw, spec)))"

definition read_repository_file :: "tool_host \<Rightarrow> path \<Rightarrow> nat \<Rightarrow> bytes io" where
  "read_repository_file T p maximum = reraise to_finalization (read_bounded_regular_file T p maximum)"

section \<open>Changes\<close>

definition exclusive_write :: "path \<Rightarrow> bytes \<Rightarrow> unit io" where
  "exclusive_write p raw =
     iob (sys (fs_create (Reg []) p)) (\<lambda>descriptor.
     finally_do (iob (write_all descriptor 0 raw) (\<lambda>_. look (\<lambda>_. Inr ()))) close_descriptor)"

definition license_temp_name :: "pystr \<Rightarrow> pystr \<Rightarrow> pystr" where
  "license_temp_name name u = lit ''.'' @ name @ lit ''.license-'' @ u @ lit ''.tmp''"

definition unlink_missing_ok :: "path \<Rightarrow> unit io" where
  "unlink_missing_ok p = handle (sys (fs_unlink p)) (\<lambda>e. if e = FileNotFoundError then ret () else raise e)"

definition atomic_replace :: "path \<Rightarrow> bytes \<Rightarrow> unit io" where
  "atomic_replace p raw =
     iob uuid4 (\<lambda>u.
     let temporary = butlast p @ [license_temp_name (last p) u] in
     finally_do (iob (exclusive_write temporary raw) (\<lambda>_. sys (fs_replace temporary p)))
       (unlink_missing_ok temporary))"

definition remove_exact :: "tool_host \<Rightarrow> path \<Rightarrow> bytes \<Rightarrow> unit io" where
  "remove_exact T p expected =
     iob (reraise to_finalization (read_bounded_regular_file T p MAX_METADATA_BYTES)) (\<lambda>actual.
     if actual \<noteq> expected then raise finalization_error else sys (fs_unlink p))"

text \<open>
  How far the transition has come, the four flags the handler reads: the licence file is attempted,
  created, the metadata replaced, the notice removed.
\<close>

datatype stage = Attempted | Created | Replaced | Removed

text \<open>One step of the rollback; an error becomes an entry of the list of failures.\<close>

definition noted :: "bool io \<Rightarrow> bool io" where
  "noted m = handle m (\<lambda>e. if is_os_error e \<or> e = LicenseStateError then ret False else raise e)"

definition restore_pending :: "tool_host \<Rightarrow> path \<Rightarrow> bytes \<Rightarrow> bool io" where
  "restore_pending T pending original_pending =
     noted (iob (path_exists_no_follow pending) (\<lambda>found.
       if found
       then iob (read_bounded_regular_file T pending MAX_METADATA_BYTES) (\<lambda>actual. ret (actual = original_pending))
       else iob (exclusive_write pending original_pending) (\<lambda>_. ret True)))"

definition restore_pyproject :: "path \<Rightarrow> bytes \<Rightarrow> bool io" where
  "restore_pyproject pyproject original_pyproject =
     handle (iob (atomic_replace pyproject original_pyproject) (\<lambda>_. ret True))
       (\<lambda>e. if is_os_error e then ret False else raise e)"

definition remove_created :: "tool_host \<Rightarrow> path \<Rightarrow> bytes \<Rightarrow> bool io" where
  "remove_created T license_path license_bytes =
     noted (iob (read_bounded_regular_file T license_path MAX_LICENSE_BYTES) (\<lambda>actual.
       if actual \<noteq> license_bytes then ret False else iob (sys (fs_unlink license_path)) (\<lambda>_. ret True)))"

definition check_attempted :: "path \<Rightarrow> bool io" where
  "check_attempted license_path =
     handle (iob (path_exists_no_follow license_path) (\<lambda>found. ret (\<not> found)))
       (\<lambda>e. if e = LicenseStateError then ret False else raise e)"

text \<open>Whether the list of failures is empty.\<close>

definition rollback :: "tool_host \<Rightarrow> path \<Rightarrow> bytes \<Rightarrow> bytes \<Rightarrow> bytes \<Rightarrow> stage \<Rightarrow> bool io" where
  "rollback T repository original_pyproject original_pending license_bytes reached =
     iob (if reached = Removed then restore_pending T (repository @ [PENDING_NOTICE]) original_pending else ret True) (\<lambda>a.
     iob (if reached = Removed \<or> reached = Replaced then restore_pyproject (repository @ [PYPROJECT]) original_pyproject
          else ret True) (\<lambda>b.
     iob (if reached = Attempted then check_attempted (repository @ [LICENSE_FILE])
          else remove_created T (repository @ [LICENSE_FILE]) license_bytes) (\<lambda>c.
     ret (a \<and> b \<and> c))))"

section \<open>The transition\<close>

text \<open>A step of the \<open>try\<close> block: an error the handler catches is passed on with the stage reached.\<close>

definition stage_step :: "stage \<Rightarrow> 'a io \<Rightarrow> ('a \<Rightarrow> (stage + 'b) io) \<Rightarrow> (stage + 'b) io" where
  "stage_step reached m f =
     iob (handle (iob m (\<lambda>x. ret (Inr x)))
            (\<lambda>e. if is_os_error e \<or> is_finalization_error e then ret (Inl reached) else raise e)) (\<lambda>r.
     case r of Inl reached \<Rightarrow> ret (Inl reached) | Inr x \<Rightarrow> f x)"

definition apply_changes ::
  "tool_host \<Rightarrow> (pystr \<times> license_spec) list \<Rightarrow> path \<Rightarrow> bytes \<Rightarrow> bytes \<Rightarrow> bytes \<Rightarrow> (stage + pydict) io" where
  "apply_changes T license_specs repository license_bytes final_pyproject original_pending =
     stage_step Attempted (exclusive_write (repository @ [LICENSE_FILE]) license_bytes) (\<lambda>_.
     stage_step Created (atomic_replace (repository @ [PYPROJECT]) final_pyproject) (\<lambda>_.
     stage_step Replaced (remove_exact T (repository @ [PENDING_NOTICE]) original_pending) (\<lambda>_.
     stage_step Removed (reraise to_finalization (inspect_license_state T license_specs repository)) (\<lambda>state.
     ret (Inr state)))))"

text \<open>The \<open>try\<close> statement: the state found after the changes, or whether the rollback was complete.\<close>

definition transition ::
  "tool_host \<Rightarrow> (pystr \<times> license_spec) list \<Rightarrow> path \<Rightarrow> bytes \<Rightarrow> bytes \<Rightarrow> bytes \<Rightarrow> bytes \<Rightarrow> (bool + pydict) io" where
  "transition T license_specs repository license_bytes original_pyproject original_pending final_pyproject =
     iob (apply_changes T license_specs repository license_bytes final_pyproject original_pending) (\<lambda>r.
     case r of
       Inl reached \<Rightarrow>
         iob (rollback T repository original_pyproject original_pending license_bytes reached) (\<lambda>complete. ret (Inl complete))
     | Inr final \<Rightarrow> ret (Inr final))"

definition finalize_repository ::
  "tool_host \<Rightarrow> (pystr \<times> license_spec) list \<Rightarrow> path \<Rightarrow> pystr \<Rightarrow> path \<Rightarrow> pystr option \<Rightarrow> bool \<Rightarrow> bool \<Rightarrow> pydict io" where
  "finalize_repository T license_specs given choice license_file expected_source_commit applying require_clean_git =
     iob (peek (\<lambda>s. realpath s MAX_LINKS [] given)) (\<lambda>repository.
     iob (is_directory repository) (\<lambda>found.
     if \<not> found then raise finalization_error
     else iob (if require_clean_git
               then (case expected_source_commit of None \<Rightarrow> raise finalization_error
                     | Some commit \<Rightarrow> check_git T repository commit)
               else ret ()) (\<lambda>_.
     iob (reraise to_finalization (inspect_license_state T license_specs repository)) (\<lambda>state.
     if fld state ''mode'' \<noteq> PLit ''pending'' then raise finalization_error
     else iob (peek (\<lambda>s. realpath s MAX_LINKS [] license_file)) (\<lambda>license_source.
     iob (license_input T license_specs license_source choice) (\<lambda>(license_bytes, spec).
     iob (read_repository_file T (repository @ [PYPROJECT]) MAX_METADATA_BYTES) (\<lambda>original_pyproject.
     iob (read_repository_file T (repository @ [PENDING_NOTICE]) MAX_METADATA_BYTES) (\<lambda>original_pending.
     iob (from_result (transform_pyproject original_pyproject choice)) (\<lambda>final_pyproject.
     let plan = [(lit ''applied'', PBool False), (lit ''created'', PList [PStr LICENSE_FILE]),
           (lit ''deleted'', PList [PStr PENDING_NOTICE]), (lit ''license'', PStr choice),
           (lit ''license_bytes'', PInt (int (length license_bytes))), (lit ''license_sha256'', PStr (ls_sha256 spec)),
           (lit ''license_source_commit'', PStr (ls_source_commit spec)),
           (lit ''license_source_derivation'', optional_text (ls_derivation spec)),
           (lit ''license_source_url'', PStr (ls_source_url spec)), (lit ''modified'', PList [PStr PYPROJECT]),
           (lit ''source_commit'', optional_text expected_source_commit)] in
     if \<not> applying then ret plan
     else iob (case expected_source_commit of Some commit \<Rightarrow> if require_clean_git then check_git T repository commit else ret ()
               | None \<Rightarrow> ret ()) (\<lambda>_.
     iob (transition T license_specs repository license_bytes original_pyproject original_pending final_pyproject) (\<lambda>r.
     case r of
       Inl complete \<Rightarrow> raise (LicenseFinalizationError (Some complete))
     | Inr final \<Rightarrow>
         ret (dset ''verified_state'' (PDict final) (dset ''applied'' (PBool True) plan)))))))))))))"

definition finalize_main :: "tool_host \<Rightarrow> path \<Rightarrow> pystr \<Rightarrow> path \<Rightarrow> pystr \<Rightarrow> bool \<Rightarrow> (int \<times> pydict option) io" where
  "finalize_main T repository choice license_file expected_source_commit applying =
     handle
       (iob (finalize_repository T DEFAULT_LICENSE_SPECS repository choice license_file (Some expected_source_commit)
          applying True) (\<lambda>result. ret (0, Some result)))
       (\<lambda>e. if is_finalization_error e then ret (1, None) else raise e)"

section \<open>What the calls do\<close>

text \<open>One name has changed.\<close>

definition becomes :: "fs \<Rightarrow> path \<Rightarrow> node option \<Rightarrow> fs \<Rightarrow> bool" where
  "becomes s p v s' \<longleftrightarrow> wf_fs s' \<and> node_at s' = (node_at s)(p := v)"

lemma staged_becomes: "staged s p i b s' \<Longrightarrow> becomes s p (Some (Reg b)) s'"
  by (auto simp: staged_def becomes_def)

lemma wp_world: "(\<And>w. wp (m (g w)) Q X K s) \<Longrightarrow> wp (\<lambda>w. m (g w) w) Q X K s"
  by (auto simp: wp_def)

text \<open>A write that takes some bytes at the end of what has been written.\<close>

definition write_some :: "ino \<Rightarrow> nat \<Rightarrow> bytes \<Rightarrow> nat \<Rightarrow> nat io" where
  "write_some i off view n = sys_torn (\<lambda>s. (Inr n, fs_write_at i off (take n view) s))
     (\<lambda>m s. fs_write_at i off (take (min m n) view) s)"

lemma write_all_Cons:
  "write_all i off (c # cs) =
     iob (\<lambda>w. write_some i off (c # cs) (min (os_chunk (w_os w) (w_tick w)) (length (c # cs))) w) (\<lambda>written.
     if written = 0 then raise OSError else write_all i (off + written) (drop written (c # cs)))"
  by (simp only: write_all.simps write_some_def Let_def)

lemma wp_write_some:
  assumes "staged s0 p i b s" "\<And>s'. staged s0 p i (b @ take n view) s' \<Longrightarrow> Q n s'"
    and "\<And>e. X e s" "\<And>c s'. staged s0 p i c s' \<Longrightarrow> K s'"
  shows "wp (write_some i (length b) view n) Q X K s"
proof -
  have "node_at s p = Some (Reg b)" "entry s p = Some i" using assms(1) by (simp_all add: staged_def sole_def)
  then have "fs_nodes s i = Reg b" by (simp add: node_at_def)
  then have "staged s0 p i (b @ take k view) (fs_write_at i (length b) (take k view) s)" for k
    using staged_write [OF assms(1)] by (simp add: fs_write_at_end)
  then show ?thesis unfolding write_some_def by (intro wp_sys_torn) (use assms in \<open>auto intro: assms(4)\<close>)
qed

lemma wp_write_all:
  assumes "staged s0 p i b s"
  shows "wp (write_all i (length b) view) (\<lambda>_. staged s0 p i (b @ view)) (\<lambda>_ s'. \<exists>c. staged s0 p i c s') (\<lambda>s'. \<exists>c. staged s0 p i c s') s"
  using assms
proof (induction "length view" arbitrary: b view s rule: less_induct)
  case less
  show ?case
  proof (cases view)
    case (Cons c cs)
    have rest: "wp (write_all i (length b + n) (drop n view)) (\<lambda>_. staged s0 p i (b @ view)) (\<lambda>_ s'. \<exists>c. staged s0 p i c s')
        (\<lambda>s'. \<exists>c. staged s0 p i c s') s'" if "staged s0 p i (b @ take n view) s'" "n \<noteq> 0" "n \<le> length view" for n s'
      using less.hyps [OF _ that(1), of "drop n view"] that(2,3) Cons by (simp add: min_absorb2)
    show ?thesis
      unfolding Cons write_all_Cons
    proof (rule wp_iob, rule wp_world [where m = "write_some i (length b) (c # cs)"], rule wp_write_some [OF less.prems],
        intro wp_if wp_raise)
      fix w s' assume "staged s0 p i (b @ take (min (os_chunk (w_os w) (w_tick w)) (length (c # cs))) (c # cs)) s'"
        "min (os_chunk (w_os w) (w_tick w)) (length (c # cs)) \<noteq> 0"
      then show "wp (write_all i (length b + min (os_chunk (w_os w) (w_tick w)) (length (c # cs)))
          (drop (min (os_chunk (w_os w) (w_tick w)) (length (c # cs))) (c # cs)))
          (\<lambda>_. staged s0 p i (b @ c # cs)) (\<lambda>_ s'. \<exists>c. staged s0 p i c s') (\<lambda>s'. \<exists>c. staged s0 p i c s') s'"
        using rest Cons by simp
    qed (use less.prems in blast)+
  qed (use less.prems in \<open>auto simp del: io_simps intro: wp_ret\<close>)
qed

lemma wp_close: "Q () s \<Longrightarrow> (\<And>e. X e s) \<Longrightarrow> K s \<Longrightarrow> wp close_descriptor Q X K s"
  unfolding close_descriptor_def by (rule wp_look) simp_all

text \<open>What an interrupted exclusive write leaves.\<close>

definition perhaps_begun :: "fs \<Rightarrow> path \<Rightarrow> fs \<Rightarrow> bool" where
  "perhaps_begun s p s' \<longleftrightarrow> s' = s \<or> node_at s p = None \<and> (\<exists>b. becomes s p (Some (Reg b)) s')"

lemma wp_exclusive_write:
  assumes "dir_at s q" "c \<noteq> dotdot"
    and "\<And>s'. node_at s (q @ [c]) = None \<Longrightarrow> becomes s (q @ [c]) (Some (Reg raw)) s' \<Longrightarrow> Q () s'"
    and "\<And>e s'. perhaps_begun s (q @ [c]) s' \<Longrightarrow> X e s'" "\<And>s'. perhaps_begun s (q @ [c]) s' \<Longrightarrow> K s'"
  shows "wp (exclusive_write (q @ [c]) raw) Q X K s"
proof -
  have wf: "wf_fs s" "node_at s q = Some Dir" using assms(1) by (simp_all add: dir_at_def)
  have same: "X e s" "K s" for e using assms(4,5) by (auto simp: perhaps_begun_def)
  have main: "wp (finally_do (iob (write_all i 0 raw) (\<lambda>_. look (\<lambda>_. Inr ()))) close_descriptor) Q X K s1"
    if created: "fs_create (Reg []) (q @ [c]) s = (Inr i, s1)" for i s1
  proof -
    note st = staged_create [OF wf assms(2) created]
    have begun: "X e s'" "K s'" if "staged s (q @ [c]) i b s'" for e b s'
      using staged_becomes [OF that] st(2) assms(4,5) by (auto simp: perhaps_begun_def)
    have "wp (write_all i 0 raw) (\<lambda>_. staged s (q @ [c]) i raw) (\<lambda>_ s'. \<exists>c'. staged s (q @ [c]) i c' s')
        (\<lambda>s'. \<exists>c'. staged s (q @ [c]) i c' s') s1"
      using wp_write_all [OF st(1), of raw] by simp
    then show ?thesis
      by (intro wp_finally wp_iob, elim wp_mono, intro wp_look wp_close)
        (use staged_becomes st(2) assms(3) begun in \<open>auto intro!: wp_close\<close>)
  qed
  show ?thesis
    unfolding exclusive_write_def
    by (intro wp_iob wp_sys main) (use same in \<open>auto dest: fs_create_absent\<close>)
qed

lemma unlink_becomes:
  assumes "dir_at s q" "c \<noteq> dotdot" "fs_unlink (q @ [c]) s = (r, s')"
  shows "s' = s \<or> becomes s (q @ [c]) None s'" "r = Inr () \<Longrightarrow> becomes s (q @ [c]) None s'"
  using assms file_at_locate [OF assms(1,2)] wf_fs_unlink [of s "q @ [c]"] node_at_unlink [where s = s and q = "q @ [c]"]
  by (auto simp: fs_unlink_def becomes_def dir_at_def split: option.splits if_splits)

lemma replace_becomes:
  assumes "dir_at s q" "c \<noteq> dotdot" "t \<noteq> dotdot" "t \<noteq> c" "node_at s (q @ [t]) = Some (Reg b)"
    and "fs_replace (q @ [t]) (q @ [c]) s = (r, s')"
  shows "s' = s \<or> wf_fs s' \<and> node_at s' = (node_at s)(q @ [t] := None, q @ [c] := Some (Reg b))"
    "r = Inr () \<Longrightarrow> wf_fs s' \<and> node_at s' = (node_at s)(q @ [t] := None, q @ [c] := Some (Reg b))"
proof -
  obtain i where i: "entry s (q @ [t]) = Some i" using assms(5) by (auto simp: node_at_def)
  have "dotdot \<notin> set q" using assms(1) wf_fs_no_dotdot [of s q] by (auto simp: dir_at_def node_at_def)
  then have "wf_fs (fs_move (q @ [t]) (q @ [c]) s)" if "node_at s (q @ [c]) \<noteq> Some Dir"
    using assms that by (intro wf_fs_move [OF _ i]) (auto simp: dir_at_def)
  moreover have "node_at (fs_move (q @ [t]) (q @ [c]) s) = (node_at s)(q @ [t] := None, q @ [c] := Some (Reg b))"
    using node_at_move [OF i, of "q @ [c]"] assms(4,5) by auto
  ultimately show "s' = s \<or> wf_fs s' \<and> node_at s' = (node_at s)(q @ [t] := None, q @ [c] := Some (Reg b))"
    "r = Inr () \<Longrightarrow> wf_fs s' \<and> node_at s' = (node_at s)(q @ [t] := None, q @ [c] := Some (Reg b))"
    using assms(4-6) file_at_locate [OF assms(1,2)] file_at_locate [OF assms(1,3)]
    by (auto simp: fs_replace_def split: if_splits)
qed

section \<open>The working tree\<close>

text \<open>The names of temporary files, and the tree without them.\<close>

definition temporaries :: "path \<Rightarrow> path set" where
  "temporaries r = range (\<lambda>u. r @ [license_temp_name PYPROJECT u])"

definition tree_is :: "path \<Rightarrow> (path \<Rightarrow> node option) \<Rightarrow> fs \<Rightarrow> bool" where
  "tree_is r f s \<longleftrightarrow> wf_fs s \<and> (\<forall>x. x \<notin> temporaries r \<longrightarrow> node_at s x = f x)"

lemma temp_names:
  "license_temp_name c u \<noteq> dotdot" "license_temp_name c u \<notin> {PYPROJECT, LICENSE_FILE, PENDING_NOTICE}"
  "r \<notin> temporaries r" "r @ [PYPROJECT] \<notin> temporaries r" "r @ [LICENSE_FILE] \<notin> temporaries r" "r @ [PENDING_NOTICE] \<notin> temporaries r"
  by (auto simp: license_temp_name_def dotdot_def lit_def PYPROJECT_def LICENSE_FILE_def PENDING_NOTICE_def temporaries_def)

lemma file_names_plain: "PYPROJECT \<noteq> dotdot" "LICENSE_FILE \<noteq> dotdot" "PENDING_NOTICE \<noteq> dotdot"
  "PYPROJECT \<noteq> LICENSE_FILE" "PYPROJECT \<noteq> PENDING_NOTICE" "LICENSE_FILE \<noteq> PENDING_NOTICE"
  by (simp_all add: PYPROJECT_def LICENSE_FILE_def PENDING_NOTICE_def dotdot_def lit_def)

lemma tree_is_dir: "tree_is r f s \<Longrightarrow> f r = Some Dir \<Longrightarrow> dir_at s r"
  using temp_names(3) by (auto simp: tree_is_def dir_at_def)

lemma tree_is_becomes:
  assumes "tree_is r f s" "becomes s p v s'"
  shows "p \<notin> temporaries r \<Longrightarrow> tree_is r (f(p := v)) s'" "p \<in> temporaries r \<Longrightarrow> tree_is r f s'"
  using assms by (auto simp: tree_is_def becomes_def)

text \<open>A temporary file of the metadata.\<close>

lemma wp_atomic_replace:
  assumes t: "tree_is r f s" "f r = Some Dir"
    and "\<And>s'. tree_is r (f(r @ [PYPROJECT] := Some (Reg raw))) s' \<Longrightarrow> Q () s'"
    and X: "\<And>e s'. tree_is r f s' \<or> tree_is r (f(r @ [PYPROJECT] := Some (Reg raw))) s' \<Longrightarrow> X e s'"
    and K: "\<And>s'. tree_is r f s' \<or> tree_is r (f(r @ [PYPROJECT] := Some (Reg raw))) s' \<Longrightarrow> K s'"
  shows "wp (atomic_replace (r @ [PYPROJECT]) raw) Q X K s"
proof -
  let ?new = "f(r @ [PYPROJECT] := Some (Reg raw))"
  have cleanup: "wp (unlink_missing_ok (r @ [license_temp_name PYPROJECT u])) Q' X K s'"
    if g: "tree_is r g s'" "g = f \<or> g = ?new" "\<And>s'. tree_is r g s' \<Longrightarrow> Q' () s'" for u g s' Q'
  proof -
    have d: "dir_at s' r" using g(1,2) t(2) by (intro tree_is_dir [of r g]) auto
    have m: "r @ [license_temp_name PYPROJECT u] \<in> temporaries r" by (simp add: temporaries_def)
    have after: "tree_is r g s''" if "fs_unlink (r @ [license_temp_name PYPROJECT u]) s' = (x, s'')" for x s''
      using unlink_becomes(1) [OF d temp_names(1) that] g(1) tree_is_becomes(2) [OF g(1) _ m] by auto
    have bad: "X e s''" "K s''" if "tree_is r g s''" for e s'' using that g(2) X K by auto
    show ?thesis
      unfolding unlink_missing_ok_def
      by (intro wp_handle wp_sys wp_if wp_ret wp_raise) (use after bad g in auto)
  qed
  have body: "wp (iob (exclusive_write (r @ [license_temp_name PYPROJECT u]) raw)
      (\<lambda>_. sys (fs_replace (r @ [license_temp_name PYPROJECT u]) (r @ [PYPROJECT]))))
      (\<lambda>_ s'. tree_is r ?new s') (\<lambda>_ s'. tree_is r f s' \<or> tree_is r ?new s') (\<lambda>s'. tree_is r f s' \<or> tree_is r ?new s') s" for u
  proof -
    let ?tmp = "r @ [license_temp_name PYPROJECT u]"
    have m: "?tmp \<in> temporaries r" by (simp add: temporaries_def)
    have d: "dir_at s r" using t by (rule tree_is_dir)
    have begun: "tree_is r f s'" if "perhaps_begun s ?tmp s'" for s'
      using that t(1) tree_is_becomes(2) [OF t(1) _ m] by (auto simp: perhaps_begun_def)
    have swap: "tree_is r f s'' \<or> tree_is r ?new s''" "x = Inr () \<Longrightarrow> tree_is r ?new s''"
      if b: "becomes s ?tmp (Some (Reg raw)) s'" "fs_replace ?tmp (r @ [PYPROJECT]) s' = (x, s'')" for s' s'' x
    proof -
      have f': "tree_is r f s'" using tree_is_becomes(2) [OF t(1) b(1) m] .
      have d': "dir_at s' r" using f' t(2) by (rule tree_is_dir)
      have n: "node_at s' ?tmp = Some (Reg raw)" using b(1) by (simp add: becomes_def)
      have ne: "license_temp_name PYPROJECT u \<noteq> PYPROJECT" using temp_names(2) by blast
      note re = replace_becomes [OF d' file_names_plain(1) temp_names(1) ne n b(2)]
      have new: "tree_is r ?new s''" if "wf_fs s'' \<and> node_at s'' = (node_at s')(?tmp := None, r @ [PYPROJECT] := Some (Reg raw))"
        using that f' m by (auto simp: tree_is_def)
      from re(1) new f' show "tree_is r f s'' \<or> tree_is r ?new s''" by blast
      show "tree_is r ?new s''" if "x = Inr ()" using re(2) [OF that] new by blast
    qed
    show ?thesis
      by (rule wp_iob, rule wp_exclusive_write [OF d temp_names(1)], rule wp_sys)
        (use begun swap(1) tree_is_becomes(2) [OF t(1) _ m] in \<open>auto intro: swap(2)\<close>)
  qed
  show ?thesis
    unfolding atomic_replace_def Let_def butlast_snoc last_snoc
    by (rule wp_iob, rule wp_uuid4, rule wp_finally, rule wp_mono [OF body])
      (use cleanup assms(3) X K in \<open>auto\<close>)
qed

section \<open>Reading leaves everything as it is\<close>

lemma reads_license [reads_intros]:
  "reads (status_of_name T p)" "reads (status_of_open T i)" "reads close_descriptor" "reads (lstat_told p)"
  "reads (path_exists_no_follow p)" "reads (is_directory p)"
proof -
  show "reads (status_of_name T p)" "reads (status_of_open T i)" "reads close_descriptor" "reads (is_directory p)"
    unfolding status_of_name_def status_of_open_def close_descriptor_def is_directory_def by (intro reads_intros)+
  show l: "reads (lstat_told p)" unfolding lstat_told_def by (intro reads_intros reads_answered)
  then show "reads (path_exists_no_follow p)" unfolding path_exists_no_follow_def by (intro reads_intros)
qed

lemma reads_bounded [reads_intros]: "reads (read_bounded_regular_file T p n)"
  unfolding read_bounded_regular_file_def by (intro reads_intros)

lemma reads_inspect_license [reads_intros]: "reads (inspect_license_state T license_specs p)"
  unfolding inspect_license_state_def load_pyproject_def pending_license_state_def final_license_state_def
  by (intro reads_intros)

lemma wp_still: "reads m \<Longrightarrow> (\<And>x. Q x s) \<Longrightarrow> (\<And>e. X e s) \<Longrightarrow> K s \<Longrightarrow> wp m Q X K s"
  by (rule stillD [OF reads_still])

lemma wp_read_bounded:
  assumes "\<And>raw. node_via s p = Some (Reg raw) \<Longrightarrow> Q raw s" "\<And>e. X e s" "K s"
  shows "wp (read_bounded_regular_file T p n) Q X K s"
proof -
  have found: "node_via s p = Some (Reg c)" if "fs_open_nofollow p s = Inr i" "fs_read i s = Inr c" for i c
    using that by (auto simp: fs_open_nofollow_def fs_read_def node_via_def node_at_def rbind_def split: sum.splits option.splits if_splits node.splits)
  show ?thesis
    unfolding read_bounded_regular_file_def status_of_name_def status_of_open_def Let_def
    by (intro wp_iob wp_reraise wp_look wp_if wp_raise wp_finally wp_close wp_ret) (use assms found in \<open>auto simp: min_def split: if_splits\<close>)
qed

lemma wp_path_exists:
  assumes "Q (fs_lexists p s) s" "\<And>e. \<not> is_os_error e \<Longrightarrow> X e s" "X LicenseStateError s" "K s"
  shows "wp (path_exists_no_follow p) Q X K s"
proof -
  have l: "wp (lstat_told p) (\<lambda>_ s'. s' = s \<and> fs_lexists p s) (\<lambda>e s'. s' = s \<and> (e = FileNotFoundError \<longrightarrow> \<not> fs_lexists p s)) (\<lambda>s'. s' = s) s"
    unfolding lstat_told_def
    by (intro wp_handle wp_look wp_if wp_raise) (auto simp: wp_def answered_def iob_def raise_def fs_lexists_def split: sum.splits)
  show ?thesis
    unfolding path_exists_no_follow_def
    by (rule wp_handle, rule wp_iob, rule wp_mono [OF l]) (use assms in \<open>auto simp: license_error_def intro!: wp_intros\<close>)
qed

section \<open>Changes and rollback\<close>

text \<open>The tree with some content of the three files, and what the stages leave.\<close>

definition with_files :: "path \<Rightarrow> (path \<Rightarrow> node option) \<Rightarrow> node option \<Rightarrow> node option \<Rightarrow> node option \<Rightarrow> path \<Rightarrow> node option" where
  "with_files r f l p n = f(r @ [LICENSE_FILE] := l, r @ [PYPROJECT] := p, r @ [PENDING_NOTICE] := n)"

definition reached_tree ::
  "path \<Rightarrow> (path \<Rightarrow> node option) \<Rightarrow> bytes \<Rightarrow> bytes \<Rightarrow> bytes \<Rightarrow> bytes \<Rightarrow> stage \<Rightarrow> fs \<Rightarrow> bool" where
  "reached_tree r f lic op on fin reached s \<longleftrightarrow>
     (case reached of
        Attempted \<Rightarrow> tree_is r f s \<or> f (r @ [LICENSE_FILE]) = None \<and>
          (\<exists>b. tree_is r (with_files r f (Some (Reg b)) (Some (Reg op)) (Some (Reg on))) s)
      | Created \<Rightarrow> f (r @ [LICENSE_FILE]) = None \<and>
          (\<exists>p \<in> {op, fin}. tree_is r (with_files r f (Some (Reg lic)) (Some (Reg p)) (Some (Reg on))) s)
      | Replaced \<Rightarrow> f (r @ [LICENSE_FILE]) = None \<and>
          tree_is r (with_files r f (Some (Reg lic)) (Some (Reg fin)) (Some (Reg on))) s
      | Removed \<Rightarrow> f (r @ [LICENSE_FILE]) = None \<and> tree_is r (with_files r f (Some (Reg lic)) (Some (Reg fin)) None) s)"

text \<open>Only the three files have changed, and the metadata is the old or the new.\<close>

definition three_files :: "path \<Rightarrow> (path \<Rightarrow> node option) \<Rightarrow> bytes \<Rightarrow> bytes \<Rightarrow> fs \<Rightarrow> bool" where
  "three_files r f op fin s \<longleftrightarrow> (\<exists>l n. \<exists>p \<in> {op, fin}. tree_is r (with_files r f l (Some (Reg p)) n) s)"

definition rolled_back :: "path \<Rightarrow> (path \<Rightarrow> node option) \<Rightarrow> bytes \<Rightarrow> fs \<Rightarrow> bool" where
  "rolled_back r f fin s \<longleftrightarrow> tree_is r f s \<or> tree_is r (f(r @ [PYPROJECT] := Some (Reg fin))) s"

lemma with_files_simps [simp]:
  "(with_files r f l p n)(r @ [LICENSE_FILE] := l') = with_files r f l' p n"
  "(with_files r f l p n)(r @ [PYPROJECT] := p') = with_files r f l p' n"
  "(with_files r f l p n)(r @ [PENDING_NOTICE] := n') = with_files r f l p n'"
  "with_files r f l p n (r @ [LICENSE_FILE]) = l" "with_files r f l p n (r @ [PYPROJECT]) = p"
  "with_files r f l p n (r @ [PENDING_NOTICE]) = n" "with_files r f l p n r = f r"
  using file_names_plain by (auto simp: with_files_def fun_eq_iff)

lemma with_files_same:
  assumes "f (r @ [PYPROJECT]) = Some (Reg op)" "f (r @ [PENDING_NOTICE]) = Some (Reg on)"
  shows "with_files r f (f (r @ [LICENSE_FILE])) (Some (Reg op)) (Some (Reg on)) = f"
    "with_files r f (f (r @ [LICENSE_FILE])) (Some (Reg fin)) (Some (Reg on)) = f(r @ [PYPROJECT] := Some (Reg fin))"
  using assms file_names_plain by (auto simp: with_files_def fun_eq_iff)

lemma reached_three_files:
  assumes "f (r @ [PYPROJECT]) = Some (Reg op)" "f (r @ [PENDING_NOTICE]) = Some (Reg on)"
    and "reached_tree r f lic op on fin reached s"
  shows "three_files r f op fin s"
proof -
  have "three_files r f op fin s" if "tree_is r f s"
    using that with_files_same(1) [OF assms(1,2)] unfolding three_files_def by (metis insertI1)
  then show ?thesis
    using assms(3) by (auto simp: reached_tree_def three_files_def split: stage.splits)
qed

lemma wp_stage_step:
  assumes "wp m (\<lambda>x. wp (f x) Q X K) (\<lambda>e s'. Q (Inl reached) s' \<and> (\<not> is_finalization_error e \<longrightarrow> X e s')) K s"
  shows "wp (stage_step reached m f) Q X K s"
  unfolding stage_step_def
  by (rule wp_iob, rule wp_handle, rule wp_iob, rule wp_mono [OF assms]) (auto intro!: wp_intros)

text \<open>The steps on one of the files, for a tree that is otherwise known.\<close>

definition tree_file :: "pystr \<Rightarrow> bool" where
  "tree_file c \<longleftrightarrow> c \<in> {LICENSE_FILE, PYPROJECT, PENDING_NOTICE}"

lemma tree_file_names: "tree_file LICENSE_FILE" "tree_file PYPROJECT" "tree_file PENDING_NOTICE"
  by (simp_all add: tree_file_def)

lemma tree_fileD: "tree_file c \<Longrightarrow> c \<noteq> dotdot \<and> r @ [c] \<notin> temporaries r"
  using file_names_plain temp_names by (auto simp: tree_file_def)

lemma file_via:
  assumes "tree_is r g s" "g r = Some Dir" "tree_file c"
  shows "node_via s (r @ [c]) = g (r @ [c])" "node_at s (r @ [c]) = g (r @ [c])"
  using file_at_via [OF tree_is_dir [OF assms(1,2)], of c] tree_fileD [OF assms(3), of r] assms(1) by (auto simp: tree_is_def)

lemma wp_write_file_in_tree:
  assumes t: "tree_is r g s" "g r = Some Dir" "tree_file c"
    and Q: "\<And>s'. g (r @ [c]) = None \<Longrightarrow> tree_is r (g(r @ [c] := Some (Reg raw))) s' \<Longrightarrow> Q () s'"
    and X: "\<And>e s'. tree_is r g s' \<or> g (r @ [c]) = None \<and> (\<exists>b. tree_is r (g(r @ [c] := Some (Reg b))) s') \<Longrightarrow> X e s'"
    and K: "\<And>s'. tree_is r g s' \<or> g (r @ [c]) = None \<and> (\<exists>b. tree_is r (g(r @ [c] := Some (Reg b))) s') \<Longrightarrow> K s'"
  shows "wp (exclusive_write (r @ [c]) raw) Q X K s"
proof -
  note c = tree_fileD [OF t(3)]
  have b: "tree_is r (g(r @ [c] := v)) s'" if "becomes s (r @ [c]) v s'" for v s'
    using tree_is_becomes(1) [OF t(1) that] c by blast
  have "tree_is r g s' \<or> g (r @ [c]) = None \<and> (\<exists>b. tree_is r (g(r @ [c] := Some (Reg b))) s')"
    if "perhaps_begun s (r @ [c]) s'" for s'
    using that b t(1) file_via(2) [OF t] by (auto simp: perhaps_begun_def)
  then show ?thesis
    by (intro wp_exclusive_write [OF tree_is_dir [OF t(1,2)]]) (use b c Q X K file_via(2) [OF t] in auto)
qed

lemma wp_unlink_in_tree:
  assumes t: "tree_is r g s" "g r = Some Dir" "tree_file c"
    and "\<And>s'. tree_is r (g(r @ [c] := None)) s' \<Longrightarrow> Q () s'" "\<And>e. X e s" "K s"
  shows "wp (sys (fs_unlink (r @ [c]))) Q X K s"
proof -
  note c = tree_fileD [OF t(3), of r]
  note d = tree_is_dir [OF t(1,2)]
  have "tree_is r (g(r @ [c] := None)) s'" if "fs_unlink (r @ [c]) s = (Inr (), s')" for s'
    using unlink_becomes(2) [OF d _ that] c tree_is_becomes(1) [OF t(1)] by blast
  moreover have "s' = s" if "fs_unlink (r @ [c]) s = (Inl e, s')" for e s'
    using that file_at_locate [OF d, of c] c by (auto simp: fs_unlink_def split: option.splits if_splits)
  ultimately show ?thesis by (intro wp_sys) (use assms(4-) in auto)
qed

lemma wp_remove_exact:
  assumes t: "tree_is r g s" "g r = Some Dir"
    and "\<And>s'. g (r @ [PENDING_NOTICE]) = Some (Reg expected) \<Longrightarrow> tree_is r (g(r @ [PENDING_NOTICE] := None)) s' \<Longrightarrow> Q () s'"
    and "\<And>e. X e s" "K s"
  shows "wp (remove_exact T (r @ [PENDING_NOTICE]) expected) Q X K s"
  unfolding remove_exact_def
  by (intro wp_iob wp_reraise wp_read_bounded wp_if wp_raise wp_unlink_in_tree [OF t tree_file_names(3)])
    (use assms file_via(1) [OF t tree_file_names(3)] in auto)

lemma wp_apply_changes:
  assumes f: "f r = Some Dir" "f (r @ [PYPROJECT]) = Some (Reg op)" "f (r @ [PENDING_NOTICE]) = Some (Reg on)"
    and t: "tree_is r f s"
  shows "wp (apply_changes T license_specs r lic fin on)
    (\<lambda>out s'. case out of Inl reached \<Rightarrow> reached_tree r f lic op on fin reached s' | Inr _ \<Rightarrow> reached_tree r f lic op on fin Removed s')
    (\<lambda>_. three_files r f op fin) (three_files r f op fin) s"
    (is "wp _ ?Q ?X ?K s")
proof -
  let ?tree = "reached_tree r f lic op on fin"
  have safe: "three_files r f op fin s'" if "?tree reached s'" for reached s'
    using reached_three_files [OF f(2,3) that] .
  have last: "wp (stage_step Removed (reraise to_finalization (inspect_license_state T license_specs r)) (\<lambda>state. ret (Inr state))) ?Q ?X ?K s'"
    if "?tree Removed s'" for s'
    by (intro wp_stage_step wp_reraise wp_still [OF reads_inspect_license] wp_ret) (use that safe in auto)
  have third: "wp (stage_step Replaced (remove_exact T (r @ [PENDING_NOTICE]) on)
      (\<lambda>_. stage_step Removed (reraise to_finalization (inspect_license_state T license_specs r)) (\<lambda>state. ret (Inr state)))) ?Q ?X ?K s'"
    if "?tree Replaced s'" for s'
  proof -
    have g: "f (r @ [LICENSE_FILE]) = None" "tree_is r (with_files r f (Some (Reg lic)) (Some (Reg fin)) (Some (Reg on))) s'"
      using that by (simp_all add: reached_tree_def)
    show ?thesis
      by (rule wp_stage_step, rule wp_remove_exact [OF g(2)], simp add: f, rule last)
        (use that safe [OF that] g(1) in \<open>auto simp: reached_tree_def\<close>)
  qed
  have second: "wp (stage_step Created (atomic_replace (r @ [PYPROJECT]) fin) (\<lambda>_. stage_step Replaced (remove_exact T (r @ [PENDING_NOTICE]) on)
      (\<lambda>_. stage_step Removed (reraise to_finalization (inspect_license_state T license_specs r)) (\<lambda>state. ret (Inr state))))) ?Q ?X ?K s'"
    if g: "f (r @ [LICENSE_FILE]) = None" "tree_is r (with_files r f (Some (Reg lic)) (Some (Reg op)) (Some (Reg on))) s'" for s'
  proof -
    have c: "?tree Created s''" if "tree_is r (with_files r f (Some (Reg lic)) (Some (Reg op)) (Some (Reg on))) s''
        \<or> tree_is r ((with_files r f (Some (Reg lic)) (Some (Reg op)) (Some (Reg on)))(r @ [PYPROJECT] := Some (Reg fin))) s''" for s''
      using that g(1) by (auto simp: reached_tree_def)
    show ?thesis
      by (rule wp_stage_step, rule wp_atomic_replace [OF g(2)], simp add: f, rule third)
        (use g(1) c safe in \<open>simp add: reached_tree_def; fail | force\<close>)+
  qed
  have begun: "f(r @ [LICENSE_FILE] := Some (Reg b)) = with_files r f (Some (Reg b)) (Some (Reg op)) (Some (Reg on))" for b
    using f file_names_plain by (auto simp: with_files_def fun_eq_iff)
  have a: "?tree Attempted s'"
    if "tree_is r f s' \<or> f (r @ [LICENSE_FILE]) = None \<and> (\<exists>b. tree_is r (f(r @ [LICENSE_FILE] := Some (Reg b))) s')" for s'
    using that by (auto simp: reached_tree_def begun)
  show ?thesis
    unfolding apply_changes_def
    by (rule wp_stage_step, rule wp_write_file_in_tree [OF t f(1) tree_file_names(1)], rule second)
      (use a safe begun in \<open>simp; fail | force\<close>)+
qed

text \<open>The steps of the rollback, from a tree with known files.\<close>

lemma wp_noted:
  assumes "wp m Q (\<lambda>e s'. Q False s' \<and> X e s') K s"
  shows "wp (noted m) Q X K s"
  unfolding noted_def by (rule wp_handle, rule wp_mono [OF assms]) (auto intro!: wp_intros)

lemma wp_restore_pending:
  assumes t: "tree_is r (with_files r f l p None) s" "f r = Some Dir"
    and Q: "\<And>a n s'. tree_is r (with_files r f l p n) s' \<Longrightarrow> (a \<Longrightarrow> n = Some (Reg on)) \<Longrightarrow> Q a s'"
    and X: "\<And>e n s'. tree_is r (with_files r f l p n) s' \<Longrightarrow> X e s'" and K: "\<And>n s'. tree_is r (with_files r f l p n) s' \<Longrightarrow> K s'"
  shows "wp (restore_pending T (r @ [PENDING_NOTICE]) on) Q X K s"
proof -
  have d: "with_files r f l p None r = Some Dir" using t(2) by simp
  have missing: "\<not> fs_lexists (r @ [PENDING_NOTICE]) s"
    using file_via(1) [OF t(1) d tree_file_names(3)] by (simp add: fs_lexists_iff)
  have bad: "Q False s' \<and> X e s'" "K s'" if "tree_is r (with_files r f l p None) s'
      \<or> with_files r f l p None (r @ [PENDING_NOTICE]) = None
        \<and> (\<exists>b. tree_is r ((with_files r f l p None)(r @ [PENDING_NOTICE] := Some (Reg b))) s')" for e s'
    using that Q [of _ s' False] X K by auto
  show ?thesis
    unfolding restore_pending_def
    by (rule wp_noted, rule wp_iob, rule wp_path_exists)
      (use missing t(1) Q [of None s False] X K in
        \<open>auto intro!: wp_iob wp_write_file_in_tree [OF t(1) d tree_file_names(3)] wp_ret Q bad\<close>)
qed

lemma wp_restore_pyproject:
  assumes t: "tree_is r (with_files r f l (Some (Reg p)) n) s" "f r = Some Dir"
    and Q: "\<And>b p' s'. tree_is r (with_files r f l (Some (Reg p')) n) s' \<Longrightarrow> p' \<in> {p, op} \<Longrightarrow> (b \<Longrightarrow> p' = op) \<Longrightarrow> Q b s'"
    and X: "\<And>e p' s'. tree_is r (with_files r f l (Some (Reg p')) n) s' \<Longrightarrow> p' \<in> {p, op} \<Longrightarrow> X e s'"
    and K: "\<And>p' s'. tree_is r (with_files r f l (Some (Reg p')) n) s' \<Longrightarrow> p' \<in> {p, op} \<Longrightarrow> K s'"
  shows "wp (restore_pyproject (r @ [PYPROJECT]) op) Q X K s"
proof -
  have d: "with_files r f l (Some (Reg p)) n r = Some Dir" using t(2) by simp
  show ?thesis
    unfolding restore_pyproject_def
    by (rule wp_handle, rule wp_iob, rule wp_atomic_replace [OF t(1) d])
      (use Q X K in \<open>auto intro!: wp_intros\<close>)
qed

lemma wp_remove_created:
  assumes t: "tree_is r (with_files r f l p n) s" "f r = Some Dir"
    and Q: "\<And>c l' s'. tree_is r (with_files r f l' p n) s' \<Longrightarrow> (c \<Longrightarrow> l' = None) \<Longrightarrow> Q c s'"
    and X: "\<And>e. X e s" and K: "K s"
  shows "wp (remove_created T (r @ [LICENSE_FILE]) lic) Q X K s"
proof -
  have d: "with_files r f l p n r = Some Dir" using t(2) by simp
  show ?thesis
    unfolding remove_created_def
    by (intro wp_noted wp_iob wp_read_bounded wp_if wp_ret wp_unlink_in_tree [OF t(1) d tree_file_names(1)])
      (use t(1) Q X K in auto)
qed

lemma wp_check_attempted:
  assumes "Q (\<not> fs_lexists p s) s" "Q False s" "\<And>e. X e s" "K s"
  shows "wp (check_attempted p) Q X K s"
  unfolding check_attempted_def
  by (rule wp_handle, rule wp_iob, rule wp_path_exists) (use assms in \<open>auto intro!: wp_intros\<close>)

lemma wp_rollback:
  assumes f: "f r = Some Dir" "f (r @ [PYPROJECT]) = Some (Reg op)" "f (r @ [PENDING_NOTICE]) = Some (Reg on)"
    and t: "reached_tree r f lic op on fin reached s"
  shows "wp (rollback T r op on lic reached)
    (\<lambda>complete s'. three_files r f op fin s' \<and> (complete \<longrightarrow> rolled_back r f fin s'))
    (\<lambda>_. three_files r f op fin) (three_files r f op fin) s"
    (is "wp _ ?Q ?X ?K s")
proof -
  have safe: "three_files r f op fin s'" if "tree_is r (with_files r f l (Some (Reg p)) n) s'" "p \<in> {op, fin}" for l p n s'
    using that unfolding three_files_def by blast
  have restored: "rolled_back r f fin s'"
    if "tree_is r (with_files r f None (Some (Reg p)) (Some (Reg on))) s'" "p \<in> {op, fin}" "f (r @ [LICENSE_FILE]) = None" for p s'
    using that with_files_same(1) [OF f(2,3)] with_files_same(2) [OF f(2,3), of fin] by (auto simp: rolled_back_def)
  have license: "wp (iob (remove_created T (r @ [LICENSE_FILE]) lic) (\<lambda>c. ret (a \<and> b \<and> c))) ?Q ?X ?K s'"
    if "tree_is r (with_files r f l (Some (Reg p)) n) s'" "p \<in> {op, fin}" "f (r @ [LICENSE_FILE]) = None"
      "a \<and> b \<Longrightarrow> n = Some (Reg on)" for a b l p n s'
    by (rule wp_iob, rule wp_remove_created [OF that(1) f(1)], rule wp_ret) (use that safe restored in auto)
  have metadata: "wp (iob (restore_pyproject (r @ [PYPROJECT]) op) (\<lambda>b.
        iob (remove_created T (r @ [LICENSE_FILE]) lic) (\<lambda>c. ret (a \<and> b \<and> c)))) ?Q ?X ?K s'"
    if "tree_is r (with_files r f l (Some (Reg p)) n) s'" "p \<in> {op, fin}" "f (r @ [LICENSE_FILE]) = None"
      "a \<Longrightarrow> n = Some (Reg on)" for a l p n s'
    by (rule wp_iob, rule wp_restore_pyproject [OF that(1) f(1)], erule license) (use that safe in auto)
  show ?thesis
  proof (cases reached)
    case Attempted
    have "three_files r f op fin s" using reached_three_files [OF f(2,3) t] .
    moreover have "rolled_back r f fin s" if "\<not> fs_lexists (r @ [LICENSE_FILE]) s"
    proof -
      have "\<not> tree_is r (with_files r f (Some (Reg b)) (Some (Reg op)) (Some (Reg on))) s" for b
        using that file_via(1) [of r "with_files r f (Some (Reg b)) (Some (Reg op)) (Some (Reg on))" s LICENSE_FILE] f(1) tree_file_names(1)
        by (auto simp: fs_lexists_iff)
      with t Attempted show ?thesis by (auto simp: reached_tree_def rolled_back_def)
    qed
    ultimately show ?thesis
      unfolding rollback_def Attempted by (simp, intro wp_intros wp_check_attempted) auto
  next
    case Created
    then obtain p where "p \<in> {op, fin}" "tree_is r (with_files r f (Some (Reg lic)) (Some (Reg p)) (Some (Reg on))) s"
      "f (r @ [LICENSE_FILE]) = None" using t by (auto simp: reached_tree_def)
    then show ?thesis unfolding rollback_def Created by (simp add: license [where a = True and b = True, simplified])
  next
    case Replaced
    then show ?thesis using t metadata [where a = True, of "Some (Reg lic)" fin "Some (Reg on)" s]
      unfolding rollback_def by (simp add: reached_tree_def)
  next
    case Removed
    then have g: "tree_is r (with_files r f (Some (Reg lic)) (Some (Reg fin)) None) s" "f (r @ [LICENSE_FILE]) = None"
      using t by (auto simp: reached_tree_def)
    show ?thesis
      unfolding rollback_def Removed
      by (simp, rule wp_iob, rule wp_restore_pending [OF g(1) f(1)], erule metadata) (use g(2) safe in auto)
  qed
qed

lemma wp_transition:
  assumes f: "f r = Some Dir" "f (r @ [PYPROJECT]) = Some (Reg op)" "f (r @ [PENDING_NOTICE]) = Some (Reg on)"
    and t: "tree_is r f s"
  shows "wp (transition T license_specs r lic op on fin)
    (\<lambda>out s'. three_files r f op fin s' \<and>
       (case out of
          Inl complete \<Rightarrow> complete \<longrightarrow> rolled_back r f fin s'
        | Inr _ \<Rightarrow> f (r @ [LICENSE_FILE]) = None \<and> tree_is r (with_files r f (Some (Reg lic)) (Some (Reg fin)) None) s'))
    (\<lambda>_. three_files r f op fin) (three_files r f op fin) s"
proof -
  note c = reached_three_files [OF f(2,3)]
  show ?thesis
    unfolding transition_def
  proof (rule wp_iob, rule wp_mono [OF wp_apply_changes [OF f t]])
    fix out s'
    assume o: "case out of Inl reached \<Rightarrow> reached_tree r f lic op on fin reached s' | Inr _ \<Rightarrow> reached_tree r f lic op on fin Removed s'"
    show "wp (case out of Inl reached \<Rightarrow> iob (rollback T r op on lic reached) (\<lambda>complete. ret (Inl complete)) | Inr final \<Rightarrow> ret (Inr final))
      (\<lambda>out s'. three_files r f op fin s' \<and>
         (case out of Inl complete \<Rightarrow> complete \<longrightarrow> rolled_back r f fin s'
          | Inr _ \<Rightarrow> f (r @ [LICENSE_FILE]) = None \<and> tree_is r (with_files r f (Some (Reg lic)) (Some (Reg fin)) None) s'))
      (\<lambda>_. three_files r f op fin) (three_files r f op fin) s'"
    proof (cases out)
      case (Inl reached)
      then have "reached_tree r f lic op on fin reached s'" using o by simp
      then show ?thesis unfolding Inl by (auto intro!: wp_ret wp_iob wp_mono [OF wp_rollback [OF f]])
    next
      case (Inr final)
      with o c [of lic fin Removed s'] show ?thesis by (auto simp: reached_tree_def intro!: wp_ret)
    qed
  qed simp_all
qed

section \<open>The whole finalization\<close>

lemma reads_git [reads_intros]: "(\<And>p a. reads (th_git T p a)) \<Longrightarrow> reads (check_git T repository commit)"
  unfolding check_git_def run_git_def by (intro reads_intros) simp

lemma realpath_dir: "dir_at s r \<Longrightarrow> realpath s n [] r = r"
  using dir_prefix [of s r n "[]"] by simp

text \<open>The licence chosen, the files found, and the metadata made of them.\<close>

definition finalization_inputs ::
  "tool_host \<Rightarrow> (pystr \<times> license_spec) list \<Rightarrow> fs \<Rightarrow> path \<Rightarrow> pystr \<Rightarrow> bytes \<Rightarrow> bytes \<Rightarrow> bytes \<Rightarrow> bytes \<Rightarrow> bool" where
  "finalization_inputs T license_specs s r choice lic op on fin \<longleftrightarrow>
     (\<exists>spec. map_of license_specs choice = Some spec \<and> length lic = ls_size spec \<and> sha256 (th_lib T) lic = ls_sha256 spec)
   \<and> node_at s (r @ [PYPROJECT]) = Some (Reg op) \<and> node_at s (r @ [PENDING_NOTICE]) = Some (Reg on)
   \<and> transform_pyproject op choice = Inr fin"

lemma wp_license_input:
  assumes "\<And>raw spec. map_of license_specs choice = Some spec \<Longrightarrow> length raw = ls_size spec \<Longrightarrow>
      sha256 (th_lib T) raw = ls_sha256 spec \<Longrightarrow> Q (raw, spec) s" "\<And>e. X e s" "K s"
  shows "wp (license_input T license_specs p choice) Q X K s"
  unfolding license_input_def
  by (intro wp_option wp_raise wp_iob wp_reraise wp_read_bounded wp_if wp_ret) (use assms in auto)

lemma wp_finalize:
  assumes d: "dir_at s r" and git: "\<And>p a. reads (th_git T p a)"
  shows "wp (finalize_repository T license_specs r choice license_file commit applying clean)
    (\<lambda>_ s'. if applying then \<exists>lic op on fin. finalization_inputs T license_specs s r choice lic op on fin
         \<and> node_at s (r @ [LICENSE_FILE]) = None \<and> tree_is r (with_files r (node_at s) (Some (Reg lic)) (Some (Reg fin)) None) s'
       else s' = s)
    (\<lambda>_ s'. s' = s \<or> applying \<and> (\<exists>lic op on fin. finalization_inputs T license_specs s r choice lic op on fin \<and> three_files r (node_at s) op fin s'))
    (\<lambda>s'. s' = s \<or> applying \<and> (\<exists>lic op on fin. finalization_inputs T license_specs s r choice lic op on fin \<and> three_files r (node_at s) op fin s')) s"
    (is "wp _ ?Q ?X ?K s")
proof -
  have wf: "wf_fs s" "node_at s r = Some Dir" using d by (simp_all add: dir_at_def)
  have here: "tree_is r (node_at s) s" using wf by (simp add: tree_is_def)
  have via: "node_via s (r @ [c]) = node_at s (r @ [c])" if "tree_file c" for c
    using file_via(1) [OF here wf(2) that] .
  have change: "wp (iob (transition T license_specs r lic op on fin) (\<lambda>out. case out of
        Inl complete \<Rightarrow> raise (LicenseFinalizationError (Some complete)) | Inr final \<Rightarrow> ret (g final))) ?Q ?X ?K s"
    if i: "finalization_inputs T license_specs s r choice lic op on fin" "applying" for lic op on fin g
  proof -
    have p: "node_at s (r @ [PYPROJECT]) = Some (Reg op)" "node_at s (r @ [PENDING_NOTICE]) = Some (Reg on)"
      using i(1) by (simp_all add: finalization_inputs_def)
    show ?thesis
      by (rule wp_iob, rule wp_mono [OF wp_transition [OF wf(2) p here]])
        (use i in \<open>auto split: sum.splits intro!: wp_raise wp_ret\<close>)
  qed
  have git1: "reads (if clean then (case commit of None \<Rightarrow> raise finalization_error | Some c \<Rightarrow> check_git T r c) else ret ())"
    and git2: "reads (case commit of Some c \<Rightarrow> if clean then check_git T r c else ret () | None \<Rightarrow> ret ())"
    by (intro reads_intros git)+
  show ?thesis
    unfolding finalize_repository_def Let_def read_repository_file_def
    by (rule wp_iob, rule wp_peek, unfold realpath_dir [OF d], rule wp_iob [OF wp_still [OF reads_license(6)]],
        rule wp_if, rule wp_raise, simp, rule wp_iob [OF wp_still [OF git1]],
        rule wp_iob [OF wp_reraise [OF wp_still [OF reads_inspect_license]]], rule wp_if, rule wp_raise, simp,
        rule wp_iob, rule wp_peek, rule wp_iob, rule wp_license_input, unfold prod.case, rule wp_iob, rule wp_reraise,
        rule wp_read_bounded, rule wp_iob, rule wp_reraise, rule wp_read_bounded, rule wp_iob, rule wp_from_result, simp,
        rule wp_if, rule wp_ret, simp, rule wp_iob [OF wp_still [OF git2]], rule change)
      (auto simp: finalization_inputs_def via tree_file_names)
qed

section \<open>Properties\<close>

text \<open>A repository before the transition, and a tool without \<open>git\<close>.\<close>

definition pending_fs :: fs where
  "pending_fs = \<lparr>fs_names = [([], 0), ([lit ''r''], 1), ([lit ''r'', PYPROJECT], 2), ([lit ''r'', PENDING_NOTICE], 3)],
     fs_nodes = (\<lambda>i. if i = 2 then Reg ''p'' else if i = 3 then Reg ''n'' else Dir), fs_dev = (\<lambda>_. 0), fs_next = 4,
     fs_locks = (\<lambda>_. None), fs_maker = (\<lambda>_. 0)\<rparr>"

definition sample_tool :: tool_host where
  "sample_tool = \<lparr>th_lib = sample_lib, th_toml = (\<lambda>_. None), th_mtime = (\<lambda>_ _. 0), th_git = (\<lambda>_ _. raise OSError)\<rparr>"

definition pending_world :: "(nat \<Rightarrow> fate) \<Rightarrow> world" where
  "pending_world fates = (sample_world fates)\<lparr>w_fs := pending_fs\<rparr>"

lemma pending_world_simps [simp]: "calm (pending_world fates)" "w_fs (pending_world fates) = pending_fs"
  by (simp_all add: pending_world_def sample_world_def calm_def)

lemma pending_fs_files:
  "dir_at pending_fs [lit ''r'']" "node_at pending_fs [lit ''r'', PYPROJECT] = Some (Reg ''p'')"
  "node_at pending_fs [lit ''r'', PENDING_NOTICE] = Some (Reg ''n'')"
proof -
  have "wf_fs pending_fs"
    by (simp add: wf_fs_def pending_fs_def node_at_def entry_def PYPROJECT_def PENDING_NOTICE_def dotdot_def) (simp add: lit_def)
  then show "dir_at pending_fs [lit ''r'']" by (simp add: dir_at_def pending_fs_def node_at_def entry_def)
  show "node_at pending_fs [lit ''r'', PYPROJECT] = Some (Reg ''p'')" "node_at pending_fs [lit ''r'', PENDING_NOTICE] = Some (Reg ''n'')"
    using file_names_plain by (simp_all add: pending_fs_def node_at_def entry_def)
qed

text \<open>
  C26: The licence transition of a repository directory with the given metadata and pending notice,
  whichever call fails and wherever the process is killed, while no
  other process interferes: only the licence, the metadata and the pending notice differ from
  before, temporary names apart, and the metadata is the old or the new, never a mixture. When the
  transition reports success, all three changes are made. When it reports a complete rollback, the
  working tree is as before, except that the new metadata may have stayed.
\<close>

theorem transition_all_or_nothing:
  assumes "calm w" "dir_at (w_fs w) r" "node_at (w_fs w) (r @ [PYPROJECT]) = Some (Reg op)"
    and "node_at (w_fs w) (r @ [PENDING_NOTICE]) = Some (Reg on)"
  shows "case transition T license_specs r lic op on fin w of (out, w') \<Rightarrow>
    three_files r (node_at (w_fs w)) op fin (w_fs w') \<and>
    (case out of
       Ret (Inl complete) \<Rightarrow> complete \<longrightarrow> rolled_back r (node_at (w_fs w)) fin (w_fs w')
     | Ret (Inr _) \<Rightarrow> node_at (w_fs w) (r @ [LICENSE_FILE]) = None
         \<and> tree_is r (with_files r (node_at (w_fs w)) (Some (Reg lic)) (Some (Reg fin)) None) (w_fs w')
     | _ \<Rightarrow> True)"
proof -
  have "tree_is r (node_at (w_fs w)) (w_fs w)" "node_at (w_fs w) r = Some Dir"
    using assms(2) by (simp_all add: tree_is_def dir_at_def)
  note m = wpD [OF wp_transition [OF this(2) assms(3,4) this(1)] assms(1)]
  obtain out w' where run: "transition T license_specs r lic op on fin w = (out, w')" by fastforce
  show ?thesis
  proof (cases out)
    case (Ret x)
    with m(1) [OF run [unfolded Ret]] run show ?thesis by (simp split: sum.splits)
  next
    case (Exc e)
    with m(2) [OF run [unfolded Exc]] run show ?thesis by simp
  next
    case Killed
    with m(3) [OF run [unfolded Killed]] run show ?thesis by simp
  qed
qed

theorem transition_all_or_nothing_witness:
  "\<forall>fates. node_at (w_fs (snd (transition sample_tool [] [lit ''r''] ''l'' ''p'' ''n'' ''f'' (pending_world fates)))) [lit ''r'', PYPROJECT]
     \<in> {Some (Reg ''p''), Some (Reg ''f'')}"
proof
  fix fates
  let ?run = "transition sample_tool [] [lit ''r''] ''l'' ''p'' ''n'' ''f'' (pending_world fates)"
  have "three_files [lit ''r''] (node_at pending_fs) ''p'' ''f'' (w_fs (snd ?run))"
    using transition_all_or_nothing [where w = "pending_world fates" and r = "[lit ''r'']" and op = "''p''" and on = "''n''" and T = sample_tool and license_specs = "[]" and lic = "''l''" and fin = "''f''"] pending_fs_files
    by (cases ?run) simp
  then show "node_at (w_fs (snd ?run)) [lit ''r'', PYPROJECT] \<in> {Some (Reg ''p''), Some (Reg ''f'')}"
    using temp_names(4) [of "[lit ''r'']"] with_files_simps(5) [of "[lit ''r'']"] by (auto simp: three_files_def tree_is_def)
qed



lemmas call_eval = iob_def ret_def raise_def handle_def finally_do_def sys_def sys_torn_def look_def uuid4_def Let_def
  fs_create_def locate_def MAX_LINKS_def node_at_def entry_def fs_write_at_def fs_set_def fs_replace_def fs_move_def


end
