(* ===== verification/External_Evidence.thy ===== *)
theory External_Evidence
  imports License_Finalization "HOL-Library.Product_Lexorder"
begin

text \<open>
  The ledger of external evidence (\<^verbatim>\<open>src/tools/verify_external_evidence.py\<close>): the canonical form of
  the file, the records and the published counts, which must be those of the verified records.
\<close>

section \<open>Constants\<close>

definition MAX_LEDGER_BYTES :: nat where "MAX_LEDGER_BYTES = 256 * 1024"
definition LEDGER_VERSION :: int where "LEDGER_VERSION = 1"

definition ROOT_FIELDS :: "string list" where
  "ROOT_FIELDS = [''as_of_date'', ''counts'', ''records'', ''schema_version'']"

definition COUNT_FIELDS :: "string list" where
  "COUNT_FIELDS = [''independent_reproduction_reports'', ''independent_users'', ''institutional_adopters'', ''third_party_reviews'']"

definition KINDS :: "pystr list" where
  "KINDS = map lit [''independent_reproduction'', ''independent_user'', ''institutional_adoption'', ''third_party_review'']"

definition BASE_RECORD_FIELDS :: "string list" where
  "BASE_RECORD_FIELDS = [''consent_to_list'', ''evidence_url'', ''id'', ''kind'', ''observed_date'', ''relationship'', ''scope'',
     ''source_commit'', ''status'', ''subject'', ''verified_date'']"

definition RETRACTED_RECORD_FIELDS :: "string list" where
  "RETRACTED_RECORD_FIELDS = BASE_RECORD_FIELDS @ [''retracted_date'', ''retraction_reason'']"

text \<open>
  What the tool takes from the library: the general category of a character, the compatibility
  normal form, the parts of a URL (none when it or its port is malformed), an IP address (whether it
  is global, and its compressed form), and the ASCII form of a host name.
\<close>

record url_parts =
  u_scheme :: pystr
  u_netloc :: pystr
  u_hostname :: "pystr option"
  u_username :: "pystr option"
  u_password :: "pystr option"
  u_port :: "nat option"
  u_path :: pystr
  u_query :: pystr

record ledger_host =
  lh_tool :: tool_host
  lh_category :: "nat \<Rightarrow> string"
  lh_nfkc :: "pystr \<Rightarrow> pystr"
  lh_urlsplit :: "pystr \<Rightarrow> url_parts option"
  lh_address :: "pystr \<Rightarrow> (bool \<times> pystr) option"
  lh_idna :: "pystr \<Rightarrow> pystr option"

section \<open>Reading\<close>

definition ledger_error :: "pyexc \<Rightarrow> pyexc" where
  "ledger_error e = (if is_os_error e then ExternalEvidenceError else e)"

definition read_ledger_file :: "tool_host \<Rightarrow> path \<Rightarrow> bytes io" where
  "read_ledger_file T p =
     iob (reraise ledger_error (status_of_name T p)) (\<lambda>inspected.
     if \<not> regular_unlinked inspected then raise ExternalEvidenceError
     else if node_size (st_node (fst inspected)) > MAX_LEDGER_BYTES then raise ExternalEvidenceError
     else iob (reraise ledger_error (look (fs_open_nofollow p))) (\<lambda>descriptor.
     iob (finally_do
            (iob (status_of_open T descriptor) (\<lambda>opened.
             if \<not> regular_unlinked opened then raise ExternalEvidenceError
             else if stat_identity opened \<noteq> stat_identity inspected then raise ExternalEvidenceError
             else iob (look (fs_read descriptor)) (\<lambda>content.
             let raw = take (MAX_LEDGER_BYTES + 1) content in
             if length raw > MAX_LEDGER_BYTES then raise ExternalEvidenceError
             else iob (status_of_open T descriptor) (\<lambda>after_read.
             if stat_identity after_read \<noteq> stat_identity opened then raise ExternalEvidenceError else ret raw))))
            close_descriptor) (\<lambda>raw.
     iob (reraise ledger_error (status_of_name T p)) (\<lambda>after.
     if stat_identity after \<noteq> stat_identity inspected \<or> \<not> regular_unlinked after then raise ExternalEvidenceError
     else ret raw))))"

definition strict_object :: "pydict \<Rightarrow> pyexc + pyval" where
  "strict_object pairs = (if distinct (map fst pairs) then Inr (PDict pairs) else Inl ExternalEvidenceError)"

definition reject_ledger_constant :: "pystr \<Rightarrow> pyexc + pyval" where
  "reject_ledger_constant s = Inl ExternalEvidenceError"

text \<open>\<open>json.dumps\<close> with an indentation of two and sorted keys; numbers that are not finite are written by name.\<close>

definition line_indent :: "nat \<Rightarrow> pystr" where
  "line_indent n = 10 # replicate (2 * n) 32"

fun join_text :: "pystr \<Rightarrow> pystr list \<Rightarrow> pystr" where
  "join_text sep [] = []"
| "join_text sep [t] = t"
| "join_text sep (t # ts) = t @ sep @ join_text sep ts"

definition block_text :: "nat \<Rightarrow> nat \<Rightarrow> nat \<Rightarrow> pystr list \<Rightarrow> pystr" where
  "block_text n opening closing ts =
     (if ts = [] then [opening, closing]
      else [opening] @ line_indent (Suc n) @ join_text (44 # line_indent (Suc n)) ts @ line_indent n @ [closing])"

fun pretty :: "pylib \<Rightarrow> nat \<Rightarrow> pyval \<Rightarrow> pyexc + pystr"
and pretty_list :: "pylib \<Rightarrow> nat \<Rightarrow> pyval list \<Rightarrow> pyexc + pystr list"
and pretty_items :: "pylib \<Rightarrow> nat \<Rightarrow> pydict \<Rightarrow> pyexc + (pystr \<times> pystr) list" where
  "pretty L n (PList xs) = rbind (pretty_list L (Suc n) xs) (\<lambda>ts. Inr (block_text n 91 93 ts))"
| "pretty L n (PDict d) =
     rbind (pretty_items L (Suc n) d) (\<lambda>its.
       Inr (block_text n 123 125 (map (\<lambda>p. dump_str (fst p) @ [58, 32] @ snd p) (sort_key fst its))))"
| "pretty L n (PFloat f) =
     Inr (case f of FFin _ _ _ \<Rightarrow> float_repr L f | FNan \<Rightarrow> lit ''NaN''
          | FInf negative \<Rightarrow> lit (if negative then ''-Infinity'' else ''Infinity''))"
| "pretty L n v = dumps L v"
| "pretty_list L n [] = Inr []"
| "pretty_list L n (x # xs) = rbind (pretty L n x) (\<lambda>t. rbind (pretty_list L n xs) (\<lambda>ts. Inr (t # ts)))"
| "pretty_items L n [] = Inr []"
| "pretty_items L n (p # d) =
     rbind (pretty L n (snd p)) (\<lambda>t. rbind (pretty_items L n d) (\<lambda>ts. Inr ((fst p, t) # ts)))"

definition parse_ledger :: "pylib \<Rightarrow> bytes \<Rightarrow> pyexc + pydict" where
  "parse_ledger L raw =
     (case utf8_decode raw of
        None \<Rightarrow> Inl ExternalEvidenceError
      | Some text \<Rightarrow>
          if starts_with [0xFEFF] text then Inl ExternalEvidenceError
          else case loads L strict_object reject_ledger_constant text of
            Inl e \<Rightarrow> Inl (if is_value_error e then ExternalEvidenceError else e)
          | Inr document \<Rightarrow>
              if \<not> is_dict document then Inl ExternalEvidenceError
              else rbind (pretty L 0 document) (\<lambda>t.
                case utf8 (t @ [10]) of
                  None \<Rightarrow> Inl ExternalEvidenceError
                | Some canonical \<Rightarrow> if raw \<noteq> canonical then Inl ExternalEvidenceError else Inr (dict_of document)))"

section \<open>Fields\<close>

definition exact_fields :: "pydict \<Rightarrow> string list \<Rightarrow> pyexc + unit" where
  "exact_fields d expected = (if set (dkeys d) \<noteq> set (map lit expected) then Inl ExternalEvidenceError else Inr ())"

definition unprintable :: "ledger_host \<Rightarrow> nat \<Rightarrow> bool" where
  "unprintable H c \<longleftrightarrow> c < 32 \<or> c = 127 \<or> starts_with ''C'' (lh_category H c) \<or> lh_category H c \<in> {''Zl'', ''Zp''}"

definition bounded_line :: "ledger_host \<Rightarrow> nat \<Rightarrow> nat \<Rightarrow> pyval \<Rightarrow> pyexc + pystr" where
  "bounded_line H minimum maximum v =
     (if \<not> is_str v then Inl ExternalEvidenceError
      else let value = str_of v in
      if value \<noteq> strip_text value \<or> \<not> (minimum \<le> length value \<and> length value \<le> maximum) then Inl ExternalEvidenceError
      else if list_ex (unprintable H) value then Inl ExternalEvidenceError
      else Inr value)"

text \<open>
  \<open>date.fromisoformat\<close> of ten characters whose \<open>isoformat\<close> is the same text: year, month and day in
  digits. The other forms the parser knows are printed differently.
\<close>

definition days_in_month :: "nat \<Rightarrow> nat \<Rightarrow> nat" where
  "days_in_month y m =
     (if m = 2 then (if 4 dvd y \<and> (\<not> 100 dvd y \<or> 400 dvd y) then 29 else 28)
      else if m \<in> {4, 6, 9, 11} then 30 else 31)"

type_synonym calendar_date = "nat \<times> nat \<times> nat"

definition date_of_text :: "pystr \<Rightarrow> calendar_date option" where
  "date_of_text s =
     (let y = undec (take 4 s); m = undec (take 2 (drop 5 s)); d = undec (drop 8 s) in
      if length s = 10 \<and> s ! 4 = 45 \<and> s ! 7 = 45
         \<and> list_all is_digit (take 4 s @ take 2 (drop 5 s) @ drop 8 s)
         \<and> 1 \<le> y \<and> 1 \<le> m \<and> m \<le> 12 \<and> 1 \<le> d \<and> d \<le> days_in_month y m
      then Some (y, m, d) else None)"

definition iso_date :: "ledger_host \<Rightarrow> pyval \<Rightarrow> pyexc + pystr \<times> calendar_date" where
  "iso_date H v =
     rbind (bounded_line H 10 10 v) (\<lambda>text.
       case date_of_text text of None \<Rightarrow> Inl ExternalEvidenceError | Some d \<Rightarrow> Inr (text, d))"

definition is_record_id :: "pystr \<Rightarrow> bool" where
  "is_record_id s \<longleftrightarrow> length s = 13 \<and> take 4 s = lit ''EXT-'' \<and> s ! 8 = 45
     \<and> list_all is_digit (take 4 (drop 4 s) @ drop 9 s)"

definition is_alphanumeric :: "nat \<Rightarrow> bool" where
  "is_alphanumeric c \<longleftrightarrow> is_digit c \<or> 65 \<le> c \<and> c \<le> 90 \<or> 97 \<le> c \<and> c \<le> 122"

definition is_dns_label :: "pystr \<Rightarrow> bool" where
  "is_dns_label s \<longleftrightarrow> 1 \<le> length s \<and> length s \<le> 63 \<and> is_alphanumeric (hd s) \<and> is_alphanumeric (last s)
     \<and> list_all (\<lambda>c. is_alphanumeric c \<or> c = 45) s"

definition ends_with :: "pystr \<Rightarrow> pystr \<Rightarrow> bool" where
  "ends_with ending s \<longleftrightarrow> starts_with (rev ending) (rev s)"

type_synonym url_key = "pystr \<times> pystr \<times> nat option \<times> pystr"

definition host_key :: "ledger_host \<Rightarrow> pystr \<Rightarrow> pyexc + pystr" where
  "host_key H hostname =
     (let L = th_lib (lh_tool H); lowered = rev (dropWhile (\<lambda>c. c = 46) (rev (casefold L hostname))) in
      if lowered = lit ''localhost'' \<or> ends_with (lit ''.localhost'') lowered \<or> ends_with (lit ''.local'') lowered
         \<or> ends_with (lit ''.internal'') lowered then Inl ExternalEvidenceError
      else case lh_address H lowered of
        None \<Rightarrow>
          (case lh_idna H lowered of
             None \<Rightarrow> Inl ExternalEvidenceError
           | Some ascii_hostname \<Rightarrow>
               if length ascii_hostname > 253 \<or> 46 \<notin> set ascii_hostname
                  \<or> \<not> list_all is_dns_label (split_on 46 ascii_hostname) then Inl ExternalEvidenceError
               else Inr (casefold L ascii_hostname))
      | Some (is_global, compressed) \<Rightarrow> if \<not> is_global then Inl ExternalEvidenceError else Inr compressed)"

text \<open>The last two fields of the key in the source are always empty.\<close>

definition url_key_of :: "ledger_host \<Rightarrow> pyval \<Rightarrow> pyexc + url_key" where
  "url_key_of H v =
     rbind (bounded_line H 1 2048 v) (\<lambda>text.
       if 92 \<in> set text then Inl ExternalEvidenceError
       else case lh_urlsplit H text of
         None \<Rightarrow> Inl ExternalEvidenceError
       | Some u \<Rightarrow>
           if u_scheme u \<noteq> lit ''https'' \<or> u_netloc u = [] then Inl ExternalEvidenceError
           else case u_hostname u of
             None \<Rightarrow> Inl ExternalEvidenceError
           | Some hostname \<Rightarrow>
               if u_username u \<noteq> None \<or> u_password u \<noteq> None then Inl ExternalEvidenceError
               else if u_port u = Some 0 then Inl ExternalEvidenceError
               else if u_query u \<noteq> [] then Inl ExternalEvidenceError
               else rbind (host_key H hostname) (\<lambda>host.
                 Inr (u_scheme u, host, if u_port u = Some 443 then None else u_port u,
                      if u_path u = [] then [47] else u_path u)))"

section \<open>Records\<close>

record ledger_entry =
  le_id :: pystr
  le_kind :: pystr
  le_subject :: pystr
  le_evidence :: url_key
  le_verified :: bool

definition validate_ledger_record :: "ledger_host \<Rightarrow> calendar_date \<Rightarrow> pyval \<Rightarrow> pyexc + ledger_entry" where
  "validate_ledger_record H as_of v =
     (if \<not> is_dict v then Inl ExternalEvidenceError
      else let given = dict_of v; status = fld given ''status'' in
      rbind (if py_eq status (PLit ''verified'') then exact_fields given BASE_RECORD_FIELDS
             else if py_eq status (PLit ''retracted'') then exact_fields given RETRACTED_RECORD_FIELDS
             else Inl ExternalEvidenceError) (\<lambda>_.
      rbind (bounded_line H 13 13 (fld given ''id'')) (\<lambda>record_id.
      if \<not> is_record_id record_id then Inl ExternalEvidenceError
      else rbind (bounded_line H 1 32 (fld given ''kind'')) (\<lambda>kind.
      if kind \<notin> set KINDS then Inl ExternalEvidenceError
      else rbind (bounded_line H 1 120 (fld given ''subject'')) (\<lambda>subject.
      rbind (bounded_line H 1 240 (fld given ''scope'')) (\<lambda>_.
      rbind (bounded_line H 1 32 (fld given ''relationship'')) (\<lambda>relationship.
      if relationship \<noteq> lit ''independent'' then Inl ExternalEvidenceError
      else if fld given ''consent_to_list'' \<noteq> PBool True then Inl ExternalEvidenceError
      else rbind (bounded_line H 40 40 (fld given ''source_commit'')) (\<lambda>source_commit.
      if \<not> is_commit source_commit then Inl ExternalEvidenceError
      else rbind (iso_date H (fld given ''observed_date'')) (\<lambda>(observed_text, observed).
      rbind (iso_date H (fld given ''verified_date'')) (\<lambda>(_, verified).
      if take 4 (drop 4 record_id) \<noteq> take 4 observed_text then Inl ExternalEvidenceError
      else if verified < observed then Inl ExternalEvidenceError
      else if verified > as_of then Inl ExternalEvidenceError
      else rbind (url_key_of H (fld given ''evidence_url'')) (\<lambda>evidence_key.
      rbind (if py_eq status (PLit ''retracted'')
             then rbind (iso_date H (fld given ''retracted_date'')) (\<lambda>(_, retracted).
               if retracted < verified \<or> retracted > as_of then Inl ExternalEvidenceError
               else rbind (bounded_line H 1 240 (fld given ''retraction_reason'')) (\<lambda>_. Inr ()))
             else Inr ()) (\<lambda>_.
      Inr \<lparr>le_id = record_id, le_kind = kind,
           le_subject = casefold (th_lib (lh_tool H)) (lh_nfkc H subject), le_evidence = evidence_key,
           le_verified = (status = PLit ''verified'')\<rparr>))))))))))))"

record ledger_acc =
  la_ids :: "pystr list"
  la_keys :: "url_key list"
  la_reports :: nat
  la_users :: "pystr list"
  la_institutions :: "pystr list"
  la_reviews :: nat

definition count_record :: "ledger_entry \<Rightarrow> ledger_acc \<Rightarrow> ledger_acc" where
  "count_record accepted acc =
     (if \<not> le_verified accepted then acc
      else if le_kind accepted = lit ''independent_reproduction'' then acc\<lparr>la_reports := la_reports acc + 1\<rparr>
      else if le_kind accepted = lit ''independent_user'' then acc\<lparr>la_users := List.insert (le_subject accepted) (la_users acc)\<rparr>
      else if le_kind accepted = lit ''institutional_adoption''
      then acc\<lparr>la_institutions := List.insert (le_subject accepted) (la_institutions acc)\<rparr>
      else if le_kind accepted = lit ''third_party_review'' then acc\<lparr>la_reviews := la_reviews acc + 1\<rparr>
      else acc)"

definition ledger_step :: "ledger_host \<Rightarrow> calendar_date \<Rightarrow> pyval \<Rightarrow> ledger_acc \<Rightarrow> pyexc + ledger_acc" where
  "ledger_step H as_of v acc =
     rbind (validate_ledger_record H as_of v) (\<lambda>accepted.
       if le_id accepted \<in> set (la_ids acc) then Inl ExternalEvidenceError
       else if le_evidence accepted \<in> set (la_keys acc) then Inl ExternalEvidenceError
       else Inr (count_record accepted
              (acc\<lparr>la_ids := la_ids acc @ [le_id accepted], la_keys := le_evidence accepted # la_keys acc\<rparr>)))"

definition derived_counts :: "ledger_acc \<Rightarrow> pydict" where
  "derived_counts acc =
     [(lit ''independent_reproduction_reports'', PInt (int (la_reports acc))),
      (lit ''independent_users'', PInt (int (length (la_users acc)))),
      (lit ''institutional_adopters'', PInt (int (length (la_institutions acc)))),
      (lit ''third_party_reviews'', PInt (int (la_reviews acc)))]"

definition validate_ledger :: "ledger_host \<Rightarrow> pydict \<Rightarrow> pyexc + pydict" where
  "validate_ledger H document =
     rbind (exact_fields document ROOT_FIELDS) (\<lambda>_.
     if \<not> non_bool_int (fld document ''schema_version'') then Inl ExternalEvidenceError
     else if int_of (fld document ''schema_version'') \<noteq> LEDGER_VERSION then Inl ExternalEvidenceError
     else rbind (iso_date H (fld document ''as_of_date'')) (\<lambda>(_, as_of).
     let counts = fld document ''counts'' in
     if \<not> is_dict counts then Inl ExternalEvidenceError
     else rbind (exact_fields (dict_of counts) COUNT_FIELDS) (\<lambda>_.
     if \<not> list_all (\<lambda>field. non_bool_int (fld (dict_of counts) field) \<and> int_of (fld (dict_of counts) field) \<ge> 0) COUNT_FIELDS
     then Inl ExternalEvidenceError
     else let records = fld document ''records'' in
     if \<not> is_list records then Inl ExternalEvidenceError
     else if length (list_of records) > 10000 then Inl ExternalEvidenceError
     else rbind (rfold (ledger_step H as_of) (list_of records)
            \<lparr>la_ids = [], la_keys = [], la_reports = 0, la_users = [], la_institutions = [], la_reviews = 0\<rparr>) (\<lambda>acc.
     if la_ids acc \<noteq> sort (la_ids acc) then Inl ExternalEvidenceError
     else if \<not> py_eq counts (PDict (derived_counts acc)) then Inl ExternalEvidenceError
     else Inr (derived_counts acc)))))"

definition load_and_validate :: "ledger_host \<Rightarrow> path \<Rightarrow> (pydict \<times> pydict) io" where
  "load_and_validate H p =
     iob (read_ledger_file (lh_tool H) p) (\<lambda>raw.
     iob (from_result (parse_ledger (th_lib (lh_tool H)) raw)) (\<lambda>document.
     iob (from_result (validate_ledger H document)) (\<lambda>counts. ret (document, counts))))"

definition ledger_main :: "ledger_host \<Rightarrow> path \<Rightarrow> (int \<times> (pydict \<times> pydict) option) io" where
  "ledger_main H p =
     handle (iob (load_and_validate H p) (\<lambda>result. ret (0, Some result)))
       (\<lambda>e. if e = ExternalEvidenceError then ret (1, None) else raise e)"

section \<open>What an accepted ledger says\<close>

definition verified_of :: "string \<Rightarrow> ledger_entry list \<Rightarrow> ledger_entry list" where
  "verified_of kind entries = filter (\<lambda>e. le_verified e \<and> le_kind e = lit kind) entries"

text \<open>The accumulator after the entries.\<close>

definition counted :: "ledger_entry list \<Rightarrow> ledger_acc \<Rightarrow> bool" where
  "counted entries acc \<longleftrightarrow>
     la_ids acc = map le_id entries \<and> set (la_keys acc) = le_evidence ` set entries
   \<and> distinct (map le_id entries) \<and> distinct (map le_evidence entries)
   \<and> la_reports acc = length (verified_of ''independent_reproduction'' entries)
   \<and> distinct (la_users acc) \<and> set (la_users acc) = le_subject ` set (verified_of ''independent_user'' entries)
   \<and> distinct (la_institutions acc) \<and> set (la_institutions acc) = le_subject ` set (verified_of ''institutional_adoption'' entries)
   \<and> la_reviews acc = length (verified_of ''third_party_review'' entries)"

lemma counted_step:
  assumes "counted entries acc" "ledger_step H as_of v acc = Inr acc'"
  shows "\<exists>accepted. validate_ledger_record H as_of v = Inr accepted \<and> counted (entries @ [accepted]) acc'"
proof -
  obtain accepted where e: "validate_ledger_record H as_of v = Inr accepted" "le_id accepted \<notin> set (la_ids acc)"
    "le_evidence accepted \<notin> set (la_keys acc)"
    "acc' = count_record accepted (acc\<lparr>la_ids := la_ids acc @ [le_id accepted], la_keys := le_evidence accepted # la_keys acc\<rparr>)"
    using assms(2) by (auto simp: ledger_step_def rbind_Inr_iff split: if_splits)
  then show ?thesis
    using assms(1) by (auto simp: counted_def verified_of_def count_record_def)
qed

lemma counted_fold:
  assumes "rfold (ledger_step H as_of) vs acc = Inr acc'" "counted entries acc"
  shows "\<exists>more. rmap (validate_ledger_record H as_of) vs = Inr more \<and> counted (entries @ more) acc'"
  using assms
proof (induction vs arbitrary: acc entries)
  case (Cons v vs)
  then obtain acc1 where a: "ledger_step H as_of v acc = Inr acc1" "rfold (ledger_step H as_of) vs acc1 = Inr acc'"
    by (auto simp: rbind_Inr_iff)
  obtain accepted where e: "validate_ledger_record H as_of v = Inr accepted" "counted (entries @ [accepted]) acc1"
    using counted_step [OF Cons.prems(2) a(1)] by blast
  obtain more where "rmap (validate_ledger_record H as_of) vs = Inr more" "counted ((entries @ [accepted]) @ more) acc'"
    using Cons.IH [OF a(2) e(2)] by blast
  with e(1) show ?case by (intro exI [of _ "accepted # more"]) simp
qed simp

lemma record_independent:
  assumes "validate_ledger_record H as_of v = Inr accepted"
  shows "fld (dict_of v) ''relationship'' = PLit ''independent'' \<and> fld (dict_of v) ''consent_to_list'' = PBool True"
proof -
  have line: "w = PStr t" if "bounded_line H a b w = Inr t" for a b w t
    using that by (cases w) (auto simp: bounded_line_def Let_def is_str_def str_of_def split: if_splits)
  show ?thesis
    using assms unfolding validate_ledger_record_def Let_def
    by (auto simp: rbind_Inr_iff split: if_splits dest!: line)
qed

text \<open>A dictionary equal to the derived counts has their values.\<close>

lemma counts_field:
  assumes "py_eq counts (PDict derived)" "is_dict counts" "lit k \<in> set (dkeys (dict_of counts))"
    and "non_bool_int (fld (dict_of counts) k)" "map_of derived (lit k) = Some (PInt i)"
  shows "fld (dict_of counts) k = PInt i"
proof -
  obtain d where d: "counts = PDict d" using assms(2) by (cases counts) (auto simp: is_dict_def)
  then obtain v where v: "map_of d (lit k) = Some v"
    using assms(3) by (cases "map_of d (lit k)") (auto simp: dict_of_def dkeys_def map_of_eq_None_iff)
  then have "fld d k = v" by (simp add: fld_def)
  moreover have "(lit k, v) \<in> set d" using v by (rule map_of_SomeD)
  with assms(1,5) d have "py_eq v (PInt i)" by (force simp: py_sub_iff)
  ultimately show ?thesis using assms(4) d by (auto simp: dict_of_def non_bool_int_def split: pyval.splits)
qed

section \<open>Properties\<close>

text \<open>
  C36: A ledger that is accepted publishes the numbers of its verified records: reports and reviews
  are counted, users and institutions are counted once per normalised subject, and retracted
  records count for nothing. Its records are in the order of their distinct identifiers, no two
  share their evidence, and each is of an independent subject that has consented to be listed.
\<close>

theorem accepted_ledger_counts:
  assumes "validate_ledger H document = Inr derived"
  shows "\<exists>as_of entries. rmap (validate_ledger_record H as_of) (list_of (fld document ''records'')) = Inr entries
    \<and> sorted (map le_id entries) \<and> distinct (map le_id entries) \<and> distinct (map le_evidence entries)
    \<and> list_all (\<lambda>v. fld (dict_of v) ''relationship'' = PLit ''independent'' \<and> fld (dict_of v) ''consent_to_list'' = PBool True)
        (list_of (fld document ''records''))
    \<and> (let published = fld (dict_of (fld document ''counts'')) in
        published ''independent_reproduction_reports'' = PInt (int (length (verified_of ''independent_reproduction'' entries)))
      \<and> published ''independent_users'' = PInt (int (card (le_subject ` set (verified_of ''independent_user'' entries))))
      \<and> published ''institutional_adopters'' = PInt (int (card (le_subject ` set (verified_of ''institutional_adoption'' entries))))
      \<and> published ''third_party_reviews'' = PInt (int (length (verified_of ''third_party_review'' entries))))"
proof -
  let ?counts = "fld document ''counts''" and ?records = "list_of (fld document ''records'')"
  obtain as_of acc where f: "rfold (ledger_step H as_of) ?records
      \<lparr>la_ids = [], la_keys = [], la_reports = 0, la_users = [], la_institutions = [], la_reviews = 0\<rparr> = Inr acc"
    and ids: "la_ids acc = sort (la_ids acc)" and eq: "py_eq ?counts (PDict (derived_counts acc))"
    and c: "is_dict ?counts" "set (dkeys (dict_of ?counts)) = set (map lit COUNT_FIELDS)"
      "list_all (\<lambda>k. non_bool_int (fld (dict_of ?counts) k) \<and> int_of (fld (dict_of ?counts) k) \<ge> 0) COUNT_FIELDS"
    using assms unfolding validate_ledger_def Let_def by (auto simp: rbind_Inr_iff exact_fields_def split: if_splits)
  obtain entries where e: "rmap (validate_ledger_record H as_of) ?records = Inr entries" "counted entries acc"
    using counted_fold [OF f, of "[]"] by (auto simp: counted_def verified_of_def)
  have p: "fld (dict_of ?counts) k = PInt i" if "k \<in> set COUNT_FIELDS" "map_of (derived_counts acc) (lit k) = Some (PInt i)" for k i
    using counts_field [OF eq c(1) _ _ that(2)] c(2,3) that(1) by (auto simp: list_all_iff)
  have "list_all (\<lambda>v. fld (dict_of v) ''relationship'' = PLit ''independent'' \<and> fld (dict_of v) ''consent_to_list'' = PBool True) ?records"
    using e(1) unfolding rmap_Inr_iff by (induction rule: list_all2_induct) (simp_all add: record_independent)
  moreover have "sorted (map le_id entries)" using ids e(2) by (metis counted_def sorted_sort)
  moreover have "length (la_users acc) = card (le_subject ` set (verified_of ''independent_user'' entries))"
    "length (la_institutions acc) = card (le_subject ` set (verified_of ''institutional_adoption'' entries))"
    using e(2) distinct_card [of "la_users acc"] distinct_card [of "la_institutions acc"] by (simp_all add: counted_def)
  ultimately show ?thesis
    using e by (intro exI [of _ as_of] exI [of _ entries])
      (auto simp: Let_def counted_def derived_counts_def COUNT_FIELDS_def intro!: p)
qed

text \<open>A ledger with one verified user.\<close>

definition sample_ledger_host :: ledger_host where
  "sample_ledger_host = \<lparr>lh_tool = sample_tool, lh_category = (\<lambda>_. ''Ll''), lh_nfkc = (\<lambda>s. s),
     lh_urlsplit = (\<lambda>_. Some \<lparr>u_scheme = lit ''https'', u_netloc = lit ''a.b'', u_hostname = Some (lit ''a.b''), u_username = None,
       u_password = None, u_port = None, u_path = [], u_query = []\<rparr>),
     lh_address = (\<lambda>_. None), lh_idna = (\<lambda>h. Some h)\<rparr>"

definition sample_record :: pyval where
  "sample_record = PDict [(lit ''consent_to_list'', PBool True), (lit ''evidence_url'', PLit ''https://a.b''),
     (lit ''id'', PLit ''EXT-2024-0001''), (lit ''kind'', PLit ''independent_user''), (lit ''observed_date'', PLit ''2024-02-29''),
     (lit ''relationship'', PLit ''independent''), (lit ''scope'', PLit ''x''), (lit ''source_commit'', PStr (replicate 40 48)),
     (lit ''status'', PLit ''verified''), (lit ''subject'', PLit ''y''), (lit ''verified_date'', PLit ''2024-03-01'')]"

definition sample_ledger :: pydict where
  "sample_ledger = [(lit ''as_of_date'', PLit ''2024-03-02''),
     (lit ''counts'', PDict [(lit ''independent_reproduction_reports'', PInt 0), (lit ''independent_users'', PInt 1),
        (lit ''institutional_adopters'', PInt 0), (lit ''third_party_reviews'', PInt 0)]),
     (lit ''records'', PList [sample_record]), (lit ''schema_version'', PInt 1)]"

lemma plain_line:
  assumes "s \<noteq> []" "minimum \<le> length s" "length s \<le> maximum" "\<forall>c \<in> set s. 33 \<le> c \<and> c < 127"
  shows "bounded_line sample_ledger_host minimum maximum (PStr s) = Inr s"
proof -
  have n: "\<not> unicode_space c" "\<not> unprintable sample_ledger_host c" if "c \<in> set s" for c
    using assms(4) that by (auto simp: unicode_space_def unprintable_def sample_ledger_host_def starts_with_def)
  have d: "dropWhile unicode_space t = t" if "set t \<subseteq> set s" for t
    using that n(1) by (cases t) auto
  have "strip_text s = s" by (simp add: strip_text_def d)
  moreover have "\<not> list_ex (unprintable sample_ledger_host) s" using n(2) by (auto simp: list_ex_iff)
  ultimately show ?thesis using assms(2,3) by (simp add: bounded_line_def is_str_def str_of_def)
qed

lemma sample_lines:
  "bounded_line sample_ledger_host 13 13 (PLit ''EXT-2024-0001'') = Inr (lit ''EXT-2024-0001'')"
  "bounded_line sample_ledger_host 1 32 (PLit ''independent_user'') = Inr (lit ''independent_user'')"
  "bounded_line sample_ledger_host 1 32 (PLit ''independent'') = Inr (lit ''independent'')"
  "bounded_line sample_ledger_host 1 120 (PLit ''y'') = Inr (lit ''y'')" "bounded_line sample_ledger_host 1 240 (PLit ''x'') = Inr (lit ''x'')"
  "bounded_line sample_ledger_host 40 40 (PStr (replicate 40 48)) = Inr (replicate 40 48)"
  "bounded_line sample_ledger_host 1 2048 (PLit ''https://a.b'') = Inr (lit ''https://a.b'')"
  by (rule plain_line; simp add: lit_def)+

lemma sample_dates:
  "iso_date sample_ledger_host (PLit ''2024-02-29'') = Inr (lit ''2024-02-29'', 2024, 2, 29)"
  "iso_date sample_ledger_host (PLit ''2024-03-01'') = Inr (lit ''2024-03-01'', 2024, 3, 1)"
  "iso_date sample_ledger_host (PLit ''2024-03-02'') = Inr (lit ''2024-03-02'', 2024, 3, 2)"
proof -
  have "bounded_line sample_ledger_host 10 10 (PLit t) = Inr (lit t)" if "t \<in> {''2024-02-29'', ''2024-03-01'', ''2024-03-02''}" for t
    using that by (auto intro!: plain_line simp: lit_def)
  then show "iso_date sample_ledger_host (PLit ''2024-02-29'') = Inr (lit ''2024-02-29'', 2024, 2, 29)"
    "iso_date sample_ledger_host (PLit ''2024-03-01'') = Inr (lit ''2024-03-01'', 2024, 3, 1)"
    "iso_date sample_ledger_host (PLit ''2024-03-02'') = Inr (lit ''2024-03-02'', 2024, 3, 2)"
    by (simp_all add: iso_date_def date_of_text_def undec_def is_digit_def days_in_month_def Let_def)
      (simp_all add: lit_def undec_def is_digit_def days_in_month_def)
qed

definition sample_entry :: ledger_entry where
  "sample_entry = \<lparr>le_id = lit ''EXT-2024-0001'', le_kind = lit ''independent_user'', le_subject = lit ''y'',
     le_evidence = (lit ''https'', lit ''a.b'', None, [47]), le_verified = True\<rparr>"

lemma sample_url: "url_key_of sample_ledger_host (PLit ''https://a.b'') = Inr (lit ''https'', lit ''a.b'', None, [47])"
proof -
  have "host_key sample_ledger_host (lit ''a.b'') = Inr (lit ''a.b'')"
    by (simp add: host_key_def sample_ledger_host_def sample_tool_def sample_lib_def lit_def ends_with_def starts_with_def
        is_dns_label_def is_alphanumeric_def is_digit_def)
  moreover have "92 \<notin> set (lit ''https://a.b'')" by (simp add: lit_def)
  moreover have "lh_urlsplit sample_ledger_host t = Some \<lparr>u_scheme = lit ''https'', u_netloc = lit ''a.b'', u_hostname = Some (lit ''a.b''),
      u_username = None, u_password = None, u_port = None, u_path = [], u_query = []\<rparr>" for t
    by (simp add: sample_ledger_host_def)
  ultimately show ?thesis by (simp add: url_key_of_def sample_lines [simplified])
qed

lemma sample_record_valid: "validate_ledger_record sample_ledger_host (2024, 3, 2) sample_record = Inr sample_entry"
proof -
  have "is_record_id (lit ''EXT-2024-0001'')" "is_commit (replicate 40 48)" "lit ''independent_user'' \<in> set KINDS"
    "take 4 (drop 4 (lit ''EXT-2024-0001'')) = take 4 (lit ''2024-02-29'')"
    by (simp_all add: is_record_id_def is_commit_def list_all_iff KINDS_def) (simp_all add: is_lower_hex_def lit_def is_digit_def)
  then show ?thesis
    unfolding validate_ledger_record_def sample_record_def Let_def
    by (simp add: is_dict_def dict_of_def sample_lines [simplified] sample_dates sample_url exact_fields_def BASE_RECORD_FIELDS_def dkeys_def)
      (simp add: sample_entry_def sample_ledger_host_def sample_tool_def sample_lib_def lit_def)
qed

lemma sample_ledger_accepted:
  "validate_ledger sample_ledger_host sample_ledger =
     Inr [(lit ''independent_reproduction_reports'', PInt 0), (lit ''independent_users'', PInt 1),
          (lit ''institutional_adopters'', PInt 0), (lit ''third_party_reviews'', PInt 0)]"
  unfolding validate_ledger_def sample_ledger_def Let_def
  by (simp add: is_dict_def dict_of_def is_list_def list_of_def non_bool_int_def int_of_def exact_fields_def ROOT_FIELDS_def COUNT_FIELDS_def
      dkeys_def LEDGER_VERSION_def sample_dates ledger_step_def sample_record_valid count_record_def derived_counts_def)
    (simp add: sample_entry_def)

theorem accepted_ledger_counts_witness:
  "\<exists>as_of entries. rmap (validate_ledger_record sample_ledger_host as_of) [sample_record] = Inr entries
    \<and> card (le_subject ` set (verified_of ''independent_user'' entries)) = 1"
proof -
  have "list_of (fld sample_ledger ''records'') = [sample_record]"
    "fld (dict_of (fld sample_ledger ''counts'')) ''independent_users'' = PInt 1"
    by (simp_all add: sample_ledger_def list_of_def dict_of_def)
  then show ?thesis
    using accepted_ledger_counts [OF sample_ledger_accepted] by (fastforce simp: Let_def)
qed

end
