(* ===== verification/Spec2Isabelle.thy ===== *)
theory Spec2Isabelle
  imports Lock_Recovery Recovery Controller_Step Command_Line External_Evidence
begin

text \<open>
  A verification development of BenchHandoff (\<^verbatim>\<open>src/src/benchhandoff\<close>), a runner that executes the
  tasks of a suite one after the other and keeps hash-bound evidence of what it did, so that an
  interrupted run can be inspected, recovered, resumed and verified.

  \<^bold>\<open>The program.\<close> A suite file is read and checked by \<^verbatim>\<open>model.py\<close>. \<^verbatim>\<open>engine.py\<close> turns the suite into
  a plan that records the identity (size and SHA-256) of every input, of the executables and of
  the launch environment, and writes \<^verbatim>\<open>plan.json\<close>, \<^verbatim>\<open>state.json\<close> and \<^verbatim>\<open>events.jsonl\<close>
  into the run directory. Every transition is first written into the state as a pending event, then
  appended to the hash-chained log, then settled in the state, each by an atomic replace of
  \<^verbatim>\<open>storage.py\<close>. \<^verbatim>\<open>processes.py\<close> starts a task in a process group of its own and stops the group as a
  whole; \<^verbatim>\<open>writer_lock.py\<close> lets one process write to a run directory; \<^verbatim>\<open>workspace.py\<close> observes the tree
  the tasks work in. A resume needs a decision: a digest of the observed run that an operator has
  seen, which is rebuilt and compared before anything is changed. A finished run is sealed in
  \<^verbatim>\<open>bundle.json\<close>. \<^verbatim>\<open>cli.py\<close> and \<^verbatim>\<open>controller_step.py\<close> are the two front ends.

  \<^bold>\<open>Theories.\<close> In the order of the imports:

  \<^item> \<open>Prelude\<close>, \<open>Pyval\<close>, \<open>Json\<close>: results and their bind, strings as lists of code points, UTF-8,
    dynamically typed values with Python's \<open>==\<close>, and the part of \<^verbatim>\<open>json\<close> the sources use. The record
    \<open>pylib\<close> holds what is not computed here (SHA-256, Unicode normalisation and case folding, the printing
    and reading of floats); nothing is assumed of it but what a statement names.
  \<^item> \<open>Paths\<close>, \<open>Records\<close>, \<open>Canonical\<close>: \<^verbatim>\<open>normalize_relative_file\<close> and the other path checks, the
    canonical JSON of \<^verbatim>\<open>storage.py\<close> with its limits, and that its reader accepts what its writer writes.
  \<^item> \<open>Suite_Model\<close>: \<^verbatim>\<open>model.py\<close>.
  \<^item> \<open>Plan_Shape\<close>, \<open>State_Shape\<close>: the validators of \<^verbatim>\<open>engine.py\<close> for plans, events, attempts and states.
    The locale \<open>validator\<close> has what all of them promise: they return or raise an evidence error.
  \<^item> \<open>Filesystem\<close>: names, inodes, links and the calls on them, and the \<open>world\<close> in which a call runs.
    \<open>wp\<close> is the postcondition of effectful code for all worlds without interference, \<open>runs\<close> its
    result when no fault happens.
  \<^item> \<open>Processes\<close>: \<^verbatim>\<open>processes.py\<close> on POSIX: \<^verbatim>\<open>/proc\<close> records, liveness, groups and the process scope.
  \<^item> \<open>Storage\<close>: the checked reads, atomic writes, moves and walks of \<^verbatim>\<open>storage.py\<close>. The locale
    \<open>atomic_cell\<close> is a file that is only replaced as a whole; it is interpreted for bytes and for
    JSON values, and the log and the state of a run are such cells.
  \<^item> \<open>Event_Log\<close>: the record \<open>run_context\<close> (\<^verbatim>\<open>RunContext\<close>), \<^verbatim>\<open>_event_log_observation\<close>,
    \<^verbatim>\<open>_commit_transition\<close>, \<^verbatim>\<open>_reconcile_pending_event\<close>.
  \<^item> \<open>Manifest\<close>, \<open>Workspace\<close>: \<^verbatim>\<open>workspace.py\<close>, its data and its scan of a tree.
  \<^item> \<open>Writer_Lock\<close>, \<open>Interference\<close>, \<open>Lock_Protocol\<close>, \<open>Lock_Recovery\<close>: \<^verbatim>\<open>writer_lock.py\<close>, a rely-guarantee
    calculus for code beside other processes, and the lock in it and without interference.
  \<^item> \<open>Run_Context\<close>, \<open>Run_Evidence\<close>, \<open>Resume_Decision\<close>, \<open>Run_Control\<close>, \<open>Run_Operations\<close>: the rest of
    \<^verbatim>\<open>engine.py\<close> in the order in which its functions call each other: contexts of execution, loading
    and verifying a run and its bundle, decisions, attempts with their supervision and recovery, and
    \<^verbatim>\<open>start_run\<close> and \<^verbatim>\<open>resume_run\<close>.
  \<^item> \<open>Read_Only\<close>, \<open>Run_Verified\<close>, \<open>Recovery\<close>: properties of the engine as a whole.
  \<^item> \<open>Controller_Step\<close>, \<open>Command_Line\<close>: \<^verbatim>\<open>controller_step.py\<close> and \<^verbatim>\<open>cli.py\<close>, with the exit codes of
    \<^verbatim>\<open>errors.py\<close>.
  \<^item> \<open>License_State\<close>, \<open>License_Finalization\<close>: \<^verbatim>\<open>tools/verify_license_state.py\<close> and
    \<^verbatim>\<open>tools/finalize_license.py\<close>, the transition of the repository to a final licence.
  \<^item> \<open>External_Evidence\<close>: \<^verbatim>\<open>tools/verify_external_evidence.py\<close>, the ledger of external evidence.

  \<^bold>\<open>State and effects.\<close> Python dictionaries that become JSON stay dictionaries (association lists,
  compared without order); dataclasses are records. A pure function returns an exception or a
  value. Effectful code is a function from the world to an outcome (returned, raised, killed) and
  the next world. Each system call is one step: before it the environment may change the file
  system, and the call runs, fails with a chosen exception, is cut off, or, for a write, is torn
  after some bytes; a kill runs no handler. The choices are part of the world, so a statement about
  all worlds covers all of them. What a child process does is an environment step. The calls made
  are logged in the world, which no operation reads.

  \<^bold>\<open>What is shown.\<close>

  \<^item> Crash consistency: an atomic write leaves the old or the new content; a transition cut off
    anywhere leaves one of four pairs of state and log, from each of which reconciliation reaches the
    pair of the whole transition, and can itself be cut off and repeated; an accepted log is a hash
    chain; moves into quarantine neither overwrite nor lose a file, and neither does the recovery of
    an interrupted task, which clears the place of every output and changes nothing before the
    runner and its child are known to be gone.
  \<^item> Accepted records: a suite that loads is a well-formed plan and its recorded form is accepted;
    accepted states have a completed prefix and at most one active task, their earlier attempts are
    recovered, and their completed tasks have all outputs; manifests are accepted exactly when they
    describe a closed tree; what is written is read back.
  \<^item> Whole operations: a verified run has on disk what it records; inspections change nothing; a
    resume changes nothing unless the decision rebuilt before its first change is the one handed in;
    completion is reported only after a verification; the front ends report success only then.
  \<^item> Workspaces: an observation is the tree below its root; a verified workspace has the baseline and
    the sealed outputs and nothing else but volatile files.
  \<^item> Exclusion: a process that acquired the writer lock is its only owner whatever the others do that
    keep to the protocol, and every operation of the lock keeps to it; recovery keeps the record.
  \<^item> The licence transition: it changes three files only, never mixes old and new metadata, and undoes
    its changes when it reports so, except that new metadata may stay (a lemma shows the run where it
    does).
  \<^item> The evidence ledger: the published counts of an accepted ledger are those of its verified records.
  \<^item> Termination: without faults, writes, observations, reconciliation and the lock complete; waiting
    for a group is bounded by the clock; the scan of a tree needs no more rounds than it is given.

  \<^bold>\<open>Bounds.\<close> \<open>scan_loop\<close> is given \<^verbatim>\<open>MAX_WORKSPACE_ENTRIES\<close> + 1 rounds; every round but the last adds
  an entry, and the entry after the last allowed one raises, so the bound is never met (proved).
  The polling loop \<open>wait_for_empty\<close> is given \<open>h_rounds\<close> rounds; while the clock advances, at most one
  more than the timeout has ticks are run, so a larger number changes nothing (proved). The walk over an artifact directory is bounded by a number
  of directories that is a parameter (\<open>h_directories\<close>); running out of it is an exception of its
  own, so that no result depends on it. Links are followed at most forty times, as by the kernel.

  \<^bold>\<open>Idealisations.\<close> An inode number is never used again. In the lock protocol the other processes
  leave directories and links alone. Paths with two leading slashes are not told apart from those
  with one. The text of an exception, which characters are digits beyond ASCII, the host and the
  environment are parameters, and for the ledger the Unicode categories, the splitting of URLs, IP
  addresses and the encoding of host names. Library functions that never raise (\<^verbatim>\<open>os.path.lexists\<close>, \<^verbatim>\<open>realpath\<close>,
  \<^verbatim>\<open>shutil.which\<close>) answer truthfully. The time of the last change of a file is a parameter, a function
  of the file system. Where the code goes through a set of unexpected files in no
  fixed order, the model goes through them sorted.

  \<^bold>\<open>Not modelled.\<close> The Windows branches (job objects, mutexes, reparse points, path prefixes and the
  launch environment there), since \<^verbatim>\<open>os.name\<close> is taken to be \<^verbatim>\<open>posix\<close>; loss of power, so \<^verbatim>\<open>fsync\<close> is a
  step without effect; the limits of the interpreter (recursion depth, digits of an integer); the
  argument parser of the command line, where a command stands for the parsed arguments; the
  package entry points, which only re-export; and \<^verbatim>\<open>tools/verify_public_privacy.py\<close>, a scan of published
  files and archives with regular expressions that shares no code with the runner.
\<close>

end
